(* ===== verification/Prelude.thy ===== *)
theory Prelude
  imports Main "HOL-Library.Char_ord" "HOL-Library.List_Lexorder"
begin

text \<open>
  Shared vocabulary of the development: the collections of facts the component theories feed to
  the simplifier, the model of a Go slice expression (whose bounds check panics), the stable sort
  of \<^verbatim>\<open>sort.SliceStable\<close>, and generic lemmas on lists.

  A Go \<^verbatim>\<open>string\<close> and a \<^verbatim>\<open>[]byte\<close> are both sequences of bytes; Isabelle's \<^typ>\<open>char\<close> is an
  8-bit byte, so both are modelled by \<^typ>\<open>string\<close>. An \<^verbatim>\<open>(T, error)\<close> result is a value of
  a sum type, \<^const>\<open>Inl\<close> for the error.
\<close>

section \<open>Collections\<close>

named_theorems go_defs \<open>definitions of Go library functions, for unfolding\<close>
named_theorems route_defs \<open>definitions of the routing components, for unfolding\<close>
named_theorems lex_defs \<open>definitions of the lexer, for unfolding\<close>
named_theorems pipe_defs \<open>definitions of the request pipeline, for unfolding\<close>

type_synonym ('e, 'a) result = "'e + 'a"

section \<open>Slices\<close>

text \<open>The slice expression \<^verbatim>\<open>s[i:j]\<close>: a run-time panic (\<^const>\<open>None\<close>) unless
  \<^verbatim>\<open>0 <= i <= j <= len(s)\<close>.\<close>

definition goSlice :: "'a list \<Rightarrow> nat \<Rightarrow> nat \<Rightarrow> 'a list option" where
  "goSlice s i j = (if i \<le> j \<and> j \<le> length s then Some (take (j - i) (drop i s)) else None)"

lemma goSlice_Some [simp]:
  "i \<le> j \<Longrightarrow> j \<le> length s \<Longrightarrow> goSlice s i j = Some (take (j - i) (drop i s))"
  by (simp add: goSlice_def)

lemma goSlice_mid:
  "goSlice (a @ m @ b) (length a) (length a + length m) = Some m"
  by (simp add: goSlice_def)

section \<open>Lists\<close>

lemma take_eq_prefix: "take (length p) s = p \<longleftrightarrow> (\<exists>t. s = p @ t)"
  by (metis append_eq_conv_conj append_take_drop_id)

lemma filter_neq_id: "x \<notin> set xs \<Longrightarrow> filter (\<lambda>y. y \<noteq> x) xs = xs"
  by (auto simp: filter_id_conv)

text \<open>Two adjacent bytes of a list.\<close>

fun adjacent :: "'a \<Rightarrow> 'a \<Rightarrow> 'a list \<Rightarrow> bool" where
  "adjacent a b (x # y # zs) = ((x = a \<and> y = b) \<or> adjacent a b (y # zs))"
| "adjacent a b [x] = False"
| "adjacent a b [] = False"

lemma adjacent_Cons:
  "adjacent a b (x # xs) = ((x = a \<and> xs \<noteq> [] \<and> hd xs = b) \<or> adjacent a b xs)"
  by (cases xs) auto

lemma adjacent_append:
  "adjacent a b (xs @ ys) = (adjacent a b xs \<or> adjacent a b ys \<or>
     (xs \<noteq> [] \<and> ys \<noteq> [] \<and> last xs = a \<and> hd ys = b))"
  by (induction xs) (auto simp: adjacent_Cons hd_append)

section \<open>Stable sorting by a less function\<close>

text \<open>
  \<^verbatim>\<open>sort.SliceStable(xs, less)\<close> yields the stable sorted permutation of \<open>xs\<close>, which is unique
  when \<open>lt\<close> is a strict weak order. It is modelled by insertion from the right: an element
  is placed before the first one it does not have to follow.
\<close>

fun insertStable :: "('a \<Rightarrow> 'a \<Rightarrow> bool) \<Rightarrow> 'a \<Rightarrow> 'a list \<Rightarrow> 'a list" where
  "insertStable lt x [] = [x]"
| "insertStable lt x (y # ys) =
     (if lt y x then y # insertStable lt x ys else x # y # ys)"

definition sliceStable :: "('a \<Rightarrow> 'a \<Rightarrow> bool) \<Rightarrow> 'a list \<Rightarrow> 'a list" where
  "sliceStable lt xs = foldr (insertStable lt) xs []"

lemma sliceStable_simps [simp]:
  "sliceStable lt [] = []"
  "sliceStable lt (x # xs) = insertStable lt x (sliceStable lt xs)"
  by (simp_all add: sliceStable_def)

lemma set_insertStable [simp]: "set (insertStable lt x ys) = insert x (set ys)"
  by (induction ys) auto

lemma set_sliceStable [simp]: "set (sliceStable lt xs) = set xs"
  by (induction xs) auto

lemma length_insertStable [simp]: "length (insertStable lt x ys) = Suc (length ys)"
  by (induction ys) auto

lemma length_sliceStable [simp]: "length (sliceStable lt xs) = length xs"
  by (induction xs) auto

lemma distinct_map_insertStable:
  "distinct (map f (insertStable lt x ys)) \<longleftrightarrow> distinct (map f (x # ys))"
  by (induction ys) auto

lemma distinct_map_sliceStable [simp]:
  "distinct (map f (sliceStable lt xs)) \<longleftrightarrow> distinct (map f xs)"
  by (induction xs) (auto simp: distinct_map_insertStable)

text \<open>Sortedness for a strict weak order given by an injective-on-classes key.\<close>

definition sortedBy :: "('a \<Rightarrow> 'a \<Rightarrow> bool) \<Rightarrow> 'a list \<Rightarrow> bool" where
  "sortedBy lt xs = sorted_wrt (\<lambda>x y. \<not> lt y x) xs"

text \<open>The laws of a strict weak order, which every less function handed to the sort obeys.\<close>

locale strict_weak_order =
  fixes lt :: "'a \<Rightarrow> 'a \<Rightarrow> bool"
  assumes lt_asym: "lt x y \<Longrightarrow> \<not> lt y x"
    and lt_neg_trans: "\<not> lt x y \<Longrightarrow> \<not> lt y z \<Longrightarrow> \<not> lt x z"
begin

lemma insertStable_sorted:
  "sortedBy lt ys \<Longrightarrow> sortedBy lt (insertStable lt x ys)"
proof (induction ys)
  case Nil
  then show ?case by (simp add: sortedBy_def)
next
  case (Cons y ys)
  show ?case
  proof (cases "lt y x")
    case True
    with Cons show ?thesis using lt_asym by (auto simp: sortedBy_def)
  next
    case False
    with Cons.prems show ?thesis
      using lt_neg_trans by (auto simp: sortedBy_def)
  qed
qed

lemma sliceStable_sorted: "sortedBy lt (sliceStable lt xs)"
  by (induction xs) (simp_all add: sortedBy_def[of lt "[]"] insertStable_sorted)

end

end
