(* ===== verification/GoStrings.thy ===== *)
theory GoStrings
  imports Prelude
begin

text \<open>
  The part of Go's standard library that the modelled packages call on strings:
  \<^verbatim>\<open>strings\<close> (HasPrefix, HasSuffix, TrimPrefix, TrimSuffix, TrimRight, Cut, Split, Join,
  ContainsAny, IndexByte), the UTF-8 decoding of a \<^verbatim>\<open>range\<close> loop over a string, the two
  predicates of \<^verbatim>\<open>unicode\<close>, \<^verbatim>\<open>strconv.Atoi\<close> and \<^verbatim>\<open>url.PathUnescape\<close>. Every definition
  computes; the lemmas are the laws the components use.
\<close>

section \<open>Package strings\<close>

definition hasPrefix :: "string \<Rightarrow> string \<Rightarrow> bool" where [go_defs]:
  "hasPrefix s p = (take (length p) s = p)"

definition hasSuffix :: "string \<Rightarrow> string \<Rightarrow> bool" where [go_defs]:
  "hasSuffix s p = (length p \<le> length s \<and> drop (length s - length p) s = p)"

definition trimPrefix :: "string \<Rightarrow> string \<Rightarrow> string" where [go_defs]:
  "trimPrefix s p = (if hasPrefix s p then drop (length p) s else s)"

definition trimSuffix :: "string \<Rightarrow> string \<Rightarrow> string" where [go_defs]:
  "trimSuffix s p = (if hasSuffix s p then take (length s - length p) s else s)"

text \<open>\<^verbatim>\<open>strings.CutPrefix\<close>: the rest and whether the prefix was there.\<close>

definition cutPrefix :: "string \<Rightarrow> string \<Rightarrow> string \<times> bool" where [go_defs]:
  "cutPrefix s p = (if hasPrefix s p then (drop (length p) s, True) else (s, False))"

text \<open>\<^verbatim>\<open>strings.TrimRight(s, "c")\<close> and \<^verbatim>\<open>TrimLeft\<close> for an ASCII cutset.\<close>

definition trimRight :: "string \<Rightarrow> string \<Rightarrow> string" where [go_defs]:
  "trimRight s cutset = rev (dropWhile (\<lambda>c. c \<in> set cutset) (rev s))"

definition trimLeft :: "string \<Rightarrow> string \<Rightarrow> string" where [go_defs]:
  "trimLeft s cutset = dropWhile (\<lambda>c. c \<in> set cutset) s"

text \<open>\<^verbatim>\<open>strings.IndexByte\<close>; \<^const>\<open>None\<close> is the result -1.\<close>

fun indexByte :: "string \<Rightarrow> char \<Rightarrow> nat option" where
  "indexByte [] c = None"
| "indexByte (x # xs) c = (if x = c then Some 0 else map_option Suc (indexByte xs c))"

text \<open>\<^verbatim>\<open>strings.Cut\<close> for a separator of one byte: before, after, found.\<close>

definition cutByte :: "string \<Rightarrow> char \<Rightarrow> string \<times> string \<times> bool" where [go_defs]:
  "cutByte s c = (case indexByte s c of
      None \<Rightarrow> (s, [], False)
    | Some i \<Rightarrow> (take i s, drop (Suc i) s, True))"

definition containsAny :: "string \<Rightarrow> string \<Rightarrow> bool" where [go_defs]:
  "containsAny s chars = list_ex (\<lambda>c. c \<in> set chars) s"

text \<open>\<^verbatim>\<open>strings.Split\<close> for a separator of one byte; the result is never empty.\<close>

fun splitByte :: "char \<Rightarrow> string \<Rightarrow> string list" where
  "splitByte c [] = [[]]"
| "splitByte c (x # xs) =
     (if x = c then [] # splitByte c xs
      else (case splitByte c xs of [] \<Rightarrow> [[x]] | y # ys \<Rightarrow> (x # y) # ys))"

fun joinStr :: "string \<Rightarrow> string list \<Rightarrow> string" where
  "joinStr sep [] = []"
| "joinStr sep [x] = x"
| "joinStr sep (x # y # ys) = x @ sep @ joinStr sep (y # ys)"

subsection \<open>Laws\<close>

lemma hasPrefix_iff: "hasPrefix s p \<longleftrightarrow> (\<exists>t. s = p @ t)"
  by (simp add: hasPrefix_def take_eq_prefix)

lemma hasPrefix_append [simp]: "hasPrefix (p @ t) p"
  by (auto simp: hasPrefix_iff)

lemma hasPrefix_Cons [simp]: "hasPrefix (x # s) (y # p) \<longleftrightarrow> x = y \<and> hasPrefix s p"
  by (auto simp: hasPrefix_iff)

lemma hasPrefix_Nil [simp]: "hasPrefix s []" "hasPrefix [] p \<longleftrightarrow> p = []"
  by (auto simp: hasPrefix_iff)

lemma hasSuffix_iff: "hasSuffix s p \<longleftrightarrow> (\<exists>t. s = t @ p)"
proof
  assume "hasSuffix s p"
  then have "s = take (length s - length p) s @ p"
    by (metis append_take_drop_id hasSuffix_def)
  then show "\<exists>t. s = t @ p" ..
qed (auto simp: hasSuffix_def)

lemma hasSuffix_append [simp]: "hasSuffix (t @ p) p"
  by (auto simp: hasSuffix_iff)

lemma hasSuffix_snoc: "hasSuffix s [c] \<longleftrightarrow> s \<noteq> [] \<and> last s = c"
  by (metis append_butlast_last_id hasSuffix_append hasSuffix_iff last_snoc snoc_eq_iff_butlast)

lemma trimPrefix_append [simp]: "trimPrefix (p @ t) p = t"
  by (simp add: trimPrefix_def)

lemma trimSuffix_append [simp]: "trimSuffix (t @ p) p = t"
  by (simp add: trimSuffix_def)

lemma indexByte_None: "indexByte s c = None \<longleftrightarrow> c \<notin> set s"
  by (induction s) auto

lemma indexByte_append: "c \<notin> set s \<Longrightarrow> indexByte (s @ c # t) c = Some (length s)"
  by (induction s) auto

lemma indexByte_Some:
  "indexByte s c = Some i \<Longrightarrow> i < length s \<and> s ! i = c \<and> c \<notin> set (take i s)"
proof (induction s arbitrary: i)
  case (Cons x xs)
  then show ?case by (cases i) (auto split: if_splits)
qed simp

lemma cutByte_found: "c \<notin> set s \<Longrightarrow> cutByte (s @ c # t) c = (s, t, True)"
  by (simp add: cutByte_def indexByte_append)

lemma cutByte_missing: "c \<notin> set s \<Longrightarrow> cutByte s c = (s, [], False)"
  by (simp add: cutByte_def indexByte_None[THEN iffD2])

lemma cutByte_cases:
  obtains (missing) "c \<notin> set s" "cutByte s c = (s, [], False)"
  | (found) a b where "s = a @ c # b" "c \<notin> set a" "cutByte s c = (a, b, True)"
proof (cases "c \<in> set s")
  case True
  then obtain a b where "s = a @ c # b" "c \<notin> set a" by (auto dest: split_list_first)
  then show thesis using found cutByte_found by auto
qed (use missing cutByte_missing in auto)

lemma containsAny_iff: "containsAny s cs \<longleftrightarrow> (\<exists>c \<in> set s. c \<in> set cs)"
  by (auto simp: containsAny_def list_ex_iff)

lemma containsAny_append [simp]:
  "containsAny (s @ t) cs \<longleftrightarrow> containsAny s cs \<or> containsAny t cs"
  by (auto simp: containsAny_iff)

lemma splitByte_neq_Nil [simp]: "splitByte c s \<noteq> []"
  by (induction s) (auto split: list.splits)

lemma splitByte_sep_free: "p \<in> set (splitByte c s) \<Longrightarrow> c \<notin> set p"
proof (induction s arbitrary: p)
  case (Cons x xs)
  then show ?case by (cases "splitByte c xs") (auto split: if_splits)
qed simp

lemma splitByte_no_sep: "c \<notin> set s \<Longrightarrow> splitByte c s = [s]"
  by (induction s) auto

lemma splitByte_append: "c \<notin> set s \<Longrightarrow> splitByte c (s @ c # t) = s # splitByte c t"
  by (induction s) auto

lemma joinStr_Cons: "xs \<noteq> [] \<Longrightarrow> joinStr sep (x # xs) = x @ sep @ joinStr sep xs"
  by (cases xs) auto

lemma splitByte_joinStr:
  "ps \<noteq> [] \<Longrightarrow> (\<And>p. p \<in> set ps \<Longrightarrow> c \<notin> set p) \<Longrightarrow> splitByte c (joinStr [c] ps) = ps"
proof (induction ps)
  case (Cons p ps)
  then show ?case
    by (cases ps) (auto simp: splitByte_no_sep splitByte_append)
qed simp

lemma joinStr_splitByte: "joinStr [c] (splitByte c s) = s"
proof (induction s)
  case (Cons x xs)
  then show ?case
    by (cases "splitByte c xs"; cases "tl (splitByte c xs)") (auto simp: joinStr_Cons)
qed simp

lemma trimRight_Nil [simp]: "trimRight [] cs = []"
  by (simp add: trimRight_def)

lemma trimRight_snoc:
  "trimRight (s @ [c]) cs = (if c \<in> set cs then trimRight s cs else s @ [c])"
  by (simp add: trimRight_def)

lemma trimRight_last: "trimRight s cs \<noteq> [] \<Longrightarrow> last (trimRight s cs) \<notin> set cs"
  by (induction s rule: rev_induct) (auto simp: trimRight_snoc split: if_splits)

lemma trimRight_prefix: "\<exists>t. s = trimRight s cs @ t \<and> set t \<subseteq> set cs"
proof (induction s rule: rev_induct)
  case (snoc c s)
  then obtain t where "s = trimRight s cs @ t" "set t \<subseteq> set cs" by blast
  then show ?case
    by (cases "c \<in> set cs") (auto simp: trimRight_snoc intro!: exI[of _ "t @ [c]"])
qed simp

section \<open>UTF-8 and package unicode\<close>

definition byteVal :: "char \<Rightarrow> nat" where [go_defs]:
  "byteVal c = of_char c"

lemma byteVal_less: "byteVal c < 256"
  by (simp add: byteVal_def)

definition inRange :: "nat \<Rightarrow> nat \<Rightarrow> char \<Rightarrow> bool" where [go_defs]:
  "inRange lo hi c = (lo \<le> byteVal c \<and> byteVal c \<le> hi)"

text \<open>
  The admissible second bytes of a multi-byte sequence by its first byte, and the number of
  bytes of the sequence: the acceptance table of \<^verbatim>\<open>unicode/utf8\<close>. \<^const>\<open>None\<close> marks a byte
  that starts no sequence.
\<close>

definition utf8First :: "nat \<Rightarrow> (nat \<times> nat \<times> nat) option" where
  "utf8First b =
    (if b < 0xC2 then None
     else if b < 0xE0 then Some (2, 0x80, 0xBF)
     else if b = 0xE0 then Some (3, 0xA0, 0xBF)
     else if b = 0xED then Some (3, 0x80, 0x9F)
     else if b < 0xF0 then Some (3, 0x80, 0xBF)
     else if b = 0xF0 then Some (4, 0x90, 0xBF)
     else if b < 0xF4 then Some (4, 0x80, 0xBF)
     else if b = 0xF4 then Some (4, 0x80, 0x8F)
     else None)"

text \<open>\<^verbatim>\<open>utf8.DecodeRuneInString\<close> on a non-empty string: the rune and its width; a malformed
  sequence is the replacement rune of width 1.\<close>

definition runeError :: nat where
  "runeError = 0xFFFD"

definition decodeRune :: "char \<Rightarrow> string \<Rightarrow> nat \<times> nat" where
  "decodeRune c cs =
    (let b = byteVal c in
     if b < 0x80 then (b, 1)
     else (case utf8First b of
        None \<Rightarrow> (runeError, 1)
      | Some (n, lo, hi) \<Rightarrow>
          (case cs of
             [] \<Rightarrow> (runeError, 1)
           | c1 # cs1 \<Rightarrow>
              if \<not> inRange lo hi c1 then (runeError, 1)
              else if n = 2 then ((b mod 32) * 64 + byteVal c1 mod 64, 2)
              else (case cs1 of
                 [] \<Rightarrow> (runeError, 1)
               | c2 # cs2 \<Rightarrow>
                  if \<not> inRange 0x80 0xBF c2 then (runeError, 1)
                  else if n = 3
                  then ((b mod 16) * 4096 + (byteVal c1 mod 64) * 64 + byteVal c2 mod 64, 3)
                  else (case cs2 of
                     [] \<Rightarrow> (runeError, 1)
                   | c3 # _ \<Rightarrow>
                      if \<not> inRange 0x80 0xBF c3 then (runeError, 1)
                      else ((b mod 8) * 262144 + (byteVal c1 mod 64) * 4096
                            + (byteVal c2 mod 64) * 64 + byteVal c3 mod 64, 4))))))"

text \<open>The runes a \<^verbatim>\<open>for _, r := range s\<close> loop visits.\<close>

fun runes :: "string \<Rightarrow> nat list" where
  "runes [] = []"
| "runes (c # cs) = (let (r, w) = decodeRune c cs in r # runes (drop (w - 1) cs))"

lemma decodeRune_ascii: "byteVal c < 0x80 \<Longrightarrow> decodeRune c cs = (byteVal c, 1)"
  by (simp add: decodeRune_def)

lemma runes_ascii_Cons [simp]: "byteVal c < 0x80 \<Longrightarrow> runes (c # cs) = byteVal c # runes cs"
  by (simp add: decodeRune_ascii)

lemma utf8First_lo: "utf8First b = Some (n, lo, hi) \<Longrightarrow> 0x80 \<le> lo"
  by (auto simp: utf8First_def split: if_splits)

text \<open>A byte below 0x80 is never part of a multi-byte rune: what the decoder skips with the
  first byte of a rune are continuation bytes.\<close>

lemma decodeRune_skips:
  assumes "decodeRune c cs = (r, w)" "d \<in> set (take (w - 1) cs)"
  shows "0x80 \<le> byteVal d"
  using assms
  by (auto simp: decodeRune_def Let_def inRange_def split: if_splits option.splits list.splits
      dest!: utf8First_lo)

lemma runes_ascii_mem: "d \<in> set s \<Longrightarrow> byteVal d < 0x80 \<Longrightarrow> byteVal d \<in> set (runes s)"
proof (induction s rule: runes.induct)
  case (2 c cs)
  obtain r w where rw: "decodeRune c cs = (r, w)" by fastforce
  show ?case
  proof (cases "d = c")
    case True
    with 2 show ?thesis by (simp del: runes.simps)
  next
    case False
    with "2.prems" have "d \<in> set (take (w - 1) cs) \<or> d \<in> set (drop (w - 1) cs)"
      by (metis Un_iff append_take_drop_id set_ConsD set_append)
    with decodeRune_skips[OF rw] "2.prems" have "d \<in> set (drop (w - 1) cs)" by fastforce
    with 2 rw show ?thesis by simp
  qed
qed simp

lemma runes_eq_Nil [simp]: "runes s = [] \<longleftrightarrow> s = []"
  by (cases s) (auto split: prod.splits)

text \<open>
  \<^verbatim>\<open>unicode.IsLetter\<close> and \<^verbatim>\<open>unicode.IsDigit\<close>. Up to U+00FF they read a fixed table, written
  out here; above it they search the Unicode category tables, which are data of the Go release
  and stay a parameter of the model.
\<close>

record unicode_tables =
  tableLetter :: "nat \<Rightarrow> bool"
  tableDigit :: "nat \<Rightarrow> bool"

definition isLetter :: "unicode_tables \<Rightarrow> nat \<Rightarrow> bool" where
  "isLetter U r =
    (if r \<le> 0xFF then
       (65 \<le> r \<and> r \<le> 90) \<or> (97 \<le> r \<and> r \<le> 122) \<or> r = 0xAA \<or> r = 0xB5 \<or> r = 0xBA \<or>
       (0xC0 \<le> r \<and> r \<noteq> 0xD7 \<and> r \<noteq> 0xF7)
     else tableLetter U r)"

definition isDigit :: "unicode_tables \<Rightarrow> nat \<Rightarrow> bool" where
  "isDigit U r = (if r \<le> 0xFF then 48 \<le> r \<and> r \<le> 57 else tableDigit U r)"

section \<open>Package strconv\<close>

definition isDigitByte :: "char \<Rightarrow> bool" where [go_defs]:
  "isDigitByte c = inRange 48 57 c"

definition digitVal :: "char \<Rightarrow> nat" where
  "digitVal c = byteVal c - 48"

definition decVal :: "string \<Rightarrow> nat" where
  "decVal ds = foldl (\<lambda>n c. 10 * n + digitVal c) 0 ds"

text \<open>\<^verbatim>\<open>strconv.Atoi\<close> for 64-bit \<^verbatim>\<open>int\<close>: an optional sign, at least one digit, only digits,
  and the value in range (otherwise \<^verbatim>\<open>ErrSyntax\<close> or \<^verbatim>\<open>ErrRange\<close>, here \<^const>\<open>None\<close>).\<close>

definition atoi :: "string \<Rightarrow> int option" where
  "atoi s =
    (let neg = (s \<noteq> [] \<and> hd s = CHR ''-'');
         ds = (if s \<noteq> [] \<and> (hd s = CHR ''-'' \<or> hd s = CHR ''+'') then tl s else s)
     in if ds = [] \<or> \<not> list_all isDigitByte ds then None
        else let n = int (decVal ds) in
          if neg then (if n \<le> 2 ^ 63 then Some (- n) else None)
          else (if n < 2 ^ 63 then Some n else None))"

section \<open>Package net/url: PathUnescape\<close>

definition isHexByte :: "char \<Rightarrow> bool" where
  "isHexByte c = (inRange 48 57 c \<or> inRange 97 102 c \<or> inRange 65 70 c)"

definition unhex :: "char \<Rightarrow> nat" where
  "unhex c = (if inRange 48 57 c then byteVal c - 48
     else if inRange 97 102 c then byteVal c - 97 + 10
     else if inRange 65 70 c then byteVal c - 65 + 10 else 0)"

text \<open>\<^verbatim>\<open>url.PathUnescape\<close>: \<^verbatim>\<open>%XX\<close> is decoded, a percent sign without two hex digits is an
  \<^verbatim>\<open>EscapeError\<close> (\<^const>\<open>None\<close>), every other byte is kept (a plus sign too).\<close>

fun pathUnescape :: "string \<Rightarrow> string option" where
  "pathUnescape [] = Some []"
| "pathUnescape (c # cs) =
     (if c = CHR ''%'' then
        (case cs of
           a # b # rest \<Rightarrow>
             (if isHexByte a \<and> isHexByte b
              then map_option ((#) (char_of (16 * unhex a + unhex b))) (pathUnescape rest)
              else None)
         | _ \<Rightarrow> None)
      else map_option ((#) c) (pathUnescape cs))"

lemma pathUnescape_id: "CHR ''%'' \<notin> set s \<Longrightarrow> pathUnescape s = Some s"
  by (induction s) auto

lemma pathUnescape_Nil_iff: "pathUnescape s = Some [] \<longleftrightarrow> s = []"
  by (cases s) (auto split: list.splits)

text \<open>\<^verbatim>\<open>url.PathEscape\<close> percent-encodes every byte that is not unreserved or one of
  \<^verbatim>\<open>$&+:=@\<close>.\<close>

definition hexDigitUpper :: "nat \<Rightarrow> char" where
  "hexDigitUpper n = (if n < 10 then char_of (48 + n) else char_of (55 + n))"

definition shouldKeep :: "char \<Rightarrow> bool" where
  "shouldKeep c = (inRange 97 122 c \<or> inRange 65 90 c \<or> inRange 48 57 c \<or> c \<in> set ''-_.~$&+:=@'')"

definition pathEscape :: "string \<Rightarrow> string" where
  "pathEscape s = concat (map (\<lambda>c. if shouldKeep c then [c]
     else [CHR ''%'', hexDigitUpper (byteVal c div 16), hexDigitUpper (byteVal c mod 16)]) s)"

lemma hexDigitUpper_inv:
  assumes "n < 16" shows "isHexByte (hexDigitUpper n)" "unhex (hexDigitUpper n) = n"
proof -
  have "list_all (\<lambda>n. isHexByte (hexDigitUpper n) \<and> unhex (hexDigitUpper n) = n) [0..<16]"
    by (simp add: upt_rec hexDigitUpper_def isHexByte_def unhex_def inRange_def byteVal_def)
  with assms have "isHexByte (hexDigitUpper n) \<and> unhex (hexDigitUpper n) = n" by (simp add: list_all_iff)
  then show "isHexByte (hexDigitUpper n)" "unhex (hexDigitUpper n) = n" by blast+
qed

lemma char_of_byteVal [simp]: "char_of (byteVal c) = c"
  by (simp add: byteVal_def)

lemma not_shouldKeep_special: "\<not> shouldKeep CHR ''%''" "\<not> shouldKeep CHR ''/''"
  by (simp_all add: shouldKeep_def inRange_def byteVal_def)

theorem pathUnescape_pathEscape: "pathUnescape (pathEscape s) = Some s"
proof (induction s)
  case (Cons c cs)
  have nib: "byteVal c div 16 < 16" "byteVal c mod 16 < 16"
    using byteVal_less[of c] by auto
  show ?case
  proof (cases "shouldKeep c")
    case True
    then have "c \<noteq> CHR ''%''" using not_shouldKeep_special by auto
    with True Cons show ?thesis by (simp add: pathEscape_def)
  next
    case False
    with Cons nib show ?thesis
      by (simp add: pathEscape_def hexDigitUpper_inv)
  qed
qed (simp add: pathEscape_def)

lemma hexDigitUpper_not_slash:
  assumes "n < 16" shows "hexDigitUpper n \<noteq> CHR ''/''"
  using hexDigitUpper_inv(1)[OF assms] by (auto simp: isHexByte_def inRange_def byteVal_def)

lemma pathEscape_Nil_iff [simp]: "pathEscape s = [] \<longleftrightarrow> s = []"
  by (cases s) (simp_all add: pathEscape_def)

lemma pathEscape_no_slash: "CHR ''/'' \<notin> set (pathEscape s)"
proof (induction s)
  case (Cons c cs)
  have "byteVal c div 16 < 16" "byteVal c mod 16 < 16"
    using byteVal_less[of c] by auto
  then have "hexDigitUpper (byteVal c div 16) \<noteq> CHR ''/''" "hexDigitUpper (byteVal c mod 16) \<noteq> CHR ''/''"
    by (simp_all only: hexDigitUpper_not_slash not_False_eq_True)
  with Cons not_shouldKeep_special(2) show ?case
    by (auto simp: pathEscape_def simp del: set_concat)
qed (simp add: pathEscape_def)

end
