(* ===== verification/Lexer.thy ===== *)
theory Lexer
  imports GoStrings
begin

text \<open>
  The template lexer, \<^verbatim>\<open>internal/lexer\<close> (\<^verbatim>\<open>token.go\<close>, \<^verbatim>\<open>lexer.go\<close>): token kinds and
  tokens, the lexer state with its mode stack, the cursor operations, one definition per lexing
  function, and \<^verbatim>\<open>Next\<close>. Every function returns the token and the state after the call. The
  mode stack has its top at the head of the list; positions are natural numbers (a source is
  shorter than the range of \<^verbatim>\<open>int\<close>).
\<close>

section \<open>Tokens\<close>

datatype TokenKind =
    TokenEOF | TokenError | TokenText | TokenTagOpen | TokenTagOpenClose | TokenTagSelfClose
  | TokenTagClose | TokenIdentifier | TokenAttrName | TokenAttrEquals | TokenAttrValue
  | TokenMustacheOpen | TokenMustacheClose | TokenBlockOpen | TokenBlockMid | TokenBlockClose
  | TokenAtTag | TokenComment | TokenScriptOpen | TokenScriptBody | TokenScriptClose
  | TokenStyleOpen | TokenStyleBody | TokenStyleClose

definition kindString :: "TokenKind \<Rightarrow> string" where
  "kindString k = (case k of
      TokenEOF \<Rightarrow> ''EOF'' | TokenError \<Rightarrow> ''Error'' | TokenText \<Rightarrow> ''Text'' | TokenTagOpen \<Rightarrow> ''TagOpen''
    | TokenTagOpenClose \<Rightarrow> ''TagOpenClose'' | TokenTagSelfClose \<Rightarrow> ''TagSelfClose''
    | TokenTagClose \<Rightarrow> ''TagClose'' | TokenIdentifier \<Rightarrow> ''Identifier'' | TokenAttrName \<Rightarrow> ''AttrName''
    | TokenAttrEquals \<Rightarrow> ''AttrEquals'' | TokenAttrValue \<Rightarrow> ''AttrValue''
    | TokenMustacheOpen \<Rightarrow> ''MustacheOpen'' | TokenMustacheClose \<Rightarrow> ''MustacheClose''
    | TokenBlockOpen \<Rightarrow> ''BlockOpen'' | TokenBlockMid \<Rightarrow> ''BlockMid'' | TokenBlockClose \<Rightarrow> ''BlockClose''
    | TokenAtTag \<Rightarrow> ''AtTag'' | TokenComment \<Rightarrow> ''Comment'' | TokenScriptOpen \<Rightarrow> ''ScriptOpen''
    | TokenScriptBody \<Rightarrow> ''ScriptBody'' | TokenScriptClose \<Rightarrow> ''ScriptClose''
    | TokenStyleOpen \<Rightarrow> ''StyleOpen'' | TokenStyleBody \<Rightarrow> ''StyleBody'' | TokenStyleClose \<Rightarrow> ''StyleClose'')"

record Token =
  tkKind :: TokenKind
  tkValue :: string
  tkOffset :: nat
  tkLine :: nat
  tkCol :: nat
  tkLength :: nat

definition mkTok :: "TokenKind \<Rightarrow> string \<Rightarrow> nat \<Rightarrow> nat \<Rightarrow> nat \<Rightarrow> nat \<Rightarrow> Token" where
  "mkTok k v off ln c len = \<lparr>tkKind = k, tkValue = v, tkOffset = off, tkLine = ln, tkCol = c, tkLength = len\<rparr>"

section \<open>The lexer state\<close>

datatype mode = modeText | modeTag | modeAttrValue | modeMustache | modeMustacheClose | modeScript | modeStyle

record Lexer =
  lx_src :: string
  lx_pos :: nat
  lx_line :: nat
  lx_col :: nat
  lx_modes :: "mode list"
  lx_pendingScript :: bool
  lx_pendingStyle :: bool

definition NewLexer :: "string \<Rightarrow> Lexer" where
  "NewLexer s = \<lparr>lx_src = s, lx_pos = 0, lx_line = 1, lx_col = 1, lx_modes = [modeText],
     lx_pendingScript = False, lx_pendingStyle = False\<rparr>"

definition currentMode :: "Lexer \<Rightarrow> mode" where
  "currentMode l = hd (lx_modes l)"

definition pushMode :: "mode \<Rightarrow> Lexer \<Rightarrow> Lexer" where
  "pushMode m l = l\<lparr>lx_modes := m # lx_modes l\<rparr>"

definition popMode :: "Lexer \<Rightarrow> Lexer" where
  "popMode l = (if length (lx_modes l) > 1 then l\<lparr>lx_modes := tl (lx_modes l)\<rparr> else l)"

definition atEnd :: "Lexer \<Rightarrow> bool" where
  "atEnd l = (lx_pos l \<ge> length (lx_src l))"

definition peek :: "Lexer \<Rightarrow> nat \<Rightarrow> char" where
  "peek l n = (if lx_pos l + n \<ge> length (lx_src l) then CHR 0x00 else lx_src l ! (lx_pos l + n))"

definition advance1 :: "Lexer \<Rightarrow> Lexer" where
  "advance1 l =
    (if lx_src l ! lx_pos l = CHR 0x0A
     then l\<lparr>lx_line := lx_line l + 1, lx_col := 1, lx_pos := lx_pos l + 1\<rparr>
     else l\<lparr>lx_col := lx_col l + 1, lx_pos := lx_pos l + 1\<rparr>)"

fun advance :: "nat \<Rightarrow> Lexer \<Rightarrow> Lexer" where
  "advance 0 l = l"
| "advance (Suc n) l = (if lx_pos l < length (lx_src l) then advance n (advance1 l) else l)"

definition startsWith :: "Lexer \<Rightarrow> string \<Rightarrow> bool" where
  "startsWith l s =
    (if lx_pos l + length s > length (lx_src l) then False
     else take (length s) (drop (lx_pos l) (lx_src l)) = s)"

definition lower :: "char \<Rightarrow> char" where
  "lower c = (if inRange 0x41 0x5A c then char_of (byteVal c + 32) else c)"

definition startsWithFold :: "Lexer \<Rightarrow> string \<Rightarrow> bool" where
  "startsWithFold l s =
    (if lx_pos l + length s > length (lx_src l) then False
     else list_all (\<lambda>i. lower (lx_src l ! (lx_pos l + i)) = lower (s ! i)) [0..<length s])"

definition isTagNameStart :: "char \<Rightarrow> bool" where
  "isTagNameStart c = (inRange 0x61 0x7A c \<or> inRange 0x41 0x5A c \<or> c = CHR ''_'')"

definition isTagNameCont :: "char \<Rightarrow> bool" where
  "isTagNameCont c = (isTagNameStart c \<or> inRange 0x30 0x39 c \<or> c = CHR ''-'' \<or> c = CHR '':'' \<or> c = CHR ''.'')"

definition isTagOpenBoundary :: "string \<Rightarrow> nat \<Rightarrow> bool" where
  "isTagOpenBoundary s p =
    (if p = 0 then False
     else if s ! (p - 1) = CHR ''<'' then True
     else p \<ge> 2 \<and> s ! (p - 2) = CHR ''<'' \<and> s ! (p - 1) = CHR ''/'')"

definition isSpaceByte :: "char \<Rightarrow> bool" where
  "isSpaceByte c = (c = CHR '' '' \<or> c = CHR 0x09 \<or> c = CHR 0x0A \<or> c = CHR 0x0D)"

definition tagBoundaryAt :: "string \<Rightarrow> nat \<Rightarrow> bool" where
  "tagBoundaryAt s p =
    (if p \<ge> length s then True
     else s ! p = CHR ''>'' \<or> s ! p = CHR ''/'' \<or> isSpaceByte (s ! p))"

definition hexDigitLower :: "nat \<Rightarrow> char" where
  "hexDigitLower n = ''0123456789abcdef'' ! n"

definition quoteByte :: "char \<Rightarrow> string" where
  "quoteByte c =
    (if 0x20 \<le> byteVal c \<and> byteVal c < 0x7F then [CHR 0x27, c, CHR 0x27]
     else ''0x'' @ [hexDigitLower (byteVal c div 16), hexDigitLower (byteVal c mod 16)])"

definition srcSlice :: "Lexer \<Rightarrow> nat \<Rightarrow> nat \<Rightarrow> string" where
  "srcSlice l a b = take (b - a) (drop a (lx_src l))"

definition makeToken :: "Lexer \<Rightarrow> TokenKind \<Rightarrow> nat \<Rightarrow> string \<Rightarrow> Token" where
  "makeToken l k off v = mkTok k v off (lx_line l) (lx_col l) (length v)"

text \<open>A token that starts where the lexer stood in \<open>l0\<close> and ends where it stands in \<open>l\<close>.\<close>

definition spanTok :: "TokenKind \<Rightarrow> string \<Rightarrow> Lexer \<Rightarrow> Lexer \<Rightarrow> Token" where
  "spanTok k v l0 l = mkTok k v (lx_pos l0) (lx_line l0) (lx_col l0) (lx_pos l - lx_pos l0)"

lemma advance1_frame [simp]:
  "lx_src (advance1 l) = lx_src l" "lx_modes (advance1 l) = lx_modes l"
  "lx_pendingScript (advance1 l) = lx_pendingScript l" "lx_pendingStyle (advance1 l) = lx_pendingStyle l"
  "lx_pos (advance1 l) = Suc (lx_pos l)"
  by (simp_all add: advance1_def)

lemma advance_frame [simp]:
  "lx_src (advance n l) = lx_src l" "lx_modes (advance n l) = lx_modes l"
  "lx_pendingScript (advance n l) = lx_pendingScript l" "lx_pendingStyle (advance n l) = lx_pendingStyle l"
  by (induction n l rule: advance.induct) simp_all

lemma advance_pos:
  "lx_pos (advance n l) = (if lx_pos l \<ge> length (lx_src l) then lx_pos l else min (lx_pos l + n) (length (lx_src l)))"
  by (induction n l rule: advance.induct) auto

declare advance.simps [simp del]

lemma advance_progress:
  "lx_pos l < length (lx_src l) \<Longrightarrow> 0 < n \<Longrightarrow>
     length (lx_src l) - lx_pos (advance n l) < length (lx_src l) - lx_pos l"
  by (auto simp: advance_pos min_def)

section \<open>Loops\<close>

text \<open>\<^verbatim>\<open>for l.pos < len(l.src) && P(l.peek(0)) { l.advance(1) }\<close>\<close>

function skipWhile :: "(char \<Rightarrow> bool) \<Rightarrow> Lexer \<Rightarrow> Lexer" where
  "skipWhile P l =
     (if \<not> atEnd l \<and> P (peek l 0) then skipWhile P (advance 1 l) else l)"
  by pat_completeness auto
termination
  by (relation "measure (\<lambda>(P, l). length (lx_src l) - lx_pos l)") (auto simp: atEnd_def advance_progress)

declare skipWhile.simps [simp del]

definition skipSpaces :: "Lexer \<Rightarrow> Lexer" where
  "skipSpaces l = skipWhile isSpaceByte l"

definition skipQuoted :: "char \<Rightarrow> Lexer \<Rightarrow> Lexer" where
  "skipQuoted q l =
    (let l1 = skipWhile (\<lambda>c. c \<noteq> q) (advance 1 l)
     in if \<not> atEnd l1 then advance 1 l1 else l1)"

text \<open>The same loop with \<^verbatim>\<open>b.WriteByte(l.peek(0))\<close> before each advance.\<close>

function collectWhile :: "(char \<Rightarrow> bool) \<Rightarrow> string \<Rightarrow> Lexer \<Rightarrow> string \<times> Lexer" where
  "collectWhile P b l =
     (if \<not> atEnd l \<and> P (peek l 0) then collectWhile P (b @ [peek l 0]) (advance 1 l) else (b, l))"
  by pat_completeness auto
termination
  by (relation "measure (\<lambda>(P, b, l). length (lx_src l) - lx_pos l)") (auto simp: atEnd_def advance_progress)

declare collectWhile.simps [simp del]

text \<open>The loop of \<^verbatim>\<open>lexText\<close>: an escaped brace is written without its backslash.\<close>

definition escapedBrace :: "Lexer \<Rightarrow> bool" where
  "escapedBrace l = (peek l 0 = CHR 0x5C \<and> lx_pos l + 1 < length (lx_src l) \<and>
     (peek l 1 = CHR ''{'' \<or> peek l 1 = CHR ''}''))"

definition textStops :: "Lexer \<Rightarrow> bool" where
  "textStops l = ((peek l 0 = CHR ''<'' \<and> lx_pos l + 1 < length (lx_src l) \<and>
       (isTagNameStart (peek l 1) \<or> peek l 1 = CHR ''/'' \<or> peek l 1 = CHR ''!'')) \<or> peek l 0 = CHR ''{'')"

function textLoop :: "string \<Rightarrow> Lexer \<Rightarrow> string \<times> Lexer" where
  "textLoop b l =
     (if atEnd l then (b, l)
      else if escapedBrace l then textLoop (b @ [peek l 1]) (advance 2 l)
      else if textStops l then (b, l)
      else textLoop (b @ [peek l 0]) (advance 1 l))"
  by pat_completeness auto
termination
  by (relation "measure (\<lambda>(b, l). length (lx_src l) - lx_pos l)") (auto simp: atEnd_def advance_progress)

declare textLoop.simps [simp del]

text \<open>The loop of \<^verbatim>\<open>lexComment\<close>: whether the closing \<^verbatim>\<open>-->\<close> was found and consumed.\<close>

function commentLoop :: "Lexer \<Rightarrow> bool \<times> Lexer" where
  "commentLoop l =
     (if atEnd l then (False, l)
      else if startsWith l ''-->'' then (True, advance 3 l)
      else commentLoop (advance 1 l))"
  by pat_completeness auto
termination
  by (relation "measure (\<lambda>l. length (lx_src l) - lx_pos l)") (auto simp: atEnd_def advance_progress)

declare commentLoop.simps [simp del]

lemma skipWhile_frame [simp]:
  "lx_src (skipWhile P l) = lx_src l" "lx_modes (skipWhile P l) = lx_modes l"
  "lx_pendingScript (skipWhile P l) = lx_pendingScript l" "lx_pendingStyle (skipWhile P l) = lx_pendingStyle l"
  by (induction P l rule: skipWhile.induct; subst skipWhile.simps; simp)+

lemma skipWhile_pos: "lx_pos l \<le> lx_pos (skipWhile P l)"
proof (induction P l rule: skipWhile.induct)
  case (1 P l)
  then show ?case by (subst skipWhile.simps) (auto simp: advance_pos atEnd_def)
qed

lemma skipQuoted_frame [simp]:
  "lx_src (skipQuoted q l) = lx_src l" "lx_modes (skipQuoted q l) = lx_modes l"
  "lx_pendingScript (skipQuoted q l) = lx_pendingScript l" "lx_pendingStyle (skipQuoted q l) = lx_pendingStyle l"
  by (simp_all add: skipQuoted_def Let_def)

lemma skipQuoted_progress:
  assumes "\<not> atEnd l" shows "length (lx_src l) - lx_pos (skipQuoted q l) < length (lx_src l) - lx_pos l"
proof -
  have "lx_pos l < lx_pos (advance 1 l)" using assms by (simp add: advance_pos atEnd_def)
  also have "\<dots> \<le> lx_pos (skipWhile (\<lambda>c. c \<noteq> q) (advance 1 l))" by (rule skipWhile_pos)
  also have "\<dots> \<le> lx_pos (skipQuoted q l)" by (auto simp: skipQuoted_def Let_def advance_pos)
  finally show ?thesis using assms by (simp add: atEnd_def)
qed

text \<open>The loop of \<^verbatim>\<open>lexRawOpen\<close>: whether the closing \<^verbatim>\<open>>\<close> was found and consumed.\<close>

function rawOpenLoop :: "Lexer \<Rightarrow> bool \<times> Lexer" where
  "rawOpenLoop l =
     (if atEnd l then (False, l)
      else if peek l 0 = CHR ''>'' then (True, advance 1 l)
      else if peek l 0 = CHR 0x22 \<or> peek l 0 = CHR 0x27 then rawOpenLoop (skipQuoted (peek l 0) l)
      else rawOpenLoop (advance 1 l))"
  by pat_completeness auto
termination
  by (relation "measure (\<lambda>l. length (lx_src l) - lx_pos l)")
    (auto simp: atEnd_def advance_progress intro: skipQuoted_progress[unfolded atEnd_def])

declare rawOpenLoop.simps [simp del]

text \<open>The loop of \<^verbatim>\<open>lexRawBlock\<close>: whether the closer was reached, and where.\<close>

function rawBlockLoop :: "string \<Rightarrow> Lexer \<Rightarrow> bool \<times> Lexer" where
  "rawBlockLoop closer l =
     (if atEnd l then (False, l)
      else if startsWithFold l closer \<and> tagBoundaryAt (lx_src l) (lx_pos l + length closer) then (True, l)
      else rawBlockLoop closer (advance 1 l))"
  by pat_completeness auto
termination
  by (relation "measure (\<lambda>(c, l). length (lx_src l) - lx_pos l)") (auto simp: atEnd_def advance_progress)

declare rawBlockLoop.simps [simp del]

text \<open>Go literals inside a mustache: a raw string up to its backtick, and an interpreted string
  or rune up to its quote or the end of the line, backslash escapes skipped.\<close>

definition skipRawString :: "Lexer \<Rightarrow> Lexer" where
  "skipRawString l =
    (let l1 = skipWhile (\<lambda>c. c \<noteq> CHR 0x60) (advance 1 l)
     in if \<not> atEnd l1 then advance 1 l1 else l1)"

function quotedLoop :: "char \<Rightarrow> Lexer \<Rightarrow> Lexer" where
  "quotedLoop q l =
     (if atEnd l then l
      else if peek l 0 = CHR 0x5C \<and> lx_pos l + 1 < length (lx_src l) then quotedLoop q (advance 2 l)
      else if peek l 0 = q \<or> peek l 0 = CHR 0x0A then l
      else quotedLoop q (advance 1 l))"
  by pat_completeness auto
termination
  by (relation "measure (\<lambda>(q, l). length (lx_src l) - lx_pos l)") (auto simp: atEnd_def advance_progress)

declare quotedLoop.simps [simp del]

definition skipLiteral :: "char \<Rightarrow> Lexer \<Rightarrow> Lexer" where
  "skipLiteral q l =
    (let l1 = quotedLoop q (advance 1 l)
     in if \<not> atEnd l1 \<and> peek l1 0 = q then advance 1 l1 else l1)"

lemma quotedLoop_frame [simp]:
  "lx_src (quotedLoop q l) = lx_src l" "lx_modes (quotedLoop q l) = lx_modes l"
  "lx_pendingScript (quotedLoop q l) = lx_pendingScript l" "lx_pendingStyle (quotedLoop q l) = lx_pendingStyle l"
  by (induction q l rule: quotedLoop.induct; subst quotedLoop.simps; simp)+

lemma quotedLoop_pos: "lx_pos l \<le> lx_pos (quotedLoop q l)"
proof (induction q l rule: quotedLoop.induct)
  case (1 q l)
  then show ?case by (subst quotedLoop.simps) (auto simp: advance_pos atEnd_def)
qed

lemma skipLiteral_frame [simp]:
  "lx_src (skipLiteral q l) = lx_src l" "lx_modes (skipLiteral q l) = lx_modes l"
  "lx_pendingScript (skipLiteral q l) = lx_pendingScript l" "lx_pendingStyle (skipLiteral q l) = lx_pendingStyle l"
  "lx_src (skipRawString l) = lx_src l" "lx_modes (skipRawString l) = lx_modes l"
  "lx_pendingScript (skipRawString l) = lx_pendingScript l" "lx_pendingStyle (skipRawString l) = lx_pendingStyle l"
  by (simp_all add: skipLiteral_def skipRawString_def Let_def)

lemma skipLiteral_progress:
  assumes "\<not> atEnd l"
  shows "length (lx_src l) - lx_pos (skipLiteral q l) < length (lx_src l) - lx_pos l"
    "length (lx_src l) - lx_pos (skipRawString l) < length (lx_src l) - lx_pos l"
proof -
  have a: "lx_pos l < lx_pos (advance 1 l)" using assms by (simp add: advance_pos atEnd_def)
  have "lx_pos (advance 1 l) \<le> lx_pos (quotedLoop q (advance 1 l))" by (rule quotedLoop_pos)
  also have "\<dots> \<le> lx_pos (skipLiteral q l)" by (auto simp: skipLiteral_def Let_def advance_pos)
  finally show "length (lx_src l) - lx_pos (skipLiteral q l) < length (lx_src l) - lx_pos l"
    using assms a by (simp add: atEnd_def)
  have "lx_pos (advance 1 l) \<le> lx_pos (skipWhile (\<lambda>c. c \<noteq> CHR 0x60) (advance 1 l))" by (rule skipWhile_pos)
  also have "\<dots> \<le> lx_pos (skipRawString l)" by (auto simp: skipRawString_def Let_def advance_pos)
  finally show "length (lx_src l) - lx_pos (skipRawString l) < length (lx_src l) - lx_pos l"
    using assms a by (simp add: atEnd_def)
qed

text \<open>\<^verbatim>\<open>scanMustacheBody\<close> with its depth counter; \<^const>\<open>None\<close> is the false result at the end of the
  source.\<close>

function mustacheLoop :: "bool \<Rightarrow> nat \<Rightarrow> nat \<Rightarrow> Lexer \<Rightarrow> string option \<times> Lexer" where
  "mustacheLoop consumeClose bodyStart depth l =
     (if atEnd l then (None, l)
      else let c = peek l 0 in
        if c = CHR 0x60 then mustacheLoop consumeClose bodyStart depth (skipRawString l)
        else if c = CHR 0x22 then mustacheLoop consumeClose bodyStart depth (skipLiteral (CHR 0x22) l)
        else if c = CHR 0x27 then mustacheLoop consumeClose bodyStart depth (skipLiteral (CHR 0x27) l)
        else if c = CHR ''{'' then mustacheLoop consumeClose bodyStart (depth + 1) (advance 1 l)
        else if c = CHR ''}'' then
          (if depth - 1 = 0
           then (Some (srcSlice l bodyStart (lx_pos l)), if consumeClose then advance 1 l else l)
           else mustacheLoop consumeClose bodyStart (depth - 1) (advance 1 l))
        else mustacheLoop consumeClose bodyStart depth (advance 1 l))"
  by pat_completeness auto
termination
  by (relation "measure (\<lambda>(c, b, d, l). length (lx_src l) - lx_pos l)")
    (auto simp: skipLiteral_progress, auto simp: atEnd_def advance_progress)

declare mustacheLoop.simps [simp del]

definition scanMustacheBody :: "bool \<Rightarrow> Lexer \<Rightarrow> string option \<times> Lexer" where
  "scanMustacheBody consumeClose l = mustacheLoop consumeClose (lx_pos l) 1 l"

section \<open>The lexing functions\<close>

definition lexComment :: "Lexer \<Rightarrow> Token \<times> Lexer" where
  "lexComment l =
    (case commentLoop (advance 4 l) of
       (True, l1) \<Rightarrow> (spanTok TokenComment (srcSlice l (lx_pos l) (lx_pos l1)) l l1, l1)
     | (False, l1) \<Rightarrow> (spanTok TokenError ''unterminated comment'' l l1, l1))"

text \<open>The pointer \<^verbatim>\<open>pending\<close> is the field update it stands for.\<close>

definition lexRawOpen :: "string \<Rightarrow> TokenKind \<Rightarrow> (Lexer \<Rightarrow> Lexer) \<Rightarrow> Lexer \<Rightarrow> Token \<times> Lexer" where
  "lexRawOpen name kind pending l =
    (case rawOpenLoop (advance (1 + length name) l) of
       (True, l1) \<Rightarrow> (spanTok kind (srcSlice l (lx_pos l) (lx_pos l1)) l l1, pending l1)
     | (False, l1) \<Rightarrow> (spanTok TokenError (''unterminated <'' @ name @ ''> tag'') l l1, l1))"

definition lexRawBlock :: "string \<Rightarrow> TokenKind \<Rightarrow> TokenKind \<Rightarrow> Lexer \<Rightarrow> Token \<times> Lexer" where
  "lexRawBlock name bodyKind closeKind l =
    (let closer = ''</'' @ name in
     case rawBlockLoop closer l of
       (True, l1) \<Rightarrow>
         if lx_pos l1 > lx_pos l then (spanTok bodyKind (srcSlice l (lx_pos l) (lx_pos l1)) l l1, l1)
         else
           (let l2 = skipWhile (\<lambda>c. c \<noteq> CHR ''>'') (advance (length closer) l1) in
            if atEnd l2 then (spanTok TokenError (''unterminated </'' @ name @ ''> tag'') l1 l2, popMode l2)
            else let l3 = advance 1 l2
                 in (spanTok closeKind (srcSlice l1 (lx_pos l1) (lx_pos l3)) l1 l3, popMode l3))
     | (False, l1) \<Rightarrow>
         if lx_pos l1 > lx_pos l then (spanTok TokenError (''unterminated <'' @ name @ ''> body'') l l1, l1)
         else (makeToken l1 TokenEOF (lx_pos l1) [], l1))"

definition lexBlockTag :: "Lexer \<Rightarrow> TokenKind \<Rightarrow> Lexer \<Rightarrow> Token \<times> Lexer" where
  "lexBlockTag start kind l =
    (case scanMustacheBody True l of
       (None, l1) \<Rightarrow> (spanTok TokenError ''unterminated mustache block'' start l1, l1)
     | (Some body, l1) \<Rightarrow> (spanTok kind body start l1, l1))"

text \<open>In the last case the source restores position, line and column, which are those of \<open>l1\<close>.\<close>

definition lexMustache :: "Lexer \<Rightarrow> Token \<times> Lexer" where
  "lexMustache l =
    (let l1 = advance 1 l; l2 = skipSpaces l1 in
     if \<not> atEnd l2 \<and> peek l2 0 = CHR ''#'' then lexBlockTag l TokenBlockOpen l2
     else if \<not> atEnd l2 \<and> peek l2 0 = CHR '':'' then lexBlockTag l TokenBlockMid l2
     else if \<not> atEnd l2 \<and> peek l2 0 = CHR ''/'' then lexBlockTag l TokenBlockClose l2
     else if \<not> atEnd l2 \<and> peek l2 0 = CHR ''@'' then lexBlockTag l TokenAtTag l2
     else (mkTok TokenMustacheOpen ''{'' (lx_pos l) (lx_line l) (lx_col l) 1,
           pushMode modeMustache (l2\<lparr>lx_pos := lx_pos l1, lx_line := lx_line l1, lx_col := lx_col l1\<rparr>)))"

definition lexMustacheExpr :: "Lexer \<Rightarrow> Token \<times> Lexer" where
  "lexMustacheExpr l =
    (case scanMustacheBody False l of
       (None, l1) \<Rightarrow> (spanTok TokenError ''unterminated mustache'' l l1, popMode l1)
     | (Some body, l1) \<Rightarrow> (spanTok TokenText body l l1, pushMode modeMustacheClose (popMode l1)))"

definition lexMustacheCloseBrace :: "Lexer \<Rightarrow> Token \<times> Lexer" where
  "lexMustacheCloseBrace l =
    (mkTok TokenMustacheClose ''}'' (lx_pos l) (lx_line l) (lx_col l) 1, popMode (advance 1 l))"

definition lexText :: "Lexer \<Rightarrow> Token \<times> Lexer" where
  "lexText l =
    (if atEnd l then (makeToken l TokenEOF (lx_pos l) [], l)
     else if startsWith l ''<!--'' then lexComment l
     else if startsWithFold l ''<script'' \<and> tagBoundaryAt (lx_src l) (lx_pos l + length ''<script'')
       then lexRawOpen ''script'' TokenScriptOpen (\<lambda>l. l\<lparr>lx_pendingScript := True\<rparr>) l
     else if startsWithFold l ''<style'' \<and> tagBoundaryAt (lx_src l) (lx_pos l + length ''<style'')
       then lexRawOpen ''style'' TokenStyleOpen (\<lambda>l. l\<lparr>lx_pendingStyle := True\<rparr>) l
     else if startsWith l ''</''
       then (mkTok TokenTagOpenClose ''</'' (lx_pos l) (lx_line l) (lx_col l) 2, pushMode modeTag (advance 2 l))
     else if peek l 0 = CHR ''<'' \<and> lx_pos l + 1 < length (lx_src l) \<and> isTagNameStart (peek l 1)
       then (mkTok TokenTagOpen ''<'' (lx_pos l) (lx_line l) (lx_col l) 1, pushMode modeTag (advance 1 l))
     else if peek l 0 = CHR ''{'' then lexMustache l
     else (case textLoop [] l of (b, l1) \<Rightarrow> (spanTok TokenText b l l1, l1)))"

definition lexTagNameOrAttr :: "Lexer \<Rightarrow> Token \<times> Lexer" where
  "lexTagNameOrAttr l =
    (let l1 = skipWhile isTagNameCont l;
         kind = (if lx_pos l > 0 \<and> \<not> isTagOpenBoundary (lx_src l) (lx_pos l) then TokenAttrName
                 else TokenIdentifier)
     in (spanTok kind (srcSlice l1 (lx_pos l) (lx_pos l1)) l l1, l1))"

definition recoverTagError :: "char \<Rightarrow> Lexer \<Rightarrow> Token \<times> Lexer" where
  "recoverTagError c l =
    (let l1 = skipWhile (\<lambda>c. c \<noteq> CHR ''>'' \<and> c \<noteq> CHR 0x0A) l;
         l2 = (if \<not> atEnd l1 \<and> peek l1 0 = CHR ''>'' then advance 1 l1 else l1)
     in (spanTok TokenError (''unexpected character '' @ quoteByte c @ '' in tag'') l l2, popMode l2))"

definition lexTag :: "Lexer \<Rightarrow> Token \<times> Lexer" where
  "lexTag l0 =
    (let l = skipSpaces l0 in
     if atEnd l then (spanTok TokenError ''unterminated tag'' l l, popMode l)
     else let c = peek l 0 in
       if c = CHR ''>'' then
         (mkTok TokenTagClose ''>'' (lx_pos l) (lx_line l) (lx_col l) 1, popMode (advance 1 l))
       else if c = CHR ''/'' \<and> lx_pos l + 1 < length (lx_src l) \<and> peek l 1 = CHR ''>'' then
         (mkTok TokenTagSelfClose ''/>'' (lx_pos l) (lx_line l) (lx_col l) 2, popMode (advance 2 l))
       else if c = CHR ''='' then
         (mkTok TokenAttrEquals ''='' (lx_pos l) (lx_line l) (lx_col l) 1, pushMode modeAttrValue (advance 1 l))
       else if isTagNameStart c then lexTagNameOrAttr l
       else recoverTagError c l)"

definition unquotedByte :: "char \<Rightarrow> bool" where
  "unquotedByte c = (\<not> isSpaceByte c \<and> c \<noteq> CHR ''>'' \<and> c \<noteq> CHR ''/'')"

definition lexAttrValue :: "Lexer \<Rightarrow> Token \<times> Lexer" where
  "lexAttrValue l =
    (if atEnd l then (spanTok TokenError ''unterminated attribute value'' l l, popMode l)
     else let c = peek l 0 in
       if c = CHR ''{'' then lexMustache (popMode l)
       else if c = CHR 0x22 \<or> c = CHR 0x27 then
         (case collectWhile (\<lambda>d. d \<noteq> c) [] (advance 1 l) of (b, l1) \<Rightarrow>
            if atEnd l1 then (spanTok TokenError ''unterminated attribute value'' l l1, popMode l1)
            else let l2 = advance 1 l1 in (spanTok TokenAttrValue b l l2, popMode l2))
       else
         (case collectWhile unquotedByte [] l of (b, l1) \<Rightarrow>
            if length b = 0
            then (mkTok TokenError ''expected attribute value'' (lx_pos l) (lx_line l) (lx_col l) 0, popMode l1)
            else (spanTok TokenAttrValue b l l1, popMode l1)))"

definition enterPending :: "Lexer \<Rightarrow> Lexer" where
  "enterPending l =
    (let l1 = (if lx_pendingScript l then pushMode modeScript (l\<lparr>lx_pendingScript := False\<rparr>) else l)
     in if lx_pendingStyle l1 then pushMode modeStyle (l1\<lparr>lx_pendingStyle := False\<rparr>) else l1)"

definition Next :: "Lexer \<Rightarrow> Token \<times> Lexer" where
  "Next l0 =
    (let l = enterPending l0 in
     if atEnd l then (makeToken l TokenEOF (lx_pos l) [], l)
     else case currentMode l of
       modeText \<Rightarrow> lexText l
     | modeTag \<Rightarrow> lexTag l
     | modeAttrValue \<Rightarrow> lexAttrValue l
     | modeMustache \<Rightarrow> lexMustacheExpr l
     | modeMustacheClose \<Rightarrow> lexMustacheCloseBrace l
     | modeScript \<Rightarrow> lexRawBlock ''script'' TokenScriptBody TokenScriptClose l
     | modeStyle \<Rightarrow> lexRawBlock ''style'' TokenStyleBody TokenStyleClose l)"

text \<open>A run of the lexer: the tokens up to and including the first end-of-file token, with a bound
  on the number of calls; \<^const>\<open>None\<close> when the bound is reached first.\<close>

fun lexRun :: "nat \<Rightarrow> Lexer \<Rightarrow> Token list option" where
  "lexRun 0 l = None"
| "lexRun (Suc n) l = (case Next l of (t, l') \<Rightarrow>
     if tkKind t = TokenEOF then Some [t] else map_option (Cons t) (lexRun n l'))"

end
