(* ===== verification/LexerFacts.thy ===== *)
theory LexerFacts
  imports Lexer
begin

text \<open>
  What the lexer guarantees: the cursor always carries the line and column of its offset, every
  token starts at or after the cursor with only white space skipped and ends where the cursor
  ends up, so the tokens of a run tile the source; the mode stack keeps one of nine shapes; and
  every call makes progress except on a \<^verbatim>\<open><!\<close> that opens no comment.
\<close>

section \<open>Line and column\<close>

definition lineCol :: "string \<Rightarrow> nat \<Rightarrow> nat \<times> nat" where
  "lineCol s p = (Suc (count_list (take p s) (CHR 0x0A)),
     Suc (length (takeWhile (\<lambda>c. c \<noteq> CHR 0x0A) (rev (take p s)))))"

definition posOK :: "Lexer \<Rightarrow> bool" where
  "posOK l = (lx_pos l \<le> length (lx_src l) \<and> (lx_line l, lx_col l) = lineCol (lx_src l) (lx_pos l))"

lemma lineCol_step:
  "p < length s \<Longrightarrow> lineCol s (Suc p) =
     (if s ! p = CHR 0x0A then (Suc (fst (lineCol s p)), 1) else (fst (lineCol s p), Suc (snd (lineCol s p))))"
  by (simp add: lineCol_def take_Suc_conv_app_nth)

lemma posOK_advance1: "posOK l \<Longrightarrow> lx_pos l < length (lx_src l) \<Longrightarrow> posOK (advance1 l)"
  by (cases "lineCol (lx_src l) (lx_pos l)") (auto simp: posOK_def lineCol_step advance1_def)

section \<open>Moving the cursor\<close>

text \<open>The state \<open>l'\<close> is \<open>l\<close> with the cursor moved forward.\<close>

definition moves :: "Lexer \<Rightarrow> Lexer \<Rightarrow> bool" where
  "moves l l' = (lx_src l' = lx_src l \<and> lx_modes l' = lx_modes l \<and>
     lx_pendingScript l' = lx_pendingScript l \<and> lx_pendingStyle l' = lx_pendingStyle l \<and>
     lx_pos l \<le> lx_pos l' \<and> (posOK l \<longrightarrow> posOK l'))"

lemma moves_refl [simp]: "moves l l"
  by (simp add: moves_def)

lemma moves_trans [trans]: "moves l l' \<Longrightarrow> moves l' l'' \<Longrightarrow> moves l l''"
  by (auto simp: moves_def)

lemma moves_advance [simp]: "moves l (advance n l)"
proof (induction n l rule: advance.induct)
  case (2 n l)
  have "lx_pos l < length (lx_src l) \<Longrightarrow> moves l (advance1 l)"
    by (auto simp: moves_def posOK_advance1)
  then show ?case using 2 by (auto simp: advance.simps intro: moves_trans)
qed (simp add: advance.simps)

lemma moves_if [intro]: "moves l a \<Longrightarrow> moves l b \<Longrightarrow> moves l (if c then a else b)"
  by simp

lemma moves_skipWhile [simp]: "moves l (skipWhile P l)"
proof (induction P l rule: skipWhile.induct)
  case (1 P l)
  then show ?case by (subst skipWhile.simps) (auto intro: moves_trans[OF moves_advance])
qed

lemma moves_skipSpaces [simp]: "moves l (skipSpaces l)"
  by (simp add: skipSpaces_def)

lemma moves_skipQuoted [simp]: "moves l (skipQuoted q l)"
  unfolding skipQuoted_def Let_def by (meson moves_advance moves_if moves_skipWhile moves_trans)

lemma moves_quotedLoop [simp]: "moves l (quotedLoop q l)"
proof (induction q l rule: quotedLoop.induct)
  case (1 q l)
  then show ?case by (subst quotedLoop.simps) (auto intro: moves_trans[OF moves_advance])
qed

lemma moves_skipLiteral [simp]: "moves l (skipLiteral q l)" "moves l (skipRawString l)"
  unfolding skipLiteral_def skipRawString_def Let_def
  by (meson moves_advance moves_if moves_skipWhile moves_quotedLoop moves_trans)+

lemma moves_collectWhile: "collectWhile P b l = (b', l') \<Longrightarrow> moves l l'"
proof (induction P b l rule: collectWhile.induct)
  case (1 P b l)
  then show ?case
    by (subst (asm) (2) collectWhile.simps) (auto intro: moves_trans[OF moves_advance] split: if_splits)
qed

lemma collectWhile_grows: "length b \<le> length (fst (collectWhile P b l))"
proof (induction P b l rule: collectWhile.induct)
  case (1 P b l)
  then show ?case by (subst collectWhile.simps) auto
qed

lemma moves_textLoop: "textLoop b l = (b', l') \<Longrightarrow> moves l l'"
proof (induction b l rule: textLoop.induct)
  case (1 b l)
  then show ?case
    by (subst (asm) (3) textLoop.simps) (auto intro: moves_trans[OF moves_advance] split: if_splits)
qed

lemma moves_commentLoop: "commentLoop l = (ok, l') \<Longrightarrow> moves l l'"
proof (induction l rule: commentLoop.induct)
  case (1 l)
  then show ?case
    by (subst (asm) (2) commentLoop.simps) (auto intro: moves_trans[OF moves_advance] split: if_splits)
qed

lemma moves_rawOpenLoop: "rawOpenLoop l = (ok, l') \<Longrightarrow> moves l l'"
proof (induction l rule: rawOpenLoop.induct)
  case (1 l)
  then show ?case
    by (subst (asm) (3) rawOpenLoop.simps)
      (auto intro: moves_trans[OF moves_advance] moves_trans[OF moves_skipQuoted] split: if_splits)
qed

lemma moves_rawBlockLoop: "rawBlockLoop c l = (ok, l') \<Longrightarrow> moves l l'"
proof (induction c l rule: rawBlockLoop.induct)
  case (1 c l)
  then show ?case
    by (subst (asm) (2) rawBlockLoop.simps) (auto intro: moves_trans[OF moves_advance] split: if_splits)
qed

lemma moves_mustacheLoop: "mustacheLoop cc bs d l = (res, l') \<Longrightarrow> moves l l'"
proof (induction cc bs d l rule: mustacheLoop.induct)
  case (1 cc bs d l)
  then show ?case
    by (subst (asm) (7) mustacheLoop.simps)
      (auto simp: Let_def intro: moves_trans[OF moves_advance] moves_trans[OF moves_skipLiteral(1)]
        moves_trans[OF moves_skipLiteral(2)] split: if_splits)
qed

lemma mode_ops [simp]:
  "lx_src (popMode l) = lx_src l" "lx_pos (popMode l) = lx_pos l" "posOK (popMode l) = posOK l"
  "lx_line (popMode l) = lx_line l" "lx_col (popMode l) = lx_col l"
  "lx_src (pushMode m l) = lx_src l" "lx_pos (pushMode m l) = lx_pos l" "posOK (pushMode m l) = posOK l"
  "lx_line (pushMode m l) = lx_line l" "lx_col (pushMode m l) = lx_col l"
  "posOK (l\<lparr>lx_pendingScript := b\<rparr>) = posOK l" "posOK (l\<lparr>lx_pendingStyle := b\<rparr>) = posOK l"
  "lx_pendingScript (popMode l) = lx_pendingScript l" "lx_pendingStyle (popMode l) = lx_pendingStyle l"
  "lx_pendingScript (pushMode m l) = lx_pendingScript l" "lx_pendingStyle (pushMode m l) = lx_pendingStyle l"
  "lx_modes (pushMode m l) = m # lx_modes l"
  by (simp_all add: popMode_def pushMode_def posOK_def)

lemma cursor_modes [simp]:
  "atEnd (popMode l) = atEnd l" "peek (popMode l) = peek l" "atEnd (pushMode m l) = atEnd l"
  "peek (pushMode m l) = peek l"
  by (simp_all add: atEnd_def peek_def fun_eq_iff)

lemma movesD:
  assumes "moves l l'"
  shows "lx_src l' = lx_src l" "lx_modes l' = lx_modes l" "lx_pendingScript l' = lx_pendingScript l"
    "lx_pendingStyle l' = lx_pendingStyle l" "lx_pos l \<le> lx_pos l'" "posOK l \<Longrightarrow> posOK l'"
  using assms by (auto simp: moves_def)

section \<open>Tokens span what was consumed\<close>

definition stepOK :: "Lexer \<Rightarrow> Token \<times> Lexer \<Rightarrow> bool" where
  "stepOK l res = (case res of (t, l') \<Rightarrow>
     lx_src l' = lx_src l \<and> posOK l' \<and> lx_pos l \<le> tkOffset t \<and> tkOffset t + tkLength t = lx_pos l' \<and>
     (tkLine t, tkCol t) = lineCol (lx_src l) (tkOffset t) \<and>
     list_all isSpaceByte (srcSlice l (lx_pos l) (tkOffset t)))"

lemma stepOK_span:
  assumes "posOK l" "moves l lm" "lx_src le = lx_src lm" "posOK le = posOK lm" "lx_pos le = lx_pos lm"
  shows "stepOK l (spanTok k v l lm, le)"
  using assms by (auto simp: stepOK_def spanTok_def mkTok_def moves_def posOK_def srcSlice_def)

lemma stepOK_fixed:
  assumes "posOK l" "moves l lm" "lx_src le = lx_src lm" "posOK le = posOK lm" "lx_pos le = lx_pos l + n"
  shows "stepOK l (mkTok k v (lx_pos l) (lx_line l) (lx_col l) n, le)"
  using assms by (auto simp: stepOK_def mkTok_def moves_def posOK_def srcSlice_def)

lemma stepOK_eof: "posOK l \<Longrightarrow> stepOK l (makeToken l k (lx_pos l) [], l)"
  by (auto simp: stepOK_def makeToken_def mkTok_def posOK_def srcSlice_def)

lemma stepOK_popped [simp]: "stepOK (popMode l) res = stepOK l res"
  by (simp add: stepOK_def srcSlice_def)

lemma srcSlice_append:
  assumes "a \<le> b" "b \<le> c" shows "srcSlice l a c = srcSlice l a b @ srcSlice l b c"
proof -
  have "take (c - a) xs = take (b - a) xs @ take (c - b) (drop (b - a) xs)" for xs :: string
    using take_add[of "b - a" "c - b" xs] assms by simp
  from this[of "drop a (lx_src l)"] show ?thesis using assms by (simp add: srcSlice_def)
qed

lemma srcSlice_step: "lx_pos l < length (lx_src l) \<Longrightarrow> srcSlice l (lx_pos l) (Suc (lx_pos l)) = [peek l 0]"
  by (simp add: srcSlice_def peek_def take_Suc_conv_app_nth)

lemma srcSlice_src: "lx_src l' = lx_src l \<Longrightarrow> srcSlice l' = srcSlice l"
  by (simp add: srcSlice_def fun_eq_iff)

lemma skipWhile_slice: "list_all P (srcSlice l (lx_pos l) (lx_pos (skipWhile P l)))"
proof (induction P l rule: skipWhile.induct)
  case (1 P l)
  show ?case
  proof (cases "\<not> atEnd l \<and> P (peek l 0)")
    case True
    then have p: "lx_pos (advance 1 l) = Suc (lx_pos l)" by (simp add: advance_pos atEnd_def)
    have le: "Suc (lx_pos l) \<le> lx_pos (skipWhile P (advance 1 l))" using skipWhile_pos[of "advance 1 l" P] p by simp
    have s: "skipWhile P l = skipWhile P (advance 1 l)" using True by (subst skipWhile.simps) simp
    have "srcSlice l (lx_pos l) (lx_pos (skipWhile P l)) =
        srcSlice l (lx_pos l) (Suc (lx_pos l)) @ srcSlice l (Suc (lx_pos l)) (lx_pos (skipWhile P l))"
      using le s by (intro srcSlice_append) simp_all
    then show ?thesis using True 1 p s srcSlice_step[of l] srcSlice_src[of "advance 1 l" l]
      by (simp add: atEnd_def)
  next
    case False
    then have "skipWhile P l = l" by (subst skipWhile.simps) auto
    then show ?thesis by (simp add: srcSlice_def)
  qed
qed

lemma skipWhile_stops: "\<not> atEnd (skipWhile P l) \<Longrightarrow> \<not> P (peek (skipWhile P l) 0)"
proof (induction P l rule: skipWhile.induct)
  case (1 P l)
  show ?case
  proof (cases "\<not> atEnd l \<and> P (peek l 0)")
    case True
    then have "skipWhile P l = skipWhile P (advance 1 l)" by (subst skipWhile.simps) simp
    then show ?thesis using 1 True by simp
  next
    case False
    then have "skipWhile P l = l" by (subst skipWhile.simps) auto
    then show ?thesis using 1(2) False by auto
  qed
qed

lemma stepOK_skip:
  assumes "stepOK (skipSpaces l) res" shows "stepOK l res"
proof -
  obtain t l' where r: "res = (t, l')" by fastforce
  have m: "lx_src (skipSpaces l) = lx_src l" "lx_pos l \<le> lx_pos (skipSpaces l)"
    using movesD[OF moves_skipSpaces] by simp_all
  have sl: "list_all isSpaceByte (srcSlice l (lx_pos l) (lx_pos (skipSpaces l)))"
    by (simp add: skipSpaces_def skipWhile_slice)
  have "lx_pos (skipSpaces l) \<le> tkOffset t" using assms r by (simp add: stepOK_def)
  then have "srcSlice l (lx_pos l) (tkOffset t) =
      srcSlice l (lx_pos l) (lx_pos (skipSpaces l)) @ srcSlice l (lx_pos (skipSpaces l)) (tkOffset t)"
    using m by (intro srcSlice_append) simp_all
  with sl assms r m srcSlice_src[OF m(1)] show ?thesis by (simp add: stepOK_def)
qed

lemma scanMustacheBody_moves: "scanMustacheBody cc l = (res, l') \<Longrightarrow> moves l l'"
  unfolding scanMustacheBody_def by (rule moves_mustacheLoop)

lemma stepOK_lexComment: "posOK l \<Longrightarrow> stepOK l (lexComment l)"
  unfolding lexComment_def
  by (auto split: prod.splits bool.splits intro!: stepOK_span dest: moves_commentLoop intro: moves_trans[OF moves_advance])

lemma stepOK_lexRawOpen:
  assumes "posOK l" "\<And>l. lx_src (pend l) = lx_src l \<and> posOK (pend l) = posOK l \<and> lx_pos (pend l) = lx_pos l"
  shows "stepOK l (lexRawOpen name k pend l)"
  using assms unfolding lexRawOpen_def
  by (auto split: prod.splits bool.splits intro!: stepOK_span dest: moves_rawOpenLoop intro: moves_trans[OF moves_advance])

lemma startsWith_pos: "startsWith l s \<Longrightarrow> lx_pos (advance (length s) l) = lx_pos l + length s"
  by (auto simp: startsWith_def advance_pos split: if_splits)

lemma advance1_pos: "\<not> atEnd l \<Longrightarrow> lx_pos (advance (Suc 0) l) = Suc (lx_pos l)"
  by (simp add: atEnd_def advance_pos)

lemma stepOK_lexBlockTag: "posOK l0 \<Longrightarrow> moves l0 l \<Longrightarrow> stepOK l0 (lexBlockTag l0 k l)"
  unfolding lexBlockTag_def
  by (auto split: prod.splits option.splits intro!: stepOK_span dest: scanMustacheBody_moves intro: moves_trans)

lemma stepOK_lexMustache:
  assumes "posOK l" "\<not> atEnd l" shows "stepOK l (lexMustache l)"
proof -
  let ?l1 = "advance 1 l" and ?l2 = "skipSpaces (advance 1 l)"
  have m: "moves l ?l2" by (rule moves_trans[OF moves_advance moves_skipSpaces])
  have s: "lx_src ?l2 = lx_src l" using movesD(1)[OF m] .
  have "posOK ?l1" using assms(1) movesD(6)[OF moves_advance] by blast
  then have "posOK (?l2\<lparr>lx_pos := lx_pos ?l1, lx_line := lx_line ?l1, lx_col := lx_col ?l1\<rparr>)"
    using s by (simp add: posOK_def)
  then have "stepOK l (mkTok TokenMustacheOpen ''{'' (lx_pos l) (lx_line l) (lx_col l) 1,
       pushMode modeMustache (?l2\<lparr>lx_pos := lx_pos ?l1, lx_line := lx_line ?l1, lx_col := lx_col ?l1\<rparr>))"
    using assms s \<open>posOK ?l1\<close> advance1_pos[OF assms(2)] by (intro stepOK_fixed[where lm = ?l1]) simp_all
  then show ?thesis unfolding lexMustache_def Let_def using stepOK_lexBlockTag[OF assms(1) m] by simp
qed

lemma stepOK_lexMustacheExpr: "posOK l \<Longrightarrow> stepOK l (lexMustacheExpr l)"
  unfolding lexMustacheExpr_def
  by (auto split: prod.splits option.splits intro!: stepOK_span dest: scanMustacheBody_moves)

lemma stepOK_lexMustacheCloseBrace: "posOK l \<Longrightarrow> \<not> atEnd l \<Longrightarrow> stepOK l (lexMustacheCloseBrace l)"
  unfolding lexMustacheCloseBrace_def
  by (rule stepOK_fixed[where lm = "advance 1 l"]) (simp_all add: advance1_pos)

lemma stepOK_lexText: "posOK l \<Longrightarrow> \<not> atEnd l \<Longrightarrow> stepOK l (lexText l)"
  unfolding lexText_def
  using startsWith_pos[of l "''</''"]
  by (auto split: prod.splits simp: advance1_pos numeral_2_eq_2
      intro!: stepOK_eof stepOK_lexComment stepOK_lexRawOpen stepOK_lexMustache
        stepOK_fixed[where lm = "advance n l" for n] stepOK_span
      dest: moves_textLoop)

lemma stepOK_lexTagNameOrAttr: "posOK l \<Longrightarrow> stepOK l (lexTagNameOrAttr l)"
  unfolding lexTagNameOrAttr_def Let_def by (rule stepOK_span) simp_all

lemma stepOK_recoverTagError: "posOK l \<Longrightarrow> stepOK l (recoverTagError c l)"
  unfolding recoverTagError_def Let_def
  by (rule stepOK_span) (auto intro: moves_trans[OF moves_skipWhile moves_advance])

lemma stepOK_lexTag:
  assumes "posOK l0" shows "stepOK l0 (lexTag l0)"
proof (rule stepOK_skip)
  let ?l = "skipSpaces l0"
  have p: "posOK ?l" using assms movesD(6)[OF moves_skipSpaces] by blast
  have two: "lx_pos (advance 2 ?l) = lx_pos ?l + 2" if "lx_pos ?l + 1 < length (lx_src ?l)"
    using that by (simp add: advance_pos)
  show "stepOK ?l (lexTag l0)"
    unfolding lexTag_def Let_def using p two
    by (auto simp: advance1_pos intro!: stepOK_span stepOK_fixed[where lm = "advance n ?l" for n]
        stepOK_lexTagNameOrAttr stepOK_recoverTagError)
qed

lemma stepOK_lexAttrValue:
  assumes "posOK l" shows "stepOK l (lexAttrValue l)"
proof -
  have q: "stepOK l (case collectWhile P [] (advance 1 l) of (b, la) \<Rightarrow>
      if atEnd la then (spanTok TokenError v l la, popMode la)
      else let lb = advance 1 la in (spanTok TokenAttrValue b l lb, popMode lb))" for P v
    using assms by (auto split: prod.splits simp: Let_def intro!: stepOK_span
        dest!: moves_collectWhile intro: moves_trans[OF moves_advance] moves_trans[OF moves_trans[OF moves_advance] moves_advance])
  have u: "stepOK l (case collectWhile P [] l of (b, la) \<Rightarrow>
      if length b = 0 then (mkTok TokenError v (lx_pos l) (lx_line l) (lx_col l) 0, popMode la)
      else (spanTok TokenAttrValue b l la, popMode la))" for P v
  proof -
    obtain b la where c: "collectWhile P [] l = (b, la)" by fastforce
    then have "b = [] \<Longrightarrow> la = l"
      using collectWhile_grows[of "[peek l 0]" P "advance 1 l"]
      by (subst (asm) collectWhile.simps) (auto split: if_splits)
    with c assms moves_collectWhile[OF c] show ?thesis
      by (auto intro!: stepOK_span stepOK_fixed[where lm = l])
  qed
  show ?thesis unfolding lexAttrValue_def Let_def
    using assms q[unfolded Let_def] u stepOK_lexMustache[of "popMode l"]
    by (auto simp: atEnd_def intro!: stepOK_span simp del: One_nat_def)
qed

lemma stepOK_lexRawBlock:
  assumes "posOK l" shows "stepOK l (lexRawBlock name bk ck l)"
proof -
  obtain ok la where r: "rawBlockLoop (''</'' @ name) l = (ok, la)" by fastforce
  have m: "moves l la" using r by (rule moves_rawBlockLoop)
  have p: "posOK la" using m assms by (simp add: moves_def)
  have same: "stepOK la res \<Longrightarrow> lx_pos la = lx_pos l \<Longrightarrow> stepOK l res" for res
    using movesD(1)[OF m] by (auto simp: stepOK_def srcSlice_def)
  let ?lb = "skipWhile (\<lambda>c. c \<noteq> CHR ''>'') (advance (length (''</'' @ name)) la)"
  have mb: "moves la ?lb" by (rule moves_trans[OF moves_advance moves_skipWhile])
  have mc: "moves la (advance 1 ?lb)" using mb moves_advance by (rule moves_trans)
  show ?thesis
  proof (cases "lx_pos la > lx_pos l")
    case True
    then show ?thesis using r m assms
      by (cases ok) (auto simp: lexRawBlock_def Let_def intro!: stepOK_span)
  next
    case False
    with m have e: "lx_pos la = lx_pos l" by (simp add: moves_def)
    show ?thesis using r e p mb mc same stepOK_eof[OF p, unfolded e]
      by (cases ok) (auto simp: lexRawBlock_def Let_def intro!: stepOK_span same)
  qed
qed

lemma enterPending_frame [simp]:
  "lx_src (enterPending l) = lx_src l" "lx_pos (enterPending l) = lx_pos l" "posOK (enterPending l) = posOK l"
  by (simp_all add: enterPending_def Let_def)

lemma Next_stepOK:
  assumes "posOK l" shows "stepOK l (Next l)"
proof -
  let ?l = "enterPending l"
  have p: "posOK ?l" using assms by simp
  have "stepOK ?l (Next l)"
    using stepOK_eof[OF p] stepOK_lexText[OF p] stepOK_lexTag[OF p] stepOK_lexAttrValue[OF p]
      stepOK_lexMustacheExpr[OF p] stepOK_lexMustacheCloseBrace[OF p] stepOK_lexRawBlock[OF p]
    unfolding Next_def Let_def by (simp split: mode.split)
  then show ?thesis by (simp add: stepOK_def srcSlice_def)
qed

section \<open>The mode stack\<close>

definition stackShapes :: "mode list list" where
  "stackShapes = [[modeText], [modeTag, modeText], [modeMustache, modeText], [modeMustacheClose, modeText],
     [modeScript, modeText], [modeStyle, modeText], [modeAttrValue, modeTag, modeText],
     [modeMustache, modeTag, modeText], [modeMustacheClose, modeTag, modeText]]"

definition modesOK :: "Lexer \<Rightarrow> bool" where
  "modesOK l = (lx_modes l \<in> set stackShapes \<and>
     (lx_pendingScript l \<or> lx_pendingStyle l \<longrightarrow> lx_modes l = [modeText]) \<and>
     \<not> (lx_pendingScript l \<and> lx_pendingStyle l) \<and>
     (hd (lx_modes l) = modeMustacheClose \<longrightarrow> \<not> atEnd l \<and> peek l 0 = CHR ''}''))"

text \<open>What one lexing function does to modes and flags, by the mode it runs in.\<close>

definition idle :: "Lexer \<Rightarrow> bool" where
  "idle l = (\<not> lx_pendingScript l \<and> \<not> lx_pendingStyle l)"

lemma popMode_modes: "lx_modes (popMode l) = (if length (lx_modes l) > 1 then tl (lx_modes l) else lx_modes l)"
  by (simp add: popMode_def)

lemma idle_moves: "moves l l' \<Longrightarrow> idle l' = idle l"
  by (simp add: idle_def moves_def)

lemma idle_modes [simp]: "idle (popMode l) = idle l" "idle (pushMode m l) = idle l"
  by (simp_all add: idle_def)

lemma mustacheLoop_at_brace:
  "mustacheLoop cc bs d l = (Some body, l') \<Longrightarrow> \<not> cc \<Longrightarrow> \<not> atEnd l' \<and> peek l' 0 = CHR ''}''"
proof (induction cc bs d l rule: mustacheLoop.induct)
  case (1 cc bs d l)
  then show ?case by (subst (asm) (7) mustacheLoop.simps) (auto simp: Let_def split: if_splits)
qed

definition inMode :: "mode list \<Rightarrow> Lexer \<Rightarrow> bool" where
  "inMode ms l = (lx_modes l = ms \<and> idle l)"

lemma inMode_moves: "moves l l' \<Longrightarrow> inMode ms l' = inMode ms l"
  using idle_moves by (auto simp: inMode_def moves_def)

lemma inMode_fwd: "moves l l' \<Longrightarrow> inMode ms l \<Longrightarrow> inMode ms l'"
  by (simp add: inMode_moves)

lemma inMode_advance [simp]: "inMode ms (advance n l) = inMode ms l" "inMode ms (skipSpaces l) = inMode ms l"
  "inMode ms (skipWhile P l) = inMode ms l"
  by (rule inMode_moves[OF moves_advance] inMode_moves[OF moves_skipSpaces] inMode_moves[OF moves_skipWhile])+

lemma inMode_pop [simp]: "inMode (m # n # ms) l \<Longrightarrow> inMode (n # ms) (popMode l)"
  by (auto simp: inMode_def popMode_modes)

lemma inMode_push [simp]: "inMode (m # ms) (pushMode m l) = inMode ms l"
  by (auto simp: inMode_def)

lemma lexBlockTag_mode:
  "inMode ms l \<Longrightarrow> moves l l' \<Longrightarrow> inMode ms (snd (lexBlockTag l k l'))"
  unfolding lexBlockTag_def
  by (auto split: prod.splits option.splits dest!: scanMustacheBody_moves simp: inMode_moves)

lemma inMode_reset [simp]:
  "inMode ms (l\<lparr>lx_pos := p, lx_line := a, lx_col := c\<rparr>) = inMode ms l"
  by (simp add: inMode_def idle_def)

lemma lexMustache_mode:
  assumes "inMode ms l"
  shows "inMode ms (snd (lexMustache l)) \<or> inMode (modeMustache # ms) (snd (lexMustache l))"
proof -
  have m: "moves l (skipSpaces (advance 1 l))" by (rule moves_trans[OF moves_advance moves_skipSpaces])
  have "inMode ms (skipSpaces (advance 1 l))" using assms inMode_moves[OF m] by simp
  then show ?thesis unfolding lexMustache_def Let_def
    using lexBlockTag_mode[OF assms m] by simp
qed

lemma lexMustacheExpr_mode:
  assumes "inMode (modeMustache # m # ms) l"
  shows "inMode (m # ms) (snd (lexMustacheExpr l)) \<or>
    (inMode (modeMustacheClose # m # ms) (snd (lexMustacheExpr l)) \<and>
     \<not> atEnd (snd (lexMustacheExpr l)) \<and> peek (snd (lexMustacheExpr l)) 0 = CHR ''}'')"
proof (cases "scanMustacheBody False l")
  case (Pair res la)
  have la: "inMode (modeMustache # m # ms) la" using assms inMode_moves[OF scanMustacheBody_moves[OF Pair]] by simp
  show ?thesis
  proof (cases res)
    case None
    then show ?thesis using Pair la by (simp add: lexMustacheExpr_def)
  next
    case (Some body)
    have "\<not> atEnd la \<and> peek la 0 = CHR ''}''"
      using Pair Some mustacheLoop_at_brace[of False] by (auto simp: scanMustacheBody_def)
    then show ?thesis using Pair Some la by (simp add: lexMustacheExpr_def cursor_modes)
  qed
qed

definition afterText :: "Lexer \<Rightarrow> bool" where
  "afterText l = (inMode [modeText] l \<or> inMode [modeTag, modeText] l \<or> inMode [modeMustache, modeText] l \<or>
     (lx_modes l = [modeText] \<and> (lx_pendingScript l \<longleftrightarrow> \<not> lx_pendingStyle l)))"

lemma afterText_if: "afterText (snd a) \<Longrightarrow> afterText (snd b) \<Longrightarrow> afterText (snd (if c then a else b))"
  by simp

lemma afterText_rawOpen:
  assumes "inMode [modeText] l" "\<And>l. inMode [modeText] l \<Longrightarrow> afterText (pend l)"
  shows "afterText (snd (lexRawOpen name k pend l))"
proof -
  obtain ok la where r: "rawOpenLoop (advance (1 + length name) l) = (ok, la)" by fastforce
  then have "inMode [modeText] la" using inMode_fwd[OF moves_rawOpenLoop[OF r]] assms(1) by simp
  then show ?thesis using r assms(2) by (cases ok) (simp_all add: lexRawOpen_def afterText_def)
qed

lemma lexText_mode:
  assumes "inMode [modeText] l" shows "afterText (snd (lexText l))"
proof -
  obtain ok la where "commentLoop (advance 4 l) = (ok, la)" by fastforce
  then have c: "afterText (snd (lexComment l))"
    using inMode_fwd[OF moves_commentLoop] assms
    by (cases ok) (simp_all add: lexComment_def afterText_def)
  have t: "afterText (snd (case textLoop [] l of (b, la) \<Rightarrow> (spanTok TokenText b l la, la)))"
    using inMode_fwd[OF moves_textLoop] assms by (auto simp: afterText_def split: prod.split)
  have m: "afterText (snd (lexMustache l))" using lexMustache_mode[OF assms] by (auto simp: afterText_def)
  have p: "afterText (la\<lparr>lx_pendingScript := True\<rparr>)" "afterText (la\<lparr>lx_pendingStyle := True\<rparr>)"
    if "inMode [modeText] la" for la
    using that by (auto simp: afterText_def inMode_def idle_def)
  have h: "afterText (snd (x, l))" "afterText (snd (x, pushMode modeTag (advance n l)))" for x :: Token and n
    using assms by (simp_all add: afterText_def)
  show ?thesis unfolding lexText_def
    by (intro afterText_if h c t m afterText_rawOpen[OF assms] p)
qed

lemma lexTag_mode:
  assumes "inMode [modeTag, modeText] l"
  shows "inMode [modeTag, modeText] (snd (lexTag l)) \<or> inMode [modeText] (snd (lexTag l)) \<or>
    inMode [modeAttrValue, modeTag, modeText] (snd (lexTag l))"
  using assms unfolding lexTag_def Let_def lexTagNameOrAttr_def recoverTagError_def
  by (auto intro!: inMode_pop[where m = modeTag])

lemma lexAttrValue_plain:
  assumes "inMode [modeAttrValue, modeTag, modeText] l" "peek l 0 \<noteq> CHR ''{''"
  shows "inMode [modeTag, modeText] (snd (lexAttrValue l))"
proof -
  have q: "inMode [modeTag, modeText] (popMode la)" if "collectWhile P b l = (b', la)" for P b b' la
    by (rule inMode_pop[OF inMode_fwd[OF moves_collectWhile[OF that] assms(1)]])
  have q': "inMode [modeTag, modeText] (popMode la)" "inMode [modeTag, modeText] (popMode (advance n la))"
    if "collectWhile P b (advance 1 l) = (b', la)" for P b b' la n
    using inMode_fwd[OF moves_collectWhile[OF that]] assms(1) by (auto intro!: inMode_pop[where m = modeAttrValue])
  have m: "inMode [modeTag, modeText] (popMode l)" using assms(1) by simp
  show ?thesis unfolding lexAttrValue_def Let_def
    using m q q' assms(2) by (auto split: prod.splits simp del: One_nat_def)
qed

lemma lexAttrValue_mode:
  assumes "inMode [modeAttrValue, modeTag, modeText] l"
  shows "inMode [modeTag, modeText] (snd (lexAttrValue l)) \<or>
    inMode [modeMustache, modeTag, modeText] (snd (lexAttrValue l))"
proof (cases "\<not> atEnd l \<and> peek l 0 = CHR ''{''")
  case True
  then show ?thesis using lexMustache_mode[OF inMode_pop[OF assms]] by (simp add: lexAttrValue_def)
next
  case False
  then show ?thesis
  proof (cases "atEnd l")
    case True
    then show ?thesis using inMode_pop[OF assms] by (simp add: lexAttrValue_def)
  qed (use lexAttrValue_plain[OF assms] in simp)
qed

lemma lexRawBlock_mode:
  assumes "inMode [m, modeText] l"
  shows "inMode [m, modeText] (snd (lexRawBlock name bk ck l)) \<or> inMode [modeText] (snd (lexRawBlock name bk ck l))"
proof -
  obtain ok la where r: "rawBlockLoop (''</'' @ name) l = (ok, la)" by fastforce
  have "inMode [m, modeText] la" using moves_rawBlockLoop[OF r] assms by (rule inMode_fwd)
  then show ?thesis using r by (cases ok) (auto simp: lexRawBlock_def Let_def intro!: inMode_pop[where m = m])
qed

lemma stack_cases:
  assumes "modesOK l" "idle l"
  obtains "inMode [modeText] l" | "inMode [modeTag, modeText] l" | "inMode [modeMustache, modeText] l"
    | "inMode [modeMustacheClose, modeText] l" | "inMode [modeScript, modeText] l"
    | "inMode [modeStyle, modeText] l" | "inMode [modeAttrValue, modeTag, modeText] l"
    | "inMode [modeMustache, modeTag, modeText] l" | "inMode [modeMustacheClose, modeTag, modeText] l"
  using assms unfolding modesOK_def stackShapes_def inMode_def by auto

lemma modesOK_inMode:
  "inMode ms l \<Longrightarrow> ms \<in> set stackShapes \<Longrightarrow> hd ms \<noteq> modeMustacheClose \<Longrightarrow> modesOK l"
  by (auto simp: modesOK_def inMode_def idle_def)

lemma enterPending_modes:
  assumes "modesOK l" shows "modesOK (enterPending l) \<and> idle (enterPending l)"
  using assms unfolding modesOK_def enterPending_def idle_def
  by (auto simp: Let_def stackShapes_def)

lemma currentMode_inMode: "inMode (m # ms) l \<Longrightarrow> currentMode l = m"
  by (simp add: inMode_def currentMode_def)

lemma modesOK_close:
  assumes "inMode (modeMustacheClose # ms) l" "modeMustacheClose # ms \<in> set stackShapes"
    "\<not> atEnd l" "peek l 0 = CHR ''}''"
  shows "modesOK l"
  using assms by (auto simp: modesOK_def inMode_def idle_def)

lemma modesOK_open:
  assumes "inMode [modeText] l \<or> inMode [modeTag, modeText] l \<or> inMode [modeMustache, modeText] l \<or>
    inMode [modeScript, modeText] l \<or> inMode [modeStyle, modeText] l \<or>
    inMode [modeAttrValue, modeTag, modeText] l \<or> inMode [modeMustache, modeTag, modeText] l"
  shows "modesOK l"
  using assms by (elim disjE) (erule modesOK_inMode; simp add: stackShapes_def)+

lemma step_modes:
  shows "inMode [modeText] l \<Longrightarrow> modesOK (snd (lexText l))"
    "inMode [modeTag, modeText] l \<Longrightarrow> modesOK (snd (lexTag l))"
    "inMode [modeAttrValue, modeTag, modeText] l \<Longrightarrow> modesOK (snd (lexAttrValue l))"
    "inMode [modeScript, modeText] l \<or> inMode [modeStyle, modeText] l \<Longrightarrow> modesOK (snd (lexRawBlock name bk ck l))"
    "inMode [modeMustache, modeText] l \<or> inMode [modeMustache, modeTag, modeText] l \<Longrightarrow> modesOK (snd (lexMustacheExpr l))"
    "inMode [modeMustacheClose, modeText] l \<or> inMode [modeMustacheClose, modeTag, modeText] l \<Longrightarrow>
       modesOK (snd (lexMustacheCloseBrace l))"
proof -
  show "modesOK (snd (lexText l))" if "inMode [modeText] l"
    using lexText_mode[OF that]
    unfolding afterText_def
  proof (elim disjE)
    assume "lx_modes (snd (lexText l)) = [modeText] \<and>
      (lx_pendingScript (snd (lexText l)) \<longleftrightarrow> \<not> lx_pendingStyle (snd (lexText l)))"
    then show ?thesis by (simp add: modesOK_def stackShapes_def)
  qed (rule modesOK_open; simp)+
  show "modesOK (snd (lexTag l))" if "inMode [modeTag, modeText] l"
    using lexTag_mode[OF that] by (intro modesOK_open) blast
  show "modesOK (snd (lexAttrValue l))" if "inMode [modeAttrValue, modeTag, modeText] l"
    using lexAttrValue_mode[OF that] by (intro modesOK_open) blast
  show "modesOK (snd (lexRawBlock name bk ck l))" if "inMode [modeScript, modeText] l \<or> inMode [modeStyle, modeText] l"
    using that lexRawBlock_mode[of modeScript l name bk ck] lexRawBlock_mode[of modeStyle l name bk ck]
    by (intro modesOK_open) blast
  show "modesOK (snd (lexMustacheExpr l))" if "inMode [modeMustache, modeText] l \<or> inMode [modeMustache, modeTag, modeText] l"
    using that
  proof
    assume "inMode [modeMustache, modeText] l"
    from lexMustacheExpr_mode[OF this] show ?thesis
      using modesOK_open modesOK_close[of "[modeText]"] by (auto simp: stackShapes_def)
  next
    assume "inMode [modeMustache, modeTag, modeText] l"
    from lexMustacheExpr_mode[OF this] show ?thesis
      using modesOK_open modesOK_close[of "[modeTag, modeText]"] by (auto simp: stackShapes_def)
  qed
  show "modesOK (snd (lexMustacheCloseBrace l))"
    if "inMode [modeMustacheClose, modeText] l \<or> inMode [modeMustacheClose, modeTag, modeText] l"
    using that by (intro modesOK_open) (auto simp: lexMustacheCloseBrace_def intro: inMode_pop)
qed

lemma Next_modes:
  assumes "modesOK l" shows "modesOK (snd (Next l))"
proof -
  have ok: "modesOK (enterPending l)" and idle: "idle (enterPending l)"
    using enterPending_modes[OF assms] by simp_all
  show ?thesis
    by (rule stack_cases[OF ok idle]; cases "atEnd (enterPending l)")
      (simp_all add: Next_def Let_def ok currentMode_inMode step_modes)
qed

end
