(* ===== verification/LexerProps.thy ===== *)
theory LexerProps
  imports LexerFacts
begin

text \<open>
  The properties of the lexer: runs terminate with tokens that tile the source, the line and
  column of a token are those of its offset, the end of file is stable, and the one input form on
  which \<^const>\<open>Next\<close> makes no progress.
\<close>

section \<open>Progress\<close>

definition rank :: "mode list \<Rightarrow> nat" where
  "rank ms = (if hd ms = modeAttrValue \<or> hd ms = modeMustache then 1 else 0)"

definition weight :: "Lexer \<Rightarrow> nat" where
  "weight l = 2 * (length (lx_src l) - lx_pos l) + rank (lx_modes l)"

lemma rank_le: "rank ms \<le> 1"
  by (simp add: rank_def)

lemma weight_advanced:
  assumes "lx_src l' = lx_src l" "lx_pos l < lx_pos l'" "posOK l'" shows "weight l' < weight l"
  using assms rank_le[of "lx_modes l'"] by (auto simp: weight_def posOK_def)

text \<open>A \<^verbatim>\<open><!\<close> in text mode that opens no comment.\<close>

definition bangAt :: "string \<Rightarrow> nat \<Rightarrow> bool" where
  "bangAt s i = (take 2 (drop i s) = ''<!'' \<and> take 4 (drop i s) \<noteq> ''<!--'')"

definition bangFree :: "string \<Rightarrow> bool" where
  "bangFree s = list_all (\<lambda>i. \<not> bangAt s i) [0..<length s]"

lemma startsWith_take: "s \<noteq> [] \<Longrightarrow> startsWith l s \<longleftrightarrow> take (length s) (drop (lx_pos l) (lx_src l)) = s"
proof -
  assume "s \<noteq> []"
  then have "lx_pos l + length s \<le> length (lx_src l)" if "take (length s) (drop (lx_pos l) (lx_src l)) = s"
    using arg_cong[OF that, of length] by (cases s) (auto simp: min_def split: if_splits)
  then show ?thesis by (auto simp: startsWith_def)
qed

lemma peek2: "lx_pos l + 1 < length (lx_src l) \<Longrightarrow> take 2 (drop (lx_pos l) (lx_src l)) = [peek l 0, peek l 1]"
  by (simp add: peek_def numeral_2_eq_2 take_Suc_conv_app_nth)

lemma moved_past:
  assumes "\<not> atEnd l" "0 < n" "moves (advance n l) l'" shows "lx_pos l < lx_pos l'"
  using assms movesD(5)[OF assms(3)] by (auto simp: atEnd_def advance_pos min_def split: if_splits)

lemma textLoop_progress:
  assumes "\<not> atEnd l" "\<not> textStops l \<or> escapedBrace l"
  shows "lx_pos l < lx_pos (snd (textLoop b l))"
proof -
  obtain b' la where r: "textLoop b l = (b', la)" by fastforce
  then have "moves (advance 2 l) la \<or> moves (advance 1 l) la"
    using assms by (subst (asm) textLoop.simps) (auto split: if_splits dest: moves_textLoop)
  then show ?thesis using moved_past[OF assms(1), of 1] moved_past[OF assms(1), of 2] r by auto
qed

definition grows :: "Lexer \<Rightarrow> Token \<times> Lexer \<Rightarrow> bool" where
  "grows l res = (lx_pos l < lx_pos (snd res))"

lemma grows_if: "(c \<Longrightarrow> grows l a) \<Longrightarrow> (\<not> c \<Longrightarrow> grows l b) \<Longrightarrow> grows l (if c then a else b)"
  by simp

lemma grows_lexComment: "\<not> atEnd l \<Longrightarrow> grows l (lexComment l)"
  unfolding lexComment_def grows_def
  by (auto split: prod.splits bool.splits dest: moves_commentLoop intro: moved_past[where n = 4])

lemma grows_lexRawOpen:
  assumes "\<not> atEnd l" "\<And>l. lx_pos (pend l) = lx_pos l" shows "grows l (lexRawOpen name k pend l)"
  using assms unfolding lexRawOpen_def grows_def
  by (auto split: prod.splits bool.splits dest: moves_rawOpenLoop intro: moved_past[where n = "Suc (length name)"])

lemma grows_lexMustache:
  assumes "\<not> atEnd l" shows "grows l (lexMustache l)"
proof -
  have b: "grows l (lexBlockTag l k (skipSpaces (advance 1 l)))" for k
    using moves_trans[OF moves_skipSpaces scanMustacheBody_moves] moved_past[OF assms, of 1]
    by (auto simp: grows_def lexBlockTag_def split: prod.split option.split)
  have "lx_pos l < lx_pos (advance 1 l)" using advance1_pos[OF assms] by simp
  then show ?thesis unfolding lexMustache_def Let_def
    by (intro grows_if b) (simp add: grows_def)
qed

lemma grows_lexText:
  assumes "\<not> atEnd l" "\<not> bangAt (lx_src l) (lx_pos l)" shows "grows l (lexText l)"
proof -
  have adv: "grows l (t, pushMode m (advance n l))" if "0 < n" for t m n
    using moved_past[OF assms(1) that moves_refl] by (simp add: grows_def)
  have slash: "startsWith l ''</''" if "peek l 0 = CHR ''<''" "lx_pos l + 1 < length (lx_src l)" "peek l 1 = CHR ''/''"
    using that peek2[OF that(2)] by (simp add: startsWith_take numeral_2_eq_2)
  have bang: "startsWith l ''<!--''" if "peek l 0 = CHR ''<''" "lx_pos l + 1 < length (lx_src l)" "peek l 1 = CHR ''!''"
    using that peek2[OF that(2)] assms(2) by (simp add: bangAt_def startsWith_take eval_nat_numeral)
  have t: "grows l (case textLoop [] l of (b, la) \<Rightarrow> (spanTok TokenText b l la, la))" if "\<not> textStops l"
    using textLoop_progress[OF assms(1), of "[]"] that by (cases "textLoop [] l") (simp add: grows_def)
  show ?thesis unfolding lexText_def
    using assms(1) slash bang
    by (intro grows_if grows_lexComment grows_lexRawOpen adv grows_lexMustache t)
      (auto simp: textStops_def)
qed

lemma grows_lexTag:
  assumes "\<not> atEnd l0" shows "grows l0 (lexTag l0)"
proof -
  let ?l = "skipSpaces l0"
  have le: "lx_pos l0 \<le> lx_pos ?l" using movesD(5)[OF moves_skipSpaces] .
  show ?thesis
  proof (cases "atEnd ?l")
    case True
    then have "lx_pos l0 < lx_pos ?l" using assms movesD(1)[OF moves_skipSpaces, of l0] by (simp add: atEnd_def)
    then show ?thesis using True by (simp add: lexTag_def Let_def grows_def)
  next
    case False
    have sp: "\<not> isSpaceByte (peek ?l 0)" using False skipWhile_stops[of isSpaceByte l0] by (simp add: skipSpaces_def)
    have adv: "lx_pos l0 < lx_pos (advance n ?l)" if "0 < n" for n
      using moved_past[OF False that moves_refl] le by simp
    have sk: "lx_pos l0 < lx_pos (skipWhile P ?l)" if "P (peek ?l 0)" for P
      using moved_past[OF False, of 1] moves_skipWhile le False that
      by (subst skipWhile.simps) (auto intro: le_less_trans)
    have rec: "lx_pos l0 < lx_pos (skipWhile (\<lambda>c. c \<noteq> CHR ''>'' \<and> c \<noteq> CHR 0x0A) ?l)" if "peek ?l 0 \<noteq> CHR ''>''"
      using sp that by (intro sk) (auto simp: isSpaceByte_def)
    show ?thesis
      using False adv sk[of isTagNameCont] rec
      unfolding lexTag_def Let_def grows_def lexTagNameOrAttr_def recoverTagError_def
      by (auto simp: isTagNameCont_def intro: less_le_trans movesD(5)[OF moves_advance])
  qed
qed

lemma grows_lexRawBlock:
  assumes "\<not> atEnd l" shows "grows l (lexRawBlock name bk ck l)"
proof -
  obtain ok la where r: "rawBlockLoop (''</'' @ name) l = (ok, la)" by fastforce
  have le: "lx_pos l \<le> lx_pos la" using movesD(5)[OF moves_rawBlockLoop[OF r]] .
  have src: "lx_src la = lx_src l" using movesD(1)[OF moves_rawBlockLoop[OF r]] .
  let ?lb = "skipWhile (\<lambda>c. c \<noteq> CHR ''>'') (advance (length (''</'' @ name)) la)"
  show ?thesis
  proof (cases ok)
    case True
    have end': "\<not> atEnd la" if "lx_pos la = lx_pos l" using that assms src by (simp add: atEnd_def)
    have "lx_pos la < lx_pos ?lb" if "\<not> lx_pos l < lx_pos la"
      using le that end' moves_skipWhile by (intro moved_past[where n = "length (''</'' @ name)"]) auto
    moreover have "lx_pos ?lb \<le> lx_pos (advance 1 ?lb)" using movesD(5)[OF moves_advance] .
    ultimately show ?thesis using True r le unfolding lexRawBlock_def Let_def grows_def
      by (auto simp: simp del: One_nat_def)
  next
    case False
    have "rawBlockLoop c l = (ok, la) \<Longrightarrow> \<not> ok \<Longrightarrow> atEnd la" for c
    proof (induction c l rule: rawBlockLoop.induct)
      case (1 c l)
      then show ?case by (subst (asm) (2) rawBlockLoop.simps) (auto split: if_splits)
    qed
    then have "atEnd la" using r False by blast
    then have "lx_pos l < lx_pos la" using assms src by (simp add: atEnd_def)
    then show ?thesis using False r by (simp add: lexRawBlock_def grows_def)
  qed
qed

lemma lexAttrValue_progress:
  assumes "\<not> atEnd l" "inMode [modeAttrValue, modeTag, modeText] l" "posOK l"
  shows "weight (snd (lexAttrValue l)) < weight l"
proof (cases "grows l (lexAttrValue l)")
  case True
  then show ?thesis using stepOK_lexAttrValue[OF assms(3)]
    by (intro weight_advanced) (auto simp: grows_def stepOK_def split: prod.splits)
next
  case False
  let ?l' = "snd (lexAttrValue l)"
  have f: "lx_src ?l' = lx_src l" "lx_pos l \<le> lx_pos ?l'"
    using stepOK_lexAttrValue[OF assms(3)] by (auto simp: stepOK_def split: prod.splits)
  have "peek l 0 \<noteq> CHR ''{''"
    using False grows_lexMustache[of "popMode l"] assms(1) by (auto simp: lexAttrValue_def grows_def)
  then have "inMode [modeTag, modeText] ?l'" by (rule lexAttrValue_plain[OF assms(2)])
  then show ?thesis using f False assms(2) by (auto simp: weight_def rank_def inMode_def grows_def)
qed

lemma lexMustacheExpr_progress:
  assumes "\<not> atEnd l" "inMode (modeMustache # m # ms) l" "posOK l"
  shows "weight (snd (lexMustacheExpr l)) < weight l"
proof -
  obtain res la where r: "scanMustacheBody False l = (res, la)" by fastforce
  have m: "moves l la" using r by (rule scanMustacheBody_moves)
  show ?thesis
  proof (cases res)
    case None
    have "mustacheLoop cc bs d l = (res, la) \<Longrightarrow> res = None \<Longrightarrow> atEnd la" for cc bs d
    proof (induction cc bs d l rule: mustacheLoop.induct)
      case (1 cc bs d l)
      then show ?case by (subst (asm) (7) mustacheLoop.simps) (auto simp: Let_def split: if_splits)
    qed
    then have "atEnd la" using r None by (simp add: scanMustacheBody_def)
    then have "lx_pos l < lx_pos la" using assms(1) m by (simp add: atEnd_def moves_def)
    then show ?thesis using r None m assms(3)
      by (intro weight_advanced) (auto simp: lexMustacheExpr_def moves_def)
  next
    case (Some body)
    then show ?thesis using r m assms(2)
      by (auto simp: lexMustacheExpr_def weight_def rank_def moves_def inMode_def)
  qed
qed

lemma weight_grown: "stepOK l res \<Longrightarrow> grows l res \<Longrightarrow> weight (snd res) < weight l"
  by (rule weight_advanced) (auto simp: grows_def stepOK_def split: prod.splits)

lemma weight_enterPending: "modesOK l \<Longrightarrow> weight (enterPending l) = weight l"
  by (auto simp: enterPending_def Let_def weight_def rank_def modesOK_def)

text \<open>The call makes progress unless it stands on a bang in text mode.\<close>

lemma Next_progress:
  assumes "posOK l" "modesOK l" "\<not> atEnd l" "\<not> bangAt (lx_src l) (lx_pos l)"
  shows "weight (snd (Next l)) < weight l"
proof -
  let ?l = "enterPending l"
  have e: "\<not> atEnd ?l" "\<not> bangAt (lx_src ?l) (lx_pos ?l)" "posOK ?l"
    using assms by (simp_all add: atEnd_def)
  have ok: "modesOK ?l" and idle: "idle ?l" using enterPending_modes[OF assms(2)] by simp_all
  have cb: "grows ?l (lexMustacheCloseBrace ?l)"
    using moved_past[OF e(1) _ moves_refl, of 1] by (simp add: grows_def lexMustacheCloseBrace_def)
  note g = weight_grown[OF stepOK_lexText[OF e(3,1)] grows_lexText[OF e(1,2)]]
    weight_grown[OF stepOK_lexTag[OF e(3)] grows_lexTag[OF e(1)]]
    weight_grown[OF stepOK_lexRawBlock[OF e(3)] grows_lexRawBlock[OF e(1)]]
    weight_grown[OF stepOK_lexMustacheCloseBrace[OF e(3,1)] cb]
    lexAttrValue_progress[OF e(1) _ e(3)] lexMustacheExpr_progress[OF e(1) _ e(3)]
  have "weight (snd (Next l)) < weight ?l"
    by (rule stack_cases[OF ok idle]) (simp_all add: Next_def Let_def e(1) currentMode_inMode g)
  then show ?thesis using weight_enterPending[OF assms(2)] by simp
qed

section \<open>Runs of the lexer\<close>

lemma Next_at_end: "atEnd l \<Longrightarrow> tkKind (fst (Next l)) = TokenEOF"
  by (simp add: Next_def Let_def atEnd_def makeToken_def mkTok_def)

lemma NewLexer_ok [simp]: "posOK (NewLexer s)" "modesOK (NewLexer s)" "lx_src (NewLexer s) = s" "lx_pos (NewLexer s) = 0"
  by (auto simp: NewLexer_def posOK_def lineCol_def modesOK_def stackShapes_def)

lemma Next_src: "posOK l \<Longrightarrow> lx_src (snd (Next l)) = lx_src l" "posOK l \<Longrightarrow> posOK (snd (Next l))"
  using Next_stepOK[of l] by (auto simp: stepOK_def split: prod.splits)

lemma bangFree_at: "bangFree s \<Longrightarrow> \<not> bangAt s i"
  by (cases "i < length s") (auto simp: bangFree_def list_all_iff bangAt_def)

lemma lexRun_total:
  assumes "posOK l" "modesOK l" "bangFree (lx_src l)" "weight l < n"
  shows "\<exists>ts. lexRun n l = Some ts"
  using assms
proof (induction n arbitrary: l)
  case (Suc n)
  obtain t l' where nx: "Next l = (t, l')" by fastforce
  show ?case
  proof (cases "tkKind t = TokenEOF")
    case True
    then show ?thesis by (simp add: nx)
  next
    case False
    then have "\<not> atEnd l" using Next_at_end[of l] nx by auto
    then have "weight l' < weight l" using Next_progress[of l] Suc.prems nx bangFree_at by simp
    then have "\<exists>ts. lexRun n l' = Some ts"
      using Suc.prems nx Next_src[of l] Next_modes[of l] by (intro Suc.IH) simp_all
    then show ?thesis by (auto simp: nx)
  qed
qed simp

text \<open>The tokens tile the source from an offset on: only white space is left out between them.\<close>

fun tiles :: "string \<Rightarrow> nat \<Rightarrow> Token list \<Rightarrow> bool" where
  "tiles s p [] = (p = length s)"
| "tiles s p (t # ts) = (p \<le> tkOffset t \<and> list_all isSpaceByte (take (tkOffset t - p) (drop p s)) \<and>
     tiles s (tkOffset t + tkLength t) ts)"

definition located :: "string \<Rightarrow> Token \<Rightarrow> bool" where
  "located s t = ((tkLine t, tkCol t) = lineCol s (tkOffset t))"

text \<open>Only \<^const>\<open>Next\<close> at the end of the source yields an end-of-file token.\<close>

lemma kind_simps [simp]:
  "tkKind (mkTok k v a b c d) = k" "tkKind (spanTok k v l l') = k" "tkKind (makeToken l k a v) = k"
  by (simp_all add: mkTok_def spanTok_def makeToken_def)

lemma kind_lexMustache: "tkKind (fst (lexMustache l)) \<noteq> TokenEOF"
proof -
  have "tkKind (fst (lexBlockTag a k b)) \<noteq> TokenEOF" if "k \<noteq> TokenEOF" for a k b
    using that by (auto simp: lexBlockTag_def split: prod.split option.split)
  then show ?thesis by (simp add: lexMustache_def Let_def)
qed

lemma kind_lexText: "\<not> atEnd l \<Longrightarrow> tkKind (fst (lexText l)) \<noteq> TokenEOF"
  using kind_lexMustache[of l]
  by (auto simp: lexText_def lexComment_def lexRawOpen_def split: prod.split bool.split)

lemma kind_lexTag: "tkKind (fst (lexTag l)) \<noteq> TokenEOF"
  by (simp add: lexTag_def Let_def lexTagNameOrAttr_def recoverTagError_def)

lemma kind_lexAttrValue: "tkKind (fst (lexAttrValue l)) \<noteq> TokenEOF"
  using kind_lexMustache[of "popMode l"] by (auto simp: lexAttrValue_def Let_def split: prod.split)

lemma kind_lexRawBlock:
  "\<not> atEnd l \<Longrightarrow> bk \<noteq> TokenEOF \<Longrightarrow> ck \<noteq> TokenEOF \<Longrightarrow> tkKind (fst (lexRawBlock name bk ck l)) \<noteq> TokenEOF"
  using grows_lexRawBlock[of l name bk ck]
  by (auto simp: lexRawBlock_def Let_def grows_def split: prod.splits bool.splits if_splits)

lemma kind_lexMustacheExpr: "tkKind (fst (lexMustacheExpr l)) \<noteq> TokenEOF"
  by (auto simp: lexMustacheExpr_def split: prod.split option.split)

lemma Next_eof_iff: "tkKind (fst (Next l)) = TokenEOF \<longleftrightarrow> atEnd l"
proof -
  have "atEnd (enterPending l) = atEnd l" by (simp add: atEnd_def)
  then show ?thesis
    using kind_lexText[of "enterPending l"] kind_lexTag[of "enterPending l"] kind_lexAttrValue[of "enterPending l"]
      kind_lexMustacheExpr[of "enterPending l"] kind_lexRawBlock[of "enterPending l"]
    by (auto simp: Next_def Let_def lexMustacheCloseBrace_def split: mode.split)
qed

lemma lexRun_tiles:
  "posOK l \<Longrightarrow> lexRun n l = Some ts \<Longrightarrow>
     tiles (lx_src l) (lx_pos l) ts \<and> list_all (located (lx_src l)) ts"
proof (induction n arbitrary: l ts)
  case (Suc n)
  obtain t l' where nx: "Next l = (t, l')" by fastforce
  have st: "stepOK l (t, l')" using Next_stepOK[OF Suc.prems(1)] nx by simp
  show ?case
  proof (cases "tkKind t = TokenEOF")
    case True
    then have "atEnd l" using Next_eof_iff[of l] nx by simp
    then have "tkOffset t + tkLength t = length (lx_src l)"
      using st Suc.prems(1) nx by (auto simp: stepOK_def posOK_def atEnd_def)
    then show ?thesis using True Suc.prems(2) nx st by (auto simp: stepOK_def srcSlice_def located_def)
  next
    case False
    then obtain ts' where ts: "ts = t # ts'" "lexRun n l' = Some ts'" using Suc.prems(2) nx by auto
    have "tiles (lx_src l') (lx_pos l') ts' \<and> list_all (located (lx_src l')) ts'"
      using Suc.IH[OF _ ts(2)] st by (simp add: stepOK_def)
    moreover have "located (lx_src l) t" using st by (simp add: stepOK_def located_def)
    ultimately show ?thesis using ts st by (simp add: stepOK_def srcSlice_def)
  qed
qed simp

section \<open>Properties\<close>

text \<open>C24. Lexing a template in which every \<^verbatim>\<open><!\<close> opens a comment ends: at most
  \<^term>\<open>2 * length src + 2\<close> calls of \<^const>\<open>Next\<close> reach the end-of-file token, whatever else the
  template holds, and the tokens tile it: each starts where the previous one ended, up to white
  space inside a tag, and the last one ends at the end of the source.\<close>

theorem lexer_terminates:
  assumes "bangFree src"
  shows "\<exists>ts. lexRun (2 * length src + 2) (NewLexer src) = Some ts \<and> tiles src 0 ts"
proof -
  have "weight (NewLexer src) < 2 * length src + 2"
    by (simp add: weight_def rank_def NewLexer_def)
  then obtain ts where "lexRun (2 * length src + 2) (NewLexer src) = Some ts"
    using lexRun_total[OF NewLexer_ok(1,2)] assms by fastforce
  then show ?thesis using lexRun_tiles[OF NewLexer_ok(1)] by fastforce
qed

theorem lexer_terminates_witness:
  "\<exists>ts. lexRun (2 * length ''<p a={x}>b</p><!--c-->'' + 2) (NewLexer ''<p a={x}>b</p><!--c-->'') = Some ts \<and>
     tiles ''<p a={x}>b</p><!--c-->'' 0 ts"
  by (rule lexer_terminates) code_simp



inductive lexReach :: "string \<Rightarrow> Lexer \<Rightarrow> bool" for src where
  reach_new: "lexReach src (NewLexer src)"
| reach_next: "lexReach src l \<Longrightarrow> lexReach src (snd (Next l))"

text \<open>C26. From the initial state on, every call keeps the cursor inside the source with the right
  line and column and the mode stack in one of nine shapes of depth at most three.\<close>

theorem lexer_invariant:
  assumes "lexReach src l"
  shows "lx_src l = src \<and> posOK l \<and> lx_modes l \<in> set stackShapes"
proof -
  have "lx_src l = src \<and> posOK l \<and> modesOK l"
    using assms by (induction rule: lexReach.induct) (simp_all add: Next_src Next_modes)
  then show ?thesis by (simp add: modesOK_def)
qed

theorem lexer_invariant_witness:
  "lx_modes (snd (Next (snd (Next (NewLexer ''<p a>''))))) \<in> set stackShapes"
  using lexer_invariant[OF reach_next[OF reach_next[OF reach_new]]] by blast

text \<open>A call answers end-of-file exactly at the end of the source, and from there on every
  further call answers end-of-file.\<close>

theorem eof_stable:
  "(tkKind (fst (Next l)) = TokenEOF \<longleftrightarrow> atEnd l) \<and>
   (atEnd l = (list_all (\<lambda>k. tkKind (fst (Next (((\<lambda>l. snd (Next l)) ^^ k) l))) = TokenEOF) [0..<Suc n]))"
proof -
  have st: "atEnd (snd (Next l))" if "atEnd l" for l
    using that by (simp add: Next_def Let_def atEnd_def)
  have it: "atEnd (((\<lambda>l. snd (Next l)) ^^ k) l)" if "atEnd l" for k
    using that by (induction k) (simp_all add: st)
  show ?thesis
  proof (intro conjI)
    show "tkKind (fst (Next l)) = TokenEOF \<longleftrightarrow> atEnd l" by (rule Next_eof_iff)
    show "atEnd l = list_all (\<lambda>k. tkKind (fst (Next (((\<lambda>l. snd (Next l)) ^^ k) l))) = TokenEOF) [0..<Suc n]"
    proof
      assume "list_all (\<lambda>k. tkKind (fst (Next (((\<lambda>l. snd (Next l)) ^^ k) l))) = TokenEOF) [0..<Suc n]"
      then have "tkKind (fst (Next (((\<lambda>l. snd (Next l)) ^^ 0) l))) = TokenEOF"
        unfolding list_all_iff by (metis atLeast_upt lessThan_iff zero_less_Suc)
      then show "atEnd l" by (simp add: Next_eof_iff)
    qed (use it in \<open>simp add: list_all_iff Next_eof_iff\<close>)
  qed
qed

lemma bang_stuck:
  assumes "lx_modes l = [modeText]" "idle l" "bangAt (lx_src l) (lx_pos l)"
  shows "Next l = (spanTok TokenText [] l l, l)"
proof -
  have lt: "lx_pos l + 1 < length (lx_src l)" using assms(3)
    by (auto simp: bangAt_def dest!: arg_cong[where f = length])
  then have end': "\<not> atEnd l" by (simp add: atEnd_def)
  have p: "peek l 0 = CHR ''<''" "peek l 1 = CHR ''!''"
    using assms(3) peek2[OF lt] by (simp_all add: bangAt_def)
  have fold: "\<not> startsWithFold l (CHR ''<'' # c # s)" if "lower c \<noteq> CHR ''!''" for c s
  proof -
    have "lx_src l ! (lx_pos l + 1) = CHR ''!''" using p(2) lt by (simp add: peek_def)
    moreover have "lower CHR ''!'' = CHR ''!''" by code_simp
    moreover have "startsWithFold l (CHR ''<'' # c # s) \<Longrightarrow>
        lower (lx_src l ! (lx_pos l + 1)) = lower ((CHR ''<'' # c # s) ! 1)"
      unfolding startsWithFold_def list_all_iff by (auto split: if_splits dest!: bspec[where x = 1] simp del: upt_Suc)
    ultimately show ?thesis using that by auto
  qed
  have f: "\<not> startsWithFold l ''<script''" "\<not> startsWithFold l ''<style''"
    by (rule fold, code_simp)+
  have c: "\<not> startsWith l ''<!--''" using assms(3) by (simp add: bangAt_def startsWith_take eval_nat_numeral)
  have s: "\<not> startsWith l ''</''" using peek2[OF lt] p by (simp add: startsWith_take numeral_2_eq_2)
  have t: "\<not> isTagNameStart CHR ''!''" by code_simp
  have "textLoop [] l = ([], l)"
    using end' p lt by (subst textLoop.simps) (simp add: escapedBrace_def textStops_def)
  moreover have "enterPending l = l" using assms(2) by (simp add: enterPending_def idle_def)
  ultimately show ?thesis using assms(1) end' p lt c s f t
    by (simp add: Next_def Let_def currentMode_def lexText_def)
qed

text \<open>C30. A template that begins with \<^verbatim>\<open><!\<close> but not with a comment, such as a document type
  declaration, is never lexed to its end: the call returns an empty text token and leaves the
  lexer where it was, so no number of calls reaches the end of file.\<close>

theorem doctype_never_ends:
  assumes "bangAt src 0"
  shows "Next (NewLexer src) = (mkTok TokenText [] 0 1 1 0, NewLexer src) \<and> lexRun n (NewLexer src) = None"
proof -
  have nx: "Next (NewLexer src) = (spanTok TokenText [] (NewLexer src) (NewLexer src), NewLexer src)"
    using assms by (intro bang_stuck) (simp_all add: NewLexer_def idle_def)
  have "lexRun n (NewLexer src) = None" by (induction n) (simp_all add: nx)
  then show ?thesis using nx by (simp add: spanTok_def NewLexer_def)
qed

theorem doctype_never_ends_witness: "lexRun 1000 (NewLexer ''<!DOCTYPE html>'') = None"
proof -
  have "bangAt ''<!DOCTYPE html>'' 0" by code_simp
  then show ?thesis using doctype_never_ends by blast
qed

end
