(* ===== verification/Escape.thy ===== *)
theory Escape
  imports GoStrings
begin

text \<open>
  HTML escaping: the append functions of \<^verbatim>\<open>render/escape.go\<close> with their fast path and their
  byte-slice twins, and \<^verbatim>\<open>runtime/svelte/server/escape.go\<close>. What they share is stated as a
  locale of byte-wise escapers, interpreted on each of them: the output is the concatenation of
  the replacement of every byte, it holds no raw special byte, and it decodes to the input.
\<close>

section \<open>The render package\<close>

definition escAmp :: string where "escAmp = ''&amp;''"
definition escLt :: string where "escLt = ''&lt;''"
definition escGt :: string where "escGt = ''&gt;''"
definition escQuot :: string where "escQuot = ''&#34;''"
definition escApos :: string where "escApos = ''&#39;''"

text \<open>The first index of a byte of the given class; \<^const>\<open>None\<close> is \<^verbatim>\<open>-1\<close>.\<close>

fun indexWhere :: "(char \<Rightarrow> bool) \<Rightarrow> string \<Rightarrow> nat option" where
  "indexWhere P [] = None"
| "indexWhere P (c # cs) = (if P c then Some 0 else map_option Suc (indexWhere P cs))"

definition indexTextSpecial :: "string \<Rightarrow> nat option" where
  "indexTextSpecial s =
    indexWhere (\<lambda>c. c = CHR ''&'' \<or> c = CHR ''<'' \<or> c = CHR ''>'' \<or> c = CHR 0x22 \<or> c = CHR 0x27) s"

definition indexAttrSpecial :: "string \<Rightarrow> nat option" where
  "indexAttrSpecial s = indexWhere (\<lambda>c. c = CHR ''&'' \<or> c = CHR ''<'' \<or> c = CHR ''>'' \<or> c = CHR 0x22) s"

definition indexTextSpecialBytes :: "string \<Rightarrow> nat option" where
  "indexTextSpecialBytes s =
    indexWhere (\<lambda>c. c = CHR ''&'' \<or> c = CHR ''<'' \<or> c = CHR ''>'' \<or> c = CHR 0x22 \<or> c = CHR 0x27) s"

definition indexAttrSpecialBytes :: "string \<Rightarrow> nat option" where
  "indexAttrSpecialBytes s = indexWhere (\<lambda>c. c = CHR ''&'' \<or> c = CHR ''<'' \<or> c = CHR ''>'' \<or> c = CHR 0x22) s"

definition appendEscapeText :: "string \<Rightarrow> string \<Rightarrow> string" where
  "appendEscapeText dst s = (case indexTextSpecial s of
      None \<Rightarrow> dst @ s
    | Some i \<Rightarrow> foldl (\<lambda>dst c.
         if c = CHR ''&'' then dst @ escAmp
         else if c = CHR ''<'' then dst @ escLt
         else if c = CHR ''>'' then dst @ escGt
         else if c = CHR 0x22 then dst @ escQuot
         else if c = CHR 0x27 then dst @ escApos
         else dst @ [c]) (dst @ take i s) (drop i s))"

definition appendEscapeAttr :: "string \<Rightarrow> string \<Rightarrow> string" where
  "appendEscapeAttr dst s = (case indexAttrSpecial s of
      None \<Rightarrow> dst @ s
    | Some i \<Rightarrow> foldl (\<lambda>dst c.
         if c = CHR ''&'' then dst @ escAmp
         else if c = CHR ''<'' then dst @ escLt
         else if c = CHR ''>'' then dst @ escGt
         else if c = CHR 0x22 then dst @ escQuot
         else dst @ [c]) (dst @ take i s) (drop i s))"

definition appendEscapeTextBytes :: "string \<Rightarrow> string \<Rightarrow> string" where
  "appendEscapeTextBytes dst s = (case indexTextSpecialBytes s of
      None \<Rightarrow> dst @ s
    | Some i \<Rightarrow> foldl (\<lambda>dst c.
         if c = CHR ''&'' then dst @ escAmp
         else if c = CHR ''<'' then dst @ escLt
         else if c = CHR ''>'' then dst @ escGt
         else if c = CHR 0x22 then dst @ escQuot
         else if c = CHR 0x27 then dst @ escApos
         else dst @ [c]) (dst @ take i s) (drop i s))"

definition appendEscapeAttrBytes :: "string \<Rightarrow> string \<Rightarrow> string" where
  "appendEscapeAttrBytes dst s = (case indexAttrSpecialBytes s of
      None \<Rightarrow> dst @ s
    | Some i \<Rightarrow> foldl (\<lambda>dst c.
         if c = CHR ''&'' then dst @ escAmp
         else if c = CHR ''<'' then dst @ escLt
         else if c = CHR ''>'' then dst @ escGt
         else if c = CHR 0x22 then dst @ escQuot
         else dst @ [c]) (dst @ take i s) (drop i s))"

section \<open>The Svelte server runtime\<close>

definition contentSpecial :: "bool \<Rightarrow> char \<Rightarrow> bool" where
  "contentSpecial isAttr c = (c = CHR ''&'' \<or> c = CHR ''<'' \<or> (isAttr \<and> c = CHR 0x22))"

definition escapeAttrOrContent :: "string \<Rightarrow> bool \<Rightarrow> string" where
  "escapeAttrOrContent s isAttr =
    (if length s = 0 then []
     else case indexWhere (contentSpecial isAttr) s of
        None \<Rightarrow> s
      | Some first \<Rightarrow> foldl (\<lambda>b c.
           if c = CHR ''&'' then b @ ''&amp;''
           else if c = CHR ''<'' then b @ ''&lt;''
           else if isAttr \<and> c = CHR 0x22 then b @ ''&quot;''
           else b @ [c]) (take first s) (drop first s))"

definition EscapeHTMLString :: "string \<Rightarrow> string" where
  "EscapeHTMLString s = escapeAttrOrContent s False"

definition EscapeHTMLAttrString :: "string \<Rightarrow> string" where
  "EscapeHTMLAttrString s = escapeAttrOrContent s True"

section \<open>Byte-wise escapers\<close>

lemma indexWhere_None: "indexWhere P s = None \<longleftrightarrow> list_all (\<lambda>c. \<not> P c) s"
  by (induction s) auto

lemma indexWhere_Some: "indexWhere P s = Some i \<Longrightarrow> list_all (\<lambda>c. \<not> P c) (take i s)"
  by (induction s arbitrary: i) (auto split: if_splits)

lemma foldl_append_concat: "foldl (\<lambda>b c. b @ f c) d s = d @ concat (map f s)"
  by (induction s arbitrary: d) simp_all

lemma concat_map_single: "list_all (\<lambda>c. f c = [c]) s \<Longrightarrow> concat (map f s) = s"
  by (induction s) auto

text \<open>A decoder of character references: the first reference of the table that is a prefix is
  replaced by its byte.\<close>

function unescape :: "(string \<times> char) list \<Rightarrow> string \<Rightarrow> string" where
  "unescape tab [] = []"
| "unescape tab (c # cs) = (case find (\<lambda>(e, _). e \<noteq> [] \<and> hasPrefix (c # cs) e) tab of
      None \<Rightarrow> c # unescape tab cs
    | Some (e, d) \<Rightarrow> d # unescape tab (drop (length e) (c # cs)))"
  by pat_completeness auto
termination
  by (relation "measure (\<lambda>(tab, s). length s)") (auto simp: find_Some_iff)

text \<open>The interface of an escaper: \<open>escape\<close> with the class of bytes it replaces, the replacement
  of a byte, and the table that undoes it.\<close>

locale byte_escaper =
  fixes escape :: "string \<Rightarrow> string"
    and special :: "char \<Rightarrow> bool"
    and repl :: "char \<Rightarrow> string"
    and tab :: "(string \<times> char) list"
  assumes escape_repl: "escape s = concat (map repl s)"
    and repl_plain: "\<not> special c \<Longrightarrow> repl c = [c]"
    and repl_special: "special c \<Longrightarrow> (\<exists>e. repl c = CHR ''&'' # e \<and> list_all (\<lambda>d. \<not> special d) e)"
    and amp_special: "special (CHR ''&'')"
    and tab_special: "special c \<Longrightarrow> find (\<lambda>(e, _). e \<noteq> [] \<and> hasPrefix (repl c @ r) e) tab = Some (repl c, c)"
    and tab_amp: "(e, d) \<in> set tab \<Longrightarrow> \<exists>e'. e = CHR ''&'' # e'"
begin

lemma escape_append: "escape (s @ t) = escape s @ escape t"
  by (simp add: escape_repl)

lemma escape_id: "list_all (\<lambda>c. \<not> special c) s \<Longrightarrow> escape s = s"
  unfolding escape_repl by (rule concat_map_single) (auto simp: list_all_iff repl_plain)

text \<open>No special byte but the ampersand of a reference survives.\<close>

lemma escape_safe: "c \<in> set (escape s) \<Longrightarrow> special c \<Longrightarrow> c = CHR ''&''"
proof (induction s)
  case (Cons d s)
  then show ?case
    using repl_plain[of d] repl_special[of d] by (cases "special d") (auto simp: escape_repl list_all_iff)
qed (simp add: escape_repl)

lemma plain_not_in_table: "\<not> special c \<Longrightarrow> find (\<lambda>(e, _). e \<noteq> [] \<and> hasPrefix (c # r) e) tab = None"
  using amp_special by (auto simp: find_None_iff dest!: tab_amp)

lemma unescape_escape: "unescape tab (escape s) = s"
proof (induction s)
  case (Cons c s)
  show ?case
  proof (cases "special c")
    case True
    then obtain e where e: "repl c = CHR ''&'' # e" using repl_special by blast
    have "find (\<lambda>(x, _). x \<noteq> [] \<and> hasPrefix (CHR ''&'' # e @ escape s) x) tab = Some (repl c, c)"
      using tab_special[OF True, of "escape s"] e by simp
    then have "unescape tab (CHR ''&'' # e @ escape s) = c # unescape tab (escape s)"
      using e by simp
    then show ?thesis using Cons e by (simp add: escape_repl)
  next
    case False
    then show ?thesis using Cons plain_not_in_table[OF False] by (simp add: escape_repl repl_plain)
  qed
qed (simp add: escape_repl)

lemma escape_inj: "escape s = escape t \<Longrightarrow> s = t"
  by (metis unescape_escape)

end

lemma fast_path:
  assumes "\<And>c. \<not> P c \<Longrightarrow> f c = [c]"
  shows "(case indexWhere P s of
      None \<Rightarrow> d @ s
    | Some i \<Rightarrow> foldl (\<lambda>b c. b @ f c) (d @ take i s) (drop i s)) = d @ concat (map f s)"
proof (cases "indexWhere P s")
  case None
  then have "list_all (\<lambda>c. f c = [c]) s" by (auto simp: indexWhere_None list_all_iff assms)
  then show ?thesis using None by (simp add: concat_map_single)
next
  case (Some i)
  then have "list_all (\<lambda>c. \<not> P c) (take i s)" by (rule indexWhere_Some)
  then have "list_all (\<lambda>c. f c = [c]) (take i s)" by (simp add: list_all_iff assms)
  then have "concat (map f (take i s)) = take i s" by (rule concat_map_single)
  moreover have "concat (map f s) = concat (map f (take i s)) @ concat (map f (drop i s))"
    by (metis append_take_drop_id concat_append map_append)
  ultimately show ?thesis using Some by (simp add: foldl_append_concat)
qed

definition textSpecial :: "char \<Rightarrow> bool" where
  "textSpecial c = (c = CHR ''&'' \<or> c = CHR ''<'' \<or> c = CHR ''>'' \<or> c = CHR 0x22 \<or> c = CHR 0x27)"

definition attrSpecial :: "char \<Rightarrow> bool" where
  "attrSpecial c = (c = CHR ''&'' \<or> c = CHR ''<'' \<or> c = CHR ''>'' \<or> c = CHR 0x22)"

definition textRepl :: "char \<Rightarrow> string" where
  "textRepl c = (if c = CHR ''&'' then escAmp else if c = CHR ''<'' then escLt else if c = CHR ''>'' then escGt
     else if c = CHR 0x22 then escQuot else if c = CHR 0x27 then escApos else [c])"

definition attrRepl :: "char \<Rightarrow> string" where
  "attrRepl c = (if c = CHR ''&'' then escAmp else if c = CHR ''<'' then escLt else if c = CHR ''>'' then escGt
     else if c = CHR 0x22 then escQuot else [c])"

definition contentRepl :: "bool \<Rightarrow> char \<Rightarrow> string" where
  "contentRepl isAttr c = (if c = CHR ''&'' then ''&amp;'' else if c = CHR ''<'' then ''&lt;''
     else if isAttr \<and> c = CHR 0x22 then ''&quot;'' else [c])"

definition renderTable :: "(string \<times> char) list" where
  "renderTable = [(''&amp;'', CHR ''&''), (''&lt;'', CHR ''<''), (''&gt;'', CHR ''>''),
     (''&#34;'', CHR 0x22), (''&#39;'', CHR 0x27)]"

definition svelteTable :: "(string \<times> char) list" where
  "svelteTable = [(''&amp;'', CHR ''&''), (''&lt;'', CHR ''<''), (''&quot;'', CHR 0x22)]"

lemma appendEscapeText_repl: "appendEscapeText dst s = dst @ concat (map textRepl s)"
proof -
  have e: "indexTextSpecial s = indexWhere textSpecial s"
    by (simp add: indexTextSpecial_def textSpecial_def[abs_def])
  have f: "appendEscapeText dst s = (case indexWhere textSpecial s of None \<Rightarrow> dst @ s
      | Some i \<Rightarrow> foldl (\<lambda>b c. b @ textRepl c) (dst @ take i s) (drop i s))"
    unfolding appendEscapeText_def e textRepl_def by (auto split: option.split intro!: foldl_cong)
  show ?thesis unfolding f by (rule fast_path) (simp add: textSpecial_def textRepl_def)
qed

lemma appendEscapeAttr_repl: "appendEscapeAttr dst s = dst @ concat (map attrRepl s)"
proof -
  have e: "indexAttrSpecial s = indexWhere attrSpecial s"
    by (simp add: indexAttrSpecial_def attrSpecial_def[abs_def])
  have f: "appendEscapeAttr dst s = (case indexWhere attrSpecial s of None \<Rightarrow> dst @ s
      | Some i \<Rightarrow> foldl (\<lambda>b c. b @ attrRepl c) (dst @ take i s) (drop i s))"
    unfolding appendEscapeAttr_def e attrRepl_def by (auto split: option.split intro!: foldl_cong)
  show ?thesis unfolding f by (rule fast_path) (simp add: attrSpecial_def attrRepl_def)
qed

lemma escapeAttrOrContent_repl: "escapeAttrOrContent s isAttr = concat (map (contentRepl isAttr) s)"
proof (cases "s = []")
  case False
  then have f: "escapeAttrOrContent s isAttr = (case indexWhere (contentSpecial isAttr) s of None \<Rightarrow> [] @ s
      | Some i \<Rightarrow> foldl (\<lambda>b c. b @ contentRepl isAttr c) ([] @ take i s) (drop i s))"
    unfolding escapeAttrOrContent_def contentRepl_def by (auto split: option.split intro!: foldl_cong)
  show ?thesis unfolding f by (subst fast_path) (simp_all add: contentSpecial_def contentRepl_def)
qed (simp add: escapeAttrOrContent_def)

lemmas esc_consts = escAmp_def escLt_def escGt_def escQuot_def escApos_def

interpretation text_esc: byte_escaper "appendEscapeText []" textSpecial textRepl renderTable
  by unfold_locales
    (auto simp: appendEscapeText_repl textRepl_def textSpecial_def renderTable_def esc_consts)

interpretation attr_esc: byte_escaper "appendEscapeAttr []" attrSpecial attrRepl renderTable
  by unfold_locales
    (auto simp: appendEscapeAttr_repl attrRepl_def attrSpecial_def renderTable_def esc_consts)

interpretation content_esc: byte_escaper "\<lambda>s. escapeAttrOrContent s isAttr" "contentSpecial isAttr"
    "contentRepl isAttr" svelteTable for isAttr
  by unfold_locales
    (auto simp: escapeAttrOrContent_repl contentRepl_def contentSpecial_def svelteTable_def)

text \<open>Escaping loses nothing: what the render package writes for text and for attributes, and
  what the Svelte runtime writes for content and for attributes, decodes to the value under the
  references they use.\<close>

theorem escape_roundtrip:
  "unescape renderTable (appendEscapeText [] s) = s \<and> unescape renderTable (appendEscapeAttr [] s) = s \<and>
   unescape svelteTable (EscapeHTMLString s) = s \<and> unescape svelteTable (EscapeHTMLAttrString s) = s"
  by (simp add: text_esc.unescape_escape attr_esc.unescape_escape content_esc.unescape_escape
      EscapeHTMLString_def EscapeHTMLAttrString_def)


text \<open>The fast path and the byte-slice twins change nothing: appending the escaped form of a
  value is appending the replacement of each of its bytes, for a string source and for a byte
  slice alike.\<close>

theorem escape_fast_path_equiv:
  "appendEscapeText dst s = dst @ concat (map textRepl s) \<and> appendEscapeTextBytes dst s = appendEscapeText dst s \<and>
   appendEscapeAttr dst s = dst @ concat (map attrRepl s) \<and> appendEscapeAttrBytes dst s = appendEscapeAttr dst s"
  using appendEscapeText_repl appendEscapeAttr_repl
  by (simp add: appendEscapeTextBytes_def appendEscapeAttrBytes_def appendEscapeText_def appendEscapeAttr_def
      indexTextSpecialBytes_def indexTextSpecial_def indexAttrSpecialBytes_def indexAttrSpecial_def)

end
