(* ===== verification/GoText.thy ===== *)
theory GoText
  imports GoStrings "HOL-Library.List_Lexorder" "HOL-Library.Char_ord"
begin

text \<open>
  More of the standard library the components use on text: \<^verbatim>\<open>strings.TrimSpace\<close>,
  \<^verbatim>\<open>strings.ToLower\<close>, \<^verbatim>\<open>strings.Index\<close>, \<^verbatim>\<open>strconv.FormatInt\<close>, \<^verbatim>\<open>sort.Strings\<close> and
  Go maps with string keys as association lists.
\<close>

section \<open>UTF-8 encoding\<close>

definition validRune :: "nat \<Rightarrow> nat" where
  "validRune r = (if r > 0x10FFFF \<or> (0xD800 \<le> r \<and> r \<le> 0xDFFF) then runeError else r)"

definition encodeRune :: "nat \<Rightarrow> string" where
  "encodeRune r0 =
    (let r = validRune r0 in
     if r < 0x80 then [char_of r]
     else if r < 0x800 then [char_of (0xC0 + r div 64), char_of (0x80 + r mod 64)]
     else if r < 0x10000 then [char_of (0xE0 + r div 4096), char_of (0x80 + (r div 64) mod 64), char_of (0x80 + r mod 64)]
     else [char_of (0xF0 + r div 262144), char_of (0x80 + (r div 4096) mod 64),
       char_of (0x80 + (r div 64) mod 64), char_of (0x80 + r mod 64)])"

lemma byteVal_char_of: "(n::nat) < 256 \<Longrightarrow> byteVal (char_of n) = n"
  by (simp add: byteVal_def of_char_of)

lemma encodeRune_ascii:
  assumes "c \<in> set (encodeRune r0)" "byteVal c < 0x80" shows "r0 = byteVal c"
proof -
  define r where "r = validRune r0"
  have lim: "r \<le> 0x10FFFF" by (auto simp: r_def validRune_def runeError_def)
  have hi: "\<not> byteVal (char_of (0x80 + n)) < 0x80" if "n < 0x80" for n :: nat
    using that by (simp add: byteVal_char_of)
  have m: "(x mod 64 :: nat) < 0x80" for x by (rule less_trans[OF mod_less_divisor]) simp_all
  have d: "r < 0x800 \<Longrightarrow> 0x40 + r div 64 < 0x80" "r < 0x10000 \<Longrightarrow> 0x60 + r div 4096 < 0x80"
    "0x70 + r div 262144 < 0x80"
    using lim by (simp_all add: div_less_iff_less_mult less_mult_imp_div_less)
  have c: "c \<in> set (if r < 0x80 then [char_of r]
     else if r < 0x800 then [char_of (0x80 + (0x40 + r div 64)), char_of (0x80 + r mod 64)]
     else if r < 0x10000 then [char_of (0x80 + (0x60 + r div 4096)), char_of (0x80 + (r div 64) mod 64), char_of (0x80 + r mod 64)]
     else [char_of (0x80 + (0x70 + r div 262144)), char_of (0x80 + (r div 4096) mod 64),
       char_of (0x80 + (r div 64) mod 64), char_of (0x80 + r mod 64)])"
    using assms(1) by (auto simp: encodeRune_def Let_def r_def[symmetric] split: if_splits)
  have "r < 0x80 \<and> c = char_of r"
    using c assms(2) hi[OF m] hi[OF d(1)] hi[OF d(2)] hi[OF d(3)] by (auto split: if_splits)
  then have "r = byteVal c" by (simp add: byteVal_char_of)
  moreover have "r \<noteq> runeError" using calculation assms(2) by (simp add: runeError_def)
  ultimately show ?thesis by (auto simp: r_def validRune_def split: if_splits)
qed

lemma encodeRune_neq_Nil [simp]: "encodeRune r \<noteq> []"
  by (simp add: encodeRune_def Let_def)

section \<open>Trimming white space\<close>

text \<open>The runes of \<^verbatim>\<open>unicode.IsSpace\<close>, by their encodings. UTF-8 is self-synchronising, so a
  string starts (ends) with such a rune exactly when it starts (ends) with its encoding.\<close>

definition spaceRunes :: "nat list" where
  "spaceRunes = [0x09, 0x0A, 0x0B, 0x0C, 0x0D, 0x20, 0x85, 0xA0, 0x1680, 0x2000, 0x2001, 0x2002, 0x2003, 0x2004,
     0x2005, 0x2006, 0x2007, 0x2008, 0x2009, 0x200A, 0x2028, 0x2029, 0x202F, 0x205F, 0x3000]"

definition spaceEncs :: "string list" where
  "spaceEncs = map encodeRune spaceRunes"

lemma spaceEncs_code [code]: "spaceEncs = [[CHR 0x09], [CHR 0x0A], [CHR 0x0B], [CHR 0x0C], [CHR 0x0D], [CHR 0x20],
  [CHR 0xC2, CHR 0x85], [CHR 0xC2, CHR 0xA0], [CHR 0xE1, CHR 0x9A, CHR 0x80],
  [CHR 0xE2, CHR 0x80, CHR 0x80], [CHR 0xE2, CHR 0x80, CHR 0x81], [CHR 0xE2, CHR 0x80, CHR 0x82], [CHR 0xE2, CHR 0x80, CHR 0x83],
  [CHR 0xE2, CHR 0x80, CHR 0x84], [CHR 0xE2, CHR 0x80, CHR 0x85], [CHR 0xE2, CHR 0x80, CHR 0x86], [CHR 0xE2, CHR 0x80, CHR 0x87],
  [CHR 0xE2, CHR 0x80, CHR 0x88], [CHR 0xE2, CHR 0x80, CHR 0x89], [CHR 0xE2, CHR 0x80, CHR 0x8A], [CHR 0xE2, CHR 0x80, CHR 0xA8],
  [CHR 0xE2, CHR 0x80, CHR 0xA9], [CHR 0xE2, CHR 0x80, CHR 0xAF], [CHR 0xE2, CHR 0x81, CHR 0x9F], [CHR 0xE3, CHR 0x80, CHR 0x80]]"
  by (simp add: spaceEncs_def spaceRunes_def encodeRune_def validRune_def Let_def char_of_def bit_0)

function trimSpaceLeft :: "string \<Rightarrow> string" where
  "trimSpaceLeft s = (case find (\<lambda>p. p \<noteq> [] \<and> hasPrefix s p) spaceEncs of
      None \<Rightarrow> s
    | Some p \<Rightarrow> trimSpaceLeft (drop (length p) s))"
  by pat_completeness auto
termination
  by (relation "measure length") (auto simp: find_Some_iff hasPrefix_iff)

function trimSpaceRight :: "string \<Rightarrow> string" where
  "trimSpaceRight s = (case find (\<lambda>p. p \<noteq> [] \<and> hasSuffix s p) spaceEncs of
      None \<Rightarrow> s
    | Some p \<Rightarrow> trimSpaceRight (take (length s - length p) s))"
  by pat_completeness auto
termination
  by (relation "measure length") (auto simp: find_Some_iff hasSuffix_iff)

declare trimSpaceLeft.simps [simp del] trimSpaceRight.simps [simp del]

definition trimSpace :: "string \<Rightarrow> string" where
  "trimSpace s = trimSpaceRight (trimSpaceLeft s)"

lemma trimSpaceLeft_suffix: "\<exists>t. s = t @ trimSpaceLeft s"
proof (induction s rule: trimSpaceLeft.induct)
  case (1 s)
  show ?case
  proof (cases "find (\<lambda>p. p \<noteq> [] \<and> hasPrefix s p) spaceEncs")
    case None
    then show ?thesis by (subst trimSpaceLeft.simps) simp
  next
    case (Some p)
    then obtain t where "drop (length p) s = t @ trimSpaceLeft (drop (length p) s)" using 1 by blast
    then have "s = take (length p) s @ t @ trimSpaceLeft (drop (length p) s)" by (metis append_take_drop_id)
    moreover have "trimSpaceLeft s = trimSpaceLeft (drop (length p) s)"
      using Some by (subst trimSpaceLeft.simps) simp
    ultimately show ?thesis by (metis append.assoc)
  qed
qed

lemma trimSpaceRight_prefix: "\<exists>t. s = trimSpaceRight s @ t"
proof (induction s rule: trimSpaceRight.induct)
  case (1 s)
  show ?case
  proof (cases "find (\<lambda>p. p \<noteq> [] \<and> hasSuffix s p) spaceEncs")
    case None
    then show ?thesis by (subst trimSpaceRight.simps) simp
  next
    case (Some p)
    let ?k = "length s - length p"
    obtain t where t: "take ?k s = trimSpaceRight (take ?k s) @ t" using 1[OF Some] by blast
    have "s = take ?k s @ drop ?k s" by simp
    also have "\<dots> = trimSpaceRight (take ?k s) @ t @ drop ?k s" by (subst t) simp
    moreover have "trimSpaceRight s = trimSpaceRight (take ?k s)"
      using Some by (subst trimSpaceRight.simps) simp
    ultimately show ?thesis by metis
  qed
qed

lemma set_trimSpace: "set (trimSpace s) \<subseteq> set s"
proof -
  obtain t u where "s = t @ trimSpaceLeft s" "trimSpaceLeft s = trimSpace s @ u"
    using trimSpaceLeft_suffix trimSpaceRight_prefix unfolding trimSpace_def by metis
  then have "s = t @ trimSpace s @ u" by simp
  then have "set s = set t \<union> set (trimSpace s) \<union> set u" by (metis set_append Un_assoc)
  then show ?thesis by blast
qed

section \<open>Lower case\<close>

definition lowerASCII :: "char \<Rightarrow> char" where
  "lowerASCII c = (if inRange 0x41 0x5A c then char_of (byteVal c + 32) else c)"

text \<open>\<^verbatim>\<open>strings.ToLower\<close>: byte by byte on ASCII, otherwise rune by rune with the mapping of the
  Unicode tables, which is a parameter.\<close>

definition toLower :: "(nat \<Rightarrow> nat) \<Rightarrow> string \<Rightarrow> string" where
  "toLower lr s =
    (if list_all (\<lambda>c. byteVal c < 0x80) s then map lowerASCII s
     else concat (map (\<lambda>r. encodeRune (lr r)) (runes s)))"

lemma toLower_ascii: "list_all (\<lambda>c. byteVal c < 0x80) s \<Longrightarrow> toLower lr s = map lowerASCII s"
  by (simp add: toLower_def)

section \<open>Searching\<close>

text \<open>\<^verbatim>\<open>strings.Index\<close>: the first position at which the needle occurs.\<close>

fun indexStr :: "string \<Rightarrow> string \<Rightarrow> nat option" where
  "indexStr [] p = (if p = [] then Some 0 else None)"
| "indexStr (c # s) p = (if hasPrefix (c # s) p then Some 0 else map_option Suc (indexStr s p))"

lemma indexStr_Some: "indexStr s p = Some i \<Longrightarrow> i \<le> length s \<and> hasPrefix (drop i s) p"
  by (induction s arbitrary: i) (auto split: if_splits)

lemma indexStr_first: "indexStr s p = Some i \<Longrightarrow> j < i \<Longrightarrow> \<not> hasPrefix (drop j s) p"
proof (induction s arbitrary: i j)
  case (Cons c s)
  then show ?case by (cases j) (auto split: if_splits)
qed (simp split: if_splits)

lemma indexStr_None: "indexStr s p = None \<longleftrightarrow> (\<forall>i \<le> length s. \<not> hasPrefix (drop i s) p)"
proof (induction s)
  case (Cons c s)
  have "(\<forall>i \<le> length (c # s). \<not> hasPrefix (drop i (c # s)) p) \<longleftrightarrow>
      \<not> hasPrefix (c # s) p \<and> (\<forall>i \<le> length s. \<not> hasPrefix (drop i s) p)"
    by (metis Suc_le_mono drop0 drop_Suc_Cons le0 length_Cons not0_implies_Suc)
  with Cons show ?case by simp
qed simp

definition contains :: "string \<Rightarrow> string \<Rightarrow> bool" where
  "contains s p = (indexStr s p \<noteq> None)"

lemma contains_mid: "contains (a @ p @ b) p"
proof -
  have "hasPrefix (drop (length a) (a @ p @ b)) p" by (simp add: hasPrefix_iff)
  moreover have "length a \<le> length (a @ p @ b)" by simp
  ultimately show ?thesis unfolding contains_def using indexStr_None by blast
qed

section \<open>Decimal numbers\<close>

fun decDigits :: "nat \<Rightarrow> string" where
  "decDigits n = (if n < 10 then [char_of (48 + n)] else decDigits (n div 10) @ [char_of (48 + n mod 10)])"

declare decDigits.simps [simp del]

definition formatInt :: "int \<Rightarrow> string" where
  "formatInt n = (if n < 0 then CHR ''-'' # decDigits (nat (- n)) else decDigits (nat n))"

lemma digit_char: "n < 10 \<Longrightarrow> isDigitByte (char_of (48 + n :: nat))"
  by (simp add: isDigitByte_def inRange_def byteVal_def of_char_of)

lemma decDigits_digits: "list_all isDigitByte (decDigits n)" "decDigits n \<noteq> []"
proof -
  show "list_all isDigitByte (decDigits n)"
  proof (induction n rule: decDigits.induct)
    case (1 n)
    then show ?case by (subst decDigits.simps) (auto simp: digit_char)
  qed
  show "decDigits n \<noteq> []" by (subst decDigits.simps) simp
qed

lemma formatInt_chars: "c \<in> set (formatInt n) \<Longrightarrow> isDigitByte c \<or> c = CHR ''-''"
  using decDigits_digits(1) by (auto simp: formatInt_def list_all_iff split: if_splits)

section \<open>Maps with string keys\<close>

text \<open>A Go map is an association list without repeated keys; its order stands for the unspecified
  iteration order.\<close>

type_synonym 'v gomap = "(string \<times> 'v) list"

definition mapOK :: "'v gomap \<Rightarrow> bool" where
  "mapOK m = distinct (map fst m)"

text \<open>\<^verbatim>\<open>sort.Strings\<close> on the collected keys.\<close>

definition sortedKeys :: "'v gomap \<Rightarrow> string list" where
  "sortedKeys m = sort (map fst m)"

lemma set_sortedKeys [simp]: "set (sortedKeys m) = fst ` set m"
  by (simp add: sortedKeys_def)

text \<open>Two orders of one map have the same sorted keys and the same lookups.\<close>

lemma gomap_perm:
  assumes "mapOK m" "mapOK m'" "set m = set m'"
  shows "sortedKeys m = sortedKeys m'" "map_of m = map_of m'"
proof -
  have k: "set (map fst m) = set (map fst m')" using assms(3) by simp
  then show "sortedKeys m = sortedKeys m'"
    using assms(1,2) unfolding sortedKeys_def mapOK_def by (metis sorted_distinct_set_unique distinct_sort set_sort sorted_sort)
  show "map_of m = map_of m'"
    using assms unfolding mapOK_def by (metis map_of_inject_set)
qed

text \<open>\<^verbatim>\<open>out[k] = v\<close> on a map.\<close>

fun setKey :: "string \<Rightarrow> 'v \<Rightarrow> 'v gomap \<Rightarrow> 'v gomap" where
  "setKey k v [] = [(k, v)]"
| "setKey k v ((k', v') # m) = (if k' = k then (k, v) # m else (k', v') # setKey k v m)"

lemma setKey_lookup: "map_of (setKey k v m) = (map_of m)(k \<mapsto> v)"
  by (induction k v m rule: setKey.induct) auto

lemma setKey_keys: "fst ` set (setKey k v m) = insert k (fst ` set m)"
  by (induction k v m rule: setKey.induct) auto

lemma mapOK_setKey: "mapOK m \<Longrightarrow> mapOK (setKey k v m)"
  unfolding mapOK_def
proof (induction k v m rule: setKey.induct)
  case (2 k v k' v' m)
  then show ?case using setKey_keys[of k v m] by (auto simp: image_iff)
qed simp

text \<open>\<^verbatim>\<open>delete(m, k)\<close>.\<close>

definition delKey :: "string \<Rightarrow> 'v gomap \<Rightarrow> 'v gomap" where
  "delKey k m = filter (\<lambda>(k', _). k' \<noteq> k) m"

lemma delKey_lookup: "map_of (delKey k m) = (map_of m)(k := None)"
  unfolding delKey_def by (induction m) (auto simp: fun_eq_iff)

lemma delKey_keys: "fst ` set (delKey k m) = fst ` set m - {k}"
  by (force simp: delKey_def)

lemma mapOK_delKey: "mapOK m \<Longrightarrow> mapOK (delKey k m)"
  unfolding mapOK_def delKey_def by (induction m) (auto simp: image_iff)

end
