(* ===== verification/SvelteRuntime.thy ===== *)
theory SvelteRuntime
  imports Escape GoText
begin

text \<open>
  Values and attributes of the Svelte server runtime, \<^verbatim>\<open>runtime/svelte/server\<close>
  (\<^verbatim>\<open>stringify.go\<close>, \<^verbatim>\<open>escape.go\<close>, \<^verbatim>\<open>tables.go\<close>, \<^verbatim>\<open>attr.go\<close>, \<^verbatim>\<open>raw.go\<close>), and the
  writer of the \<^verbatim>\<open>render\<close> package. A Go \<^verbatim>\<open>any\<close> is a datatype with one constructor per
  dynamic type the code distinguishes. Floating-point numbers are a type parameter; what the code
  does with them and the verb \<^verbatim>\<open>%v\<close> of \<^verbatim>\<open>fmt\<close> are a parameter record.
\<close>

section \<open>Dynamic values\<close>

datatype intKind = KInt | KInt8 | KInt16 | KInt32 | KInt64 | KUint | KUint8 | KUint16 | KUint32 | KUint64

text \<open>\<open>GObj\<close> is a value of any other type: what its \<^verbatim>\<open>Error\<close> and \<^verbatim>\<open>String\<close> methods return
  if it has them, what \<^verbatim>\<open>%v\<close> prints, and whether it is a nil pointer, map, slice, channel or
  function.\<close>

datatype 'f goval =
    GNil
  | GString string
  | GBool bool
  | GInt intKind int
  | GFloat32 'f
  | GFloat64 'f
  | GBytes string
  | GSlice "'f goval list"
  | GStrings "string list"
  | GInts "int list"
  | GMaps "'f goval gomap list"
  | GMap "'f goval gomap"
  | GMapBool "bool gomap"
  | GObj "string option" "string option" string bool

record 'f goFmt =
  ff_zero :: "'f \<Rightarrow> bool"
  ff_int :: "'f \<Rightarrow> int option"
  ff_g64 :: "'f \<Rightarrow> string"
  ff_g32 :: "'f \<Rightarrow> string"
  ff_v :: "'f goval \<Rightarrow> string"

section \<open>Conversion to text\<close>

text \<open>\<^verbatim>\<open>ff_int\<close> answers the integer when the test of the source holds: the number equals its
  truncation to \<^verbatim>\<open>int64\<close> and lies between the two bounds.\<close>

definition formatFloatJS :: "'f goFmt \<Rightarrow> 'f \<Rightarrow> string" where
  "formatFloatJS F x = (case ff_int F x of Some n \<Rightarrow> formatInt n | None \<Rightarrow> ff_g64 F x)"

definition fallbackStringify :: "'f goval \<Rightarrow> string" where
  "fallbackStringify v = (case v of
      GString s \<Rightarrow> s
    | GObj _ (Some s) _ _ \<Rightarrow> s
    | _ \<Rightarrow> ''[object Object]'')"

definition Stringify :: "'f goFmt \<Rightarrow> 'f goval \<Rightarrow> string" where
  "Stringify F v = (case v of
      GNil \<Rightarrow> []
    | GString s \<Rightarrow> s
    | GBool b \<Rightarrow> (if b then ''true'' else ''false'')
    | GInt _ n \<Rightarrow> formatInt n
    | GFloat32 x \<Rightarrow> formatFloatJS F x
    | GFloat64 x \<Rightarrow> formatFloatJS F x
    | GBytes s \<Rightarrow> s
    | GObj _ (Some s) _ _ \<Rightarrow> s
    | _ \<Rightarrow> fallbackStringify v)"

definition EscapeHTML :: "'f goFmt \<Rightarrow> 'f goval \<Rightarrow> string" where
  "EscapeHTML F v = escapeAttrOrContent (Stringify F v) False"

definition EscapeHTMLAttr :: "'f goFmt \<Rightarrow> 'f goval \<Rightarrow> string" where
  "EscapeHTMLAttr F v = escapeAttrOrContent (Stringify F v) True"

section \<open>Truthiness\<close>

definition isJSFalsy :: "'f goFmt \<Rightarrow> 'f goval \<Rightarrow> bool" where
  "isJSFalsy F v = (case v of
      GNil \<Rightarrow> True
    | GBool b \<Rightarrow> \<not> b
    | GString s \<Rightarrow> s = []
    | GInt k n \<Rightarrow> (if k = KInt \<or> k = KInt64 then n = 0 else False)
    | GFloat64 x \<Rightarrow> ff_zero F x
    | _ \<Rightarrow> False)"

definition isJSTruthy :: "'f goFmt \<Rightarrow> 'f goval \<Rightarrow> bool" where
  "isJSTruthy F v = (\<not> isJSFalsy F v)"

text \<open>\<^verbatim>\<open>Truthy\<close> of \<^verbatim>\<open>raw.go\<close>. For a type without a case of its own reflection looks at a nil
  reference; slices of strings, of integers and of maps and the map of booleans are nil exactly
  when the literal is, which the model does not distinguish from empty: they are non-nil here.\<close>

definition Truthy :: "'f goFmt \<Rightarrow> 'f goval \<Rightarrow> bool" where
  "Truthy F v = (case v of
      GNil \<Rightarrow> False
    | GBool b \<Rightarrow> b
    | GString s \<Rightarrow> s \<noteq> []
    | GInt _ n \<Rightarrow> n \<noteq> 0
    | GFloat32 x \<Rightarrow> \<not> ff_zero F x
    | GFloat64 x \<Rightarrow> \<not> ff_zero F x
    | GBytes s \<Rightarrow> length s > 0
    | GSlice xs \<Rightarrow> length xs > 0
    | GMap m \<Rightarrow> length m > 0
    | GObj _ _ _ nilRef \<Rightarrow> \<not> nilRef
    | _ \<Rightarrow> True)"

section \<open>Tables\<close>

definition booleanAttrs :: "string list" where
  "booleanAttrs = [''allowfullscreen'', ''async'', ''autofocus'', ''autoplay'', ''checked'', ''controls'',
     ''default'', ''disabled'', ''formnovalidate'', ''hidden'', ''indeterminate'', ''inert'', ''ismap'',
     ''loop'', ''multiple'', ''muted'', ''nomodule'', ''novalidate'', ''open'', ''playsinline'', ''readonly'',
     ''required'', ''reversed'', ''seamless'', ''selected'', ''webkitdirectory'', ''defer'',
     ''disablepictureinpicture'', ''disableremoteplayback'']"

definition voidElements :: "string list" where
  "voidElements = [''area'', ''base'', ''br'', ''col'', ''embed'', ''hr'', ''img'', ''input'', ''link'',
     ''meta'', ''param'', ''source'', ''track'', ''wbr'']"

definition rawTextElements :: "string list" where
  "rawTextElements = [''script'', ''style'']"

definition isBooleanAttribute :: "string \<Rightarrow> bool" where
  "isBooleanAttribute name = (name \<in> set booleanAttrs)"

definition IsVoidElement :: "string \<Rightarrow> bool" where
  "IsVoidElement tag = (tag \<in> set voidElements)"

definition IsRawTextElement :: "string \<Rightarrow> bool" where
  "IsRawTextElement tag = (tag \<in> set rawTextElements)"

section \<open>Attributes\<close>

definition Attr :: "'f goFmt \<Rightarrow> string \<Rightarrow> 'f goval \<Rightarrow> bool \<Rightarrow> string" where
  "Attr F name value isBoolean0 =
    (let isBoolean = (if name = ''hidden'' then
           (case value of GString s \<Rightarrow> if s = ''until-found'' then isBoolean0 else True | _ \<Rightarrow> True)
         else isBoolean0)
     in if value = GNil then []
        else if isBoolean \<and> isJSFalsy F value then []
        else let normalized = (if name = ''translate'' then
               (case value of GBool b \<Rightarrow> GString (if b then ''yes'' else ''no'') | _ \<Rightarrow> value) else value)
             in if isBoolean then '' '' @ name @ ''='' @ [CHR 0x22, CHR 0x22]
                else '' '' @ name @ ''='' @ [CHR 0x22] @ EscapeHTMLAttrString (Stringify F normalized) @ [CHR 0x22])"

text \<open>The tokens are separated by one space, which is written when the buffer is not empty.\<close>

definition addToken :: "string \<Rightarrow> string \<Rightarrow> string" where
  "addToken b t = (if b \<noteq> [] then b @ '' '' @ t else t)"

fun appendClsx :: "'f goFmt \<Rightarrow> string \<Rightarrow> 'f goval \<Rightarrow> string" where
  "appendClsx F b GNil = b"
| "appendClsx F b (GString s) = (if s = [] then b else addToken b s)"
| "appendClsx F b (GSlice xs) = foldl (\<lambda>b e. appendClsx F b e) b xs"
| "appendClsx F b (GStrings xs) = foldl (\<lambda>b e. if e = [] then b else addToken b e) b xs"
| "appendClsx F b (GMap m) = foldl (\<lambda>b k. case map_of m k of
      Some v \<Rightarrow> if isJSTruthy F v then addToken b k else b | None \<Rightarrow> b) b (sortedKeys m)"
| "appendClsx F b (GMapBool m) = foldl (\<lambda>b k. if map_of m k = Some True then addToken b k else b) b (sortedKeys m)"
| "appendClsx F b (GBool x) = b"
| "appendClsx F b v = (let s = Stringify F v in if s = [] then b else addToken b s)"

definition clsxValue :: "'f goFmt \<Rightarrow> 'f goval \<Rightarrow> string" where
  "clsxValue F v = (case v of
      GNil \<Rightarrow> []
    | GString s \<Rightarrow> s
    | GBool _ \<Rightarrow> Stringify F v
    | GInt _ _ \<Rightarrow> Stringify F v
    | GFloat32 _ \<Rightarrow> Stringify F v
    | GFloat64 _ \<Rightarrow> Stringify F v
    | GSlice _ \<Rightarrow> appendClsx F [] v
    | GStrings xs \<Rightarrow> foldl (\<lambda>b s. if s = [] then b else addToken b s) [] xs
    | GMap _ \<Rightarrow> appendClsx F [] v
    | GMapBool _ \<Rightarrow> appendClsx F [] v
    | _ \<Rightarrow> [])"

definition Clsx :: "'f goFmt \<Rightarrow> 'f goval list \<Rightarrow> string" where
  "Clsx F args = (case args of
      [] \<Rightarrow> []
    | [a] \<Rightarrow> clsxValue F a
    | _ \<Rightarrow> foldl (\<lambda>b a. appendClsx F b a) [] args)"

definition MergeStyles :: "'f goFmt \<Rightarrow> 'f goval list \<Rightarrow> string" where
  "MergeStyles F args = foldl (\<lambda>b a.
     let s = trimSpace (Stringify F a) in
     if s = [] then b
     else let s' = trimRight s '';'' in
       if s' = [] then b else (if b \<noteq> [] then b @ '' '' else b) @ s' @ '';'') [] args"

definition badAttrRune :: "nat \<Rightarrow> bool" where
  "badAttrRune r =
    (r \<in> {0x20, 0x09, 0x0A, 0x0D, 0x0C, 0x27, 0x22, 0x3E, 0x2F, 0x3D} \<or>
     (0xFDD0 \<le> r \<and> r \<le> 0xFDEF) \<or>
     (r \<ge> 0xFFFE \<and> (r mod 0x10000 = 0xFFFE \<or> r mod 0x10000 = 0xFFFF)))"

definition isValidAttrName :: "string \<Rightarrow> bool" where
  "isValidAttrName name = (if name = [] then False else list_all (\<lambda>r. \<not> badAttrRune r) (runes name))"

definition SpreadAttributes :: "'f goFmt \<Rightarrow> (nat \<Rightarrow> nat) \<Rightarrow> 'f goval gomap \<Rightarrow> string" where
  "SpreadAttributes F lr props =
    (if length props = 0 then []
     else foldl (\<lambda>b name.
       if length name \<ge> 2 \<and> name ! 0 = CHR ''$'' \<and> name ! 1 = CHR ''$'' then b
       else if \<not> isValidAttrName name then b
       else let lower = toLower lr name in
         if length lower > 2 \<and> hasPrefix lower ''on'' then b
         else let v0 = (case map_of props name of Some v \<Rightarrow> v | None \<Rightarrow> GNil);
                  v = (if name = ''class'' then GString (clsxValue F v0) else v0)
              in b @ Attr F lower v (isBooleanAttribute lower)) [] (sortedKeys props))"

section \<open>The writer of the render package\<close>

type_synonym Writer = string

definition WriteString :: "Writer \<Rightarrow> string \<Rightarrow> Writer" where
  "WriteString w s = w @ s"

definition WriteRawString :: "Writer \<Rightarrow> string \<Rightarrow> Writer" where
  "WriteRawString w s = w @ s"

definition WriteRawBytes :: "Writer \<Rightarrow> string \<Rightarrow> Writer" where
  "WriteRawBytes w p = w @ p"

definition WriteEscape :: "'f goFmt \<Rightarrow> Writer \<Rightarrow> 'f goval \<Rightarrow> Writer" where
  "WriteEscape F w v = (case v of
      GNil \<Rightarrow> w
    | GString s \<Rightarrow> appendEscapeText w s
    | GBytes s \<Rightarrow> appendEscapeText w s
    | GInt _ n \<Rightarrow> w @ formatInt n
    | GFloat32 x \<Rightarrow> w @ ff_g32 F x
    | GFloat64 x \<Rightarrow> w @ ff_g64 F x
    | GBool b \<Rightarrow> w @ (if b then ''true'' else ''false'')
    | GObj (Some e) _ _ _ \<Rightarrow> appendEscapeText w e
    | GObj None (Some s) _ _ \<Rightarrow> appendEscapeText w s
    | _ \<Rightarrow> appendEscapeTextBytes w (ff_v F v))"

definition WriteEscapeAttr :: "'f goFmt \<Rightarrow> Writer \<Rightarrow> 'f goval \<Rightarrow> Writer" where
  "WriteEscapeAttr F w v = (case v of
      GNil \<Rightarrow> w
    | GString s \<Rightarrow> appendEscapeAttr w s
    | GBytes s \<Rightarrow> appendEscapeAttr w s
    | GInt _ n \<Rightarrow> w @ formatInt n
    | GFloat32 x \<Rightarrow> w @ ff_g32 F x
    | GFloat64 x \<Rightarrow> w @ ff_g64 F x
    | GBool b \<Rightarrow> w @ (if b then ''true'' else ''false'')
    | GObj (Some e) _ _ _ \<Rightarrow> appendEscapeAttr w e
    | GObj None (Some s) _ _ \<Rightarrow> appendEscapeAttr w s
    | _ \<Rightarrow> appendEscapeAttrBytes w (ff_v F v))"

text \<open>\<^verbatim>\<open>WriteJSON\<close>: the encoder is a parameter, with its error or the bytes it writes; one
  trailing newline of the buffer is cut.\<close>

definition WriteJSON :: "('v \<Rightarrow> ('e, string) result) \<Rightarrow> Writer \<Rightarrow> 'v \<Rightarrow> Writer \<times> 'e option" where
  "WriteJSON enc w v = (case enc v of
      Inl e \<Rightarrow> (w, Some e)
    | Inr bs \<Rightarrow>
       (let b = w @ bs in
        (if b \<noteq> [] \<and> last b = CHR 0x0A then butlast b else b, None)))"

text \<open>\<^verbatim>\<open>Reset\<close> and \<^verbatim>\<open>FlushTo\<close> on the buffer contents. \<^verbatim>\<open>FlushTo\<close> takes what the
  destination answers to the write and returns the buffer afterwards with the error or the bytes
  that were sent; a nil writer or destination does nothing.\<close>

definition ResetWriter :: "Writer \<Rightarrow> Writer" where
  "ResetWriter w = []"

definition FlushTo :: "'e option \<Rightarrow> Writer \<Rightarrow> Writer \<times> ('e, string) result" where
  "FlushTo writeErr w =
    (if length w > 0 then
       (case writeErr of Some e \<Rightarrow> (w, Inl e) | None \<Rightarrow> ([], Inr w))
     else (w, Inr []))"

end
