(* ===== verification/SvelteFacts.thy ===== *)
theory SvelteFacts
  imports SvelteRuntime
begin

text \<open>
  What the attribute functions guarantee: spread attributes are a list of attributes whose names
  and values cannot end the tag, whatever the values hold; the result does not depend on the
  iteration order of the map; the writer keeps its output inside the text context.
\<close>

section \<open>Attribute lists\<close>

definition nameByteOK :: "char \<Rightarrow> bool" where
  "nameByteOK c = (c \<notin> set [CHR '' '', CHR 0x09, CHR 0x0A, CHR 0x0D, CHR 0x0C, CHR 0x27, CHR 0x22, CHR ''>'', CHR ''/'', CHR ''=''])"

definition attrText :: "string \<Rightarrow> string \<Rightarrow> string" where
  "attrText n v = '' '' @ n @ ''='' @ [CHR 0x22] @ v @ [CHR 0x22]"

definition attrOK :: "string \<times> string \<Rightarrow> bool" where
  "attrOK nv = (case nv of (n, v) \<Rightarrow> n \<noteq> [] \<and> list_all nameByteOK n \<and>
     list_all (\<lambda>c. c \<noteq> CHR 0x22 \<and> c \<noteq> CHR ''<'') v \<and> \<not> (length n > 2 \<and> hasPrefix n ''on''))"

definition attrList :: "string \<Rightarrow> bool" where
  "attrList s = (\<exists>nvs. s = concat (map (\<lambda>(n, v). attrText n v) nvs) \<and> list_all attrOK nvs)"

lemma attrList_Nil [simp]: "attrList []"
  unfolding attrList_def by (intro exI[of _ "[]"]) simp

lemma attrList_append: "attrList a \<Longrightarrow> attrList b \<Longrightarrow> attrList (a @ b)"
proof -
  assume "attrList a" "attrList b"
  then obtain xs ys where "a = concat (map (\<lambda>(n, v). attrText n v) xs)" "list_all attrOK xs"
    "b = concat (map (\<lambda>(n, v). attrText n v) ys)" "list_all attrOK ys"
    unfolding attrList_def by blast
  then show "attrList (a @ b)" unfolding attrList_def by (intro exI[of _ "xs @ ys"]) simp
qed

lemma escapedValue: "list_all (\<lambda>c. c \<noteq> CHR 0x22 \<and> c \<noteq> CHR ''<'') (EscapeHTMLAttrString s)"
  using content_esc.escape_safe[of _ s True] by (auto simp: EscapeHTMLAttrString_def list_all_iff contentSpecial_def)

lemma Attr_list:
  assumes "n \<noteq> []" "list_all nameByteOK n" "\<not> (length n > 2 \<and> hasPrefix n ''on'')"
  shows "attrList (Attr F n v b)"
proof -
  have one: "attrList (attrText n x)" if "list_all (\<lambda>c. c \<noteq> CHR 0x22 \<and> c \<noteq> CHR ''<'') x" for x
    unfolding attrList_def using assms that by (intro exI[of _ "[(n, x)]"]) (simp add: attrOK_def)
  have "Attr F n v b = [] \<or> (\<exists>x. Attr F n v b = attrText n x \<and> list_all (\<lambda>c. c \<noteq> CHR 0x22 \<and> c \<noteq> CHR ''<'') x)"
    unfolding Attr_def Let_def attrText_def using escapedValue by (auto split: if_splits intro: exI[of _ "[]"])
  then show ?thesis using one by auto
qed

lemma nameByteOK_valid:
  assumes "isValidAttrName name" "c \<in> set name" shows "nameByteOK c"
proof (rule ccontr)
  assume "\<not> nameByteOK c"
  then have b: "byteVal c < 0x80" "badAttrRune (byteVal c)"
    by (auto simp: nameByteOK_def byteVal_def badAttrRune_def)
  have "byteVal c \<in> set (runes name)" using assms(2) b(1) by (rule runes_ascii_mem)
  then show False using assms(1) b(2) by (auto simp: isValidAttrName_def list_all_iff split: if_splits)
qed

lemma toLower_name:
  assumes "isValidAttrName name" "\<And>r. \<not> badAttrRune r \<Longrightarrow> \<not> badAttrRune (lr r)"
  shows "list_all nameByteOK (toLower lr name)" "toLower lr name \<noteq> []"
proof -
  have ne: "name \<noteq> []" and ok: "\<And>r. r \<in> set (runes name) \<Longrightarrow> \<not> badAttrRune r"
    using assms(1) by (auto simp: isValidAttrName_def list_all_iff split: if_splits)
  then show "toLower lr name \<noteq> []" by (cases "runes name") (auto simp: toLower_def)
  show "list_all nameByteOK (toLower lr name)"
  proof (cases "list_all (\<lambda>c. byteVal c < 0x80) name")
    case True
    have "nameByteOK (lowerASCII c)" if "nameByteOK c" for c
      using that by (cases "inRange 0x41 0x5A c")
        (auto simp: lowerASCII_def nameByteOK_def inRange_def byteVal_def of_char_of dest!: arg_cong[where f = byteVal])
    then show ?thesis using True nameByteOK_valid[OF assms(1)] by (simp add: toLower_ascii list_all_iff)
  next
    case False
    have "nameByteOK c" if "c \<in> set (encodeRune (lr r))" "r \<in> set (runes name)" for c r
    proof (rule ccontr)
      assume "\<not> nameByteOK c"
      then have b: "byteVal c < 0x80" "badAttrRune (byteVal c)"
        by (auto simp: nameByteOK_def byteVal_def badAttrRune_def)
      then have "lr r = byteVal c" using encodeRune_ascii[OF that(1)] by simp
      then show False using assms(2)[OF ok[OF that(2)]] b(2) by simp
    qed
    then show ?thesis using False by (auto simp: toLower_def list_all_iff)
  qed
qed

lemma foldl_attrList:
  assumes "\<And>b n. attrList b \<Longrightarrow> n \<in> set ns \<Longrightarrow> attrList (f b n)" "attrList b"
  shows "attrList (foldl f b ns)"
  using assms by (induction ns arbitrary: b) simp_all

text \<open>Spread attributes cannot break out of the tag: for every property map the result is a
  list of attributes, each a space, a name without white space, quotes, slash, equals sign or
  greater-than sign, and a double-quoted value without a double quote or less-than sign, and none
  of them is an event handler. The lower-casing of runes may not turn a permitted rune into a
  forbidden one, which holds of the Unicode tables.\<close>

theorem SpreadAttributes_confined:
  assumes "\<And>r. \<not> badAttrRune r \<Longrightarrow> \<not> badAttrRune (lr r)"
  shows "attrList (SpreadAttributes F lr props)"
proof -
  have "attrList (foldl (\<lambda>b name.
       if length name \<ge> 2 \<and> name ! 0 = CHR ''$'' \<and> name ! 1 = CHR ''$'' then b
       else if \<not> isValidAttrName name then b
       else let lower = toLower lr name in
         if length lower > 2 \<and> hasPrefix lower ''on'' then b
         else let v0 = (case map_of props name of Some v \<Rightarrow> v | None \<Rightarrow> GNil);
                  v = (if name = ''class'' then GString (clsxValue F v0) else v0)
              in b @ Attr F lower v (isBooleanAttribute lower)) [] (sortedKeys props))"
    using toLower_name[OF _ assms]
    by (intro foldl_attrList) (auto simp: Let_def intro!: attrList_append Attr_list)
  then show ?thesis by (simp add: SpreadAttributes_def)
qed

definition intFmt :: "int goFmt" where
  "intFmt = \<lparr>ff_zero = (\<lambda>x. x = 0), ff_int = Some, ff_g64 = formatInt, ff_g32 = formatInt, ff_v = (\<lambda>_. ''?'')\<rparr>"

theorem SpreadAttributes_confined_witness:
  "attrList (SpreadAttributes intFmt id
     [(''title'', GString (''a'' @ [CHR 0x22] @ ''><script>'')), (''onclick'', GString ''x()'')])"
  by (rule SpreadAttributes_confined) simp

text \<open>The rendering of a property map does not depend on the order in which Go iterates over
  it.\<close>

theorem SpreadAttributes_deterministic:
  assumes "mapOK m" "mapOK m'" "set m = set m'"
  shows "SpreadAttributes F lr m = SpreadAttributes F lr m' \<and> Clsx F [GMap m] = Clsx F [GMap m']"
proof -
  have e: "sortedKeys m = sortedKeys m'" "map_of m = map_of m'" using gomap_perm[OF assms] by simp_all
  moreover have "length m = 0 \<longleftrightarrow> length m' = 0" using assms(3) by auto
  ultimately show ?thesis
    unfolding SpreadAttributes_def Clsx_def clsxValue_def list.case goval.case appendClsx.simps by (simp only: e)
qed

theorem SpreadAttributes_deterministic_witness:
  "SpreadAttributes intFmt id [(''b'', GBool True), (''a'', GInt KInt 1)] =
   SpreadAttributes intFmt id [(''a'', GInt KInt 1), (''b'', GBool True)]"
  by (rule SpreadAttributes_deterministic[THEN conjunct1]) (simp_all add: mapOK_def insert_commute)

text \<open>The two notions of truthiness agree on nil, booleans, strings and the integer and float
  types of the default sizes, and part ways on the sized ones: a zero of type \<^verbatim>\<open>int32\<close> is
  false for \<^const>\<open>Truthy\<close> but not for \<^const>\<open>isJSFalsy\<close>, so a boolean attribute with that value
  is rendered.\<close>

theorem falsy_divergence:
  "list_all (\<lambda>v. isJSTruthy F v = Truthy F v)
     [GNil, GBool b, GString s, GInt KInt n, GInt KInt64 n, GFloat64 x] \<and>
   \<not> Truthy F (GInt KInt32 0) \<and> isJSTruthy F (GInt KInt32 0) \<and>
   Attr F ''disabled'' (GInt KInt32 0) True = '' disabled='' @ [CHR 0x22, CHR 0x22]"
  by (simp add: isJSTruthy_def isJSFalsy_def Truthy_def Attr_def Let_def)

section \<open>The writer\<close>

text \<open>Numbers print without characters that matter to HTML, as \<^verbatim>\<open>strconv\<close> documents.\<close>

definition plainNumbers :: "'f goFmt \<Rightarrow> bool" where
  "plainNumbers F = (\<forall>x. list_all (\<lambda>c. \<not> textSpecial c) (ff_g64 F x) \<and> list_all (\<lambda>c. \<not> textSpecial c) (ff_g32 F x))"

lemma formatInt_plain: "list_all (\<lambda>c. \<not> textSpecial c) (formatInt n)"
  using formatInt_chars[of _ n]
  by (fastforce simp: list_all_iff textSpecial_def isDigitByte_def inRange_def byteVal_def)

text \<open>Writing a value of any dynamic type for text context appends to the buffer and adds no
  angle bracket and no quote.\<close>

theorem WriteEscape_confined:
  assumes "plainNumbers F"
  shows "\<exists>out. WriteEscape F w v = w @ out \<and>
    list_all (\<lambda>c. c \<noteq> CHR ''<'' \<and> c \<noteq> CHR ''>'' \<and> c \<noteq> CHR 0x22 \<and> c \<noteq> CHR 0x27) out"
proof -
  have esc: "\<exists>out. appendEscapeText w s = w @ out \<and>
      list_all (\<lambda>c. c \<noteq> CHR ''<'' \<and> c \<noteq> CHR ''>'' \<and> c \<noteq> CHR 0x22 \<and> c \<noteq> CHR 0x27) out" for s
    using text_esc.escape_safe[of _ s]
    by (intro exI[of _ "concat (map textRepl s)"])
      (auto simp: appendEscapeText_repl list_all_iff textSpecial_def)
  have twin: "appendEscapeTextBytes w s = appendEscapeText w s" for s
    by (simp add: appendEscapeTextBytes_def appendEscapeText_def indexTextSpecialBytes_def indexTextSpecial_def)
  have plain: "\<exists>out. w @ s = w @ out \<and>
      list_all (\<lambda>c. c \<noteq> CHR ''<'' \<and> c \<noteq> CHR ''>'' \<and> c \<noteq> CHR 0x22 \<and> c \<noteq> CHR 0x27) out"
    if "list_all (\<lambda>c. \<not> textSpecial c) s" for s
    using that by (intro exI[of _ s]) (auto simp: list_all_iff textSpecial_def)
  have nil: "\<exists>out. w = w @ out \<and>
      list_all (\<lambda>c. c \<noteq> CHR ''<'' \<and> c \<noteq> CHR ''>'' \<and> c \<noteq> CHR 0x22 \<and> c \<noteq> CHR 0x27) out"
    by (intro exI[of _ "[]"]) simp
  have bools: "list_all (\<lambda>c. \<not> textSpecial c) (if b then ''true'' else ''false'')" for b
    by (simp add: textSpecial_def)
  have fl: "list_all (\<lambda>c. \<not> textSpecial c) (ff_g64 F x)" "list_all (\<lambda>c. \<not> textSpecial c) (ff_g32 F x)" for x
    using assms by (simp_all add: plainNumbers_def)
  show ?thesis
    using nil esc plain[OF formatInt_plain] plain[OF bools] plain[OF fl(1)] plain[OF fl(2)]
    unfolding WriteEscape_def twin by (cases v) (simp_all split: option.split)
qed

theorem WriteEscape_confined_witness:
  "\<exists>out. WriteEscape intFmt ''<p>'' (GString ''<b>'') = ''<p>'' @ out \<and>
    list_all (\<lambda>c. c \<noteq> CHR ''<'' \<and> c \<noteq> CHR ''>'' \<and> c \<noteq> CHR 0x22 \<and> c \<noteq> CHR 0x27) out"
  by (rule WriteEscape_confined) (simp add: plainNumbers_def intFmt_def formatInt_plain)

end
