(* ===== verification/SvelteStyle.thy ===== *)
theory SvelteStyle
  imports SvelteFacts
begin

text \<open>
  Class and style attributes, \<^verbatim>\<open>runtime/svelte/server/style.go\<close>, and the payload with its
  elements, slots and property maps (\<^verbatim>\<open>payload.go\<close>, \<^verbatim>\<open>element.go\<close>, \<^verbatim>\<open>slot.go\<close>,
  \<^verbatim>\<open>props.go\<close>, \<^verbatim>\<open>raw.go\<close>). Callbacks are functions on the payload.
\<close>

section \<open>Classes\<close>

definition isClassWhitespace :: "char \<Rightarrow> bool" where
  "isClassWhitespace b = (b = CHR '' '' \<or> b = CHR 0x09 \<or> b = CHR 0x0A \<or> b = CHR 0x0D \<or> b = CHR 0x0C)"

text \<open>The loop of \<^verbatim>\<open>removeClassToken\<close> on the string and the search start.\<close>

function removeLoop :: "string \<Rightarrow> string \<Rightarrow> nat \<Rightarrow> string" where
  "removeLoop token s a =
    (if token = [] \<or> a > length s then s
     else case indexStr (drop a s) token of
        None \<Rightarrow> s
      | Some i \<Rightarrow>
         (let idx = a + i; b = idx + length token;
              leftOK = (idx = 0 \<or> isClassWhitespace (s ! (idx - 1)));
              rightOK = (b = length s \<or> isClassWhitespace (s ! b))
          in if leftOK \<and> rightOK then
               (let cut = (if b < length s then b + 1 else b);
                    s' = trimRight (take idx s @ drop cut s) '' ''
                in if a \<ge> length s' then s' else removeLoop token s' a)
             else if b \<ge> length s then s else removeLoop token s b))"
  by pat_completeness auto
termination
proof (relation "measure (\<lambda>(token, s, a). length s - a)", goal_cases)
  case (2 token s a i idx b leftOK rightOK cut s')
  have "a + i + length token \<le> length s"
    using 2(1,2) indexStr_Some[of "drop a s" token i] by (auto simp: hasPrefix_iff dest!: arg_cong[where f = length])
  moreover have "length (trimRight x '' '') \<le> length x" for x
    using trimRight_prefix[of x "'' ''"] by (metis le_add1 length_append)
  moreover have "0 < length token" using 2(1) by simp
  moreover have "length (take idx s @ drop cut s) < length s"
    using 2 calculation(1,3) by (auto simp del: length_greater_0_conv)
  moreover have "s' = trimRight (take idx s @ drop cut s) '' ''" "a < length s'" using 2 by simp_all
  ultimately have "length s' < length s" "a < length s'" by (metis le_less_trans)+
  then show ?case by simp
next
  case (3 token s a i idx b leftOK rightOK)
  have "0 < length token" "b = a + i + length token" "b < length s" using 3 by simp_all
  then show ?case by (simp del: length_greater_0_conv)
qed simp

definition removeClassToken :: "string \<Rightarrow> string \<Rightarrow> string" where
  "removeClassToken s token = (if length token = 0 then s else removeLoop token s 0)"

definition ToClass :: "'f goFmt \<Rightarrow> 'f goval \<Rightarrow> string \<Rightarrow> bool gomap \<Rightarrow> string" where
  "ToClass F value hash directives =
    (let c0 = (if value = GNil then [] else Stringify F value);
         c1 = (if hash \<noteq> [] then (if c0 \<noteq> [] then c0 @ '' '' @ hash else hash) else c0)
     in if length directives = 0 then c1
        else foldl (\<lambda>c key.
          if map_of directives key = Some True then (if c \<noteq> [] then c @ '' '' @ key else key)
          else if c \<noteq> [] then removeClassToken c key else c) c1 (sortedKeys directives))"

section \<open>Styles\<close>

definition toCSSName :: "(nat \<Rightarrow> nat) \<Rightarrow> string \<Rightarrow> string" where
  "toCSSName lr name = (if hasPrefix name ''--'' then name else toLower lr name)"

function stripCSSComments :: "string \<Rightarrow> string" where
  "stripCSSComments s = (case indexStr s ''/*'' of
      None \<Rightarrow> s
    | Some i \<Rightarrow>
       (case indexStr (drop (i + 2) s) ''*/'' of
          None \<Rightarrow> take i s
        | Some j \<Rightarrow> stripCSSComments (take i s @ drop (i + 2 + j + 2) s)))"
  by pat_completeness auto
termination
proof (relation "measure length", goal_cases)
  case (2 s i j)
  have "i + 2 \<le> length s"
    using indexStr_Some[OF 2(1)] by (auto simp: hasPrefix_iff dest!: arg_cong[where f = length])
  then show ?case by simp
qed simp

declare stripCSSComments.simps [simp del] removeLoop.simps [simp del]

text \<open>The scanner of \<^verbatim>\<open>splitDecls\<close>: parenthesis depth, open quote (if any), the text since the
  last split, and the declarations so far.\<close>

fun declLoop :: "nat \<Rightarrow> char option \<Rightarrow> string \<Rightarrow> string list \<Rightarrow> string \<Rightarrow> string list" where
  "declLoop depth inStr cur out [] =
    (if cur \<noteq> [] then (let seg = trimSpace cur in if seg \<noteq> [] then out @ [seg] else out) else out)"
| "declLoop depth inStr cur out (c # cs) =
    (case inStr of
       Some q \<Rightarrow> declLoop depth (if c = q then None else inStr) (cur @ [c]) out cs
     | None \<Rightarrow>
        if c = CHR 0x27 \<or> c = CHR 0x22 then declLoop depth (Some c) (cur @ [c]) out cs
        else if c = CHR ''('' then declLoop (depth + 1) None (cur @ [c]) out cs
        else if c = CHR '')'' then declLoop (if depth > 0 then depth - 1 else depth) None (cur @ [c]) out cs
        else if c = CHR '';'' \<and> depth = 0 then
          (let seg = trimSpace cur in declLoop depth None [] (if seg \<noteq> [] then out @ [seg] else out) cs)
        else declLoop depth None (cur @ [c]) out cs)"

definition splitDecls :: "string \<Rightarrow> string list" where
  "splitDecls s = (if s = [] then [] else declLoop 0 None [] [] s)"

definition splitDecl :: "string \<Rightarrow> (string \<times> string) option" where
  "splitDecl decl = (case indexByte decl CHR '':'' of
      None \<Rightarrow> None
    | Some idx \<Rightarrow> Some (take idx decl, trimSpace (drop (idx + 1) decl)))"

definition ToStyle :: "'f goFmt \<Rightarrow> (nat \<Rightarrow> nat) \<Rightarrow> 'f goval \<Rightarrow> string gomap \<Rightarrow> string" where
  "ToStyle F lr value styles =
    (if length styles = 0 then (if value = GNil then [] else trimSpace (Stringify F value))
     else
       (let reserved = map (\<lambda>(k, _). toCSSName lr k) styles;
            out1 = (if value = GNil then []
              else foldl (\<lambda>out decl. case splitDecl decl of
                  None \<Rightarrow> out
                | Some (name, _) \<Rightarrow>
                    if toCSSName lr (trimSpace name) \<in> set reserved then out
                    else (if out \<noteq> [] then out @ '' '' else out) @ trimSpace decl @ '';'')
                [] (splitDecls (trimSpace (stripCSSComments (Stringify F value)))));
            out2 = foldl (\<lambda>out k.
                let v = trimSpace (case map_of styles k of Some v \<Rightarrow> v | None \<Rightarrow> []) in
                if v = [] then out
                else (if out \<noteq> [] then out @ '' '' else out) @ toCSSName lr k @ '': '' @ v @ '';'')
              out1 (sortedKeys styles)
        in trimSpace out2))"

section \<open>The payload\<close>

record Payload =
  py_Out :: string
  py_Head :: string
  py_Title :: string

definition emptyPayload :: Payload where
  "emptyPayload = \<lparr>py_Out = [], py_Head = [], py_Title = []\<rparr>"

definition Push :: "string \<Rightarrow> Payload \<Rightarrow> Payload" where
  "Push s p = p\<lparr>py_Out := py_Out p @ s\<rparr>"

definition PushHead :: "string \<Rightarrow> Payload \<Rightarrow> Payload" where
  "PushHead s p = p\<lparr>py_Head := py_Head p @ s\<rparr>"

definition ResetPayload :: "Payload \<Rightarrow> Payload" where
  "ResetPayload p = emptyPayload"

definition EmptyComment :: string where "EmptyComment = ''<!---->''"

definition callOpt :: "(Payload \<Rightarrow> Payload) option \<Rightarrow> Payload \<Rightarrow> Payload" where
  "callOpt f p = (case f of None \<Rightarrow> p | Some g \<Rightarrow> g p)"

definition Element :: "string \<Rightarrow> (Payload \<Rightarrow> Payload) option \<Rightarrow> (Payload \<Rightarrow> Payload) option \<Rightarrow> Payload \<Rightarrow> Payload" where
  "Element tag attrs children p0 =
    (let p1 = Push EmptyComment p0;
         p2 = (if tag \<noteq> [] then
                (let q1 = callOpt attrs (Push (''<'' @ tag) p1);
                     q2 = Push ''>'' q1
                 in if \<not> IsVoidElement tag then
                      (let r1 = callOpt children q2;
                           r2 = (if \<not> IsRawTextElement tag then Push EmptyComment r1 else r1)
                       in Push (''</'' @ tag @ ''>'') r2)
                    else q2)
              else p1)
     in Push EmptyComment p2)"

definition Head :: "string \<Rightarrow> (Payload \<Rightarrow> Payload) option \<Rightarrow> Payload \<Rightarrow> Payload" where
  "Head hash fn p0 =
    (let p1 = PushHead (''<!--'' @ hash @ ''-->'') p0;
         p2 = (case fn of
                None \<Rightarrow> p1
              | Some f \<Rightarrow> (let inner = f emptyPayload;
                                q = PushHead (py_Out inner) p1
                            in if py_Title inner \<noteq> [] then q\<lparr>py_Title := py_Title inner\<rparr> else q))
     in PushHead EmptyComment p2)"

definition WriteRaw :: "'f goFmt \<Rightarrow> Payload \<Rightarrow> 'f goval \<Rightarrow> Payload" where
  "WriteRaw F p v = (case v of
      GNil \<Rightarrow> p
    | GString s \<Rightarrow> Push s p
    | GBytes s \<Rightarrow> Push s p
    | _ \<Rightarrow> Push (Stringify F v) p)"

section \<open>Property maps\<close>

definition SpreadProps :: "'v gomap list \<Rightarrow> 'v gomap" where
  "SpreadProps maps = foldl (\<lambda>out m. foldl (\<lambda>out (k, v). setKey k v out) out m) [] maps"

definition RestProps :: "'v gomap \<Rightarrow> string list \<Rightarrow> 'v gomap" where
  "RestProps props rest = foldl (\<lambda>out (k, v). if k \<in> set rest then out else setKey k v out) [] props"

definition SanitizeProps :: "'v gomap \<Rightarrow> 'v gomap" where
  "SanitizeProps props =
    foldl (\<lambda>out (k, v). if k = ''children'' \<or> k = ''$$slots'' then out else setKey k v out) [] props"

definition ExcludeFromObject :: "'v gomap \<Rightarrow> string list \<Rightarrow> 'v gomap" where
  "ExcludeFromObject m exclude = foldl (\<lambda>out (k, v). if k \<in> set exclude then out else setKey k v out) [] m"

definition SanitizeSlots :: "'f goval gomap \<Rightarrow> bool gomap" where
  "SanitizeSlots props =
    (let o1 = (if map_of props ''children'' \<noteq> None then setKey ''default'' True [] else []);
         o2 = (case map_of props ''$$slots'' of
                 Some (GMap slots) \<Rightarrow> foldl (\<lambda>out (k, _). setKey k True out) o1 slots
               | Some (GMapBool slots) \<Rightarrow> foldl (\<lambda>out (k, _). setKey k True out) o1 slots
               | _ \<Rightarrow> o1)
     in o2)"

definition Fallback :: "'f goval \<Rightarrow> 'f goval \<Rightarrow> 'f goval" where
  "Fallback value dflt = (if value = GNil then dflt else value)"

definition EnsureArrayLike :: "'f goval \<Rightarrow> 'f goval list" where
  "EnsureArrayLike v = (case v of
      GSlice xs \<Rightarrow> xs
    | GStrings xs \<Rightarrow> map GString xs
    | GInts xs \<Rightarrow> map (GInt KInt) xs
    | GMaps xs \<Rightarrow> map GMap xs
    | _ \<Rightarrow> [])"

text \<open>Slots: a slot function is found under \<^verbatim>\<open>$$slots\<close> or under its own name; a property is here a
  slot function, a map of slots, or another value.\<close>

datatype 'p slotval = SlotFun 'p | SlotMap "'p slotval gomap" | SlotOther

definition lookupSlot :: "'p slotval gomap \<Rightarrow> string \<Rightarrow> 'p option" where
  "lookupSlot props name =
    (let inner = (case map_of props ''$$slots'' of
           Some (SlotMap slots) \<Rightarrow> (case map_of slots name of Some (SlotFun f) \<Rightarrow> Some f | _ \<Rightarrow> None)
         | _ \<Rightarrow> None)
     in case inner of
          Some f \<Rightarrow> Some f
        | None \<Rightarrow>
           (let key = (if name = ''default'' then ''children'' else name)
            in case map_of props key of Some (SlotFun f) \<Rightarrow> Some f | _ \<Rightarrow> None))"

definition Slot :: "('s \<Rightarrow> Payload \<Rightarrow> Payload) slotval gomap \<Rightarrow> string \<Rightarrow> 's \<Rightarrow> (Payload \<Rightarrow> Payload) option \<Rightarrow> Payload \<Rightarrow> Payload" where
  "Slot props name slotProps fallback p = (case lookupSlot props name of
      Some fn \<Rightarrow> fn slotProps p
    | None \<Rightarrow> callOpt fallback p)"

section \<open>Properties\<close>

lemma fold_setKey: "map_of (foldl (\<lambda>out (k, v). setKey k v out) out m) = map_of out ++ map_of (rev m)"
proof (induction m arbitrary: out)
  case (Cons kv m)
  then show ?case by (cases kv) (simp add: setKey_lookup map_add_def fun_eq_iff split: option.splits)
qed simp

lemma fold_setKey_filter:
  "map_of (foldl (\<lambda>out (k, v). if P k then out else setKey k v out) out m) =
     map_of out ++ map_of (rev (filter (\<lambda>(k, _). \<not> P k) m))"
proof (induction m arbitrary: out)
  case (Cons kv m)
  then show ?case by (cases kv) (simp add: setKey_lookup map_add_def fun_eq_iff split: option.splits)
qed simp

lemma map_of_rev_distinct: "mapOK m \<Longrightarrow> map_of (rev m) = map_of m"
  unfolding mapOK_def by (metis distinct_rev map_of_inject_set rev_map set_rev)

lemma map_of_filter_keys: "map_of (filter (\<lambda>(k, _). \<not> P k) m) k = (if P k then None else map_of m k)"
  by (induction m) auto

lemma mapOK_filter: "mapOK m \<Longrightarrow> mapOK (filter Q m)"
  by (simp add: mapOK_def distinct_map_filter)

lemma remove_keys:
  assumes "mapOK m"
  shows "map_of (foldl (\<lambda>out (k, v). if P k then out else setKey k v out) [] m) k = (if P k then None else map_of m k)"
proof -
  have "map_of (rev (filter (\<lambda>(k, _). \<not> P k) m)) = map_of (filter (\<lambda>(k, _). \<not> P k) m)"
    by (rule map_of_rev_distinct[OF mapOK_filter[OF assms]])
  then show ?thesis unfolding fold_setKey_filter by (simp add: map_of_filter_keys)
qed

text \<open>The property-map operations as maps: a key of a spread has the value of the last map that
  binds it, the rest and exclusion operations drop exactly the listed keys, and sanitising drops
  exactly the two internal ones.\<close>

theorem props_algebra:
  assumes "list_all mapOK (m # ms)"
  shows "map_of (SpreadProps (m # ms)) = foldl (++) (map_of m) (map map_of ms) \<and>
    map_of (RestProps m ks) k = (if k \<in> set ks then None else map_of m k) \<and>
    map_of (ExcludeFromObject m ks) k = (if k \<in> set ks then None else map_of m k) \<and>
    map_of (SanitizeProps m) k = (if k = ''children'' \<or> k = ''$$slots'' then None else map_of m k)"
proof (intro conjI)
  have f: "map_of (foldl (\<lambda>out m. foldl (\<lambda>out (k, v). setKey k v out) out m) out ms) = foldl (++) (map_of out) (map map_of ms)"
    if "list_all mapOK ms" for out and ms :: "'a gomap list"
    using that by (induction ms arbitrary: out) (simp_all add: fold_setKey map_of_rev_distinct)
  show "map_of (SpreadProps (m # ms)) = foldl (++) (map_of m) (map map_of ms)"
    using f[OF assms, of "[]"] by (simp add: SpreadProps_def)
  show "map_of (RestProps m ks) k = (if k \<in> set ks then None else map_of m k)"
    using assms unfolding RestProps_def by (subst remove_keys) simp_all
  show "map_of (ExcludeFromObject m ks) k = (if k \<in> set ks then None else map_of m k)"
    using assms unfolding ExcludeFromObject_def by (subst remove_keys) simp_all
  show "map_of (SanitizeProps m) k = (if k = ''children'' \<or> k = ''$$slots'' then None else map_of m k)"
    using assms unfolding SanitizeProps_def by (subst remove_keys) simp_all
qed

theorem props_algebra_witness:
  "map_of (SpreadProps [[(''a'', 1::nat)], [(''b'', 2), (''a'', 3)]]) = foldl (++) (map_of [(''a'', 1)]) (map map_of [[(''b'', 2), (''a'', 3)]])"
  by (rule props_algebra[where ks = "[]" and k = "[]", THEN conjunct1]) (simp add: mapOK_def)

lemma stripCSSComments_clean_aux: "indexStr (stripCSSComments s) ''/*'' = None"
proof (induction s rule: stripCSSComments.induct)
  case (1 s)
  show ?case
  proof (cases "indexStr s ''/*''")
    case None
    then show ?thesis by (subst stripCSSComments.simps) simp
  next
    case (Some i)
    show ?thesis
    proof (cases "indexStr (drop (i + 2) s) ''*/''")
      case None
      then have e: "stripCSSComments s = take i s" using Some by (subst stripCSSComments.simps) simp
      have "\<not> hasPrefix (drop j (take i s)) ''/*''" for j
      proof
        assume p: "hasPrefix (drop j (take i s)) ''/*''"
        then have j: "j < i" by (auto simp: hasPrefix_iff dest!: arg_cong[where f = length])
        from p have "hasPrefix (drop j s) ''/*''"
          by (metis append_assoc append_take_drop_id drop_take hasPrefix_iff)
        then show False using indexStr_first[OF Some j] by simp
      qed
      then show ?thesis unfolding e indexStr_None by blast
    next
      case j: (Some j)
      then have "stripCSSComments s = stripCSSComments (take i s @ drop (i + 2 + j + 2) s)"
        using Some by (subst stripCSSComments.simps) simp
      then show ?thesis using 1[OF Some j] by simp
    qed
  qed
qed

text \<open>Stripping comments ends on every input and leaves no comment opener, also when removing
  one comment joins a slash and a star into a new opener.\<close>

theorem stripCSSComments_clean: "contains (stripCSSComments s) ''/*'' = False"
  by (simp add: contains_def stripCSSComments_clean_aux)

end
