(* ===== verification/Segments.thy ===== *)
theory Segments
  imports GoStrings
begin

text \<open>
  Route segments: the types of \<^verbatim>\<open>runtime/router/segment.go\<close> and the directory-name grammar of
  \<^verbatim>\<open>internal/routescan/segments.go\<close> (ParseSegment and its helpers, BuildPattern,
  ParseResetFilename, encodePackageName). The theorems: parsing the printed form of a well-formed
  segment gives the segment back, whatever parses is well-formed, and no input makes a slice
  expression of the parser panic.
\<close>

section \<open>The segment type\<close>

datatype SegmentKind = SegmentStatic | SegmentParam | SegmentOptional | SegmentRest

record Segment =
  seg_kind :: SegmentKind
  seg_name :: string
  seg_value :: string
  seg_matcher :: string

definition mkSegment :: "SegmentKind \<Rightarrow> string \<Rightarrow> string \<Rightarrow> string \<Rightarrow> Segment" where [route_defs]:
  "mkSegment k n v m = \<lparr>seg_kind = k, seg_name = n, seg_value = v, seg_matcher = m\<rparr>"

definition segString :: "Segment \<Rightarrow> string" where [route_defs]:
  "segString s = (case seg_kind s of
      SegmentStatic \<Rightarrow> seg_value s
    | SegmentParam \<Rightarrow>
        (if seg_matcher s \<noteq> [] then ''['' @ seg_name s @ ''='' @ seg_matcher s @ '']''
         else ''['' @ seg_name s @ '']'')
    | SegmentOptional \<Rightarrow>
        (if seg_matcher s \<noteq> [] then ''[['' @ seg_name s @ ''='' @ seg_matcher s @ '']]''
         else ''[['' @ seg_name s @ '']]'')
    | SegmentRest \<Rightarrow>
        (if seg_matcher s \<noteq> [] then ''[...'' @ seg_name s @ ''='' @ seg_matcher s @ '']''
         else ''[...'' @ seg_name s @ '']''))"

section \<open>Go identifiers\<close>

text \<open>The loop of \<^verbatim>\<open>isGoIdent\<close>: index 0 may not be a digit.\<close>

definition isGoIdent :: "unicode_tables \<Rightarrow> string \<Rightarrow> bool" where [route_defs]:
  "isGoIdent U s = (case runes s of
      [] \<Rightarrow> False
    | r # rs \<Rightarrow> (isLetter U r \<or> r = 95) \<and>
        list_all (\<lambda>r. isLetter U r \<or> isDigit U r \<or> r = 95) rs)"

definition goKeywords :: "string list" where
  "goKeywords =
    [''break'', ''case'', ''chan'', ''const'', ''continue'',
     ''default'', ''defer'', ''else'', ''fallthrough'', ''for'',
     ''func'', ''go'', ''goto'', ''if'', ''import'',
     ''interface'', ''map'', ''package'', ''range'', ''return'',
     ''select'', ''struct'', ''switch'', ''type'', ''var'']"

definition isGoKeyword :: "string \<Rightarrow> bool" where
  "isGoKeyword s = (s \<in> set goKeywords)"

lemma isGoIdent_ne: "isGoIdent U s \<Longrightarrow> s \<noteq> []"
  by (auto simp: isGoIdent_def)

text \<open>An identifier has no ASCII punctuation, whatever the Unicode tables say.\<close>

lemma isGoIdent_ascii:
  assumes "isGoIdent U s" "c \<in> set s" "byteVal c < 0x80"
  shows "(65 \<le> byteVal c \<and> byteVal c \<le> 90) \<or> (97 \<le> byteVal c \<and> byteVal c \<le> 122)
    \<or> (48 \<le> byteVal c \<and> byteVal c \<le> 57) \<or> byteVal c = 95"
proof -
  have "byteVal c \<in> set (runes s)" using assms(2,3) by (rule runes_ascii_mem)
  with assms(1) have "isLetter U (byteVal c) \<or> isDigit U (byteVal c) \<or> byteVal c = 95"
    by (auto simp: isGoIdent_def list_all_iff split: list.splits)
  with assms(3) show ?thesis by (elim disjE) (simp_all add: isLetter_def isDigit_def, blast)
qed

lemma isGoIdent_no_punct:
  assumes "isGoIdent U s"
  shows "CHR ''['' \<notin> set s" "CHR '']'' \<notin> set s" "CHR ''('' \<notin> set s" "CHR '')'' \<notin> set s"
    "CHR ''='' \<notin> set s" "CHR ''/'' \<notin> set s" "CHR ''.'' \<notin> set s" "CHR ''@'' \<notin> set s"
    "CHR ''%'' \<notin> set s"
  using isGoIdent_ascii[OF assms] by (force simp: byteVal_def)+

section \<open>Parsing directory names\<close>

datatype nameError =
    EmptyParameterName
  | InvalidParameterName string
  | KeywordParameterName string
  | InvalidMatcherName string

datatype segError =
    EmptySegmentName
  | ErrGroup
  | UnbalancedGroup string
  | EmptyGroupName string
  | InvalidGroupName string
  | InvalidStatic string
  | UnbalancedOptional string
  | NestedBrackets string
  | UnbalancedBrackets string
  | BadOptional string nameError
  | BadRest string nameError
  | BadParam string nameError
  | SlicePanic

definition splitNameMatcher :: "unicode_tables \<Rightarrow> string \<Rightarrow> (nameError, string \<times> string) result" where
  "splitNameMatcher U s =
    (if s = [] then Inl EmptyParameterName
     else
       let (before, after, ok) = cutByte s CHR ''='';
           (name, matcher) = (if ok then (before, after) else (s, []))
       in if \<not> isGoIdent U name then Inl (InvalidParameterName name)
          else if isGoKeyword name then Inl (KeywordParameterName name)
          else if matcher \<noteq> [] \<and> \<not> isGoIdent U matcher then Inl (InvalidMatcherName matcher)
          else Inr (name, matcher))"

definition parseBracketed :: "unicode_tables \<Rightarrow> string \<Rightarrow> (segError, Segment) result" where
  "parseBracketed U name =
    (if hasPrefix name ''[['' then
       if \<not> hasSuffix name '']]'' then Inl (UnbalancedOptional name)
       else (case goSlice name 2 (length name - 2) of
           None \<Rightarrow> Inl SlicePanic
         | Some inner \<Rightarrow>
            if containsAny inner ''[]'' then Inl (NestedBrackets name)
            else (case splitNameMatcher U inner of
                Inl e \<Rightarrow> Inl (BadOptional name e)
              | Inr (ident, matcher) \<Rightarrow> Inr (mkSegment SegmentOptional ident [] matcher)))
     else if \<not> hasSuffix name '']'' then Inl (UnbalancedBrackets name)
     else (case goSlice name 1 (length name - 1) of
         None \<Rightarrow> Inl SlicePanic
       | Some inner \<Rightarrow>
          if containsAny inner ''[]'' then Inl (NestedBrackets name)
          else
            let (rest, ok) = cutPrefix inner ''...'' in
            if ok then (case splitNameMatcher U rest of
                Inl e \<Rightarrow> Inl (BadRest name e)
              | Inr (ident, matcher) \<Rightarrow> Inr (mkSegment SegmentRest ident [] matcher))
            else (case splitNameMatcher U inner of
                Inl e \<Rightarrow> Inl (BadParam name e)
              | Inr (ident, matcher) \<Rightarrow> Inr (mkSegment SegmentParam ident [] matcher))))"

definition ParseSegment :: "unicode_tables \<Rightarrow> string \<Rightarrow> (segError, Segment) result" where
  "ParseSegment U name =
    (if name = [] then Inl EmptySegmentName
     else if hd name = CHR ''('' then
       if \<not> hasSuffix name '')'' then Inl (UnbalancedGroup name)
       else (case goSlice name 1 (length name - 1) of
           None \<Rightarrow> Inl SlicePanic
         | Some inner \<Rightarrow>
            if inner = [] then Inl (EmptyGroupName name)
            else if \<not> isGoIdent U inner then Inl (InvalidGroupName inner)
            else Inl ErrGroup)
     else if hd name = CHR ''['' then parseBracketed U name
     else if containsAny name ''[]()'' then Inl (InvalidStatic name)
     else Inr (mkSegment SegmentStatic [] name []))"

definition BuildPattern :: "Segment list \<Rightarrow> string" where
  "BuildPattern segments =
    (if segments = [] then ''/'' else concat (map (\<lambda>s. ''/'' @ segString s) segments))"

text \<open>\<^verbatim>\<open>ParseResetFilename\<close>; the outer \<^const>\<open>None\<close> is a slice or index panic, the inner
  one \<^verbatim>\<open>ok == false\<close>. The switch on the base name and the target check follow the source.\<close>

definition ParseResetFilename :: "unicode_tables \<Rightarrow> string \<Rightarrow> (string \<times> string) option option" where
  "ParseResetFilename U name =
    (if \<not> hasSuffix name ''.svelte'' then Some None
     else (case goSlice name 0 (length name - length ''.svelte'') of
         None \<Rightarrow> None
       | Some stem \<Rightarrow>
          let (before, after, ok) = cutByte stem CHR ''@'' in
          if \<not> ok then Some None
          else if before \<notin> set [''_page'', ''_layout'', ''_error''] then Some None
          else if after = [] then Some (Some (before, []))
          else if hd after \<noteq> CHR ''('' \<or> last after \<noteq> CHR '')'' then Some None
          else (case goSlice after 1 (length after - 1) of
              None \<Rightarrow> None
            | Some inner \<Rightarrow>
                if inner = [] \<or> \<not> isGoIdent U inner then Some None
                else Some (Some (before, after)))))"

text \<open>\<^verbatim>\<open>encodePackageName\<close>; \<^const>\<open>None\<close> is the slice panic of the group branch.\<close>

definition encodePackageName :: "string \<Rightarrow> Segment \<Rightarrow> bool \<Rightarrow> string option" where
  "encodePackageName raw seg isGroup =
    (if isGroup then map_option (\<lambda>inner. ''_g_'' @ inner) (goSlice raw 1 (length raw - 1))
     else Some (case seg_kind seg of
        SegmentStatic \<Rightarrow> seg_value seg
      | SegmentParam \<Rightarrow> ''_'' @ seg_name seg @ ''_''
      | SegmentOptional \<Rightarrow> ''__'' @ seg_name seg @ ''__''
      | SegmentRest \<Rightarrow> ''___'' @ seg_name seg))"

section \<open>Well-formed segments\<close>

definition wfName :: "unicode_tables \<Rightarrow> string \<Rightarrow> string \<Rightarrow> bool" where
  "wfName U n m = (isGoIdent U n \<and> \<not> isGoKeyword n \<and> (m = [] \<or> isGoIdent U m))"

definition wfSegment :: "unicode_tables \<Rightarrow> Segment \<Rightarrow> bool" where
  "wfSegment U s = (case seg_kind s of
      SegmentStatic \<Rightarrow> seg_value s \<noteq> [] \<and> \<not> containsAny (seg_value s) ''[]()'' \<and>
        seg_name s = [] \<and> seg_matcher s = []
    | _ \<Rightarrow> wfName U (seg_name s) (seg_matcher s) \<and> seg_value s = [])"

text \<open>The text between the brackets: the name, then the matcher after an equals sign.\<close>

definition nameMatcher :: "string \<Rightarrow> string \<Rightarrow> string" where
  "nameMatcher n m = (if m \<noteq> [] then n @ ''='' @ m else n)"

lemma splitNameMatcher_print:
  assumes "wfName U n m"
  shows "splitNameMatcher U (nameMatcher n m) = Inr (n, m)"
proof -
  have n: "isGoIdent U n" "\<not> isGoKeyword n" "n \<noteq> []" "CHR ''='' \<notin> set n"
    using assms isGoIdent_ne isGoIdent_no_punct by (auto simp: wfName_def)
  show ?thesis
  proof (cases "m = []")
    case True
    with n show ?thesis by (simp add: nameMatcher_def splitNameMatcher_def cutByte_missing)
  next
    case False
    with assms have "isGoIdent U m" by (simp add: wfName_def)
    moreover have "cutByte (n @ ''='' @ m) CHR ''='' = (n, m, True)"
      using cutByte_found[OF n(4)] by simp
    ultimately show ?thesis using n False
      by (simp add: nameMatcher_def splitNameMatcher_def)
  qed
qed

lemma splitNameMatcher_wf:
  assumes "splitNameMatcher U s = Inr (n, m)" shows "wfName U n m"
  using assms by (auto simp: splitNameMatcher_def wfName_def Let_def split: if_splits prod.splits)

lemma nameMatcher_no_brackets:
  assumes "wfName U n m" shows "\<not> containsAny (nameMatcher n m) ''[]''"
  using assms isGoIdent_no_punct by (auto simp: wfName_def nameMatcher_def containsAny_iff)

lemma nameMatcher_ne: "wfName U n m \<Longrightarrow> nameMatcher n m \<noteq> []"
  using isGoIdent_ne by (auto simp: wfName_def nameMatcher_def)

lemma nameMatcher_hd:
  assumes "wfName U n m"
  shows "\<exists>c cs. nameMatcher n m = c # cs \<and> c \<noteq> CHR ''['' \<and> c \<noteq> CHR ''.''"
proof -
  from assms have n: "isGoIdent U n" by (simp add: wfName_def)
  then obtain c cs where cs: "n = c # cs" by (cases n) (auto dest: isGoIdent_ne)
  with isGoIdent_no_punct[OF n] have "c \<noteq> CHR ''['' \<and> c \<noteq> CHR ''.''" by auto
  with cs show ?thesis by (simp add: nameMatcher_def)
qed

lemma segString_print:
  "seg_kind s = SegmentParam \<Longrightarrow> segString s = ''['' @ nameMatcher (seg_name s) (seg_matcher s) @ '']''"
  "seg_kind s = SegmentOptional \<Longrightarrow> segString s = ''[['' @ nameMatcher (seg_name s) (seg_matcher s) @ '']]''"
  "seg_kind s = SegmentRest \<Longrightarrow> segString s = ''[...'' @ nameMatcher (seg_name s) (seg_matcher s) @ '']''"
  by (simp_all add: segString_def nameMatcher_def)

section \<open>Properties\<close>

lemma parseBracketed_param:
  assumes "wfName U n m"
  shows "parseBracketed U (''['' @ nameMatcher n m @ '']'') = Inr (mkSegment SegmentParam n [] m)"
proof -
  obtain c cs where h: "nameMatcher n m = c # cs" "c \<noteq> CHR ''[''" "c \<noteq> CHR ''.''"
    using nameMatcher_hd[OF assms] by blast
  have p: "\<not> hasPrefix (''['' @ nameMatcher n m @ '']'') ''[[''" using h by simp
  have q: "hasSuffix (''['' @ nameMatcher n m @ '']'') '']''"
    using hasSuffix_append[of "''['' @ nameMatcher n m" "'']''"] by simp
  have s: "goSlice (''['' @ nameMatcher n m @ '']'') 1 (length (''['' @ nameMatcher n m @ '']'') - 1)
      = Some (nameMatcher n m)"
    using goSlice_mid[of "''[''" "nameMatcher n m" "'']''"] by simp
  have r: "cutPrefix (nameMatcher n m) ''...'' = (nameMatcher n m, False)"
    using h by (simp add: cutPrefix_def)
  show ?thesis unfolding parseBracketed_def
    using p q s r nameMatcher_no_brackets[OF assms] splitNameMatcher_print[OF assms] by simp
qed

lemma parseBracketed_optional:
  assumes "wfName U n m"
  shows "parseBracketed U (''[['' @ nameMatcher n m @ '']]'') = Inr (mkSegment SegmentOptional n [] m)"
proof -
  have q: "hasSuffix (''[['' @ nameMatcher n m @ '']]'') '']]''"
    using hasSuffix_append[of "''[['' @ nameMatcher n m" "'']]''"] by simp
  have s: "goSlice (''[['' @ nameMatcher n m @ '']]'') 2 (length (''[['' @ nameMatcher n m @ '']]'') - 2)
      = Some (nameMatcher n m)"
    using goSlice_mid[of "''[[''" "nameMatcher n m" "'']]''"] by simp
  show ?thesis unfolding parseBracketed_def
    using q s nameMatcher_no_brackets[OF assms] splitNameMatcher_print[OF assms] by simp
qed

lemma parseBracketed_rest:
  assumes "wfName U n m"
  shows "parseBracketed U (''[...'' @ nameMatcher n m @ '']'') = Inr (mkSegment SegmentRest n [] m)"
proof -
  let ?s = "''[...'' @ nameMatcher n m @ '']''"
  have q: "hasSuffix ?s '']''"
    using hasSuffix_append[of "''[...'' @ nameMatcher n m" "'']''"] by simp
  have s: "goSlice ?s 1 (length ?s - 1) = Some (''...'' @ nameMatcher n m)"
    using goSlice_mid[of "''[''" "''...'' @ nameMatcher n m" "'']''"] by simp
  have c: "\<not> containsAny (''...'' @ nameMatcher n m) ''[]''"
    using nameMatcher_no_brackets[OF assms] by (simp add: containsAny_iff)
  have r: "cutPrefix (''...'' @ nameMatcher n m) ''...'' = (nameMatcher n m, True)"
    by (simp add: cutPrefix_def)
  show ?thesis unfolding parseBracketed_def
    using q s r c splitNameMatcher_print[OF assms] by simp
qed

lemma ParseSegment_bracket: "ParseSegment U (CHR ''['' # s) = parseBracketed U (CHR ''['' # s)"
  by (simp add: ParseSegment_def)

lemma segment_roundtrip:
  assumes "wfSegment U s"
  shows "ParseSegment U (segString s) = Inr s"
proof (cases "seg_kind s")
  case SegmentStatic
  with assms show ?thesis
    by (cases s) (auto simp: wfSegment_def segString_def ParseSegment_def mkSegment_def containsAny_iff
        dest: hd_in_set)
next
  case SegmentParam
  with assms have "wfName U (seg_name s) (seg_matcher s)" "seg_value s = []"
    by (auto simp: wfSegment_def)
  with SegmentParam show ?thesis
    using parseBracketed_param ParseSegment_bracket by (cases s) (simp add: segString_print mkSegment_def)
next
  case SegmentOptional
  with assms have "wfName U (seg_name s) (seg_matcher s)" "seg_value s = []"
    by (auto simp: wfSegment_def)
  with SegmentOptional show ?thesis
    using parseBracketed_optional ParseSegment_bracket by (cases s) (simp add: segString_print mkSegment_def)
next
  case SegmentRest
  with assms have "wfName U (seg_name s) (seg_matcher s)" "seg_value s = []"
    by (auto simp: wfSegment_def)
  with SegmentRest show ?thesis
    using parseBracketed_rest ParseSegment_bracket by (cases s) (simp add: segString_print mkSegment_def)
qed

lemma parseBracketed_wf:
  assumes "parseBracketed U name = Inr s" shows "wfSegment U s"
  using assms splitNameMatcher_wf
  by (auto simp: parseBracketed_def wfSegment_def mkSegment_def Let_def
      split: if_splits option.splits sum.splits prod.splits)

lemma ParseSegment_wf:
  assumes "ParseSegment U name = Inr s" shows "wfSegment U s"
  using assms parseBracketed_wf
  by (auto simp: ParseSegment_def split: if_splits option.splits)
    (auto simp: wfSegment_def mkSegment_def)

lemma slice_inner_ok:
  assumes "hasPrefix s p" "hasSuffix s q" "length p + length q \<le> length s"
  shows "goSlice s (length p) (length s - length q) \<noteq> None"
  using assms by (auto simp: goSlice_def)

text \<open>Opening and closing brackets are different bytes, so a prefix of one and a suffix of the
  other never overlap.\<close>

lemma brackets_disjoint:
  assumes "hasPrefix s (replicate n a)" "hasSuffix s (replicate m b)" "a \<noteq> b" "0 < n" "0 < m"
  shows "n + m \<le> length s"
proof (rule ccontr)
  assume "\<not> n + m \<le> length s"
  then have short: "length s < n + m" by simp
  from assms(1) obtain t where t: "s = replicate n a @ t" by (auto simp: hasPrefix_iff)
  from assms(2) obtain u where u: "s = u @ replicate m b" by (auto simp: hasSuffix_iff)
  have l: "length s = n + length t" "length s = length u + m"
    using arg_cong[OF t, of length] arg_cong[OF u, of length] by simp_all
  have "s ! length u = b" using u assms(5) by (simp add: nth_append)
  moreover have "s ! length u = a" using t l short by (simp add: nth_append)
  ultimately show False using assms(3) by simp
qed

lemma ParseSegment_no_panic: "ParseSegment U name \<noteq> Inl SlicePanic"
proof -
  have g: "goSlice name 1 (length name - 1) \<noteq> None" if "hasPrefix name [a]" "hasSuffix name [b]" "a \<noteq> b" for a b
    using brackets_disjoint[of name 1 a 1 b] that by (auto simp: goSlice_def)
  have o: "goSlice name 2 (length name - 2) \<noteq> None" if "hasPrefix name ''[[''" "hasSuffix name '']]''"
    using brackets_disjoint[of name 2 "CHR ''[''" 2 "CHR '']''"] that
    by (auto simp: goSlice_def numeral_2_eq_2)
  have h: "hasPrefix name [hd name]" if "name \<noteq> []" using that by (cases name) auto
  have b: "parseBracketed U name \<noteq> Inl SlicePanic" if "name \<noteq> []" "hd name = CHR ''[''"
    using g[of "CHR ''[''" "CHR '']''"] o h that
    by (auto simp: parseBracketed_def Let_def split: option.splits sum.splits prod.splits)
  have p: "goSlice name 1 (length name - 1) \<noteq> None"
    if "name \<noteq> []" "hd name = CHR ''(''" "hasSuffix name '')''"
    using g[of "CHR ''(''" "CHR '')''"] h that by simp
  show ?thesis
  proof (cases "name \<noteq> [] \<and> hd name = CHR ''('' \<and> hasSuffix name '')''")
    case True
    with p show ?thesis by (auto simp: ParseSegment_def split: if_splits)
  next
    case False
    with b show ?thesis by (auto simp: ParseSegment_def)
  qed
qed

lemma ParseResetFilename_no_panic: "ParseResetFilename U name \<noteq> None"
proof -
  have g: False if "goSlice t 1 (length t - 1) = None"
    "hd t = CHR ''(''" "last t = CHR '')''" "t \<noteq> []" for t :: string
  proof -
    from that have "hasPrefix t [CHR ''('']" "hasSuffix t [CHR '')'']"
      by (auto simp: hasSuffix_snoc neq_Nil_conv)
    with brackets_disjoint[of t 1 "CHR ''(''" 1 "CHR '')''"] that(1) show ?thesis
      by (auto simp: goSlice_def split: if_splits)
  qed
  have "goSlice name 0 (length name - length ''.svelte'') \<noteq> None" by (simp add: goSlice_def)
  then show ?thesis
    by (auto simp: ParseResetFilename_def Let_def simp del: goSlice_Some
        split: option.splits prod.splits dest: g[simplified])
qed

lemma cutByte_join: "cutByte s c = (a, b, True) \<Longrightarrow> s = a @ c # b"
  by (cases rule: cutByte_cases[of c s]) auto

subsection \<open>Patterns\<close>

lemma segString_no_slash:
  assumes "wfSegment U s" "CHR ''/'' \<notin> set (seg_value s)"
  shows "CHR ''/'' \<notin> set (segString s)"
proof -
  have "wfName U n m \<Longrightarrow> CHR ''/'' \<notin> set (nameMatcher n m)" for n m
    using isGoIdent_no_punct(6) by (auto simp: wfName_def nameMatcher_def)
  moreover have "seg_kind s = SegmentStatic \<Longrightarrow> segString s = seg_value s"
    by (simp add: segString_def)
  ultimately show ?thesis using assms
    by (cases "seg_kind s") (auto simp: wfSegment_def segString_print)
qed

lemma BuildPattern_Cons:
  "BuildPattern (s # ss) = ''/'' @ segString s @ (if ss = [] then [] else BuildPattern ss)"
  by (simp add: BuildPattern_def)

lemma BuildPattern_split:
  assumes "ss \<noteq> []" "\<And>s. s \<in> set ss \<Longrightarrow> wfSegment U s \<and> CHR ''/'' \<notin> set (seg_value s)"
  shows "splitByte CHR ''/'' (BuildPattern ss) = [] # map segString ss"
  using assms
proof (induction ss)
  case (Cons s ss)
  have ns: "CHR ''/'' \<notin> set (segString s)" using Cons.prems segString_no_slash by auto
  show ?case
  proof (cases "ss = []")
    case True
    with ns show ?thesis by (simp add: BuildPattern_Cons splitByte_no_sep)
  next
    case False
    then obtain t where t: "BuildPattern ss = CHR ''/'' # t"
      by (cases ss) (auto simp: BuildPattern_Cons)
    with Cons False have "splitByte CHR ''/'' t = map segString ss" by simp
    with ns t False show ?thesis by (simp add: BuildPattern_Cons splitByte_append)
  qed
qed simp

text \<open>C27. Route patterns round-trip: printing the segments of a route with \<^verbatim>\<open>BuildPattern\<close>,
  splitting the pattern at its slashes and parsing every piece with \<^verbatim>\<open>ParseSegment\<close> gives the
  segments back, for every non-empty list of well-formed segments whose literals have no slash.\<close>

theorem BuildPattern_roundtrip:
  assumes "ss \<noteq> []" and "list_all (\<lambda>s. wfSegment U s \<and> CHR ''/'' \<notin> set (seg_value s)) ss"
  shows "map (ParseSegment U) (tl (splitByte CHR ''/'' (BuildPattern ss))) = map Inr ss"
proof -
  have wf: "\<And>s. s \<in> set ss \<Longrightarrow> wfSegment U s \<and> CHR ''/'' \<notin> set (seg_value s)"
    using assms(2) by (auto simp: list_all_iff)
  then show ?thesis using BuildPattern_split[OF assms(1) wf] segment_roundtrip by simp
qed

definition asciiTables :: unicode_tables where
  "asciiTables = \<lparr>tableLetter = (\<lambda>_. False), tableDigit = (\<lambda>_. False)\<rparr>"

theorem BuildPattern_roundtrip_witness:
  "map (ParseSegment asciiTables) (tl (splitByte CHR ''/'' (BuildPattern
     [mkSegment SegmentStatic [] ''post'' [], mkSegment SegmentParam ''id'' [] ''int'',
      mkSegment SegmentRest ''rest'' [] []])))
   = map Inr [mkSegment SegmentStatic [] ''post'' [], mkSegment SegmentParam ''id'' [] ''int'',
      mkSegment SegmentRest ''rest'' [] []]"
  by (rule BuildPattern_roundtrip) (simp, code_simp)

text \<open>The segments \<^verbatim>\<open>ParseSegment\<close> can return are exactly the well-formed ones: a literal
  without brackets, or a parameter whose name is a Go identifier, is no Go keyword, and whose
  matcher is absent or a Go identifier.\<close>

theorem ParseSegment_range: "(\<exists>name. ParseSegment U name = Inr s) \<longleftrightarrow> wfSegment U s"
  using ParseSegment_wf segment_roundtrip by blast

text \<open>No directory or file name makes the slice expressions of \<^verbatim>\<open>ParseSegment\<close> and
  \<^verbatim>\<open>ParseResetFilename\<close> go out of range.\<close>

theorem routescan_never_panics:
  "ParseSegment U name \<noteq> Inl SlicePanic \<and> ParseResetFilename U name \<noteq> None"
  using ParseSegment_no_panic ParseResetFilename_no_panic by blast

lemma paren_target:
  assumes "isGoIdent U g"
  shows "goSlice (''('' @ g @ '')'') 1 (length (''('' @ g @ '')'') - 1) = Some g"
  using goSlice_mid[of "''(''" g "'')''"] by simp

lemma paren_shape:
  assumes "hd t = CHR ''(''" "last t = CHR '')''" "t \<noteq> []" "goSlice t 1 (length t - 1) = Some g"
  shows "t = ''('' @ g @ '')''"
proof -
  from assms(1,3) obtain t' where t: "t = CHR ''('' # t'" by (cases t) auto
  with assms(2) have "t' \<noteq> []" by auto
  with t assms(2) have "t' = butlast t' @ [CHR '')'']" by (metis append_butlast_last_id last_ConsR)
  moreover have "g = butlast t'" using assms(4) t \<open>t' \<noteq> []\<close>
    by (simp add: goSlice_def butlast_conv_take split: if_splits)
  ultimately show ?thesis using t by simp
qed

text \<open>\<^verbatim>\<open>ParseResetFilename\<close> accepts exactly \<^verbatim>\<open><base>@<target>.svelte\<close>, where the base is
  \<^verbatim>\<open>_page\<close>, \<^verbatim>\<open>_layout\<close> or \<^verbatim>\<open>_error\<close> and the target is empty (a root reset) or a group
  name in parentheses; it returns the two parts.\<close>

theorem ParseResetFilename_iff:
  "ParseResetFilename U name = Some (Some (b, t)) \<longleftrightarrow>
     name = b @ ''@'' @ t @ ''.svelte'' \<and> b \<in> set [''_page'', ''_layout'', ''_error''] \<and>
     (t = [] \<or> (\<exists>g. isGoIdent U g \<and> t = ''('' @ g @ '')''))"
proof
  assume L: "ParseResetFilename U name = Some (Some (b, t))"
  then obtain stem where name: "name = stem @ ''.svelte''" and
    cut: "cutByte stem CHR ''@'' = (b, t, True)" and b: "b \<in> set [''_page'', ''_layout'', ''_error'']"
    and t: "t = [] \<or> (hd t = CHR ''('' \<and> last t = CHR '')'' \<and>
       (\<exists>g. goSlice t 1 (length t - 1) = Some g \<and> isGoIdent U g))"
    by (auto simp: ParseResetFilename_def Let_def hasSuffix_iff simp del: goSlice_Some
        split: if_splits option.splits prod.splits)
       (auto simp: goSlice_def)
  from t have "t = [] \<or> (\<exists>g. isGoIdent U g \<and> t = ''('' @ g @ '')'')" using paren_shape by blast
  with name b cutByte_join[OF cut] show "name = b @ ''@'' @ t @ ''.svelte'' \<and>
     b \<in> set [''_page'', ''_layout'', ''_error''] \<and>
     (t = [] \<or> (\<exists>g. isGoIdent U g \<and> t = ''('' @ g @ '')''))" by simp
next
  assume R: "name = b @ ''@'' @ t @ ''.svelte'' \<and> b \<in> set [''_page'', ''_layout'', ''_error''] \<and>
     (t = [] \<or> (\<exists>g. isGoIdent U g \<and> t = ''('' @ g @ '')''))"
  then have suf: "hasSuffix name ''.svelte''" and
    sl: "goSlice name 0 (length name - length ''.svelte'') = Some (b @ ''@'' @ t)"
    using hasSuffix_append[of "b @ ''@'' @ t" "''.svelte''"] by auto
  have "CHR ''@'' \<notin> set b" using R by auto
  then have cut: "cutByte (b @ ''@'' @ t) CHR ''@'' = (b, t, True)" using cutByte_found by simp
  from R show "ParseResetFilename U name = Some (Some (b, t))"
    unfolding ParseResetFilename_def using suf sl cut paren_target isGoIdent_ne by auto
qed

text \<open>\<^verbatim>\<open>encodePackageName\<close> is not injective on valid directory names: the optional segment
  \<^verbatim>\<open>[[id]]\<close> and the required segment \<^verbatim>\<open>[_id_]\<close>, both accepted by \<^verbatim>\<open>ParseSegment\<close> as
  different segments, are given the same generated package directory \<^verbatim>\<open>__id__\<close>.\<close>

theorem encodePackageName_collision:
  "ParseSegment asciiTables ''[[id]]'' = Inr (mkSegment SegmentOptional ''id'' [] []) \<and>
   ParseSegment asciiTables ''[_id_]'' = Inr (mkSegment SegmentParam ''_id_'' [] []) \<and>
   encodePackageName ''[[id]]'' (mkSegment SegmentOptional ''id'' [] []) False =
   encodePackageName ''[_id_]'' (mkSegment SegmentParam ''_id_'' [] []) False"
  by code_simp

end
