(* ===== verification/Params.thy ===== *)
theory Params
  imports GoStrings
begin

text \<open>
  The built-in parameter matchers of \<^verbatim>\<open>exports/kit/params\<close>: Int, UUID and Slug as the byte
  loops of the source, and the registry of \<^verbatim>\<open>DefaultMatchers\<close>. The theorems compare the loops
  with the languages their comments describe.
\<close>

type_synonym ParamMatcher = "string \<Rightarrow> bool"
type_synonym Matchers = "string \<rightharpoonup> ParamMatcher"

section \<open>The matchers\<close>

definition IntMatch :: ParamMatcher where
  "IntMatch s = (if s = [] then False else atoi s \<noteq> None)"

definition isHexDigit :: "char \<Rightarrow> bool" where
  "isHexDigit c = (if inRange 48 57 c then True else if inRange 97 102 c then True
     else if inRange 65 70 c then True else False)"

definition uuidHyphen :: "nat \<Rightarrow> bool" where
  "uuidHyphen i = (i \<in> {8, 13, 18, 23})"

text \<open>The loop of UUID from index \<open>i\<close>.\<close>

fun uuidLoop :: "nat \<Rightarrow> string \<Rightarrow> bool" where
  "uuidLoop i [] = True"
| "uuidLoop i (c # cs) =
     (if uuidHyphen i then (if c \<noteq> CHR ''-'' then False else uuidLoop (Suc i) cs)
      else if \<not> isHexDigit c then False else uuidLoop (Suc i) cs)"

definition UUIDMatch :: ParamMatcher where
  "UUIDMatch s = (if length s \<noteq> 36 then False else uuidLoop 0 s)"

definition slugByte :: "char \<Rightarrow> bool" where
  "slugByte c = (inRange 97 122 c \<or> inRange 48 57 c)"

text \<open>The loop of Slug: the index and the flag \<^verbatim>\<open>prevHyphen\<close>.\<close>

fun slugLoop :: "nat \<Rightarrow> bool \<Rightarrow> string \<Rightarrow> bool" where
  "slugLoop i prevHyphen [] = (\<not> prevHyphen)"
| "slugLoop i prevHyphen (c # cs) =
     (if slugByte c then slugLoop (Suc i) False cs
      else if c = CHR ''-'' then
        (if i = 0 \<or> prevHyphen then False else slugLoop (Suc i) True cs)
      else False)"

definition SlugMatch :: ParamMatcher where
  "SlugMatch s = (if s = [] then False else slugLoop 0 False s)"

definition DefaultMatchers :: Matchers where
  "DefaultMatchers = [''int'' \<mapsto> IntMatch, ''uuid'' \<mapsto> UUIDMatch, ''slug'' \<mapsto> SlugMatch]"

section \<open>Lemmas\<close>

definition slugWord :: "string \<Rightarrow> bool" where
  "slugWord w = (w \<noteq> [] \<and> list_all slugByte w)"

lemma slugByte_not_hyphen [simp]: "\<not> slugByte CHR ''-''"
  by (simp add: slugByte_def inRange_def byteVal_def)

text \<open>After a byte of a word, the loop accepts the rest of that word and further words; after a
  hyphen it needs a word.\<close>

lemma slugLoop_words:
  "slugLoop (Suc i) False s \<longleftrightarrow>
     list_all slugByte (hd (splitByte CHR ''-'' s)) \<and> list_all slugWord (tl (splitByte CHR ''-'' s))"
  "slugLoop (Suc i) True s \<longleftrightarrow> list_all slugWord (splitByte CHR ''-'' s)"
proof (induction s arbitrary: i)
  case (Cons c cs)
  obtain w ws where w: "splitByte CHR ''-'' cs = w # ws"
    using splitByte_neq_Nil by (metis neq_Nil_conv)
  { case 1 then show ?case using Cons w by (auto simp: slugWord_def) }
  { case 2 then show ?case using Cons w by (auto simp: slugWord_def) }
qed (simp_all add: slugWord_def)

lemma slugLoop_start:
  assumes "s \<noteq> []"
  shows "slugLoop 0 False s \<longleftrightarrow> list_all slugWord (splitByte CHR ''-'' s)"
proof -
  obtain c cs where s: "s = c # cs" using assms by (cases s) auto
  obtain w ws where w: "splitByte CHR ''-'' cs = w # ws"
    using splitByte_neq_Nil by (metis neq_Nil_conv)
  show ?thesis using slugLoop_words(1)[of 0 cs] s w by (auto simp: slugWord_def)
qed

lemma slugWord_no_hyphen: "slugWord w \<Longrightarrow> CHR ''-'' \<notin> set w"
  by (auto simp: slugWord_def list_all_iff)

lemma uuidLoop_nth:
  "uuidLoop i s \<longleftrightarrow> (\<forall>k < length s. if uuidHyphen (i + k) then s ! k = CHR ''-'' else isHexDigit (s ! k))"
  (is "_ \<longleftrightarrow> (\<forall>k < length s. ?P i s k)")
proof (induction s arbitrary: i)
  case (Cons c cs)
  have "(\<forall>k < length (c # cs). ?P i (c # cs) k) \<longleftrightarrow>
      ?P i (c # cs) 0 \<and> (\<forall>k < length cs. ?P i (c # cs) (Suc k))"
    by (simp add: All_less_Suc2)
  also have "\<dots> \<longleftrightarrow> uuidLoop i (c # cs)"
    using Cons.IH[of "Suc i"] by (auto split: if_splits)
  finally show ?case by simp
qed simp

section \<open>Properties\<close>

text \<open>The byte loop of \<^verbatim>\<open>Slug\<close> accepts exactly the language of the regular expression its
  comment gives, \<^verbatim>\<open>^[a-z0-9]+(?:-[a-z0-9]+)*$\<close>: non-empty words of lower-case letters and
  digits joined by single hyphens.\<close>

theorem SlugMatch_language:
  "SlugMatch s \<longleftrightarrow> (\<exists>ws. ws \<noteq> [] \<and> list_all slugWord ws \<and> s = joinStr ''-'' ws)"
proof
  assume "SlugMatch s"
  then have "list_all slugWord (splitByte CHR ''-'' s)"
    using slugLoop_start by (auto simp: SlugMatch_def split: if_splits)
  then show "\<exists>ws. ws \<noteq> [] \<and> list_all slugWord ws \<and> s = joinStr ''-'' ws"
    using joinStr_splitByte[of "CHR ''-''" s] splitByte_neq_Nil by metis
next
  assume "\<exists>ws. ws \<noteq> [] \<and> list_all slugWord ws \<and> s = joinStr ''-'' ws"
  then obtain ws where ws: "ws \<noteq> []" "list_all slugWord ws" "s = joinStr ''-'' ws" by blast
  then have "splitByte CHR ''-'' s = ws"
    using splitByte_joinStr[of ws "CHR ''-''"] slugWord_no_hyphen by (auto simp: list_all_iff)
  moreover have "s \<noteq> []" using ws by (cases ws; cases "tl ws") (auto simp: slugWord_def)
  ultimately show "SlugMatch s" using slugLoop_start ws(2) by (simp add: SlugMatch_def)
qed

text \<open>\<^verbatim>\<open>UUID\<close> accepts exactly the 36-byte strings with hyphens at the positions 8, 13, 18
  and 23 and hex digits of either case everywhere else.\<close>

theorem UUIDMatch_language:
  "UUIDMatch s \<longleftrightarrow> length s = 36 \<and>
     list_all (\<lambda>k. if uuidHyphen k then s ! k = CHR ''-'' else isHexDigit (s ! k)) [0..<36]"
  using uuidLoop_nth[of 0 s] by (auto simp: UUIDMatch_def list_all_iff)

end
