(* ===== verification/RouterTree.thy ===== *)
theory RouterTree
  imports Segments Params "HOL-Library.Word" "HOL-Library.Option_ord"
begin

unbundle bit_operations_syntax

text \<open>
  The radix tree of \<^verbatim>\<open>runtime/router\<close> (\<^verbatim>\<open>route.go\<close>, \<^verbatim>\<open>tree.go\<close>): routes, tree nodes,
  \<^verbatim>\<open>childFor\<close>, \<^verbatim>\<open>insert\<close>, the specificity vectors and their propagation, the sorting of
  children, \<^verbatim>\<open>NewTree\<close>, \<^verbatim>\<open>WithMatchers\<close>, \<^verbatim>\<open>Routes\<close> and \<^verbatim>\<open>routeID\<close>.

  A node's children are owned by it alone, so the pointer tree of the source is a datatype; the
  pointer that \<^verbatim>\<open>childFor\<close> returns is a reference to one of the node's child slots. The
  handler fields of a route are opaque to the router and are collected in the type parameter
  \<^typ>\<open>'h\<close>.
\<close>

section \<open>Routes and nodes\<close>

record 'h Route =
  rt_ID :: string
  rt_Pattern :: string
  rt_Segments :: "Segment list"
  rt_handlers :: 'h

datatype 'h node = Node
  (staticChildren: "'h node list")
  (paramChildren: "'h node list")
  (optionalChild: "'h node option")
  (restChild: "'h node option")
  (nkind: SegmentKind)
  (nvalue: string)
  (nname: string)
  (nmatcher: string)
  (nroute: "'h Route option")
  (bestSpec: "int list option")

record 'h Tree =
  tr_root :: "'h node"
  tr_routes :: "'h Route list"
  tr_matchers :: "Matchers option"

datatype treeError =
    EmptyPattern
  | DuplicatePattern string
  | MissingMatcher string string

text \<open>\<^verbatim>\<open>&node{kind: k, value: v, name: n, matcher: m}\<close>\<close>

definition newNode :: "SegmentKind \<Rightarrow> string \<Rightarrow> string \<Rightarrow> string \<Rightarrow> 'h node" where
  "newNode k v n m = Node [] [] None None k v n m None None"

section \<open>Insertion\<close>

datatype childRef = StaticRef nat | ParamRef nat | OptionalRef | RestRef

fun findIdx :: "('a \<Rightarrow> bool) \<Rightarrow> 'a list \<Rightarrow> nat option" where
  "findIdx P [] = None"
| "findIdx P (x # xs) = (if P x then Some 0 else map_option Suc (findIdx P xs))"

fun setStatics :: "'h node list \<Rightarrow> 'h node \<Rightarrow> 'h node" where
  "setStatics cs (Node ss ps oc rc k v n m r b) = Node cs ps oc rc k v n m r b"

fun setParams :: "'h node list \<Rightarrow> 'h node \<Rightarrow> 'h node" where
  "setParams cs (Node ss ps oc rc k v n m r b) = Node ss cs oc rc k v n m r b"

fun setOptional :: "'h node \<Rightarrow> 'h node \<Rightarrow> 'h node" where
  "setOptional c (Node ss ps oc rc k v n m r b) = Node ss ps (Some c) rc k v n m r b"

fun setRest :: "'h node \<Rightarrow> 'h node \<Rightarrow> 'h node" where
  "setRest c (Node ss ps oc rc k v n m r b) = Node ss ps oc (Some c) k v n m r b"

fun setRoute :: "'h Route \<Rightarrow> 'h node \<Rightarrow> 'h node" where
  "setRoute rt (Node ss ps oc rc k v n m r b) = Node ss ps oc rc k v n m (Some rt) b"

text \<open>\<^verbatim>\<open>childFor\<close>: the reference of the child for a segment and the node, in which the child
  has been created when it was missing. Another optional or rest child is replaced.\<close>

definition childFor :: "'h node \<Rightarrow> Segment \<Rightarrow> childRef \<times> 'h node" where
  "childFor n seg = (case seg_kind seg of
      SegmentStatic \<Rightarrow>
        (case findIdx (\<lambda>c. nvalue c = seg_value seg) (staticChildren n) of
           Some i \<Rightarrow> (StaticRef i, n)
         | None \<Rightarrow> (StaticRef (length (staticChildren n)),
             setStatics (staticChildren n @ [newNode SegmentStatic (seg_value seg) [] []]) n))
    | SegmentParam \<Rightarrow>
        (case findIdx (\<lambda>c. nname c = seg_name seg \<and> nmatcher c = seg_matcher seg) (paramChildren n) of
           Some i \<Rightarrow> (ParamRef i, n)
         | None \<Rightarrow> (ParamRef (length (paramChildren n)),
             setParams (paramChildren n @ [newNode SegmentParam [] (seg_name seg) (seg_matcher seg)]) n))
    | SegmentOptional \<Rightarrow>
        (case optionalChild n of
           Some c \<Rightarrow> if nname c = seg_name seg \<and> nmatcher c = seg_matcher seg then (OptionalRef, n)
             else (OptionalRef, setOptional (newNode SegmentOptional [] (seg_name seg) (seg_matcher seg)) n)
         | None \<Rightarrow> (OptionalRef, setOptional (newNode SegmentOptional [] (seg_name seg) (seg_matcher seg)) n))
    | SegmentRest \<Rightarrow>
        (case restChild n of
           Some c \<Rightarrow> if nname c = seg_name seg \<and> nmatcher c = seg_matcher seg then (RestRef, n)
             else (RestRef, setRest (newNode SegmentRest [] (seg_name seg) (seg_matcher seg)) n)
         | None \<Rightarrow> (RestRef, setRest (newNode SegmentRest [] (seg_name seg) (seg_matcher seg)) n)))"

text \<open>Reading and writing through the reference.\<close>

fun getChild :: "'h node \<Rightarrow> childRef \<Rightarrow> 'h node" where
  "getChild n (StaticRef i) = staticChildren n ! i"
| "getChild n (ParamRef i) = paramChildren n ! i"
| "getChild n OptionalRef = (case optionalChild n of Some c \<Rightarrow> c | None \<Rightarrow> n)"
| "getChild n RestRef = (case restChild n of Some c \<Rightarrow> c | None \<Rightarrow> n)"

fun setChild :: "'h node \<Rightarrow> childRef \<Rightarrow> 'h node \<Rightarrow> 'h node" where
  "setChild n (StaticRef i) c = setStatics ((staticChildren n)[i := c]) n"
| "setChild n (ParamRef i) c = setParams ((paramChildren n)[i := c]) n"
| "setChild n OptionalRef c = setOptional c n"
| "setChild n RestRef c = setRest c n"

text \<open>The walk of \<^verbatim>\<open>insert\<close>: follow or create the child of every segment, then place the
  route at the node reached.\<close>

fun insertAt :: "'h node \<Rightarrow> Segment list \<Rightarrow> 'h Route \<Rightarrow> (treeError, 'h node) result" where
  "insertAt n [] r = (case nroute n of
      Some _ \<Rightarrow> Inl (DuplicatePattern (rt_Pattern r))
    | None \<Rightarrow> Inr (setRoute r n))"
| "insertAt n (seg # segs) r =
     (let (ref, n') = childFor n seg in
      case insertAt (getChild n' ref) segs r of
        Inl e \<Rightarrow> Inl e
      | Inr c \<Rightarrow> Inr (setChild n' ref c))"

definition insertRoute :: "'h node \<Rightarrow> 'h Route \<Rightarrow> (treeError, 'h node) result" where
  "insertRoute root r =
    (if rt_Pattern r = [] then Inl EmptyPattern else insertAt root (rt_Segments r) r)"

section \<open>Specificity\<close>

definition segmentScore :: "Segment \<Rightarrow> int" where
  "segmentScore s = (case seg_kind s of
      SegmentStatic \<Rightarrow> 4
    | SegmentParam \<Rightarrow> (if seg_matcher s \<noteq> [] then 3 else 2)
    | SegmentOptional \<Rightarrow> 1
    | SegmentRest \<Rightarrow> 0)"

definition routeSpec :: "'h Route \<Rightarrow> int list" where
  "routeSpec r = map segmentScore (rt_Segments r)"

text \<open>The loop and the length comparison of \<^verbatim>\<open>specCompare\<close> on two non-nil vectors; a nil
  vector is \<^const>\<open>None\<close>.\<close>

fun specCompareLoop :: "int list \<Rightarrow> int list \<Rightarrow> int" where
  "specCompareLoop (x # xs) (y # ys) =
     (if x < y then -1 else if x > y then 1 else specCompareLoop xs ys)"
| "specCompareLoop [] (y # ys) = -1"
| "specCompareLoop (x # xs) [] = 1"
| "specCompareLoop [] [] = 0"

definition specCompare :: "int list option \<Rightarrow> int list option \<Rightarrow> int" where
  "specCompare a b = (case (a, b) of
      (None, None) \<Rightarrow> 0
    | (None, Some _) \<Rightarrow> -1
    | (Some _, None) \<Rightarrow> 1
    | (Some xs, Some ys) \<Rightarrow> specCompareLoop xs ys)"

definition bestOf :: "int list option \<Rightarrow> int list option \<Rightarrow> int list option" where
  "bestOf a b = (if specCompare a b \<ge> 0 then a else b)"

text \<open>\<^verbatim>\<open>propagateSpec\<close> returns the node with \<^verbatim>\<open>bestSpec\<close> set in its whole subtree; the
  vector it returns in the source is that field.\<close>

fun propagateSpec :: "'h node \<Rightarrow> 'h node" where
  "propagateSpec (Node ss ps oc rc k v n m r b) =
     (let ss' = map propagateSpec ss;
          ps' = map propagateSpec ps;
          oc' = map_option propagateSpec oc;
          rc' = map_option propagateSpec rc;
          b0 = (case r of Some rt \<Rightarrow> bestOf None (Some (routeSpec rt)) | None \<Rightarrow> None);
          b1 = foldl (\<lambda>best c. bestOf best (bestSpec c)) b0 ss';
          b2 = foldl (\<lambda>best c. bestOf best (bestSpec c)) b1 ps';
          b3 = (case oc' of Some c \<Rightarrow> bestOf b2 (bestSpec c) | None \<Rightarrow> b2);
          b4 = (case rc' of Some c \<Rightarrow> bestOf b3 (bestSpec c) | None \<Rightarrow> b3)
      in Node ss' ps' oc' rc' k v n m r b4)"

definition staticLess :: "'h node \<Rightarrow> 'h node \<Rightarrow> bool" where
  "staticLess a b =
    (let cmp = specCompare (bestSpec a) (bestSpec b) in
     if cmp \<noteq> 0 then cmp > 0 else nvalue a < nvalue b)"

definition paramLess :: "'h node \<Rightarrow> 'h node \<Rightarrow> bool" where
  "paramLess a b =
    (let cmp = specCompare (bestSpec a) (bestSpec b) in
     if cmp \<noteq> 0 then cmp > 0
     else if (nmatcher a \<noteq> []) \<noteq> (nmatcher b \<noteq> []) then nmatcher a \<noteq> []
     else nname a < nname b)"

fun sortAll :: "'h node \<Rightarrow> 'h node" where
  "sortAll (Node ss ps oc rc k v n m r b) =
     Node (sliceStable staticLess (map sortAll ss)) (sliceStable paramLess (map sortAll ps))
       (map_option sortAll oc) (map_option sortAll rc) k v n m r b"

section \<open>Route ids: FNV-1a\<close>

definition fnv32a :: "string \<Rightarrow> 32 word" where
  "fnv32a s = foldl (\<lambda>h c. (h XOR word_of_nat (byteVal c)) * 16777619) 2166136261 s"

definition hexLower :: "int \<Rightarrow> char" where
  "hexLower n = (if n < 10 then char_of (48 + n) else char_of (87 + n))"

text \<open>\<^verbatim>\<open>PutUint32\<close> (big endian) and \<^verbatim>\<open>hex.EncodeToString\<close>: two lower-case digits per byte.\<close>

definition routeID :: "string \<Rightarrow> string" where
  "routeID pattern =
    (let h = uint (fnv32a pattern);
         buf = map (\<lambda>k. (h div k) mod 256) [16777216, 65536, 256, 1]
     in concat (map (\<lambda>b. [hexLower (b div 16), hexLower (b mod 16)]) buf))"

section \<open>Building a tree\<close>

text \<open>The loop of \<^verbatim>\<open>NewTree\<close>: set the id of each route, insert it, stop at the first error.\<close>

fun insertAll :: "'h node \<Rightarrow> 'h Route list \<Rightarrow> (treeError, 'h node) result" where
  "insertAll root [] = Inr root"
| "insertAll root (r # rs) =
     (case insertRoute root r of Inl e \<Rightarrow> Inl e | Inr root' \<Rightarrow> insertAll root' rs)"

definition withID :: "'h Route \<Rightarrow> 'h Route" where
  "withID r = r\<lparr>rt_ID := routeID (rt_Pattern r)\<rparr>"

definition rootNode :: "'h node" where
  "rootNode = newNode SegmentStatic [] [] []"

definition NewTree :: "'h Route list \<Rightarrow> (treeError, 'h Tree) result" where
  "NewTree routes =
    (let rs = map withID routes in
     case insertAll rootNode rs of
       Inl e \<Rightarrow> Inl e
     | Inr root \<Rightarrow> Inr \<lparr>tr_root = sortAll (propagateSpec root), tr_routes = rs, tr_matchers = None\<rparr>)"

text \<open>The lookup \<^verbatim>\<open>m[name]\<close> in a registry, which may be the nil map (\<^const>\<open>None\<close>).\<close>

definition lookupMatcher :: "Matchers option \<Rightarrow> string \<Rightarrow> ParamMatcher option" where
  "lookupMatcher m name = (case m of None \<Rightarrow> None | Some reg \<Rightarrow> reg name)"

text \<open>The double loop of \<^verbatim>\<open>WithMatchers\<close>: the first segment that names an unknown matcher.\<close>

fun missingMatcher :: "Matchers option \<Rightarrow> string \<Rightarrow> Segment list \<Rightarrow> treeError option" where
  "missingMatcher m pattern [] = None"
| "missingMatcher m pattern (s # ss) =
     (if seg_matcher s = [] then missingMatcher m pattern ss
      else if lookupMatcher m (seg_matcher s) = None then Some (MissingMatcher pattern (seg_matcher s))
      else missingMatcher m pattern ss)"

fun missingMatchers :: "Matchers option \<Rightarrow> 'h Route list \<Rightarrow> treeError option" where
  "missingMatchers m [] = None"
| "missingMatchers m (r # rs) =
     (case missingMatcher m (rt_Pattern r) (rt_Segments r) of
        Some e \<Rightarrow> Some e
      | None \<Rightarrow> missingMatchers m rs)"

text \<open>\<^verbatim>\<open>WithMatchers\<close> stores the registry in its receiver before it validates: the tree after the
  call, and the error (with which the source returns a nil pointer).\<close>

definition WithMatchers :: "'h Tree \<Rightarrow> Matchers option \<Rightarrow> 'h Tree \<times> treeError option" where
  "WithMatchers t m = (let t' = t\<lparr>tr_matchers := m\<rparr> in (t', missingMatchers m (tr_routes t')))"

definition Routes :: "'h Tree \<Rightarrow> 'h Route list" where
  "Routes t = tr_routes t"

end
