(* ===== verification/RouterFacts.thy ===== *)
theory RouterFacts
  imports RouterTree
begin

text \<open>
  What building the tree guarantees: the entries of a tree (the segment path of every node that
  carries a route), the structural invariant of the nodes, and how insertion, propagation and
  sorting change them. The specificity comparison is shown to be the lexicographic order, so the
  less functions handed to the stable sort are strict weak orders.
\<close>

section \<open>Entries\<close>

definition normSeg :: "Segment \<Rightarrow> Segment" where
  "normSeg s = (case seg_kind s of
      SegmentStatic \<Rightarrow> mkSegment SegmentStatic [] (seg_value s) []
    | k \<Rightarrow> mkSegment k (seg_name s) [] (seg_matcher s))"

lemma normSeg_wf: "wfSegment U s \<Longrightarrow> normSeg s = s"
  by (cases s; cases "seg_kind s") (auto simp: normSeg_def wfSegment_def mkSegment_def)

definition segOf :: "'h node \<Rightarrow> Segment" where
  "segOf c = mkSegment (nkind c) (nname c) (nvalue c) (nmatcher c)"

definition children :: "'h node \<Rightarrow> 'h node set" where
  "children n = set (staticChildren n) \<union> set (paramChildren n) \<union>
     set_option (optionalChild n) \<union> set_option (restChild n)"

inductive entry :: "'h node \<Rightarrow> Segment list \<Rightarrow> 'h Route \<Rightarrow> bool" where
  entry_here: "nroute n = Some r \<Longrightarrow> entry n [] r"
| entry_child: "c \<in> children n \<Longrightarrow> entry c p r \<Longrightarrow> entry n (segOf c # p) r"

inductive_cases entry_NilE: "entry n [] r"
inductive_cases entry_ConsE: "entry n (s # p) r"

lemma entry_Nil [simp]: "entry n [] r \<longleftrightarrow> nroute n = Some r"
  by (auto intro: entry_here elim: entry_NilE)

lemma entry_Cons: "entry n (s # p) r \<longleftrightarrow> (\<exists>c \<in> children n. s = segOf c \<and> entry c p r)"
  by (auto intro: entry_child elim: entry_ConsE)

lemma newNode_fields [simp]:
  "staticChildren (newNode k v n m) = []" "paramChildren (newNode k v n m) = []"
  "optionalChild (newNode k v n m) = None" "restChild (newNode k v n m) = None"
  "nkind (newNode k v n m) = k" "nvalue (newNode k v n m) = v" "nname (newNode k v n m) = n"
  "nmatcher (newNode k v n m) = m" "nroute (newNode k v n m) = None"
  "children (newNode k v n m) = {}"
  by (simp_all add: newNode_def children_def)

lemma entry_newNode [simp]: "\<not> entry (newNode k v n m) p r"
  by (cases p) (auto simp: entry_Cons)

section \<open>The structural invariant\<close>

definition paramKey :: "'h node \<Rightarrow> string \<times> string" where
  "paramKey c = (nname c, nmatcher c)"

definition staticNode :: "'h node \<Rightarrow> bool" where
  "staticNode c = (nkind c = SegmentStatic \<and> nname c = [] \<and> nmatcher c = [])"

definition kindNode :: "SegmentKind \<Rightarrow> 'h node \<Rightarrow> bool" where
  "kindNode k c = (nkind c = k \<and> nvalue c = [])"

definition localInv :: "'h node \<Rightarrow> bool" where
  "localInv n = (list_all staticNode (staticChildren n) \<and> distinct (map nvalue (staticChildren n)) \<and>
     list_all (kindNode SegmentParam) (paramChildren n) \<and> distinct (map paramKey (paramChildren n)) \<and>
     pred_option (kindNode SegmentOptional) (optionalChild n) \<and>
     pred_option (kindNode SegmentRest) (restChild n))"

inductive treeInv :: "'h node \<Rightarrow> bool" where
  treeInvI: "localInv n \<Longrightarrow> (\<And>c. c \<in> children n \<Longrightarrow> treeInv c) \<Longrightarrow> treeInv n"

lemma treeInv_local: "treeInv n \<Longrightarrow> localInv n"
  by (erule treeInv.cases) simp

lemma treeInv_child: "treeInv n \<Longrightarrow> c \<in> children n \<Longrightarrow> treeInv c"
  by (erule treeInv.cases) simp

lemma treeInv_newNode [simp]: "treeInv (newNode k v n m)"
  by (rule treeInvI) (simp_all add: localInv_def)

text \<open>A node just created by \<^verbatim>\<open>childFor\<close>.\<close>

definition fresh :: "'h node \<Rightarrow> bool" where
  "fresh c = (nroute c = None \<and> treeInv c \<and> (\<forall>p r. \<not> entry c p r))"

lemma fresh_newNode [simp]: "fresh (newNode k v n m)"
  by (simp add: fresh_def)

section \<open>The child slots\<close>

lemma findIdx_Some: "findIdx P xs = Some i \<Longrightarrow> i < length xs \<and> P (xs ! i)"
  by (induction xs arbitrary: i) (auto split: if_splits)

lemma findIdx_None: "findIdx P xs = None \<longleftrightarrow> (\<forall>x \<in> set xs. \<not> P x)"
  by (induction xs) auto

lemma set_fields [simp]:
  "staticChildren (setStatics cs n) = cs" "paramChildren (setStatics cs n) = paramChildren n"
  "optionalChild (setStatics cs n) = optionalChild n" "restChild (setStatics cs n) = restChild n"
  "nroute (setStatics cs n) = nroute n" "segOf (setStatics cs n) = segOf n"
  "staticChildren (setParams cs n) = staticChildren n" "paramChildren (setParams cs n) = cs"
  "optionalChild (setParams cs n) = optionalChild n" "restChild (setParams cs n) = restChild n"
  "nroute (setParams cs n) = nroute n" "segOf (setParams cs n) = segOf n"
  "staticChildren (setOptional c n) = staticChildren n" "paramChildren (setOptional c n) = paramChildren n"
  "optionalChild (setOptional c n) = Some c" "restChild (setOptional c n) = restChild n"
  "nroute (setOptional c n) = nroute n" "segOf (setOptional c n) = segOf n"
  "staticChildren (setRest c n) = staticChildren n" "paramChildren (setRest c n) = paramChildren n"
  "optionalChild (setRest c n) = optionalChild n" "restChild (setRest c n) = Some c"
  "nroute (setRest c n) = nroute n" "segOf (setRest c n) = segOf n"
  "staticChildren (setRoute r n) = staticChildren n" "paramChildren (setRoute r n) = paramChildren n"
  "optionalChild (setRoute r n) = optionalChild n" "restChild (setRoute r n) = restChild n"
  "nroute (setRoute r n) = Some r" "segOf (setRoute r n) = segOf n"
  by (cases n; simp add: segOf_def)+

text \<open>A segment that may not replace another one: only optional and rest children are unique
  slots.\<close>

definition clash :: "Segment \<Rightarrow> Segment \<Rightarrow> bool" where
  "clash a b = (a \<noteq> b \<and> seg_kind a = seg_kind b \<and> seg_kind a \<in> {SegmentOptional, SegmentRest})"

lemma mkSegment_eq [simp]:
  "mkSegment k n v m = mkSegment k' n' v' m' \<longleftrightarrow> k = k' \<and> n = n' \<and> v = v' \<and> m = m'"
  "seg_kind (mkSegment k n v m) = k" "seg_name (mkSegment k n v m) = n"
  "seg_value (mkSegment k n v m) = v" "seg_matcher (mkSegment k n v m) = m"
  by (auto simp: mkSegment_def)

lemma mem_list_update: "d \<in> set xs \<Longrightarrow> d \<noteq> xs ! i \<Longrightarrow> d \<in> set (xs[i := c])"
  by (metis in_set_conv_nth length_list_update nth_list_update_neq)

lemma set_list_update_subset: "x \<in> set (xs[i := c]) \<Longrightarrow> x = c \<or> x \<in> set xs"
  using set_update_subset_insert by fast

lemma map_list_update_same: "i < length xs \<Longrightarrow> f c = f (xs ! i) \<Longrightarrow> map f (xs[i := c]) = map f xs"
  by (metis list_update_id map_update)

lemma distinct_map_nth:
  "distinct (map f xs) \<Longrightarrow> i < length xs \<Longrightarrow> d \<in> set xs \<Longrightarrow> f d = f (xs ! i) \<Longrightarrow> d = xs ! i"
  unfolding distinct_map by (metis inj_onD nth_mem)

lemma pred_option_Some: "pred_option P oc \<longleftrightarrow> (\<forall>c. oc = Some c \<longrightarrow> P c)"
  by (cases oc) auto

lemma segOf_static:
  "segOf c = mkSegment SegmentStatic [] v [] \<longleftrightarrow> staticNode c \<and> nvalue c = v"
  by (auto simp: segOf_def staticNode_def)

lemma segOf_kind:
  "segOf c = mkSegment k a [] m \<longleftrightarrow> kindNode k c \<and> nname c = a \<and> nmatcher c = m"
  by (auto simp: segOf_def kindNode_def)

lemmas slot_simps = children_def localInv_def segOf_static segOf_kind normSeg_def list_all_iff
  staticNode_def kindNode_def paramKey_def

text \<open>What the client of the three slot operations relies on, for the slot a segment selects.\<close>

definition slotLaws :: "'h node \<Rightarrow> Segment \<Rightarrow> childRef \<Rightarrow> 'h node \<Rightarrow> bool" where
  "slotLaws n seg ref n' \<longleftrightarrow>
     segOf (getChild n' ref) = normSeg seg \<and>
     (getChild n' ref \<in> children n \<or> fresh (getChild n' ref)) \<and>
     (\<forall>c. children (setChild n' ref c) \<subseteq> insert c (children n)) \<and>
     (\<forall>c. c \<in> children (setChild n' ref c)) \<and>
     (\<forall>c d. d \<in> children n \<longrightarrow> \<not> clash (segOf d) (normSeg seg) \<longrightarrow>
        d = getChild n' ref \<or> d \<in> children (setChild n' ref c)) \<and>
     (\<forall>c. nroute (setChild n' ref c) = nroute n \<and> segOf (setChild n' ref c) = segOf n) \<and>
     (\<forall>c. segOf c = normSeg seg \<longrightarrow> localInv (setChild n' ref c)) \<and>
     (\<forall>d. d \<in> children n \<longrightarrow> segOf d = normSeg seg \<longrightarrow> d = getChild n' ref)"

lemma slot_static:
  assumes inv: "localInv n" and k: "seg_kind seg = SegmentStatic" and cf: "childFor n seg = (ref, n')"
  shows "slotLaws n seg ref n'"
proof (cases "findIdx (\<lambda>c. nvalue c = seg_value seg) (staticChildren n)")
  case None
  with k cf have ref: "ref = StaticRef (length (staticChildren n))"
    "n' = setStatics (staticChildren n @ [newNode SegmentStatic (seg_value seg) [] []]) n"
    by (simp_all add: childFor_def)
  with k inv None show ?thesis
    by (auto simp: slotLaws_def slot_simps findIdx_None pred_option_Some)
next
  case (Some i)
  with k cf have ref: "ref = StaticRef i" "n' = n" by (simp_all add: childFor_def)
  from Some have i: "i < length (staticChildren n)" "nvalue (staticChildren n ! i) = seg_value seg"
    by (auto dest: findIdx_Some)
  then have "staticNode (staticChildren n ! i)" using inv by (auto simp: localInv_def list_all_iff)
  with ref i k inv show ?thesis
    by (auto simp: slotLaws_def slot_simps map_list_update_same pred_option_Some dest: set_list_update_subset
        intro: mem_list_update set_update_memI distinct_map_nth)
qed

lemma slot_param:
  assumes inv: "localInv n" and k: "seg_kind seg = SegmentParam" and cf: "childFor n seg = (ref, n')"
  shows "slotLaws n seg ref n'"
proof (cases "findIdx (\<lambda>c. nname c = seg_name seg \<and> nmatcher c = seg_matcher seg) (paramChildren n)")
  case None
  with k cf have ref: "ref = ParamRef (length (paramChildren n))"
    "n' = setParams (paramChildren n @ [newNode SegmentParam [] (seg_name seg) (seg_matcher seg)]) n"
    by (simp_all add: childFor_def)
  with k inv None show ?thesis
    by (auto simp: slotLaws_def slot_simps findIdx_None pred_option_Some)
next
  case (Some i)
  with k cf have ref: "ref = ParamRef i" "n' = n" by (simp_all add: childFor_def)
  from Some have i: "i < length (paramChildren n)" "nname (paramChildren n ! i) = seg_name seg"
    "nmatcher (paramChildren n ! i) = seg_matcher seg"
    by (auto dest: findIdx_Some)
  then have "kindNode SegmentParam (paramChildren n ! i)" using inv by (auto simp: localInv_def list_all_iff)
  with ref i k inv show ?thesis
    by (auto simp: slotLaws_def slot_simps map_list_update_same pred_option_Some dest: set_list_update_subset
        intro: mem_list_update set_update_memI distinct_map_nth)
qed

lemma slot_optional:
  assumes inv: "localInv n" and k: "seg_kind seg = SegmentOptional" and cf: "childFor n seg = (ref, n')"
  shows "slotLaws n seg ref n'"
proof (cases "\<exists>c. optionalChild n = Some c \<and> nname c = seg_name seg \<and> nmatcher c = seg_matcher seg")
  case True
  with k cf have "ref = OptionalRef" "n' = n" by (auto simp: childFor_def)
  with True k inv show ?thesis
    by (auto simp: slotLaws_def slot_simps clash_def pred_option_Some)
next
  case False
  with k cf have "ref = OptionalRef"
    "n' = setOptional (newNode SegmentOptional [] (seg_name seg) (seg_matcher seg)) n"
    by (auto simp: childFor_def split: option.splits if_splits)
  with False k inv show ?thesis
    by (auto simp: slotLaws_def slot_simps clash_def pred_option_Some) (auto simp: segOf_def)
qed

lemma slot_rest:
  assumes inv: "localInv n" and k: "seg_kind seg = SegmentRest" and cf: "childFor n seg = (ref, n')"
  shows "slotLaws n seg ref n'"
proof (cases "\<exists>c. restChild n = Some c \<and> nname c = seg_name seg \<and> nmatcher c = seg_matcher seg")
  case True
  with k cf have "ref = RestRef" "n' = n" by (auto simp: childFor_def)
  with True k inv show ?thesis
    by (auto simp: slotLaws_def slot_simps clash_def pred_option_Some)
next
  case False
  with k cf have "ref = RestRef"
    "n' = setRest (newNode SegmentRest [] (seg_name seg) (seg_matcher seg)) n"
    by (auto simp: childFor_def split: option.splits if_splits)
  with False k inv show ?thesis
    by (auto simp: slotLaws_def slot_simps clash_def pred_option_Some) (auto simp: segOf_def)
qed

lemma slot_laws:
  assumes "localInv n" "childFor n seg = (ref, n')" shows "slotLaws n seg ref n'"
  using assms slot_static slot_param slot_optional slot_rest by (cases "seg_kind seg") blast+

lemma slotD:
  assumes "slotLaws n seg ref n'"
  shows slot_seg: "segOf (getChild n' ref) = normSeg seg"
    and slot_get: "getChild n' ref \<in> children n \<or> fresh (getChild n' ref)"
    and slot_sub: "d \<in> children (setChild n' ref c) \<Longrightarrow> d = c \<or> d \<in> children n"
    and slot_mem: "c \<in> children (setChild n' ref c)"
    and slot_keep: "d \<in> children n \<Longrightarrow> \<not> clash (segOf d) (normSeg seg) \<Longrightarrow>
        d = getChild n' ref \<or> d \<in> children (setChild n' ref c)"
    and slot_frame: "nroute (setChild n' ref c) = nroute n" "segOf (setChild n' ref c) = segOf n"
    and slot_inv: "segOf c = normSeg seg \<Longrightarrow> localInv (setChild n' ref c)"
    and slot_uniq: "d \<in> children n \<Longrightarrow> segOf d = normSeg seg \<Longrightarrow> d = getChild n' ref"
  using assms by (auto simp: slotLaws_def)

section \<open>Insertion\<close>

lemma insertAt_Cons_Inr:
  assumes "insertAt n (seg # segs) r = Inr n2" "localInv n"
  obtains ref n1 c where "slotLaws n seg ref n1" "insertAt (getChild n1 ref) segs r = Inr c"
    "n2 = setChild n1 ref c"
proof -
  obtain ref n1 where cf: "childFor n seg = (ref, n1)" by fastforce
  with assms show thesis
    using slot_laws[OF assms(2) cf] that by (auto split: sum.splits)
qed

lemma insertAt_seg: "insertAt n segs r = Inr n2 \<Longrightarrow> localInv n \<Longrightarrow> segOf n2 = segOf n"
proof (cases segs)
  case (Cons seg segs')
  assume "insertAt n segs r = Inr n2" "localInv n"
  then have "insertAt n (seg # segs') r = Inr n2" "localInv n" using Cons by simp_all
  then obtain ref n1 c where "slotLaws n seg ref n1" "n2 = setChild n1 ref c"
    by (rule insertAt_Cons_Inr)
  then show ?thesis using slot_frame(2)[of n seg ref n1] by simp
qed (auto split: option.splits)

lemma slot_child_inv: "slotLaws n seg ref n1 \<Longrightarrow> treeInv n \<Longrightarrow> treeInv (getChild n1 ref)"
  using slot_get[of n seg ref n1] by (auto simp: fresh_def dest: treeInv_child)

lemma treeInv_setRoute: "treeInv n \<Longrightarrow> treeInv (setRoute r n)"
proof (rule treeInvI)
  assume inv: "treeInv n"
  show "localInv (setRoute r n)" using treeInv_local[OF inv] by (simp add: localInv_def)
  have "children (setRoute r n) = children n" by (simp add: children_def)
  then show "treeInv c" if "c \<in> children (setRoute r n)" for c
    using treeInv_child[OF inv] that by simp
qed

lemma insertAt_inv: "insertAt n segs r = Inr n2 \<Longrightarrow> treeInv n \<Longrightarrow> treeInv n2"
proof (induction segs arbitrary: n n2)
  case Nil
  then show ?case by (auto simp: treeInv_setRoute split: option.splits)
next
  case (Cons seg segs)
  obtain ref n1 c where sl: "slotLaws n seg ref n1" and c: "insertAt (getChild n1 ref) segs r = Inr c"
    and n2: "n2 = setChild n1 ref c"
    by (rule insertAt_Cons_Inr[OF Cons.prems(1) treeInv_local[OF Cons.prems(2)]])
  have g: "treeInv (getChild n1 ref)" using sl Cons.prems(2) by (rule slot_child_inv)
  have ci: "treeInv c" using c g by (rule Cons.IH)
  have "segOf c = normSeg seg" using insertAt_seg[OF c treeInv_local[OF g]] slot_seg[OF sl] by simp
  then have "localInv n2" unfolding n2 by (rule slot_inv[OF sl])
  moreover have "treeInv d" if "d \<in> children n2" for d
    using slot_sub[OF sl that[unfolded n2]] ci treeInv_child[OF Cons.prems(2)] by (elim disjE) simp_all
  ultimately show ?case by (rule treeInvI)
qed

text \<open>Every entry of the new tree is the inserted route at its own segments or was there before.\<close>

lemma insertAt_entry_sound:
  "insertAt n segs r = Inr n2 \<Longrightarrow> treeInv n \<Longrightarrow> entry n2 p q \<Longrightarrow>
     (p = map normSeg segs \<and> q = r) \<or> entry n p q"
proof (induction segs arbitrary: n n2 p)
  case Nil
  then have "n2 = setRoute r n" "nroute n = None" by (auto split: option.splits)
  with Nil.prems(3) show ?case by (cases p) (auto simp: entry_Cons children_def)
next
  case (Cons seg segs)
  obtain ref n1 c where sl: "slotLaws n seg ref n1" and c: "insertAt (getChild n1 ref) segs r = Inr c"
    and n2: "n2 = setChild n1 ref c"
    by (rule insertAt_Cons_Inr[OF Cons.prems(1) treeInv_local[OF Cons.prems(2)]])
  have g: "treeInv (getChild n1 ref)" using sl Cons.prems(2) by (rule slot_child_inv)
  have s: "segOf c = normSeg seg" "segOf (getChild n1 ref) = normSeg seg"
    using insertAt_seg[OF c treeInv_local[OF g]] slot_seg[OF sl] by simp_all
  show ?case
  proof (cases p)
    case Nil
    with Cons.prems(3) n2 slot_frame(1)[OF sl] show ?thesis by simp
  next
    case p: (Cons a p')
    then obtain d where d: "d \<in> children n2" "a = segOf d" "entry d p' q"
      using Cons.prems(3) by (auto simp: entry_Cons)
    with n2 slot_sub[OF sl] have "d = c \<or> d \<in> children n" by blast
    then show ?thesis
    proof
      assume "d = c"
      with Cons.IH[OF c g] d have "(p' = map normSeg segs \<and> q = r) \<or> entry (getChild n1 ref) p' q" by blast
      then show ?thesis
      proof
        assume e: "entry (getChild n1 ref) p' q"
        with slot_get[OF sl] have "getChild n1 ref \<in> children n" by (auto simp: fresh_def)
        with e s d \<open>d = c\<close> p show ?thesis by (auto simp: entry_Cons)
      qed (use s d \<open>d = c\<close> p in auto)
    qed (use d p in \<open>auto simp: entry_Cons\<close>)
  qed
qed

lemma insertAt_entry_new:
  "insertAt n segs r = Inr n2 \<Longrightarrow> treeInv n \<Longrightarrow> entry n2 (map normSeg segs) r"
proof (induction segs arbitrary: n n2)
  case Nil
  then show ?case by (auto split: option.splits)
next
  case (Cons seg segs)
  obtain ref n1 c where sl: "slotLaws n seg ref n1" and c: "insertAt (getChild n1 ref) segs r = Inr c"
    and n2: "n2 = setChild n1 ref c"
    by (rule insertAt_Cons_Inr[OF Cons.prems(1) treeInv_local[OF Cons.prems(2)]])
  have g: "treeInv (getChild n1 ref)" using sl Cons.prems(2) by (rule slot_child_inv)
  have "segOf c = normSeg seg" using insertAt_seg[OF c treeInv_local[OF g]] slot_seg[OF sl] by simp
  with Cons.IH[OF c g] n2 slot_mem[OF sl] show ?case by (metis entry_child list.simps(9))
qed

text \<open>Two paths are compatible when no optional or rest segment of one takes the slot of a
  different one of the other below their common prefix.\<close>

fun compatible :: "Segment list \<Rightarrow> Segment list \<Rightarrow> bool" where
  "compatible (a # p) (b # q) = (if a = b then compatible p q else \<not> clash a b)"
| "compatible p q = True"

lemma insertAt_entry_keep:
  "insertAt n segs r = Inr n2 \<Longrightarrow> treeInv n \<Longrightarrow> entry n p q \<Longrightarrow> compatible p (map normSeg segs) \<Longrightarrow>
     entry n2 p q"
proof (induction segs arbitrary: n n2 p)
  case Nil
  then have "n2 = setRoute r n" "nroute n = None" by (auto split: option.splits)
  with Nil.prems(3) show ?case by (cases p) (auto simp: entry_Cons children_def)
next
  case (Cons seg segs)
  obtain ref n1 c where sl: "slotLaws n seg ref n1" and c: "insertAt (getChild n1 ref) segs r = Inr c"
    and n2: "n2 = setChild n1 ref c"
    by (rule insertAt_Cons_Inr[OF Cons.prems(1) treeInv_local[OF Cons.prems(2)]])
  have g: "treeInv (getChild n1 ref)" using sl Cons.prems(2) by (rule slot_child_inv)
  have s: "segOf c = normSeg seg" "segOf (getChild n1 ref) = normSeg seg"
    using insertAt_seg[OF c treeInv_local[OF g]] slot_seg[OF sl] by simp_all
  show ?case
  proof (cases p)
    case Nil
    with Cons.prems(3) n2 slot_frame(1)[OF sl] show ?thesis by simp
  next
    case p: (Cons a p')
    then obtain d where d: "d \<in> children n" "a = segOf d" "entry d p' q"
      using Cons.prems(3) by (auto simp: entry_Cons)
    have "\<not> clash (segOf d) (normSeg seg)"
      using Cons.prems(4) p d(2) by (auto simp: clash_def split: if_splits)
    with slot_keep[OF sl d(1)] n2 have "d = getChild n1 ref \<or> d \<in> children n2" by blast
    then show ?thesis
    proof
      assume dg: "d = getChild n1 ref"
      with s d(2) Cons.prems(4) p have "compatible p' (map normSeg segs)" by simp
      with Cons.IH[OF c g] d dg have "entry c p' q" by blast
      with s dg d p n2 slot_mem[OF sl] show ?thesis by (metis entry_child)
    qed (use d p in \<open>auto simp: entry_Cons\<close>)
  qed
qed

section \<open>Passes over the finished tree\<close>

text \<open>A pass that rewrites every node in place: it keeps routes and labels and commutes with
  taking children. \<^verbatim>\<open>propagateSpec\<close> and \<^verbatim>\<open>sortAll\<close> are the two instances.\<close>

locale node_pass =
  fixes f :: "'h node \<Rightarrow> 'h node"
  assumes pass_route: "nroute (f n) = nroute n"
    and pass_seg: "segOf (f n) = segOf n"
    and pass_children: "children (f n) = f ` children n"
    and pass_local: "localInv n \<Longrightarrow> localInv (f n)"
begin

lemma pass_entry: "entry (f n) p r \<longleftrightarrow> entry n p r"
proof (induction p arbitrary: n)
  case (Cons s p)
  then show ?case by (simp add: entry_Cons pass_children pass_seg)
qed (simp add: pass_route)

lemma pass_inv: "treeInv n \<Longrightarrow> treeInv (f n)"
proof (induction rule: treeInv.induct)
  case (treeInvI n)
  show ?case
  proof (rule treeInv.treeInvI)
    show "localInv (f n)" using treeInvI.hyps(1) by (rule pass_local)
    show "treeInv c" if "c \<in> children (f n)" for c
      using that treeInvI.IH by (auto simp only: pass_children image_iff)
  qed
qed

end

lemma propagateSpec_fields [simp]:
  "staticChildren (propagateSpec n) = map propagateSpec (staticChildren n)"
  "paramChildren (propagateSpec n) = map propagateSpec (paramChildren n)"
  "optionalChild (propagateSpec n) = map_option propagateSpec (optionalChild n)"
  "restChild (propagateSpec n) = map_option propagateSpec (restChild n)"
  "nkind (propagateSpec n) = nkind n" "nvalue (propagateSpec n) = nvalue n"
  "nname (propagateSpec n) = nname n" "nmatcher (propagateSpec n) = nmatcher n"
  "nroute (propagateSpec n) = nroute n"
  by (cases n; simp add: Let_def)+

lemma sortAll_fields [simp]:
  "staticChildren (sortAll n) = sliceStable staticLess (map sortAll (staticChildren n))"
  "paramChildren (sortAll n) = sliceStable paramLess (map sortAll (paramChildren n))"
  "optionalChild (sortAll n) = map_option sortAll (optionalChild n)"
  "restChild (sortAll n) = map_option sortAll (restChild n)"
  "nkind (sortAll n) = nkind n" "nvalue (sortAll n) = nvalue n"
  "nname (sortAll n) = nname n" "nmatcher (sortAll n) = nmatcher n"
  "nroute (sortAll n) = nroute n" "bestSpec (sortAll n) = bestSpec n"
  by (cases n; simp)+

lemma pass_labels [simp]:
  "paramKey (propagateSpec c) = paramKey c" "paramKey (sortAll c) = paramKey c"
  "staticNode (propagateSpec c) = staticNode c" "kindNode k (propagateSpec c) = kindNode k c"
  "staticNode (sortAll c) = staticNode c" "kindNode k (sortAll c) = kindNode k c"
  by (auto simp: paramKey_def staticNode_def kindNode_def)

interpretation spec_pass: node_pass propagateSpec
  by unfold_locales (auto simp: segOf_def children_def localInv_def list_all_iff option.pred_map comp_def
      elim: option.pred_mono_strong)

interpretation sort_pass: node_pass sortAll
  by unfold_locales (auto simp: segOf_def children_def localInv_def list_all_iff option.pred_map comp_def
      elim: option.pred_mono_strong)

section \<open>Specificity is the lexicographic order\<close>

lemma specCompareLoop_order:
  "specCompareLoop xs ys = (if xs < ys then -1 else if xs = ys then 0 else 1)"
  by (induction xs ys rule: specCompareLoop.induct) auto

lemma specCompare_order: "specCompare a b = (if a < b then -1 else if a = b then 0 else 1)"
  by (auto simp: specCompare_def specCompareLoop_order split: option.splits)

lemma bestOf_max: "bestOf a b = max a b"
  by (auto simp: bestOf_def specCompare_order max_def)

lemma staticLess_iff:
  "staticLess a b \<longleftrightarrow> bestSpec b < bestSpec a \<or> (bestSpec a = bestSpec b \<and> nvalue a < nvalue b)"
  by (auto simp: staticLess_def specCompare_order Let_def)

lemma paramLess_iff:
  "paramLess a b \<longleftrightarrow> bestSpec b < bestSpec a \<or> (bestSpec a = bestSpec b \<and>
     (nmatcher a \<noteq> [] \<and> nmatcher b = [] \<or>
      ((nmatcher a = []) = (nmatcher b = []) \<and> nname a < nname b)))"
  by (auto simp: paramLess_def specCompare_order Let_def)

interpretation static_order: strict_weak_order staticLess
  by unfold_locales (auto simp: staticLess_iff not_less)

interpretation param_order: strict_weak_order paramLess
  by unfold_locales (auto simp: paramLess_iff not_less)

section \<open>The entries of a built tree\<close>

abbreviation normPath :: "'h Route \<Rightarrow> Segment list" where
  "normPath r \<equiv> map normSeg (rt_Segments r)"

text \<open>No two routes compete for one optional or rest slot.\<close>

definition conflictFree :: "'h Route list \<Rightarrow> bool" where
  "conflictFree rs = list_all (\<lambda>a. list_all (\<lambda>b. compatible (normPath a) (normPath b)) rs) rs"

lemma insertRoute_Inr:
  "insertRoute n r = Inr n2 \<longleftrightarrow> rt_Pattern r \<noteq> [] \<and> insertAt n (rt_Segments r) r = Inr n2"
  by (simp add: insertRoute_def)

lemma insertAll_facts:
  assumes "insertAll n rs = Inr n2" "treeInv n"
  shows insertAll_inv: "treeInv n2"
    and insertAll_sound: "entry n2 p q \<Longrightarrow> entry n p q \<or> (q \<in> set rs \<and> p = normPath q)"
    and insertAll_keep: "entry n p q \<Longrightarrow> \<forall>r \<in> set rs. compatible p (normPath r) \<Longrightarrow> entry n2 p q"
  using assms
proof (induction rs arbitrary: n)
  case (Cons r rs)
  { case 1
    then obtain n1 where n1: "insertAt n (rt_Segments r) r = Inr n1" "insertAll n1 rs = Inr n2"
      by (auto simp: insertRoute_Inr split: sum.splits)
    show ?case using Cons.IH(1)[OF n1(2)] insertAt_inv[OF n1(1)] 1 by blast }
  { case 2
    then obtain n1 where n1: "insertAt n (rt_Segments r) r = Inr n1" "insertAll n1 rs = Inr n2"
      by (auto simp: insertRoute_Inr split: sum.splits)
    show ?case using Cons.IH(2)[OF 2(1) n1(2)] insertAt_inv[OF n1(1)] insertAt_entry_sound[OF n1(1)] 2
      by fastforce }
  { case 3
    then obtain n1 where n1: "insertAt n (rt_Segments r) r = Inr n1" "insertAll n1 rs = Inr n2"
      by (auto simp: insertRoute_Inr split: sum.splits)
    show ?case using Cons.IH(3)[OF _ _ n1(2)] insertAt_inv[OF n1(1)] insertAt_entry_keep[OF n1(1)] 3
      by simp }
qed simp_all

lemma insertAll_new:
  assumes "insertAll n rs = Inr n2" "treeInv n" "q \<in> set rs"
    "\<forall>a \<in> set rs. \<forall>b \<in> set rs. compatible (normPath a) (normPath b)"
  shows "entry n2 (normPath q) q"
  using assms
proof (induction rs arbitrary: n)
  case (Cons r rs)
  then obtain n1 where n1: "insertAt n (rt_Segments r) r = Inr n1" "insertAll n1 rs = Inr n2"
    by (auto simp: insertRoute_Inr split: sum.splits)
  have i1: "treeInv n1" using n1(1) Cons.prems(2) by (rule insertAt_inv)
  show ?case
  proof (cases "q \<in> set rs")
    case True
    with Cons n1 i1 show ?thesis by simp
  next
    case False
    with Cons.prems(3) have "q = r" by simp
    moreover have "entry n1 (normPath r) r" using n1(1) Cons.prems(2) by (rule insertAt_entry_new)
    ultimately show ?thesis using insertAll_keep[OF n1(2) i1] Cons.prems(4) by simp
  qed
qed simp

lemma rootNode_inv [simp]: "treeInv rootNode" "\<not> entry rootNode p r"
  by (simp_all add: rootNode_def)

lemma withID_simps [simp]:
  "rt_Segments (withID r) = rt_Segments r" "rt_Pattern (withID r) = rt_Pattern r"
  by (simp_all add: withID_def)

lemma NewTree_root:
  assumes "NewTree routes = Inr t"
  obtains root where "insertAll rootNode (map withID routes) = Inr root"
    "tr_root t = sortAll (propagateSpec root)" "tr_routes t = map withID routes" "tr_matchers t = None"
  using assms that by (auto simp: NewTree_def Let_def split: sum.splits)

lemma NewTree_inv: "NewTree routes = Inr t \<Longrightarrow> treeInv (tr_root t)"
  by (metis NewTree_root insertAll_inv rootNode_inv(1) sort_pass.pass_inv spec_pass.pass_inv)

lemma NewTree_entry_sound:
  assumes "NewTree routes = Inr t" "entry (tr_root t) p q"
  shows "q \<in> set (tr_routes t) \<and> p = normPath q"
proof -
  obtain root where r: "insertAll rootNode (map withID routes) = Inr root"
    "tr_root t = sortAll (propagateSpec root)" "tr_routes t = map withID routes"
    using assms(1) by (rule NewTree_root)
  with assms(2) have "entry root p q" by (simp add: sort_pass.pass_entry spec_pass.pass_entry)
  with insertAll_sound[OF r(1)] r(3) show ?thesis by simp
qed

lemma conflictFree_withID [simp]: "conflictFree (map withID rs) = conflictFree rs"
  by (simp add: conflictFree_def list.pred_map comp_def)

lemma NewTree_entry_complete:
  assumes "NewTree routes = Inr t" "conflictFree routes" "q \<in> set (tr_routes t)"
  shows "entry (tr_root t) (normPath q) q"
proof -
  obtain root where r: "insertAll rootNode (map withID routes) = Inr root"
    "tr_root t = sortAll (propagateSpec root)" "tr_routes t = map withID routes"
    using assms(1) by (rule NewTree_root)
  have "conflictFree (map withID routes)" using assms(2) by simp
  then have "entry root (normPath q) q"
    using insertAll_new[OF r(1) rootNode_inv(1)] assms(3) r(3) by (simp only: conflictFree_def list_all_iff)
  with r(2) show ?thesis by (simp add: sort_pass.pass_entry spec_pass.pass_entry)
qed

section \<open>When building fails\<close>

lemma insertAt_fails:
  "treeInv n \<Longrightarrow> insertAt n segs r = Inl e \<longleftrightarrow>
     e = DuplicatePattern (rt_Pattern r) \<and> (\<exists>q. entry n (map normSeg segs) q)"
proof (induction segs arbitrary: n)
  case Nil
  then show ?case by (auto split: option.splits)
next
  case (Cons seg segs)
  obtain ref n1 where cf: "childFor n seg = (ref, n1)" by fastforce
  have sl: "slotLaws n seg ref n1" using treeInv_local[OF Cons.prems] cf by (rule slot_laws)
  have g: "treeInv (getChild n1 ref)" using sl Cons.prems by (rule slot_child_inv)
  have e: "(\<exists>q. entry n (map normSeg (seg # segs)) q) \<longleftrightarrow> (\<exists>q. entry (getChild n1 ref) (map normSeg segs) q)"
  proof
    assume "\<exists>q. entry n (map normSeg (seg # segs)) q"
    then obtain d q where "d \<in> children n" "normSeg seg = segOf d" "entry d (map normSeg segs) q"
      by (auto simp only: list.map entry_Cons)
    then show "\<exists>q. entry (getChild n1 ref) (map normSeg segs) q" using slot_uniq[OF sl] by metis
  next
    assume "\<exists>q. entry (getChild n1 ref) (map normSeg segs) q"
    then obtain q where q: "entry (getChild n1 ref) (map normSeg segs) q" ..
    then have "getChild n1 ref \<in> children n" using slot_get[OF sl] by (auto simp only: fresh_def)
    from entry_child[OF this q] show "\<exists>q. entry n (map normSeg (seg # segs)) q"
      by (auto simp only: slot_seg[OF sl] list.map)
  qed
  have "insertAt n (seg # segs) r = Inl e \<longleftrightarrow> insertAt (getChild n1 ref) segs r = Inl e"
    using cf by (simp split: sum.splits)
  with Cons.IH[OF g] e show ?case by simp
qed

lemma insertAll_fails:
  assumes "treeInv n" "\<forall>a \<in> set rs. \<forall>b \<in> set rs. compatible (normPath a) (normPath b)"
    "\<forall>p q. entry n p q \<longrightarrow> (\<forall>r \<in> set rs. compatible p (normPath r))"
    "\<forall>r \<in> set rs. rt_Pattern r \<noteq> []"
  shows "(\<exists>n2. insertAll n rs = Inr n2) \<longleftrightarrow>
     distinct (map normPath rs) \<and> (\<forall>r \<in> set rs. \<not> (\<exists>q. entry n (normPath r) q))"
  using assms
proof (induction rs arbitrary: n)
  case (Cons r rs)
  show ?case
  proof (cases "insertAt n (rt_Segments r) r")
    case (Inl e)
    with insertAt_fails[OF Cons.prems(1), of "rt_Segments r" r e] Cons.prems(4) show ?thesis
      by (auto simp: insertRoute_def)
  next
    case (Inr n1)
    have i1: "treeInv n1" using Inr Cons.prems(1) by (rule insertAt_inv)
    have no: "\<not> (\<exists>q. entry n (normPath r) q)"
      using insertAt_fails[OF Cons.prems(1), of "rt_Segments r" r] Inr by auto
    have ent: "entry n1 p q \<longleftrightarrow> (p = normPath r \<and> q = r) \<or> entry n p q" for p q
      using insertAt_entry_sound[OF Inr Cons.prems(1)] insertAt_entry_new[OF Inr Cons.prems(1)]
        insertAt_entry_keep[OF Inr Cons.prems(1)] Cons.prems(3) by auto
    have "(\<exists>n2. insertAll n1 rs = Inr n2) \<longleftrightarrow>
       distinct (map normPath rs) \<and> (\<forall>r \<in> set rs. \<not> (\<exists>q. entry n1 (normPath r) q))"
      using Cons.prems i1 ent by (intro Cons.IH) auto
    moreover have "insertAll n (r # rs) = insertAll n1 rs"
      using Inr Cons.prems(4) by (simp add: insertRoute_def)
    ultimately show ?thesis using no ent by (auto simp: image_iff simp del: insertAll.simps)
  qed
qed simp

lemma NewTree_ok_iff:
  assumes "conflictFree routes" "\<forall>r \<in> set routes. rt_Pattern r \<noteq> []"
  shows "(\<exists>t. NewTree routes = Inr t) \<longleftrightarrow> distinct (map normPath routes)"
proof -
  have "conflictFree (map withID routes)" using assms(1) by simp
  then have "(\<exists>n2. insertAll rootNode (map withID routes) = Inr n2) \<longleftrightarrow>
      distinct (map normPath (map withID routes))"
    using assms(2) by (subst insertAll_fails) (auto simp: conflictFree_def list_all_iff)
  moreover have "map normPath (map withID routes) = map normPath routes" by simp
  ultimately show ?thesis by (auto simp: NewTree_def Let_def comp_def split: sum.splits)
qed

end
