(* ===== verification/RouterMatchFacts.thy ===== *)
theory RouterMatchFacts
  imports RouterMatch
begin

text \<open>
  The walk refines a pure enumeration: \<open>candidates\<close> lists, in resolution order, every route of
  a subtree that matches a path together with its captures, and \<^const>\<open>matchNode\<close> returns the
  first of them. The set of candidates is characterised by the declarative judgement
  \<open>matchesPath\<close> on segment patterns, so soundness, completeness and the precedence of
  \<^const>\<open>Match\<close> follow.
\<close>

section \<open>The capture stack as an abstract stack\<close>

locale capture_stack =
  fixes push :: "'c \<Rightarrow> 's \<Rightarrow> 's"
    and truncate :: "nat \<Rightarrow> 's \<Rightarrow> 's"
    and depth :: "'s \<Rightarrow> nat"
    and caps :: "'s \<Rightarrow> 'c list"
    and inv :: "'s \<Rightarrow> bool"
  assumes inv_push: "inv s \<Longrightarrow> inv (push c s)"
    and caps_push: "inv s \<Longrightarrow> caps (push c s) = caps s @ [c]"
    and inv_truncate: "inv s \<Longrightarrow> k \<le> depth s \<Longrightarrow> inv (truncate k s)"
    and caps_truncate: "inv s \<Longrightarrow> k \<le> depth s \<Longrightarrow> caps (truncate k s) = take k (caps s)"
    and depth_caps: "inv s \<Longrightarrow> depth s = length (caps s)"
begin

text \<open>Truncating to the depth recorded before some pushes undoes them.\<close>

lemma truncate_undoes:
  assumes "inv s" "inv s'" "caps s' = caps s @ xs"
  shows "inv (truncate (depth s) s') \<and> caps (truncate (depth s) s') = caps s"
proof -
  have "depth s \<le> depth s'" using assms by (simp add: depth_caps)
  with assms show ?thesis by (simp add: inv_truncate caps_truncate depth_caps)
qed

end

definition captures :: "matchState \<Rightarrow> capture list" where
  "captures s = map (atCap s) [0..<ms_n s]"

definition stateInv :: "matchState \<Rightarrow> bool" where
  "stateInv s = (length (ms_caps s) = maxStackParams \<and> length (ms_over s) = ms_n s - maxStackParams)"

lemma captures_repr:
  assumes "stateInv s" shows "captures s = take (ms_n s) (ms_caps s) @ ms_over s"
proof (rule nth_equalityI)
  have l: "length (ms_caps s) = 8" "length (ms_over s) = ms_n s - 8"
    using assms by (simp_all add: stateInv_def maxStackParams_def)
  then show "length (captures s) = length (take (ms_n s) (ms_caps s) @ ms_over s)"
    by (simp add: captures_def)
  fix i assume "i < length (captures s)"
  then have "i < ms_n s" by (simp add: captures_def)
  with l show "captures s ! i = (take (ms_n s) (ms_caps s) @ ms_over s) ! i"
    by (auto simp: captures_def atCap_def maxStackParams_def nth_append)
qed

lemma stateInv_empty [simp]: "stateInv emptyState" "captures emptyState = []"
  by (simp_all add: stateInv_def emptyState_def captures_def)

lemma pushCap_laws:
  assumes "stateInv s"
  shows "stateInv (pushCap c s)" "captures (pushCap c s) = captures s @ [c]"
proof -
  show i: "stateInv (pushCap c s)"
    using assms by (auto simp: stateInv_def pushCap_def maxStackParams_def)
  have l: "length (ms_caps s) = 8" "length (ms_over s) = ms_n s - 8"
    using assms by (simp_all add: stateInv_def maxStackParams_def)
  show "captures (pushCap c s) = captures s @ [c]"
  proof (cases "ms_n s < 8")
    case True
    with l have "take (Suc (ms_n s)) ((ms_caps s)[ms_n s := c]) = take (ms_n s) (ms_caps s) @ [c]"
      by (simp add: take_Suc_conv_app_nth)
    with True l show ?thesis unfolding captures_repr[OF assms] captures_repr[OF i]
      by (simp add: pushCap_def maxStackParams_def)
  next
    case False
    with l show ?thesis unfolding captures_repr[OF assms] captures_repr[OF i]
      by (simp add: pushCap_def maxStackParams_def)
  qed
qed

lemma truncateTo_laws:
  assumes "stateInv s" "k \<le> ms_n s"
  shows "stateInv (truncateTo k s)" "captures (truncateTo k s) = take k (captures s)"
proof -
  show i: "stateInv (truncateTo k s)"
    using assms by (auto simp: stateInv_def truncateTo_def maxStackParams_def Let_def)
  have l: "length (ms_caps s) = 8" "length (ms_over s) = ms_n s - 8"
    using assms by (simp_all add: stateInv_def maxStackParams_def)
  show "captures (truncateTo k s) = take k (captures s)"
    unfolding captures_repr[OF assms(1)] captures_repr[OF i]
    using assms(2) l by (auto simp: truncateTo_def maxStackParams_def Let_def min_def)
qed

lemma captures_length: "length (captures s) = ms_n s"
  by (simp add: captures_def)

interpretation cap: capture_stack pushCap truncateTo ms_n captures stateInv
  by unfold_locales (simp_all add: pushCap_laws truncateTo_laws captures_length)

section \<open>Matching a pattern declaratively\<close>

definition segAccepts :: "Matchers option \<Rightarrow> string \<Rightarrow> string \<Rightarrow> bool" where
  "segAccepts ms m v = (m = [] \<or> matcherOK ms m v)"

inductive matchesPath :: "Matchers option \<Rightarrow> Segment list \<Rightarrow> string list \<Rightarrow> capture list \<Rightarrow> bool"
  for ms where
  mp_end: "matchesPath ms [] [] []"
| mp_static: "seg_kind s = SegmentStatic \<Longrightarrow> seg_value s = v \<Longrightarrow> matchesPath ms p vs cs \<Longrightarrow>
    matchesPath ms (s # p) (v # vs) cs"
| mp_param: "seg_kind s = SegmentParam \<Longrightarrow> segAccepts ms (seg_matcher s) v \<Longrightarrow> matchesPath ms p vs cs \<Longrightarrow>
    matchesPath ms (s # p) (v # vs) ((seg_name s, v) # cs)"
| mp_take: "seg_kind s = SegmentOptional \<Longrightarrow> segAccepts ms (seg_matcher s) v \<Longrightarrow> matchesPath ms p vs cs \<Longrightarrow>
    matchesPath ms (s # p) (v # vs) ((seg_name s, v) # cs)"
| mp_skip: "seg_kind s = SegmentOptional \<Longrightarrow> matchesPath ms p vs cs \<Longrightarrow>
    matchesPath ms (s # p) vs ((seg_name s, []) # cs)"
| mp_rest: "seg_kind s = SegmentRest \<Longrightarrow> vs = [] \<or> segAccepts ms (seg_matcher s) (joinStr ''/'' vs) \<Longrightarrow>
    matchesPath ms [s] vs [(seg_name s, joinStr ''/'' vs)]"

inductive_cases matchesPath_ConsE: "matchesPath ms (s # p) vs cs"
inductive_cases matchesPath_NilE: "matchesPath ms [] vs cs"

lemma matchesPath_Nil [simp]: "matchesPath ms [] vs cs \<longleftrightarrow> vs = [] \<and> cs = []"
  by (auto intro: mp_end elim: matchesPath_NilE)

lemma matchesPath_static:
  "seg_kind s = SegmentStatic \<Longrightarrow> matchesPath ms (s # p) vs cs \<longleftrightarrow>
     (\<exists>vs'. vs = seg_value s # vs' \<and> matchesPath ms p vs' cs)"
  by (auto intro: mp_static elim: matchesPath_ConsE)

lemma matchesPath_param:
  "seg_kind s = SegmentParam \<Longrightarrow> matchesPath ms (s # p) vs cs \<longleftrightarrow>
     (\<exists>v vs' cs'. vs = v # vs' \<and> cs = (seg_name s, v) # cs' \<and> segAccepts ms (seg_matcher s) v \<and>
        matchesPath ms p vs' cs')"
  by (auto intro: mp_param elim: matchesPath_ConsE)

lemma matchesPath_optional:
  "seg_kind s = SegmentOptional \<Longrightarrow> matchesPath ms (s # p) vs cs \<longleftrightarrow>
     (\<exists>v vs' cs'. vs = v # vs' \<and> cs = (seg_name s, v) # cs' \<and> segAccepts ms (seg_matcher s) v \<and>
        matchesPath ms p vs' cs') \<or>
     (\<exists>cs'. cs = (seg_name s, []) # cs' \<and> matchesPath ms p vs cs')"
  by (auto intro: mp_take mp_skip elim: matchesPath_ConsE)

lemma matchesPath_rest:
  "seg_kind s = SegmentRest \<Longrightarrow> matchesPath ms (s # p) vs cs \<longleftrightarrow>
     p = [] \<and> cs = [(seg_name s, joinStr ''/'' vs)] \<and>
     (vs = [] \<or> segAccepts ms (seg_matcher s) (joinStr ''/'' vs))"
  by (auto intro: mp_rest elim: matchesPath_ConsE)

lemmas matchesPath_simps = matchesPath_static matchesPath_param matchesPath_optional matchesPath_rest

section \<open>The candidates in resolution order\<close>

definition prepend :: "capture \<Rightarrow> ('h Route \<times> capture list) list \<Rightarrow> ('h Route \<times> capture list) list" where
  "prepend c xs = map (\<lambda>(r, cs). (r, c # cs)) xs"

definition restCands :: "Matchers option \<Rightarrow> 'h node option \<Rightarrow> string list \<Rightarrow> ('h Route \<times> capture list) list" where
  "restCands ms rc segs = (case rc of
      None \<Rightarrow> []
    | Some c \<Rightarrow> (case nroute c of
        None \<Rightarrow> []
      | Some r \<Rightarrow> if segs = [] \<or> segAccepts ms (nmatcher c) (joinStr ''/'' segs)
                  then [(r, [(nname c, joinStr ''/'' segs)])] else []))"

lemma size_static: "c \<in> set (staticChildren n) \<Longrightarrow> size c < size n"
  using size_list_estimation'[of c "staticChildren n" "size c" size] size_child(1)[of n] by simp

lemma size_param: "c \<in> set (paramChildren n) \<Longrightarrow> size c < size n"
  using size_list_estimation'[of c "paramChildren n" "size c" size] size_child(2)[of n] by simp

lemma size_optional: "optionalChild n = Some c \<Longrightarrow> size c < size n"
  using size_child(3)[of n] by simp

function candidates :: "Matchers option \<Rightarrow> 'h node \<Rightarrow> string list \<Rightarrow> ('h Route \<times> capture list) list" where
  "candidates ms n segs =
     (case segs of
        [] \<Rightarrow>
          (case nroute n of Some r \<Rightarrow> [(r, [])] | None \<Rightarrow> []) @
          (case optionalChild n of None \<Rightarrow> [] | Some c \<Rightarrow> prepend (nname c, []) (candidates ms c []))
      | seg # rest \<Rightarrow>
          concat (map (\<lambda>c. if nvalue c = seg then candidates ms c rest else []) (staticChildren n)) @
          concat (map (\<lambda>c. if segAccepts ms (nmatcher c) seg
              then prepend (nname c, seg) (candidates ms c rest) else []) (paramChildren n)) @
          (case optionalChild n of None \<Rightarrow> [] | Some c \<Rightarrow>
             (if segAccepts ms (nmatcher c) seg then prepend (nname c, seg) (candidates ms c rest) else []) @
             prepend (nname c, []) (candidates ms c (seg # rest)))) @
     restCands ms (restChild n) segs"
  by pat_completeness auto
termination
  by (relation "measure (\<lambda>(ms, n, segs). size n)") (auto simp: size_static size_param size_optional)

declare candidates.simps [simp del]
declare matchNode.simps [simp del]

section \<open>The walk returns the first candidate\<close>

definition walkOK :: "matchState \<Rightarrow> 'h walk \<Rightarrow> ('h Route \<times> capture list) list \<Rightarrow> bool" where
  "walkOK st res cands = (stateInv (snd res) \<and> (case cands of
      [] \<Rightarrow> fst res = None \<and> captures (snd res) = captures st
    | (r, cs) # _ \<Rightarrow> fst res = Some r \<and> captures (snd res) = captures st @ cs))"

lemma walkOK_none: "stateInv st \<Longrightarrow> walkOK st (None, st) []"
  by (simp add: walkOK_def)

lemma orElse_None [simp]: "orElse (None, st) next = next st"
  by (simp add: orElse_def)

lemma walkOK_orElse:
  assumes "walkOK st res xs"
    and "\<And>st'. res = (None, st') \<Longrightarrow> stateInv st' \<Longrightarrow> captures st' = captures st \<Longrightarrow> walkOK st' (next st') ys"
  shows "walkOK st (orElse res next) (xs @ ys)"
proof (cases xs)
  case Nil
  with assms(1) obtain st' where r: "res = (None, st')" "stateInv st'" "captures st' = captures st"
    by (cases res) (auto simp: walkOK_def)
  then have "walkOK st' (next st') ys" using assms(2) by simp
  with Nil r show ?thesis by (auto simp: orElse_def walkOK_def split: list.splits)
next
  case (Cons x xs')
  with assms(1) show ?thesis by (cases res; cases x) (auto simp: walkOK_def orElse_def)
qed

lemma walkOK_attempt:
  assumes "stateInv st" "walkOK (pushCap c st) res xs"
  shows "walkOK st (restore st res) (prepend c xs)"
proof (cases xs)
  case Nil
  with assms obtain st' where r: "res = (None, st')" "stateInv st'" "captures st' = captures st @ [c]"
    by (cases res) (auto simp: walkOK_def pushCap_laws)
  with cap.truncate_undoes[OF assms(1) r(2,3)] Nil show ?thesis
    by (simp add: walkOK_def restore_def prepend_def)
next
  case (Cons x xs')
  with assms show ?thesis
    by (cases res; cases x) (auto simp: walkOK_def restore_def prepend_def pushCap_laws)
qed

lemma joinSegs_joinStr: "joinSegs segs = joinStr ''/'' segs"
  by (auto simp: joinSegs_def split: list.splits)

lemma walkOK_rest:
  "stateInv st \<Longrightarrow> segs \<noteq> [] \<Longrightarrow> walkOK st (matchRest ms rc segs st) (restCands ms rc segs)"
  by (auto simp: walkOK_def matchRest_def restCands_def segAccepts_def joinSegs_joinStr pushCap_laws Let_def
      split: option.splits)

lemma walkOK_restEmpty:
  "stateInv st \<Longrightarrow> walkOK st (matchRestEmpty rc st) (restCands ms rc [])"
  by (auto simp: walkOK_def matchRestEmpty_def restCands_def pushCap_laws split: option.splits)

definition staticCands :: "Matchers option \<Rightarrow> 'h node list \<Rightarrow> string \<Rightarrow> string list \<Rightarrow> ('h Route \<times> capture list) list" where
  "staticCands ms cs seg rest = concat (map (\<lambda>c. if nvalue c = seg then candidates ms c rest else []) cs)"

definition paramCands :: "Matchers option \<Rightarrow> 'h node list \<Rightarrow> string \<Rightarrow> string list \<Rightarrow> ('h Route \<times> capture list) list" where
  "paramCands ms cs seg rest = concat (map (\<lambda>c. if segAccepts ms (nmatcher c) seg
      then prepend (nname c, seg) (candidates ms c rest) else []) cs)"

definition optionalCands :: "Matchers option \<Rightarrow> 'h node option \<Rightarrow> string \<Rightarrow> string list \<Rightarrow> ('h Route \<times> capture list) list" where
  "optionalCands ms oc seg rest = (case oc of None \<Rightarrow> [] | Some c \<Rightarrow>
     (if segAccepts ms (nmatcher c) seg then prepend (nname c, seg) (candidates ms c rest) else []) @
     prepend (nname c, []) (candidates ms c (seg # rest)))"

definition optionalEmptyCands :: "Matchers option \<Rightarrow> 'h node option \<Rightarrow> ('h Route \<times> capture list) list" where
  "optionalEmptyCands ms oc = (case oc of None \<Rightarrow> [] | Some c \<Rightarrow> prepend (nname c, []) (candidates ms c []))"

lemma candidates_Nil:
  "candidates ms n [] = (case nroute n of Some r \<Rightarrow> [(r, [])] | None \<Rightarrow> []) @
     optionalEmptyCands ms (optionalChild n) @ restCands ms (restChild n) []"
  by (simp add: candidates.simps[of ms n] optionalEmptyCands_def split: option.splits)

lemma candidates_Cons:
  "candidates ms n (seg # rest) = staticCands ms (staticChildren n) seg rest @
     paramCands ms (paramChildren n) seg rest @ optionalCands ms (optionalChild n) seg rest @
     restCands ms (restChild n) (seg # rest)"
  by (simp add: candidates.simps[of ms n] staticCands_def paramCands_def optionalCands_def split: option.splits)

lemma walkOK_here: "stateInv st \<Longrightarrow> walkOK st (Some r, st) ((r, []) # xs)"
  by (simp add: walkOK_def)

lemma walk_refines:
  fixes n :: "'h node" and cs ps :: "'h node list" and oc :: "'h node option"
  shows "stateInv st \<Longrightarrow> walkOK st (matchNode ms n segs st) (candidates ms n segs)"
  "stateInv st \<Longrightarrow> walkOK st (matchStatics ms cs seg rest st) (staticCands ms cs seg rest)"
  "stateInv st \<Longrightarrow> walkOK st (matchParams ms ps seg rest st) (paramCands ms ps seg rest)"
  "stateInv st \<Longrightarrow> walkOK st (matchOptional ms oc seg rest st) (optionalCands ms oc seg rest)"
  "stateInv st \<Longrightarrow> walkOK st (matchOptionalEmpty ms oc st) (optionalEmptyCands ms oc)"
proof (induction ms n segs st and ms cs seg rest st and ms ps seg rest st and ms oc seg rest st and ms oc st
    rule: matchNode_matchStatics_matchParams_matchOptional_matchOptionalEmpty.induct)
  case (1 ms n segs st)
  show ?case
  proof (cases segs)
    case Nil
    with 1 show ?thesis
      by (cases "nroute n")
        (auto simp: matchNode.simps[of ms n] candidates_Nil
          intro!: walkOK_orElse walkOK_restEmpty walkOK_here)
  next
    case (Cons seg rest)
    note ih = "1.IH"(2-4)[OF Cons]
    show ?thesis unfolding Cons
      by (auto simp: matchNode.simps[of ms n] candidates_Cons "1.prems"
          intro!: walkOK_orElse ih walkOK_rest)
  qed
next
  case (3 ms c cs seg rest st)
  then show ?case by (auto simp: staticCands_def intro!: walkOK_orElse)
next
  case (5 ms c cs seg rest st)
  then show ?case
    by (auto simp: paramCands_def segAccepts_def pushCap_laws intro!: walkOK_orElse walkOK_attempt)
next
  case (7 ms c seg rest st)
  then show ?case
    by (auto simp: optionalCands_def segAccepts_def pushCap_laws
        intro!: walkOK_orElse walkOK_attempt walkOK_none)
next
  case (9 ms c st)
  then show ?case by (auto simp: optionalEmptyCands_def pushCap_laws intro!: walkOK_attempt)
qed (simp_all add: staticCands_def paramCands_def optionalCands_def optionalEmptyCands_def walkOK_none)

section \<open>The candidates are the matching entries\<close>

definition candOK :: "Matchers option \<Rightarrow> 'h node \<Rightarrow> string list \<Rightarrow> bool" where
  "candOK ms n segs = (\<forall>r x. (r, x) \<in> set (candidates ms n segs) \<longleftrightarrow>
     (\<exists>p. entry n p r \<and> matchesPath ms p segs x))"

lemma entry_split:
  "(\<exists>p. entry n p r \<and> Q p) \<longleftrightarrow> (nroute n = Some r \<and> Q []) \<or>
     (\<exists>c \<in> children n. \<exists>p. entry c p r \<and> Q (segOf c # p))"
proof -
  have "(\<exists>p. entry n p r \<and> Q p) \<longleftrightarrow> (entry n [] r \<and> Q []) \<or> (\<exists>s p. entry n (s # p) r \<and> Q (s # p))"
    by (metis list.exhaust)
  then show ?thesis by (auto simp: entry_Cons)
qed

lemma prepend_mem: "(r, x) \<in> set (prepend c xs) \<longleftrightarrow> (\<exists>x'. x = c # x' \<and> (r, x') \<in> set xs)"
  by (auto simp: prepend_def)

lemma segOf_sel [simp]:
  "seg_kind (segOf c) = nkind c" "seg_name (segOf c) = nname c" "seg_value (segOf c) = nvalue c"
  "seg_matcher (segOf c) = nmatcher c"
  by (simp_all add: segOf_def)

lemma staticCands_mem:
  assumes "list_all staticNode cs" "\<And>c. c \<in> set cs \<Longrightarrow> nvalue c = seg \<Longrightarrow> candOK ms c rest"
  shows "(r, x) \<in> set (staticCands ms cs seg rest) \<longleftrightarrow>
    (\<exists>c \<in> set cs. \<exists>p. entry c p r \<and> matchesPath ms (segOf c # p) (seg # rest) x)"
  using assms
  by (fastforce simp: staticCands_def candOK_def list_all_iff staticNode_def matchesPath_static)

lemma paramCands_mem:
  assumes "list_all (kindNode SegmentParam) cs"
    "\<And>c. c \<in> set cs \<Longrightarrow> segAccepts ms (nmatcher c) seg \<Longrightarrow> candOK ms c rest"
  shows "(r, x) \<in> set (paramCands ms cs seg rest) \<longleftrightarrow>
    (\<exists>c \<in> set cs. \<exists>p. entry c p r \<and> matchesPath ms (segOf c # p) (seg # rest) x)"
  using assms
  by (fastforce simp: paramCands_def candOK_def list_all_iff kindNode_def matchesPath_param prepend_mem)

lemma optionalCands_mem:
  assumes "pred_option (kindNode SegmentOptional) oc"
    "\<And>c. oc = Some c \<Longrightarrow> segAccepts ms (nmatcher c) seg \<Longrightarrow> candOK ms c rest"
    "\<And>c. oc = Some c \<Longrightarrow> candOK ms c (seg # rest)"
  shows "(r, x) \<in> set (optionalCands ms oc seg rest) \<longleftrightarrow>
    (\<exists>c \<in> set_option oc. \<exists>p. entry c p r \<and> matchesPath ms (segOf c # p) (seg # rest) x)"
  using assms
  by (cases oc) (auto simp: optionalCands_def candOK_def kindNode_def matchesPath_optional prepend_mem; blast)+

lemma optionalEmptyCands_mem:
  assumes "pred_option (kindNode SegmentOptional) oc" "\<And>c. oc = Some c \<Longrightarrow> candOK ms c []"
  shows "(r, x) \<in> set (optionalEmptyCands ms oc) \<longleftrightarrow>
    (\<exists>c \<in> set_option oc. \<exists>p. entry c p r \<and> matchesPath ms (segOf c # p) [] x)"
  using assms
  by (cases oc) (auto simp: optionalEmptyCands_def candOK_def kindNode_def matchesPath_optional prepend_mem)

lemma restCands_mem:
  assumes "pred_option (kindNode SegmentRest) rc"
  shows "(r, x) \<in> set (restCands ms rc segs) \<longleftrightarrow>
    (\<exists>c \<in> set_option rc. \<exists>p. entry c p r \<and> matchesPath ms (segOf c # p) segs x)"
  using assms
  by (cases rc) (auto simp: restCands_def kindNode_def matchesPath_rest split: option.splits)

lemma locD:
  assumes "localInv n"
  shows "list_all staticNode (staticChildren n)" "distinct (map nvalue (staticChildren n))"
    "list_all (kindNode SegmentParam) (paramChildren n)" "distinct (map paramKey (paramChildren n))"
    "pred_option (kindNode SegmentOptional) (optionalChild n)"
    "pred_option (kindNode SegmentRest) (restChild n)"
  using assms by (simp_all add: localInv_def)

lemma no_match_on_Nil:
  assumes "localInv n" "c \<in> set (staticChildren n) \<union> set (paramChildren n)"
  shows "\<not> matchesPath ms (segOf c # p) [] x"
  using assms by (auto simp: localInv_def list_all_iff staticNode_def kindNode_def matchesPath_static matchesPath_param)

lemma candidates_mem: "treeInv n \<Longrightarrow> candOK ms n segs"
proof (induction ms n segs rule: candidates.induct)
  case (1 ms n segs)
  have loc: "localInv n" using "1.prems" by (rule treeInv_local)
  have sub: "treeInv c" if "c \<in> children n" for c using that "1.prems" treeInv_child by blast
  show ?case
  proof (cases segs)
    case Nil
    have "candOK ms c []" if "optionalChild n = Some c" for c
      using "1.IH"(1)[OF Nil that] sub that by (simp add: children_def)
    note mem = optionalEmptyCands_mem[OF locD(5)[OF loc] this] restCands_mem[OF locD(6)[OF loc]]
    have "(r, x) \<in> set (candidates ms n []) \<longleftrightarrow> nroute n = Some r \<and> x = [] \<or>
        (\<exists>c \<in> children n. \<exists>p. entry c p r \<and> matchesPath ms (segOf c # p) [] x)" for r x
      using no_match_on_Nil[OF loc]
      by (auto simp: candidates_Nil mem children_def split: option.splits)
    then show ?thesis unfolding Nil candOK_def entry_split[where Q = "\<lambda>p. matchesPath ms p [] x" for x]
      by simp
  next
    case (Cons seg rest)
    have st: "candOK ms c rest" if "c \<in> set (staticChildren n)" "nvalue c = seg" for c
      using "1.IH"(2)[OF Cons that] sub that by (simp add: children_def)
    have pa: "candOK ms c rest" if "c \<in> set (paramChildren n)" "segAccepts ms (nmatcher c) seg" for c
      using "1.IH"(3)[OF Cons that] sub that by (simp add: children_def)
    have op: "candOK ms c rest" if "optionalChild n = Some c" "segAccepts ms (nmatcher c) seg" for c
      using "1.IH"(4)[OF Cons that] sub that by (simp add: children_def)
    have os: "candOK ms c (seg # rest)" if "optionalChild n = Some c" for c
      using "1.IH"(5)[OF Cons that] sub that by (simp add: children_def)
    note mem = staticCands_mem[OF locD(1)[OF loc] st] paramCands_mem[OF locD(3)[OF loc] pa]
      optionalCands_mem[OF locD(5)[OF loc] op os] restCands_mem[OF locD(6)[OF loc]]
    show ?thesis
      unfolding Cons candOK_def entry_split[where Q = "\<lambda>p. matchesPath ms p (seg # rest) x" for x]
      by (auto simp: candidates_Cons mem children_def)
  qed
qed

end
