(* ===== verification/RouterOrder.thy ===== *)
theory RouterOrder
  imports RouterMatchFacts
begin

text \<open>
  The resolution order. Propagation gives every node the greatest specificity vector of the
  routes below it, sorting puts the more specific parameter children first, and the first
  candidate of a walk therefore precedes every other one: at the first segment where two matching
  routes differ, the chosen one has the segment of the higher class (static, parameter with
  matcher, parameter, optional, rest).
\<close>

section \<open>Propagated specificity\<close>

lemma foldl_max_upper:
  fixes b :: "'a::linorder"
  shows "b \<le> foldl max b xs" "x \<in> set xs \<Longrightarrow> x \<le> foldl max b xs" "foldl max b xs \<in> insert b (set xs)"
proof -
  have u: "b \<le> foldl max b xs" for b :: 'a and xs
    by (induction xs arbitrary: b) (auto intro: order_trans[OF max.cobounded1])
  then show "b \<le> foldl max b xs" .
  show "x \<in> set xs \<Longrightarrow> x \<le> foldl max b xs"
    by (induction xs arbitrary: b) (use order_trans[OF max.cobounded2 u] in auto)
  show "foldl max b xs \<in> insert b (set xs)"
    by (induction xs arbitrary: b) (auto simp: max_def split: if_splits)
qed

definition childList :: "'h node \<Rightarrow> 'h node list" where
  "childList n = staticChildren n @ paramChildren n @
     (case optionalChild n of None \<Rightarrow> [] | Some c \<Rightarrow> [c]) @ (case restChild n of None \<Rightarrow> [] | Some c \<Rightarrow> [c])"

lemma set_childList: "set (childList n) = children n"
  by (auto simp: childList_def children_def split: option.splits)

lemma max_None [simp]: "max None (x :: 'a::linorder option) = x"
  by (simp add: max_def)

lemma bestSpec_propagate:
  "bestSpec (propagateSpec n) =
     foldl max (map_option routeSpec (nroute n)) (map (\<lambda>c. bestSpec (propagateSpec c)) (childList n))"
  by (cases n) (simp add: bestOf_max childList_def Let_def foldl_map split: option.splits)

definition bestOK :: "'h node \<Rightarrow> int list option \<Rightarrow> bool" where
  "bestOK n b = ((\<forall>p r. entry n p r \<longrightarrow> Some (routeSpec r) \<le> b) \<and>
     (\<forall>v. b = Some v \<longrightarrow> (\<exists>p r. entry n p r \<and> routeSpec r = v)))"

lemma bestSpec_best: "treeInv n \<Longrightarrow> bestOK n (bestSpec (propagateSpec n))"
proof (induction rule: treeInv.induct)
  case (treeInvI n)
  let ?b = "bestSpec (propagateSpec n)"
  let ?bs = "map (\<lambda>c. bestSpec (propagateSpec c)) (childList n)"
  note up = foldl_max_upper[of "map_option routeSpec (nroute n)" ?bs, folded bestSpec_propagate]
  have "Some (routeSpec r) \<le> ?b" if "entry n p r" for p r
    using that
  proof (cases rule: entry.cases)
    case entry_here
    then show ?thesis using up(1) by simp
  next
    case (entry_child c q)
    then have "Some (routeSpec r) \<le> bestSpec (propagateSpec c)" using treeInvI.IH by (auto simp: bestOK_def)
    also have "\<dots> \<le> ?b" using entry_child(2) unfolding bestSpec_propagate[of n]
      by (intro foldl_max_upper(2)) (simp add: set_childList)
    finally show ?thesis .
  qed
  moreover have "\<exists>p r. entry n p r \<and> routeSpec r = v" if v: "?b = Some v" for v
  proof (cases "?b = map_option routeSpec (nroute n)")
    case True
    then obtain r where "nroute n = Some r" "routeSpec r = v" using v by (cases "nroute n") auto
    then show ?thesis using entry_here by blast
  next
    case False
    then obtain c where "c \<in> children n" "bestSpec (propagateSpec c) = Some v"
      using up(3) v by (auto simp: set_childList)
    then show ?thesis using treeInvI.IH entry_child unfolding bestOK_def by metis
  qed
  ultimately show ?case by (simp add: bestOK_def)
qed

section \<open>Ranked trees\<close>

definition live :: "'h node \<Rightarrow> bool" where
  "live c = (\<exists>p r. entry c p r)"

definition outranks :: "'h node \<Rightarrow> 'h node \<Rightarrow> bool" where
  "outranks c d = (live c \<and> live d \<longrightarrow> segmentScore (segOf d) \<le> segmentScore (segOf c))"

inductive ranked :: "'h node \<Rightarrow> bool" where
  rankedI: "sorted_wrt outranks (paramChildren n) \<Longrightarrow> (\<And>c. c \<in> children n \<Longrightarrow> ranked c) \<Longrightarrow> ranked n"

lemma rankedD: "ranked n \<Longrightarrow> sorted_wrt outranks (paramChildren n)" "ranked n \<Longrightarrow> c \<in> children n \<Longrightarrow> ranked c"
  by (auto elim: ranked.cases)

text \<open>All routes below a node share the scores of the path that leads to it.\<close>

definition scored :: "int list \<Rightarrow> 'h node \<Rightarrow> bool" where
  "scored pre n = (\<forall>p r. entry n p r \<longrightarrow> routeSpec r = pre @ map segmentScore p)"

lemma scored_child: "scored pre n \<Longrightarrow> c \<in> children n \<Longrightarrow> scored (pre @ [segmentScore (segOf c)]) c"
  by (auto simp: scored_def dest: entry_child)

abbreviation finished :: "'h node \<Rightarrow> 'h node" where
  "finished n \<equiv> sortAll (propagateSpec n)"

lemma finished_entry [simp]: "entry (finished n) p r \<longleftrightarrow> entry n p r"
  by (simp add: sort_pass.pass_entry spec_pass.pass_entry)

lemma finished_children: "children (finished n) = finished ` children n"
  by (simp add: sort_pass.pass_children spec_pass.pass_children image_image)

lemma finished_seg [simp]: "segOf (finished n) = segOf n"
  by (simp add: sort_pass.pass_seg spec_pass.pass_seg)

lemma live_finished [simp]: "live (finished n) = live n"
  by (simp add: live_def)

lemma lex_prefix: "pre @ a # xs \<le> pre @ b # ys \<Longrightarrow> a \<le> (b::int)"
  by (induction pre) auto

lemma best_score:
  assumes "treeInv c" "scored (pre @ [segmentScore (segOf c)]) c" "live c"
  shows "\<exists>xs. bestSpec (propagateSpec c) = Some (pre @ segmentScore (segOf c) # xs)"
proof -
  note b = bestSpec_best[OF assms(1)]
  obtain p r where e: "entry c p r" using assms(3) by (auto simp: live_def)
  then have "Some (routeSpec r) \<le> bestSpec (propagateSpec c)" using b by (auto simp: bestOK_def)
  then obtain v where v: "bestSpec (propagateSpec c) = Some v" by (cases "bestSpec (propagateSpec c)") auto
  then obtain q r' where "entry c q r'" "routeSpec r' = v" using b by (auto simp: bestOK_def)
  then show ?thesis using assms(2) v by (auto simp: scored_def)
qed

lemma outranks_finished:
  assumes "treeInv n" "scored pre n" "c \<in> children n" "d \<in> children n"
    "\<not> paramLess (finished d) (finished c)"
  shows "outranks (finished c) (finished d)"
proof (cases "live c \<and> live d")
  case True
  obtain xs ys where "bestSpec (propagateSpec c) = Some (pre @ segmentScore (segOf c) # xs)"
    "bestSpec (propagateSpec d) = Some (pre @ segmentScore (segOf d) # ys)"
    using best_score[of c pre] best_score[of d pre] scored_child[OF assms(2)] treeInv_child[OF assms(1)]
      assms(3,4) True by blast
  moreover have "bestSpec (propagateSpec d) \<le> bestSpec (propagateSpec c)"
    using assms(5) by (auto simp: paramLess_iff not_less)
  ultimately show ?thesis by (auto simp: outranks_def dest: lex_prefix)
qed (auto simp: outranks_def)

lemma ranked_finished: "treeInv n \<Longrightarrow> scored pre n \<Longrightarrow> ranked (finished n)"
proof (induction arbitrary: pre rule: treeInv.induct)
  case (treeInvI n)
  have inv: "treeInv n" using treeInvI.hyps by (auto intro: treeInv.treeInvI)
  show ?case
  proof (rule rankedI)
    let ?ps = "paramChildren (finished n)"
    have "sorted_wrt (\<lambda>x y. \<not> paramLess y x) ?ps"
      using param_order.sliceStable_sorted by (simp add: sortedBy_def)
    then show "sorted_wrt outranks ?ps"
      by (rule sorted_wrt_mono_rel[rotated])
        (auto simp: children_def intro!: outranks_finished[OF inv treeInvI.prems])
    show "ranked c" if "c \<in> children (finished n)" for c
      using that treeInvI.IH scored_child[OF treeInvI.prems] by (auto simp only: finished_children image_iff)
  qed
qed

section \<open>The first candidate precedes the others\<close>

fun precedes :: "Segment list \<Rightarrow> Segment list \<Rightarrow> bool" where
  "precedes [] q = True"
| "precedes (a # p) [] = False"
| "precedes (a # p) (b # q) =
     (if a = b then seg_kind a = SegmentOptional \<or> precedes p q else segmentScore b \<le> segmentScore a)"

definition beats :: "'h node \<Rightarrow> 'h Route \<Rightarrow> 'h Route \<Rightarrow> bool" where
  "beats n r r' = (\<exists>p p'. entry n p r \<and> entry n p' r' \<and> precedes p p')"

definition headBest :: "'h node \<Rightarrow> ('h Route \<times> capture list) list \<Rightarrow> bool" where
  "headBest n xs = (case xs of [] \<Rightarrow> True | (r, _) # _ \<Rightarrow> (\<forall>r' \<in> fst ` set xs. beats n r r'))"

lemma headBest_Nil [simp]: "headBest n []"
  by (simp add: headBest_def)

lemma headBest_append:
  assumes "headBest n xs" "headBest n ys"
    "\<And>r r'. r \<in> fst ` set xs \<Longrightarrow> r' \<in> fst ` set ys \<Longrightarrow> beats n r r'"
  shows "headBest n (xs @ ys)"
proof (cases xs)
  case (Cons x xs')
  obtain r cs where x: "x = (r, cs)" by fastforce
  with Cons have "r \<in> fst ` set xs" by force
  then have "beats n r r'" if "r' \<in> fst ` set ys" for r' using assms(3) that by blast
  then show ?thesis using assms(1) Cons x by (auto simp: headBest_def)
qed (use assms in simp)

lemma fst_prepend [simp]: "fst ` set (prepend c xs) = fst ` set xs"
  by (force simp: prepend_def)

lemma headBest_prepend [simp]: "headBest n (prepend c xs) = headBest n xs"
proof -
  have "headBest n (prepend c xs) \<longleftrightarrow> (case xs of [] \<Rightarrow> True | (r, _) # _ \<Rightarrow> (\<forall>r' \<in> fst ` set (prepend c xs). beats n r r'))"
    by (cases xs) (auto simp: headBest_def prepend_def split: prod.splits)
  then show ?thesis by (simp only: fst_prepend headBest_def)
qed

lemma beats_child: "c \<in> children n \<Longrightarrow> beats c r r' \<Longrightarrow> beats n r r'"
  unfolding beats_def by (metis entry_child precedes.simps(3))

lemma headBest_child: "c \<in> children n \<Longrightarrow> headBest c xs \<Longrightarrow> headBest n xs"
  by (auto simp: headBest_def intro: beats_child split: list.splits)

definition below :: "'h node set \<Rightarrow> 'h Route \<Rightarrow> bool" where
  "below S r = (\<exists>c \<in> S. \<exists>p. entry c p r)"

lemma beats_across:
  assumes "below S r" "below T r'" "S \<subseteq> children n" "T \<subseteq> children n"
    "\<And>c d. c \<in> S \<Longrightarrow> d \<in> T \<Longrightarrow> live c \<Longrightarrow> live d \<Longrightarrow>
       segOf c \<noteq> segOf d \<and> segmentScore (segOf d) \<le> segmentScore (segOf c)"
  shows "beats n r r'"
proof -
  obtain c p d p' where c: "c \<in> S" "entry c p r" and d: "d \<in> T" "entry d p' r'"
    using assms(1,2) by (auto simp: below_def)
  then have "precedes (segOf c # p) (segOf d # p')" using assms(5)[of c d] by (auto simp: live_def)
  moreover have "entry n (segOf c # p) r" "entry n (segOf d # p') r'"
    using c d assms(3,4) by (auto intro: entry_child)
  ultimately show ?thesis unfolding beats_def by blast
qed

lemma beats_optional:
  assumes "below {c} r" "below {c} r'" "c \<in> children n" "nkind c = SegmentOptional"
  shows "beats n r r'"
proof -
  obtain p p' where e: "entry c p r" "entry c p' r'" using assms by (auto simp: below_def)
  moreover have "precedes (segOf c # p) (segOf c # p')" using assms(4) by simp
  ultimately show ?thesis unfolding beats_def using entry_child[OF assms(3)] by blast
qed

lemma cands_below:
  assumes "treeInv n"
  shows "r \<in> fst ` set (staticCands ms (staticChildren n) seg rest) \<Longrightarrow> below (set (staticChildren n)) r"
    "r \<in> fst ` set (paramCands ms (paramChildren n) seg rest) \<Longrightarrow> below (set (paramChildren n)) r"
    "r \<in> fst ` set (optionalCands ms (optionalChild n) seg rest) \<Longrightarrow> below (set_option (optionalChild n)) r"
    "r \<in> fst ` set (optionalEmptyCands ms (optionalChild n)) \<Longrightarrow> below (set_option (optionalChild n)) r"
    "r \<in> fst ` set (restCands ms (restChild n) segs) \<Longrightarrow> below (set_option (restChild n)) r"
proof -
  note loc = locD[OF treeInv_local[OF assms]]
  have sub: "c \<in> children n \<Longrightarrow> candOK ms c vs" for c vs using treeInv_child[OF assms] by (rule candidates_mem)
  then have st: "c \<in> set (staticChildren n) \<Longrightarrow> nvalue c = seg \<Longrightarrow> candOK ms c rest"
    and pa: "c \<in> set (paramChildren n) \<Longrightarrow> segAccepts ms (nmatcher c) seg \<Longrightarrow> candOK ms c rest"
    and op: "optionalChild n = Some c \<Longrightarrow> candOK ms c vs" for c vs
    by (auto simp: children_def)
  show "r \<in> fst ` set (staticCands ms (staticChildren n) seg rest) \<Longrightarrow> below (set (staticChildren n)) r"
    using staticCands_mem[where seg = seg, OF loc(1) st] unfolding below_def by fastforce
  show "r \<in> fst ` set (paramCands ms (paramChildren n) seg rest) \<Longrightarrow> below (set (paramChildren n)) r"
    using paramCands_mem[where seg = seg, OF loc(3) pa] unfolding below_def by fastforce
  show "r \<in> fst ` set (optionalCands ms (optionalChild n) seg rest) \<Longrightarrow> below (set_option (optionalChild n)) r"
    using optionalCands_mem[OF loc(5) op op] unfolding below_def by fastforce
  show "r \<in> fst ` set (optionalEmptyCands ms (optionalChild n)) \<Longrightarrow> below (set_option (optionalChild n)) r"
    using optionalEmptyCands_mem[OF loc(5) op] unfolding below_def by fastforce
  show "r \<in> fst ` set (restCands ms (restChild n) segs) \<Longrightarrow> below (set_option (restChild n)) r"
    using restCands_mem[OF loc(6)] unfolding below_def by fastforce
qed

lemma score_kind:
  "localInv n \<Longrightarrow> c \<in> set (staticChildren n) \<Longrightarrow> nkind c = SegmentStatic \<and> segmentScore (segOf c) = 4"
  "localInv n \<Longrightarrow> c \<in> set (paramChildren n) \<Longrightarrow> nkind c = SegmentParam \<and> segmentScore (segOf c) \<in> {2, 3}"
  "localInv n \<Longrightarrow> c \<in> set_option (optionalChild n) \<Longrightarrow> nkind c = SegmentOptional \<and> segmentScore (segOf c) = 1"
  "localInv n \<Longrightarrow> c \<in> set_option (restChild n) \<Longrightarrow> nkind c = SegmentRest \<and> segmentScore (segOf c) = 0"
  by (auto simp: localInv_def list_all_iff staticNode_def kindNode_def segmentScore_def)

lemma segOf_neq_kind: "nkind c \<noteq> nkind d \<Longrightarrow> segOf c \<noteq> segOf d"
  by (metis segOf_sel(1))

lemma beats_classes:
  assumes "treeInv n"
  shows "below (set (staticChildren n)) r \<Longrightarrow> below (set (paramChildren n)) r' \<Longrightarrow> beats n r r'"
    "below (set (staticChildren n)) r \<Longrightarrow> below (set_option (optionalChild n)) r' \<Longrightarrow> beats n r r'"
    "below (set (staticChildren n)) r \<Longrightarrow> below (set_option (restChild n)) r' \<Longrightarrow> beats n r r'"
    "below (set (paramChildren n)) r \<Longrightarrow> below (set_option (optionalChild n)) r' \<Longrightarrow> beats n r r'"
    "below (set (paramChildren n)) r \<Longrightarrow> below (set_option (restChild n)) r' \<Longrightarrow> beats n r r'"
    "below (set_option (optionalChild n)) r \<Longrightarrow> below (set_option (restChild n)) r' \<Longrightarrow> beats n r r'"
  by (erule (1) beats_across;
      use score_kind[OF treeInv_local[OF assms]] segOf_neq_kind in \<open>fastforce simp: children_def\<close>)+

lemma headBest_statics:
  assumes "distinct (map nvalue cs)" "set cs \<subseteq> children n"
    "\<And>c. c \<in> set cs \<Longrightarrow> nvalue c = seg \<Longrightarrow> headBest c (candidates ms c rest)"
  shows "headBest n (staticCands ms cs seg rest)"
  using assms
proof (induction cs)
  case (Cons c cs)
  show ?case
  proof (cases "nvalue c = seg")
    case True
    with Cons.prems(1) have "nvalue d \<noteq> seg" if "d \<in> set cs" for d using that by (auto simp: image_iff)
    then have "staticCands ms cs seg rest = []" by (simp add: staticCands_def)
    then have "staticCands ms (c # cs) seg rest = candidates ms c rest" using True by (simp add: staticCands_def)
    then show ?thesis using Cons.prems True headBest_child[of c n] by simp
  next
    case False
    with Cons show ?thesis by (simp add: staticCands_def)
  qed
qed (simp add: staticCands_def)

lemma headBest_params:
  assumes "distinct (map paramKey cs)" "sorted_wrt outranks cs" "set cs \<subseteq> set (paramChildren n)" "treeInv n"
    "\<And>c. c \<in> set cs \<Longrightarrow> segAccepts ms (nmatcher c) seg \<Longrightarrow> headBest c (candidates ms c rest)"
  shows "headBest n (paramCands ms cs seg rest)"
  using assms
proof (induction cs)
  case (Cons c cs)
  let ?hd = "if segAccepts ms (nmatcher c) seg then prepend (nname c, seg) (candidates ms c rest) else []"
  have split: "paramCands ms (c # cs) seg rest = ?hd @ paramCands ms cs seg rest" by (simp add: paramCands_def)
  have c: "c \<in> children n" "set (c # cs) \<subseteq> children n" using Cons.prems(3) by (auto simp: children_def)
  have ok: "candOK ms d vs" if "d \<in> set (c # cs)" for d vs
    using that c(2) treeInv_child[OF Cons.prems(4)] candidates_mem by blast
  show ?case unfolding split
  proof (rule headBest_append)
    show "headBest n ?hd" using Cons.prems(5) headBest_child[OF c(1)] by simp
    show "headBest n (paramCands ms cs seg rest)" using Cons by simp
    fix r r' assume r: "r \<in> fst ` set ?hd" "r' \<in> fst ` set (paramCands ms cs seg rest)"
    have "r \<in> fst ` set (candidates ms c rest)"
      using r(1) by (cases "segAccepts ms (nmatcher c) seg") simp_all
    then have "below {c} r" using ok[of c rest] by (auto simp: candOK_def below_def)
    moreover have "below (set cs) r'"
      using r(2) ok by (fastforce simp: paramCands_def candOK_def below_def prepend_def split: if_splits)
    moreover have "segOf c \<noteq> segOf d" if "d \<in> set cs" for d
      using Cons.prems(1) that by (auto simp: segOf_def paramKey_def)
    ultimately show "beats n r r'" using Cons.prems(2) c
      by (elim beats_across) (auto simp: outranks_def)
  qed
qed (simp add: paramCands_def)

lemma headBest_optional:
  assumes "treeInv n" "\<And>r. r \<in> fst ` set xs \<Longrightarrow> below (set_option (optionalChild n)) r"
  shows "headBest n xs"
proof (cases xs)
  case (Cons x xs')
  obtain r cs where x: "x = (r, cs)" by fastforce
  then have r: "r \<in> fst ` set xs" using Cons by force
  then obtain c where c: "optionalChild n = Some c" using assms(2) by (force simp: below_def)
  then have k: "c \<in> children n" "nkind c = SegmentOptional"
    using score_kind(3)[OF treeInv_local[OF assms(1)]] by (auto simp: children_def)
  have "beats n r r'" if "r' \<in> fst ` set xs" for r'
    using beats_optional[OF _ _ k] assms(2) r that c by simp
  then show ?thesis by (simp add: headBest_def Cons x)
qed simp

lemma headBest_rest: "treeInv n \<Longrightarrow> headBest n (restCands ms (restChild n) segs)"
proof (cases "restCands ms (restChild n) segs")
  case (Cons x xs)
  assume inv: "treeInv n"
  obtain r cs where x: "x = (r, cs)" by fastforce
  then have "(r, cs) \<in> set (restCands ms (restChild n) segs)" using Cons by simp
  then obtain c where c: "restChild n = Some c" "nroute c = Some r"
    by (cases "restChild n"; cases "nroute (the (restChild n))") (auto simp: restCands_def split: if_splits)
  then have "entry n [segOf c] r" by (simp add: entry_Cons children_def)
  then have "beats n r r" unfolding beats_def by (intro exI[of _ "[segOf c]"]) simp
  moreover have "xs = []" using Cons c by (auto simp: restCands_def split: if_splits)
  ultimately show ?thesis by (simp add: headBest_def Cons x)
qed simp

lemma candidates_headBest: "treeInv n \<Longrightarrow> ranked n \<Longrightarrow> headBest n (candidates ms n segs)"
proof (induction ms n segs rule: candidates.induct)
  case (1 ms n segs)
  note inv = "1.prems"(1) and loc = locD[OF treeInv_local[OF "1.prems"(1)]]
  note below = cands_below[OF inv] and classes = beats_classes[OF inv]
  show ?case
  proof (cases segs)
    case Nil
    have tail: "headBest n (optionalEmptyCands ms (optionalChild n) @ restCands ms (restChild n) [])"
      by (rule headBest_append[OF headBest_optional[OF inv below(4)] headBest_rest[OF inv]
            classes(6)[OF below(4) below(5)]])
    show ?thesis
    proof (cases "nroute n")
      case None
      with tail Nil show ?thesis by (simp add: candidates_Nil)
    next
      case (Some r)
      have "beats n r r'" if r': "(r', cs) \<in> set (candidates ms n [])" for r' cs
      proof -
        obtain p where "entry n p r'" using candidates_mem[OF inv] r' by (auto simp: candOK_def)
        moreover have "entry n [] r" using Some by simp
        ultimately show ?thesis unfolding beats_def using precedes.simps(1) by blast
      qed
      with Some Nil show ?thesis by (force simp: headBest_def candidates_Nil)
    qed
  next
    case (Cons seg rest)
    have ch: "treeInv c" "ranked c" if "c \<in> children n" for c
      using that treeInv_child[OF inv] rankedD(2)[OF "1.prems"(2)] by blast+
    have st: "headBest n (staticCands ms (staticChildren n) seg rest)"
      using loc(2) ch "1.IH"(2)[OF Cons] by (intro headBest_statics) (auto simp: children_def)
    have pa: "headBest n (paramCands ms (paramChildren n) seg rest)"
      using loc(4) rankedD(1)[OF "1.prems"(2)] inv ch "1.IH"(3)[OF Cons]
      by (intro headBest_params) (auto simp: children_def)
    let ?o = "optionalCands ms (optionalChild n) seg rest" and ?r = "restCands ms (restChild n) (seg # rest)"
    have ro: "headBest n (?o @ ?r)"
      by (rule headBest_append[OF headBest_optional[OF inv below(3)] headBest_rest[OF inv]
            classes(6)[OF below(3) below(5)]])
    have po: "headBest n (paramCands ms (paramChildren n) seg rest @ ?o @ ?r)"
    proof (rule headBest_append[OF pa ro])
      show "beats n r r'" if "r \<in> fst ` set (paramCands ms (paramChildren n) seg rest)"
        "r' \<in> fst ` set (?o @ ?r)" for r r'
        using that(2) unfolding set_append image_Un Un_iff
        by (elim disjE) (rule classes(4)[OF below(2)[OF that(1)] below(3)]
            classes(5)[OF below(2)[OF that(1)] below(5)], assumption)+
    qed
    show ?thesis unfolding Cons candidates_Cons
    proof (rule headBest_append[OF st po])
      show "beats n r r'" if "r \<in> fst ` set (staticCands ms (staticChildren n) seg rest)"
        "r' \<in> fst ` set (paramCands ms (paramChildren n) seg rest @ ?o @ ?r)" for r r'
        using that(2) unfolding set_append image_Un Un_iff
        by (elim disjE) (rule classes(1)[OF below(1)[OF that(1)] below(2)]
            classes(2)[OF below(1)[OF that(1)] below(3)] classes(3)[OF below(1)[OF that(1)] below(5)],
            assumption)+
    qed
  qed
qed

end
