(* ===== verification/RouterProps.thy ===== *)
theory RouterProps
  imports RouterOrder
begin

text \<open>
  The properties of the router: what \<^const>\<open>NewTree\<close> accepts, what \<^const>\<open>Match\<close> returns in
  terms of the declarative judgement \<^const>\<open>matchesPath\<close>, the resolution order, and two
  behaviours that differ from the documentation.
\<close>

section \<open>Splitting refines split, then decode\<close>

definition bufInv :: "segBuf \<Rightarrow> bool" where
  "bufInv b = (length (sb_buf b) = maxStackParams \<and>
     (case sb_heap b of None \<Rightarrow> sb_count b \<le> maxStackParams | Some h \<Rightarrow> sb_count b = length h))"

lemma emptyBuf_facts [simp]: "bufInv emptyBuf" "bufSlice emptyBuf = []"
  by (simp_all add: bufInv_def emptyBuf_def bufSlice_def)

lemma storeSeg_facts:
  assumes "bufInv b"
  shows "bufInv (storeSeg s b)" "bufSlice (storeSeg s b) = bufSlice b @ [s]"
  using assms
  by (auto simp: bufInv_def storeSeg_def bufSlice_def Let_def take_Suc_conv_app_nth split: option.splits)

definition storeAll :: "string list \<Rightarrow> segBuf \<Rightarrow> segBuf" where
  "storeAll vs b = foldl (\<lambda>b v. storeSeg v b) b vs"

lemma storeAll_slice: "bufInv b \<Longrightarrow> bufSlice (storeAll vs b) = bufSlice b @ vs"
  by (induction vs arbitrary: b) (simp_all add: storeAll_def storeSeg_facts)

lemma splitLoop_spec:
  "CHR ''/'' \<notin> set cur \<Longrightarrow> splitLoop cur s b =
     map_option (\<lambda>vs. storeAll vs b) (those (map pathUnescape (splitByte CHR ''/'' (cur @ s))))"
proof (induction cur s b rule: splitLoop.induct)
  case (1 cur b)
  then show ?case by (simp add: splitByte_no_sep storeAll_def option.map_comp comp_def split: option.splits)
next
  case (2 cur c cs b)
  show ?case
  proof (cases "c = CHR ''/''")
    case True
    with 2 show ?thesis
      by (auto simp: splitByte_append storeAll_def option.map_comp comp_def split: option.splits)
  qed (use 2 in simp)
qed

text \<open>The segments of a path: nothing for the root, otherwise the text between the slashes after
  one leading slash.\<close>

definition pathSegs :: "string \<Rightarrow> string list" where
  "pathSegs p = (let p' = trimPrefix p ''/'' in if p' = [] then [] else splitByte CHR ''/'' p')"

lemma splitAndDecode_spec: "splitAndDecodeInto p = those (map pathUnescape (pathSegs p))"
proof -
  define p' where "p' = trimPrefix p ''/''"
  have p': "p' = (if p \<noteq> [] \<and> hd p = CHR ''/'' then tl p else p)"
    by (cases p) (auto simp: p'_def trimPrefix_def)
  show ?thesis
  proof (cases "p' = []")
    case True
    then have "p = [] \<or> p = ''/''" using p' by (cases p) (auto split: if_splits)
    then show ?thesis by (auto simp: splitAndDecodeInto_def pathSegs_def trimPrefix_def)
  next
    case False
    have "map_option bufSlice (splitLoop [] p' emptyBuf) = those (map pathUnescape (splitByte CHR ''/'' p'))"
      by (simp add: splitLoop_spec option.map_comp comp_def storeAll_slice option.map_ident)
    with False p' show ?thesis
      by (auto simp: splitAndDecodeInto_def pathSegs_def p'_def[symmetric] Let_def split: if_splits)
  qed
qed

lemma those_Some: "those xs = Some ys \<longleftrightarrow> xs = map Some ys"
  by (induction xs arbitrary: ys) (auto split: option.splits)

section \<open>Match as the first candidate\<close>

lemma paramsOf_captures: "paramsOf st = map_of (rev (captures st))"
proof -
  have "foldl (\<lambda>m i. m(fst (f i) \<mapsto> snd (f i))) m0 is = m0 ++ map_of (rev (map f is))"
    for f :: "nat \<Rightarrow> capture" and m0 :: "string \<rightharpoonup> string" and "is"
    by (induction "is" arbitrary: m0) (simp_all add: map_add_def fun_eq_iff split: option.splits)
  then show ?thesis by (simp add: paramsOf_def captures_def)
qed

definition paramMap :: "capture list \<Rightarrow> (string \<rightharpoonup> string) option" where
  "paramMap cs = (if cs = [] then None else Some (map_of (rev cs)))"

definition firstCandidate :: "'h Tree \<Rightarrow> string list \<Rightarrow> ('h Route \<times> capture list) option" where
  "firstCandidate t segs = (case candidates (tr_matchers t) (tr_root t) segs of [] \<Rightarrow> None | x # _ \<Rightarrow> Some x)"

lemma Match_first:
  "Match t path = (case those (map pathUnescape (pathSegs path)) of
      None \<Rightarrow> None
    | Some segs \<Rightarrow> map_option (\<lambda>(r, cs). (r, paramMap cs)) (firstCandidate t segs))"
proof -
  have "(case matchNode (tr_matchers t) (tr_root t) segs emptyState of
       (None, _) \<Rightarrow> None
     | (Some r, st) \<Rightarrow> if ms_n st = 0 then Some (r, None) else Some (r, Some (paramsOf st))) =
     map_option (\<lambda>(r, cs). (r, paramMap cs)) (firstCandidate t segs)" for segs
    using walk_refines(1)[of emptyState "tr_matchers t" "tr_root t" segs]
    by (auto simp: walkOK_def firstCandidate_def paramMap_def paramsOf_captures simp flip: captures_length
        split: list.splits prod.splits option.splits)
  then show ?thesis by (auto simp: Match_def splitAndDecode_spec split: option.splits)
qed

section \<open>Soundness and completeness of matching\<close>

lemma WithMatchers_fields:
  assumes "WithMatchers t0 m = (t, e)"
  shows "tr_root t = tr_root t0" "tr_routes t = tr_routes t0" "tr_matchers t = m"
  using assms by (auto simp: WithMatchers_def Let_def)

lemma built_candidates:
  assumes "NewTree routes = Inr t0" "WithMatchers t0 m = (t, e)"
  shows "(r, cs) \<in> set (candidates (tr_matchers t) (tr_root t) segs) \<Longrightarrow>
      r \<in> set (tr_routes t) \<and> matchesPath m (normPath r) segs cs"
    and "conflictFree routes \<Longrightarrow> r \<in> set (tr_routes t) \<Longrightarrow> matchesPath m (normPath r) segs cs \<Longrightarrow>
      (r, cs) \<in> set (candidates (tr_matchers t) (tr_root t) segs)"
proof -
  note f = WithMatchers_fields[OF assms(2)]
  have c: "candOK m (tr_root t) segs" using NewTree_inv[OF assms(1)] f(1) by (simp add: candidates_mem)
  show "(r, cs) \<in> set (candidates (tr_matchers t) (tr_root t) segs) \<Longrightarrow>
      r \<in> set (tr_routes t) \<and> matchesPath m (normPath r) segs cs"
    using c NewTree_entry_sound[OF assms(1)] f by (auto simp: candOK_def)
  show "conflictFree routes \<Longrightarrow> r \<in> set (tr_routes t) \<Longrightarrow> matchesPath m (normPath r) segs cs \<Longrightarrow>
      (r, cs) \<in> set (candidates (tr_matchers t) (tr_root t) segs)"
    using c NewTree_entry_complete[OF assms(1)] f unfolding candOK_def by metis
qed

lemma Match_built:
  assumes "NewTree routes = Inr t0" "WithMatchers t0 m = (t, e)" "Match t path = Some (r, ps)"
  shows "\<exists>segs cs. those (map pathUnescape (pathSegs path)) = Some segs \<and> r \<in> set (Routes t) \<and>
     matchesPath m (normPath r) segs cs \<and> ps = paramMap cs"
proof -
  obtain segs cs where s: "those (map pathUnescape (pathSegs path)) = Some segs"
    and c: "firstCandidate t segs = Some (r, cs)" "ps = paramMap cs"
    using assms(3) by (auto simp: Match_first split: option.splits)
  then have "(r, cs) \<in> set (candidates (tr_matchers t) (tr_root t) segs)"
    by (auto simp: firstCandidate_def split: list.splits)
  with built_candidates(1)[OF assms(1,2)] s c show ?thesis by (auto simp: Routes_def)
qed

text \<open>C1. Soundness of \<^const>\<open>Match\<close>: on a tree built by \<^const>\<open>NewTree\<close> with any matcher
  registry, the route returned is one of the tree's routes, the decoded path segments match its
  segments under the declarative rules, and the parameter map holds exactly the captures of that
  match (nil when there are none, the last capture of a repeated name winning).\<close>

theorem Match_sound:
  assumes "NewTree routes = Inr t0" "WithMatchers t0 m = (t, e)" "Match t path = Some (r, ps)"
  shows "\<exists>segs cs. those (map pathUnescape (pathSegs path)) = Some segs \<and> r \<in> set (Routes t) \<and>
     matchesPath m (normPath r) segs cs \<and> ps = paramMap cs"
  by (rule Match_built[OF assms])

text \<open>C2. Completeness of \<^const>\<open>Match\<close>: when no two routes compete for one optional or rest
  slot, \<^const>\<open>Match\<close> answers "no route" exactly when the path does not decode or no route of
  the tree matches it; backtracking never misses a route.\<close>

theorem Match_none_iff:
  assumes "NewTree routes = Inr t0" "WithMatchers t0 m = (t, e)" "conflictFree routes"
  shows "Match t path = None \<longleftrightarrow>
    (case those (map pathUnescape (pathSegs path)) of
       None \<Rightarrow> True
     | Some segs \<Rightarrow> \<not> (\<exists>r \<in> set (Routes t). \<exists>cs. matchesPath m (normPath r) segs cs))"
proof -
  have "candidates (tr_matchers t) (tr_root t) segs = [] \<longleftrightarrow>
      \<not> (\<exists>r \<in> set (Routes t). \<exists>cs. matchesPath m (normPath r) segs cs)" for segs
    using built_candidates[OF assms(1,2)] assms(3) unfolding Routes_def
    by (metis empty_iff list.set(1) list.set_intros(1) neq_Nil_conv surj_pair)
  then show ?thesis
    by (simp add: Match_first firstCandidate_def split: option.split list.split) (metis list.distinct(1))
qed

text \<open>C4. The walk over the tree with its eight-slot capture stack refines the pure enumeration of
  candidates: \<^const>\<open>Match\<close> returns the first route of \<^const>\<open>candidates\<close> in resolution order
  with its captures, for every tree.\<close>

theorem Match_refines_candidates:
  "Match t path = (case those (map pathUnescape (pathSegs path)) of
      None \<Rightarrow> None
    | Some segs \<Rightarrow> (case candidates (tr_matchers t) (tr_root t) segs of
        [] \<Rightarrow> None
      | (r, cs) # _ \<Rightarrow> Some (r, paramMap cs)))"
  by (auto simp: Match_first firstCandidate_def split: option.splits list.splits)

text \<open>C6. A failed walk leaves the capture stack as it found it, also when captures have spilled
  from the eight slots into the overflow slice; a successful one only appends.\<close>

theorem matchNode_backtracks:
  assumes "stateInv st" "matchNode ms n segs st = (res, st')"
  shows "stateInv st' \<and> (case res of
      None \<Rightarrow> captures st' = captures st
    | Some r \<Rightarrow> (\<exists>cs. (r, cs) \<in> set (candidates ms n segs) \<and> captures st' = captures st @ cs))"
  using walk_refines(1)[OF assms(1), of ms n segs] assms(2)
  by (auto simp: walkOK_def split: list.splits)

text \<open>The path is split on literal slashes before each segment is decoded, through the
  eight-slot buffer and its heap overflow: for values escaped with \<^const>\<open>pathEscape\<close> the
  segments are exactly the values, so an escaped slash stays inside its segment.\<close>

theorem splitAndDecodeInto_escaped:
  assumes "vs \<noteq> []" "vs \<noteq> [[]]"
  shows "splitAndDecodeInto (CHR ''/'' # joinStr ''/'' (map pathEscape vs)) = Some vs"
proof -
  have ne: "joinStr ''/'' (map pathEscape vs) \<noteq> []"
    using assms pathEscape_Nil_iff by (cases vs; cases "tl vs") (auto simp: joinStr_Cons)
  have "splitByte CHR ''/'' (joinStr ''/'' (map pathEscape vs)) = map pathEscape vs"
    using assms(1) by (intro splitByte_joinStr) (auto simp: pathEscape_no_slash)
  with ne show ?thesis
    by (simp add: splitAndDecode_spec pathSegs_def trimPrefix_def Let_def those_Some pathUnescape_pathEscape comp_def)
qed

section \<open>Building a tree\<close>


definition registered :: "Matchers option \<Rightarrow> Segment \<Rightarrow> bool" where
  "registered m s = (if seg_matcher s = [] then True else lookupMatcher m (seg_matcher s) \<noteq> None)"

text \<open>\<^const>\<open>WithMatchers\<close> reports no error exactly when every matcher a route names is
  registered; otherwise it names the pattern of a route and a matcher of that route that is
  missing.\<close>

theorem WithMatchers_validates:
  fixes t :: "'h Tree"
  shows "case snd (WithMatchers t m) of
     None \<Rightarrow> list_all (\<lambda>r. list_all (registered m)
       (rt_Segments r)) (Routes t)
   | Some e \<Rightarrow> (\<exists>r s. r \<in> set (Routes t) \<and> s \<in> set (rt_Segments r) \<and> seg_matcher s \<noteq> [] \<and>
       lookupMatcher m (seg_matcher s) = None \<and> e = MissingMatcher (rt_Pattern r) (seg_matcher s))"
proof -
  have one: "case missingMatcher m pat ss of
      None \<Rightarrow> list_all (\<lambda>s. registered m s) ss
    | Some e \<Rightarrow> (\<exists>s \<in> set ss. seg_matcher s \<noteq> [] \<and> lookupMatcher m (seg_matcher s) = None \<and>
        e = MissingMatcher pat (seg_matcher s))" for pat ss
    by (induction ss) (auto simp: registered_def list_all_iff split: option.splits if_splits)
  have "case missingMatchers m rs of
      None \<Rightarrow> list_all (\<lambda>r. list_all (registered m)
        (rt_Segments r)) rs
    | Some e \<Rightarrow> (\<exists>r s. r \<in> set rs \<and> s \<in> set (rt_Segments r) \<and> seg_matcher s \<noteq> [] \<and>
        lookupMatcher m (seg_matcher s) = None \<and> e = MissingMatcher (rt_Pattern r) (seg_matcher s))"
    for rs :: "'h Route list"
  proof (induction rs)
    case (Cons r rs)
    then show ?case using one[where pat = "rt_Pattern r" and ss = "rt_Segments r"] by (auto split: option.splits)
  qed simp
  from this[of "tr_routes t"] show ?thesis unfolding WithMatchers_def Let_def Routes_def by simp
qed

lemma nibble_range: "0 \<le> a \<Longrightarrow> a < 16 \<Longrightarrow> a \<in> set [0..(15::int)]"
  by simp

lemma hexLower_facts:
  assumes "0 \<le> a" "a < 16" "0 \<le> b" "b < 16"
  shows "hexLower a \<in> set ''0123456789abcdef''" "hexLower a = hexLower b \<longleftrightarrow> a = b"
proof -
  have "\<forall>a \<in> set [0..15]. hexLower a \<in> set ''0123456789abcdef''" by code_simp
  then show "hexLower a \<in> set ''0123456789abcdef''" using nibble_range assms by blast
  have "\<forall>a \<in> set [0..15]. \<forall>b \<in> set [0..15]. hexLower a = hexLower b \<longrightarrow> a = b" by code_simp
  then show "hexLower a = hexLower b \<longleftrightarrow> a = b" using nibble_range assms by blast
qed

lemma radix4:
  fixes z :: int
  assumes "z = 256 * q1 + r0" "q1 = 256 * q2 + r1" "q2 = 256 * q3 + r2"
  shows "z = 16777216 * q3 + 65536 * r2 + 256 * r1 + r0"
  using assms by simp

lemma bytes_determine:
  fixes x y :: int
  assumes "0 \<le> x" "x < 2 ^ 32" "0 \<le> y" "y < 2 ^ 32"
    "\<And>k. k \<in> {16777216, 65536, 256, 1} \<Longrightarrow> (x div k) mod 256 = (y div k) mod 256"
  shows "x = y"
proof -
  have sum: "z = 16777216 * ((z div 16777216) mod 256) + 65536 * ((z div 65536) mod 256) +
      256 * ((z div 256) mod 256) + z mod 256" if z: "0 \<le> z" "z < 2 ^ 32" for z :: int
  proof (rule radix4)
    show "z = 256 * (z div 256) + z mod 256" by (rule mult_div_mod_eq[symmetric])
    show "z div 256 = 256 * (z div 65536) + (z div 256) mod 256"
      using mult_div_mod_eq[of 256 "z div 256"] zdiv_zmult2_eq[of 256 z 256] by simp
    show "z div 65536 = 256 * ((z div 16777216) mod 256) + (z div 65536) mod 256"
      using mult_div_mod_eq[of 256 "z div 65536"] zdiv_zmult2_eq[of 256 z 65536] z by simp
  qed
  note s = sum[OF assms(1,2)] sum[OF assms(3,4)]
  have e: "(x div 16777216) mod 256 = (y div 16777216) mod 256" "(x div 65536) mod 256 = (y div 65536) mod 256"
    "(x div 256) mod 256 = (y div 256) mod 256" "x mod 256 = y mod 256"
    using assms(5)[of 1] assms(5) by simp_all
  from s show ?thesis unfolding e by (rule trans[OF _ sym])
qed

lemma nibbles:
  fixes z :: int
  shows "0 \<le> z mod 256 div 16" "z mod 256 div 16 < 16" "0 \<le> z mod 256 mod 16" "z mod 256 mod 16 < 16"
  by presburger+

definition hexByte :: "int \<Rightarrow> string" where
  "hexByte b = [hexLower (b div 16), hexLower (b mod 16)]"

lemma hexByte_inj: "hexByte (a mod 256) = hexByte (b mod 256) \<Longrightarrow> a mod 256 = b mod 256"
proof -
  assume "hexByte (a mod 256) = hexByte (b mod 256)"
  then have e: "a mod 256 div 16 = b mod 256 div 16" "a mod 256 mod 16 = b mod 256 mod 16"
    using hexLower_facts(2)[OF nibbles(1,2)[of a] nibbles(1,2)[of b]]
      hexLower_facts(2)[OF nibbles(3,4)[of a] nibbles(3,4)[of b]]
    unfolding hexByte_def by blast+
  have "a mod 256 = 16 * (a mod 256 div 16) + a mod 256 mod 16" by (rule mult_div_mod_eq[symmetric])
  also have "\<dots> = b mod 256" unfolding e by (rule mult_div_mod_eq)
  finally show ?thesis .
qed

lemma hexBytes_inj:
  assumes "concat (map (\<lambda>k. hexByte (f k mod 256)) ks) = concat (map (\<lambda>k. hexByte (g k mod 256)) ks)"
    "k \<in> set ks"
  shows "f k mod 256 = g k mod 256"
  using assms
proof (induction ks)
  case (Cons k' ks)
  have "length (hexByte (f k' mod 256)) = length (hexByte (g k' mod 256))" by (simp add: hexByte_def)
  then have e: "hexByte (f k' mod 256) = hexByte (g k' mod 256)"
    "concat (map (\<lambda>k. hexByte (f k mod 256)) ks) = concat (map (\<lambda>k. hexByte (g k mod 256)) ks)"
    using Cons.prems(1) unfolding list.map concat.simps by (simp_all del: append_same_eq same_append_eq)
  show ?case using hexByte_inj[OF e(1)] Cons.IH[OF e(2)] Cons.prems(2) by auto
qed simp

lemma hexByte_digits: "list_all (\<lambda>c. c \<in> set ''0123456789abcdef'') (hexByte (a mod 256))"
  unfolding hexByte_def list.pred_inject
  by (intro conjI hexLower_facts(1)[OF nibbles(1,2) nibbles(1,2)] hexLower_facts(1)[OF nibbles(3,4) nibbles(3,4)]) simp

lemma routeID_bytes:
  "routeID p = concat (map (\<lambda>k. hexByte ((uint (fnv32a p) div k) mod 256)) [16777216, 65536, 256, 1])"
  unfolding routeID_def Let_def hexByte_def map_map comp_def ..


section \<open>Resolution order\<close>

lemma routeSpec_norm: "routeSpec r = map segmentScore (normPath r)"
  by (auto simp: routeSpec_def normSeg_def segmentScore_def split: SegmentKind.splits)

lemma NewTree_ranked:
  assumes "NewTree routes = Inr t" shows "ranked (tr_root t)"
proof -
  obtain root where r: "insertAll rootNode (map withID routes) = Inr root"
    "tr_root t = finished root" "tr_routes t = map withID routes"
    using assms by (rule NewTree_root)
  have "treeInv root" using insertAll_inv[OF r(1)] by simp
  moreover have "scored [] root"
    using insertAll_sound[OF r(1)] by (auto simp: scored_def routeSpec_norm)
  ultimately show ?thesis unfolding r(2) by (rule ranked_finished)
qed


section \<open>Concrete trees\<close>

definition demoRoute :: "string \<Rightarrow> Segment list \<Rightarrow> unit Route" where
  "demoRoute p ss = \<lparr>rt_ID = [], rt_Pattern = p, rt_Segments = ss, rt_handlers = ()\<rparr>"

definition demoRoutes :: "unit Route list" where
  "demoRoutes =
    [demoRoute ''/posts/[slug]'' [mkSegment SegmentStatic [] ''posts'' [], mkSegment SegmentParam ''slug'' [] []],
     demoRoute ''/posts/[id=int]'' [mkSegment SegmentStatic [] ''posts'' [], mkSegment SegmentParam ''id'' [] ''int''],
     demoRoute ''/posts/new'' [mkSegment SegmentStatic [] ''posts'' [], mkSegment SegmentStatic [] ''new'' []],
     demoRoute ''/[...rest]'' [mkSegment SegmentRest ''rest'' [] []]]"

definition demoTree :: "unit Tree" where
  "demoTree = (case NewTree demoRoutes of Inr t \<Rightarrow> t | Inl _ \<Rightarrow> \<lparr>tr_root = rootNode, tr_routes = [], tr_matchers = None\<rparr>)"

definition demoTree' :: "unit Tree" where
  "demoTree' = fst (WithMatchers demoTree (Some DefaultMatchers))"

lemma demo_built: "NewTree demoRoutes = Inr demoTree"
proof -
  have "isl (NewTree demoRoutes) = False" by code_simp
  then show ?thesis by (auto simp: demoTree_def split: sum.splits)
qed

lemma demo_matchers: "WithMatchers demoTree (Some DefaultMatchers) = (demoTree', None)"
proof -
  have "snd (WithMatchers demoTree (Some DefaultMatchers)) = None" by code_simp
  then show ?thesis by (simp add: demoTree'_def prod_eq_iff)
qed

lemma demo_conflictFree: "conflictFree demoRoutes"
  by code_simp

lemma demo_match:
  "map_option (\<lambda>(r, ps). (rt_Pattern r, map_option (\<lambda>m. m ''id'') ps)) (Match demoTree' ''/posts/42'') =
     Some (''/posts/[id=int]'', Some (Some ''42''))"
  by code_simp

lemma demo_matched:
  obtains r ps where "Match demoTree' ''/posts/42'' = Some (r, ps)" "rt_Pattern r = ''/posts/[id=int]''"
  using demo_match by auto

lemma demo_segs: "those (map pathUnescape (pathSegs ''/posts/42'')) = Some [''posts'', ''42'']"
  by code_simp

theorem Match_sound_witness:
  "\<exists>r ps segs cs. Match demoTree' ''/posts/42'' = Some (r, ps) \<and>
     those (map pathUnescape (pathSegs ''/posts/42'')) = Some segs \<and> r \<in> set (Routes demoTree') \<and>
     matchesPath (Some DefaultMatchers) (normPath r) segs cs \<and> ps = paramMap cs"
proof -
  obtain r ps where m: "Match demoTree' ''/posts/42'' = Some (r, ps)" by (rule demo_matched)
  from Match_sound[OF demo_built demo_matchers m] m show ?thesis by blast
qed

theorem Match_none_iff_witness:
  "Match demoTree' ''/x%zz'' = None \<longleftrightarrow>
    (case those (map pathUnescape (pathSegs ''/x%zz'')) of
       None \<Rightarrow> True
     | Some segs \<Rightarrow> \<not> (\<exists>r \<in> set (Routes demoTree'). \<exists>cs. matchesPath (Some DefaultMatchers) (normPath r) segs cs))"
  by (rule Match_none_iff[OF demo_built demo_matchers demo_conflictFree])

theorem matchNode_backtracks_witness:
  "stateInv (snd (matchNode (Some DefaultMatchers) (tr_root demoTree') [''posts'', ''a'', ''b''] emptyState))"
  by (rule matchNode_backtracks[OF stateInv_empty(1) prod.collapse[symmetric], THEN conjunct1])

theorem splitAndDecodeInto_escaped_witness:
  "splitAndDecodeInto ''/files/a%2Fb'' = Some [''files'', ''a/b'']"
proof -
  have e: "CHR ''/'' # joinStr ''/'' (map pathEscape [''files'', ''a/b'']) = ''/files/a%2Fb''" by code_simp
  show ?thesis using splitAndDecodeInto_escaped[of "[''files'', ''a/b'']"] unfolding e by simp
qed



section \<open>Where the tree departs from its documentation\<close>

definition tieRoutes :: "bool \<Rightarrow> unit Route list" where
  "tieRoutes b = (let x = demoRoute ''/[id=int]'' [mkSegment SegmentParam ''id'' [] ''int''];
      y = demoRoute ''/[id=slug]'' [mkSegment SegmentParam ''id'' [] ''slug'']
    in if b then [x, y] else [y, x])"

definition matchIn :: "unit Route list \<Rightarrow> string \<Rightarrow> string option" where
  "matchIn routes path = (case NewTree routes of
      Inl _ \<Rightarrow> None
    | Inr t \<Rightarrow> map_option (\<lambda>(r, _). rt_Pattern r) (Match (fst (WithMatchers t (Some DefaultMatchers))) path))"

text \<open>The order of insertion can decide the match, against the comment on \<^const>\<open>NewTree\<close>:
  two parameter siblings of the same name with different matchers tie in \<^const>\<open>paramLess\<close>, and
  the stable sort keeps them in insertion order.\<close>

theorem insert_order_decides:
  "matchIn (tieRoutes True) ''/42'' = Some ''/[id=int]'' \<and> matchIn (tieRoutes False) ''/42'' = Some ''/[id=slug]''"
  by (rule conjI; code_simp)

definition langRoutes :: "unit Route list" where
  "langRoutes = [demoRoute ''/[[lang]]/about'' [mkSegment SegmentOptional ''lang'' [] [], mkSegment SegmentStatic [] ''about'' []],
     demoRoute ''/[[locale]]/contact'' [mkSegment SegmentOptional ''locale'' [] [], mkSegment SegmentStatic [] ''contact'' []]]"

text \<open>Two routes that name one optional slot differently: \<^const>\<open>childFor\<close> replaces the first
  subtree by a new one, \<^const>\<open>NewTree\<close> still succeeds, and the first route is listed but is
  never matched.\<close>

theorem optional_slot_overwritten:
  "matchIn langRoutes ''/en/contact'' = Some ''/[[locale]]/contact'' \<and> matchIn langRoutes ''/en/about'' = None \<and>
   matchIn [hd langRoutes] ''/en/about'' = Some ''/[[lang]]/about''"
  by (intro conjI; code_simp)

end
