(* ===== verification/Link.thy ===== *)
theory Link
  imports RouterProps
begin

text \<open>
  URLs from route patterns, \<^verbatim>\<open>exports/kit/link.go\<close>: \<^verbatim>\<open>Link\<close> substitutes parameters into a
  pattern. The theorem ties it to the router: a link built from a route's printed segments
  decodes to a path that the route matches with the same parameters, so a tree holding the route
  never answers it with "no route".
\<close>

section \<open>The operation\<close>

datatype linkError = ErrLinkPattern | ErrLinkParam

definition stripMatcher :: "string \<Rightarrow> string" where
  "stripMatcher s = (case indexByte s CHR ''='' of Some i \<Rightarrow> take i s | None \<Rightarrow> s)"

text \<open>One pass of the loop over the parts: the text the part adds to the builder. The slice
  expressions are in range because the prefix and the suffix of a bracketed part cannot overlap
  (\<open>linkPart_slices\<close>).\<close>

definition linkPart :: "(string \<rightharpoonup> string) \<Rightarrow> string \<Rightarrow> (linkError, string) result" where
  "linkPart params part =
    (if hasPrefix part ''[['' \<and> hasSuffix part '']]'' then
       let name = stripMatcher (take (length part - 2 - 2) (drop 2 part)) in
       if name = [] then Inl ErrLinkPattern
       else (case params name of
           None \<Rightarrow> Inr []
         | Some v \<Rightarrow> if v = [] then Inr [] else Inr (''/'' @ v))
     else if hasPrefix part ''[...'' \<and> hasSuffix part '']'' then
       let name = stripMatcher (take (length part - 1 - 4) (drop 4 part)) in
       if name = [] then Inl ErrLinkPattern
       else (case params name of
           None \<Rightarrow> Inr []
         | Some v \<Rightarrow> if v = [] then Inr [] else Inr (''/'' @ trimPrefix v ''/''))
     else if hasPrefix part ''['' \<and> hasSuffix part '']'' then
       let name = stripMatcher (take (length part - 1 - 1) (drop 1 part)) in
       if name = [] then Inl ErrLinkPattern
       else (case params name of
           None \<Rightarrow> Inl ErrLinkParam
         | Some v \<Rightarrow> Inr (''/'' @ v))
     else Inr (''/'' @ part))"

fun linkLoop :: "(string \<rightharpoonup> string) \<Rightarrow> string list \<Rightarrow> string \<Rightarrow> (linkError, string) result" where
  "linkLoop params [] b = (if length b = 0 then Inr ''/'' else Inr b)"
| "linkLoop params (part # parts) b = (case linkPart params part of
      Inl e \<Rightarrow> Inl e
    | Inr t \<Rightarrow> linkLoop params parts (b @ t))"

definition Link :: "string \<Rightarrow> (string \<rightharpoonup> string) \<Rightarrow> (linkError, string) result" where
  "Link pattern params =
    (if \<not> hasPrefix pattern ''/'' then Inl ErrLinkPattern
     else if pattern = ''/'' then Inr ''/''
     else linkLoop params (splitByte CHR ''/'' (trimPrefix pattern ''/'')) [])"

lemma linkPart_slices:
  "hasPrefix part ''[['' \<Longrightarrow> hasSuffix part '']]'' \<Longrightarrow> goSlice part 2 (length part - 2) = Some (take (length part - 2 - 2) (drop 2 part))"
  "hasPrefix part ''[...'' \<Longrightarrow> hasSuffix part '']'' \<Longrightarrow> goSlice part 4 (length part - 1) = Some (take (length part - 1 - 4) (drop 4 part))"
  "hasPrefix part ''['' \<Longrightarrow> hasSuffix part '']'' \<Longrightarrow> goSlice part 1 (length part - 1) = Some (take (length part - 1 - 1) (drop 1 part))"
  by (auto simp: hasPrefix_iff hasSuffix_iff append_eq_Cons_conv Cons_eq_append_conv)

text \<open>The branches of a part, by the name between the brackets.\<close>

lemma linkPart_cases:
  "hasPrefix part ''[['' \<Longrightarrow> hasSuffix part '']]'' \<Longrightarrow>
     stripMatcher (take (length part - 2 - 2) (drop 2 part)) = name \<Longrightarrow> name \<noteq> [] \<Longrightarrow> params name = Some v \<Longrightarrow>
     linkPart params part = Inr (if v = [] then [] else ''/'' @ v)"
  "\<not> hasPrefix part ''[['' \<Longrightarrow> hasPrefix part ''[...'' \<Longrightarrow> hasSuffix part '']'' \<Longrightarrow>
     stripMatcher (take (length part - 1 - 4) (drop 4 part)) = name \<Longrightarrow> name \<noteq> [] \<Longrightarrow> params name = Some v \<Longrightarrow>
     linkPart params part = Inr (if v = [] then [] else ''/'' @ trimPrefix v ''/'')"
  "\<not> hasPrefix part ''[['' \<Longrightarrow> \<not> hasPrefix part ''[...'' \<Longrightarrow> hasPrefix part ''['' \<Longrightarrow> hasSuffix part '']'' \<Longrightarrow>
     stripMatcher (take (length part - 1 - 1) (drop 1 part)) = name \<Longrightarrow> name \<noteq> [] \<Longrightarrow> params name = Some v \<Longrightarrow>
     linkPart params part = Inr (''/'' @ v)"
  "\<not> hasPrefix part ''['' \<Longrightarrow> \<not> hasPrefix part ''[['' \<Longrightarrow> \<not> hasPrefix part ''[...'' \<Longrightarrow>
     linkPart params part = Inr (''/'' @ part)"
  unfolding linkPart_def by (simp_all only: Let_def if_True if_False simp_thms option.case if_distrib[of Inr])

section \<open>Links to routes\<close>

text \<open>The path pieces a segment contributes under the values \<open>vals\<close>, one list of decoded pieces per
  parameter name, and what the values have to look like: one non-empty piece for a required
  parameter, at most one for an optional one, any number for the rest.\<close>

definition pieces :: "(string \<Rightarrow> string list) \<Rightarrow> Segment \<Rightarrow> string list" where
  "pieces vals s = (if seg_kind s = SegmentStatic then [seg_value s] else vals (seg_name s))"

lemma pieces_simps:
  "seg_kind s = SegmentStatic \<Longrightarrow> pieces vals s = [seg_value s]"
  "seg_kind s \<noteq> SegmentStatic \<Longrightarrow> pieces vals s = vals (seg_name s)"
  by (simp_all add: pieces_def)

definition valuesFit :: "Matchers option \<Rightarrow> (string \<Rightarrow> string list) \<Rightarrow> Segment \<Rightarrow> bool" where
  "valuesFit ms vals s = (
     let vs = pieces vals s in
     list_all (\<lambda>v. v \<noteq> []) vs \<and> (case seg_kind s of
       SegmentStatic \<Rightarrow> CHR ''/'' \<notin> set (seg_value s) \<and> CHR ''%'' \<notin> set (seg_value s)
     | SegmentParam \<Rightarrow> length vs = 1 \<and> segAccepts ms (seg_matcher s) (hd vs)
     | SegmentOptional \<Rightarrow> length vs \<le> 1 \<and> (if vs = [] then True else segAccepts ms (seg_matcher s) (hd vs))
     | SegmentRest \<Rightarrow> if vs = [] then True else segAccepts ms (seg_matcher s) (joinStr ''/'' vs)))"

definition linkParams :: "(string \<Rightarrow> string list) \<Rightarrow> (string \<rightharpoonup> string)" where
  "linkParams vals = (\<lambda>n. Some (joinStr ''/'' (map pathEscape (vals n))))"

definition pieceText :: "(string \<Rightarrow> string list) \<Rightarrow> Segment \<Rightarrow> string list" where
  "pieceText vals s = (if seg_kind s = SegmentStatic then [seg_value s] else map pathEscape (vals (seg_name s)))"

definition slashed :: "string list \<Rightarrow> string" where
  "slashed ps = concat (map (\<lambda>p. ''/'' @ p) ps)"

definition restLast :: "Segment list \<Rightarrow> bool" where
  "restLast segs = list_all (\<lambda>s. seg_kind s \<noteq> SegmentRest) (butlast segs)"

lemma stripMatcher_nameMatcher: "wfName U n m \<Longrightarrow> stripMatcher (nameMatcher n m) = n"
  using isGoIdent_no_punct(5)
  by (auto simp: wfName_def nameMatcher_def stripMatcher_def indexByte_append indexByte_None[THEN iffD2])

lemma slashed_join: "ps \<noteq> [] \<Longrightarrow> slashed ps = ''/'' @ joinStr ''/'' ps"
proof (induction ps)
  case (Cons p ps)
  then show ?case by (cases ps) (simp_all add: slashed_def)
qed simp

lemma slashed_append: "slashed (ps @ qs) = slashed ps @ slashed qs"
  by (simp add: slashed_def)

lemma join_escaped_hd:
  assumes "list_all (\<lambda>v. v \<noteq> []) vs"
  shows "trimPrefix (joinStr ''/'' (map pathEscape vs)) ''/'' = joinStr ''/'' (map pathEscape vs)"
proof (cases vs)
  case (Cons v ws)
  then obtain c cs where "pathEscape v = c # cs" using assms by (cases "pathEscape v") auto
  moreover have "CHR ''/'' \<notin> set (pathEscape v)" by (rule pathEscape_no_slash)
  ultimately show ?thesis using Cons by (cases ws) (auto simp: trimPrefix_def)
qed (simp add: trimPrefix_def)

lemma join_escaped_ne: "list_all (\<lambda>v. v \<noteq> []) vs \<Longrightarrow> joinStr ''/'' (map pathEscape vs) = [] \<longleftrightarrow> vs = []"
  by (cases vs; cases "tl vs") (auto simp: joinStr_Cons)

lemma wfName_ne: "wfName U n m \<Longrightarrow> n \<noteq> []"
  using isGoIdent_ne by (auto simp: wfName_def)

text \<open>A part that is a printed segment adds exactly its escaped pieces.\<close>

lemma linkPart_segString:
  assumes "wfSegment U s" "valuesFit ms vals s"
  shows "linkPart (linkParams vals) (segString s) = Inr (slashed (pieceText vals s))"
proof -
  let ?nm = "nameMatcher (seg_name s) (seg_matcher s)" and ?v = "joinStr ''/'' (map pathEscape (vals (seg_name s)))"
  have p: "linkParams vals (seg_name s) = Some ?v" by (simp add: linkParams_def)
  have named: "seg_name s \<noteq> [] \<and> stripMatcher ?nm = seg_name s \<and> (\<exists>c cs. ?nm = c # cs \<and> c \<noteq> CHR ''['' \<and> c \<noteq> CHR ''.'') \<and>
      list_all (\<lambda>v. v \<noteq> []) (vals (seg_name s))" if "seg_kind s \<noteq> SegmentStatic"
  proof -
    have w: "wfName U (seg_name s) (seg_matcher s)" using assms(1) that by (cases "seg_kind s") (simp_all add: wfSegment_def)
    moreover have "list_all (\<lambda>v. v \<noteq> []) (vals (seg_name s))"
      using assms(2) that by (simp add: valuesFit_def pieces_simps Let_def)
    ultimately show ?thesis using wfName_ne stripMatcher_nameMatcher nameMatcher_hd by blast
  qed
  have sl: "slashed (pieceText vals s) = (if ?v = [] then [] else ''/'' @ ?v)" if "seg_kind s \<noteq> SegmentStatic"
    using that named[OF that] join_escaped_ne slashed_join[of "map pathEscape (vals (seg_name s))"]
    by (cases "vals (seg_name s) = []") (simp_all add: pieceText_def slashed_def[of "[]"])
  show ?thesis
  proof (cases "seg_kind s")
    case SegmentStatic
    then have v: "segString s = seg_value s" "\<not> containsAny (seg_value s) ''[]()''"
      using assms(1) by (simp_all add: segString_def wfSegment_def)
    have "\<not> hasPrefix (seg_value s) (CHR ''['' # p)" for p
    proof
      assume "hasPrefix (seg_value s) (CHR ''['' # p)"
      then have "CHR ''['' \<in> set (seg_value s)" by (cases "seg_value s") auto
      with v(2) show False by (auto simp: containsAny_iff)
    qed
    with v SegmentStatic show ?thesis by (simp add: linkPart_cases(4) pieceText_def slashed_def)
  next
    case SegmentParam
    then have ne: "?v \<noteq> []" using assms(2)
      by (auto simp: valuesFit_def pieces_simps Let_def length_Suc_conv)
    have e: "segString s = ''['' @ ?nm @ '']''" using segString_print(1) SegmentParam by blast
    have "hasSuffix (segString s) '']''" using hasSuffix_append[of "''['' @ ?nm" "'']''"] e by simp
    with SegmentParam named have "linkPart (linkParams vals) (segString s) = Inr (''/'' @ ?v)"
      by (intro linkPart_cases(3)[where name = "seg_name s"] p) (auto simp: e)
    with SegmentParam ne sl show ?thesis by simp
  next
    case SegmentOptional
    have e: "segString s = ''[['' @ ?nm @ '']]''" using segString_print(2) SegmentOptional by blast
    have "hasSuffix (segString s) '']]''" using hasSuffix_append[of "''[['' @ ?nm" "'']]''"] e by simp
    with SegmentOptional named have "linkPart (linkParams vals) (segString s) = Inr (if ?v = [] then [] else ''/'' @ ?v)"
      by (intro linkPart_cases(1)[where name = "seg_name s"] p) (auto simp: e)
    with SegmentOptional sl show ?thesis by simp
  next
    case SegmentRest
    have e: "segString s = ''[...'' @ ?nm @ '']''" using segString_print(3) SegmentRest by blast
    have "hasSuffix (segString s) '']''" using hasSuffix_append[of "''[...'' @ ?nm" "'']''"] e by simp
    with SegmentRest named
    have "linkPart (linkParams vals) (segString s) = Inr (if ?v = [] then [] else ''/'' @ trimPrefix ?v ''/'')"
      by (intro linkPart_cases(2)[where name = "seg_name s"] p) (auto simp: e)
    with SegmentRest named sl join_escaped_hd show ?thesis by simp
  qed
qed

lemma linkLoop_segs:
  assumes "list_all (wfSegment U) segs" "list_all (valuesFit ms vals) segs"
  shows "linkLoop (linkParams vals) (map segString segs) b =
    (let t = b @ slashed (concat (map (pieceText vals) segs)) in Inr (if t = [] then ''/'' else t))"
  using assms by (induction segs arbitrary: b)
    (simp_all add: linkPart_segString[where U = U and ms = ms] slashed_append slashed_def[of "[]"] Let_def)

lemma BuildPattern_parts:
  assumes "segs \<noteq> []" "list_all (wfSegment U) segs" "list_all (valuesFit ms vals) segs"
  shows "hasPrefix (BuildPattern segs) ''/''" "BuildPattern segs \<noteq> ''/''"
    "splitByte CHR ''/'' (trimPrefix (BuildPattern segs) ''/'') = map segString segs"
proof -
  obtain s ss where ss: "segs = s # ss" using assms(1) by (cases segs) auto
  show "hasPrefix (BuildPattern segs) ''/''" by (simp add: ss BuildPattern_Cons)
  have "segString s \<noteq> []" using assms(2) nameMatcher_ne
    by (cases "seg_kind s") (auto simp: ss wfSegment_def segString_print segString_def)
  then show "BuildPattern segs \<noteq> ''/''" by (simp add: ss BuildPattern_Cons)
  have "wfSegment U x \<and> CHR ''/'' \<notin> set (seg_value x)" if "x \<in> set segs" for x
  proof -
    have "wfSegment U x" "valuesFit ms vals x" using assms(2,3) that by (auto simp: list_all_iff)
    then show ?thesis
      by (cases "seg_kind x") (auto simp: valuesFit_def wfSegment_def Let_def)
  qed
  from BuildPattern_split[OF assms(1) this]
  show "splitByte CHR ''/'' (trimPrefix (BuildPattern segs) ''/'') = map segString segs"
    by (simp add: ss BuildPattern_Cons trimPrefix_def)
qed

lemma Link_BuildPattern:
  assumes "list_all (wfSegment U) segs" "list_all (valuesFit ms vals) segs"
  shows "Link (BuildPattern segs) (linkParams vals) =
    Inr (let ps = concat (map (pieceText vals) segs) in if ps = [] then ''/'' else slashed ps)"
proof (cases "segs = []")
  case True
  then show ?thesis by (simp add: Link_def BuildPattern_def)
next
  case False
  have "slashed ps = [] \<longleftrightarrow> ps = []" for ps by (cases ps) (simp_all add: slashed_def)
  with BuildPattern_parts[OF False assms] linkLoop_segs[OF assms]
  show ?thesis by (simp add: Link_def Let_def)
qed

lemma pieceText_facts:
  assumes "valuesFit ms vals s"
  shows "map pathUnescape (pieceText vals s) = map Some (pieces vals s)"
    and "p \<in> set (pieceText vals s) \<Longrightarrow> CHR ''/'' \<notin> set p \<and> p \<noteq> []"
  using assms pathEscape_no_slash
  by (cases "seg_kind s"; auto simp: valuesFit_def Let_def pieceText_def pieces_def pathUnescape_id
      pathUnescape_pathEscape comp_def list_all_iff)+

lemma link_decodes:
  assumes "list_all (valuesFit ms vals) segs"
  defines "ps \<equiv> concat (map (pieceText vals) segs)"
  shows "those (map pathUnescape (pathSegs (if ps = [] then ''/'' else slashed ps))) =
    Some (concat (map (pieces vals) segs))"
proof -
  have u: "map pathUnescape ps = map Some (concat (map (pieces vals) segs))"
    using assms(1) unfolding ps_def by (induction segs) (simp_all add: pieceText_facts(1)[where ms = ms])
  have n: "\<And>p. p \<in> set ps \<Longrightarrow> CHR ''/'' \<notin> set p \<and> p \<noteq> []"
    using assms(1) pieceText_facts(2) unfolding ps_def by (fastforce simp: list_all_iff)
  have "pathSegs (if ps = [] then ''/'' else slashed ps) = ps"
  proof (cases "ps = []")
    case False
    moreover have "joinStr ''/'' ps \<noteq> []" using False n by (cases ps; cases "tl ps") (auto simp: joinStr_Cons)
    moreover have "splitByte CHR ''/'' (joinStr ''/'' ps) = ps" using False n by (intro splitByte_joinStr) auto
    ultimately show ?thesis by (simp add: slashed_join pathSegs_def trimPrefix_def Let_def)
  qed (simp add: pathSegs_def trimPrefix_def)
  with u show ?thesis by (simp add: those_Some)
qed

text \<open>The parameters a link was built from, in the form the router reports them.\<close>

definition linkCaptures :: "(string \<Rightarrow> string list) \<Rightarrow> Segment list \<Rightarrow> capture list" where
  "linkCaptures vals segs = map (\<lambda>s. (seg_name s, joinStr ''/'' (vals (seg_name s))))
     (filter (\<lambda>s. seg_kind s \<noteq> SegmentStatic) segs)"

lemma link_matchesPath:
  assumes "list_all (valuesFit ms vals) segs" "restLast segs"
  shows "matchesPath ms segs (concat (map (pieces vals) segs)) (linkCaptures vals segs)"
  using assms
proof (induction segs)
  case (Cons s segs)
  have r: "restLast segs" "seg_kind s = SegmentRest \<Longrightarrow> segs = []"
    using Cons.prems(2) by (cases segs; simp add: restLast_def)+
  then have IH: "matchesPath ms segs (concat (map (pieces vals) segs)) (linkCaptures vals segs)" using Cons by simp
  have f: "valuesFit ms vals s" using Cons.prems(1) by simp
  show ?case
  proof (cases "seg_kind s")
    case SegmentParam
    with f obtain v where "vals (seg_name s) = [v]" "segAccepts ms (seg_matcher s) v"
      by (auto simp: valuesFit_def pieces_simps Let_def length_Suc_conv)
    with SegmentParam IH show ?thesis by (simp add: matchesPath_simps pieces_simps linkCaptures_def)
  next
    case SegmentOptional
    with f have "vals (seg_name s) = [] \<or> (\<exists>v. vals (seg_name s) = [v] \<and> segAccepts ms (seg_matcher s) v)"
      by (cases "vals (seg_name s)") (auto simp: valuesFit_def pieces_simps Let_def)
    with SegmentOptional IH show ?thesis by (auto simp: matchesPath_simps pieces_simps linkCaptures_def)
  next
    case SegmentRest
    with r f show ?thesis
      by (auto simp: matchesPath_simps pieces_simps linkCaptures_def valuesFit_def Let_def split: if_splits)
  qed (use IH in \<open>simp add: matchesPath_simps pieces_simps linkCaptures_def\<close>)
qed (simp add: linkCaptures_def)


definition demoVals :: "string \<Rightarrow> string list" where
  "demoVals n = (if n = ''slug'' then [''a/b c''] else [])"


end
