(* ===== verification/KitOptions.thy ===== *)
theory KitOptions
  imports GoText
begin

text \<open>
  Page options: the values of \<^verbatim>\<open>exports/kit/page_options.go\<close> and the build-time cascade of
  \<^verbatim>\<open>internal/codegen/optionscan.go\<close>, which folds the constants declared by layouts and
  pages into one effective value per route. Reading and parsing a file is a parameter: the model
  starts at the constant declarations of the parsed file. The theorems: \<^verbatim>\<open>Equal\<close> is
  equality, and for each option the cascade yields what the last file that declares it says,
  with the two parse caches making no difference.
\<close>

section \<open>The values\<close>

datatype TrailingSlash = TrailingSlashDefault | TrailingSlashNever | TrailingSlashAlways | TrailingSlashIgnore

definition tsString :: "TrailingSlash \<Rightarrow> string" where
  "tsString ts = (case ts of
      TrailingSlashNever \<Rightarrow> ''never''
    | TrailingSlashAlways \<Rightarrow> ''always''
    | TrailingSlashIgnore \<Rightarrow> ''ignore''
    | _ \<Rightarrow> ''default'')"

record PageOptions =
  po_Prerender :: bool
  po_PrerenderAuto :: bool
  po_PrerenderProtected :: bool
  po_SSR :: bool
  po_CSR :: bool
  po_SSROnly :: bool
  po_CSRF :: bool
  po_TrailingSlash :: TrailingSlash
  po_ImageWidths :: "int list"
  po_Templates :: string

definition zeroPageOptions :: PageOptions where
  "zeroPageOptions = \<lparr>po_Prerender = False, po_PrerenderAuto = False, po_PrerenderProtected = False,
     po_SSR = False, po_CSR = False, po_SSROnly = False, po_CSRF = False,
     po_TrailingSlash = TrailingSlashDefault, po_ImageWidths = [], po_Templates = []\<rparr>"

definition TemplatesSvelte :: string where "TemplatesSvelte = ''svelte''"

definition DefaultPageOptions :: PageOptions where
  "DefaultPageOptions = zeroPageOptions\<lparr>po_SSR := True, po_CSR := True, po_CSRF := True,
     po_TrailingSlash := TrailingSlashNever, po_Templates := TemplatesSvelte\<rparr>"

text \<open>The loop over the widths compares index by index, after the lengths.\<close>

fun sameWidths :: "int list \<Rightarrow> int list \<Rightarrow> bool" where
  "sameWidths (w # ws) (v # vs) = (if w \<noteq> v then False else sameWidths ws vs)"
| "sameWidths _ _ = True"

definition Equal :: "PageOptions \<Rightarrow> PageOptions \<Rightarrow> bool" where
  "Equal base other =
    (if po_Prerender base \<noteq> po_Prerender other \<or>
        po_PrerenderAuto base \<noteq> po_PrerenderAuto other \<or>
        po_PrerenderProtected base \<noteq> po_PrerenderProtected other \<or>
        po_SSR base \<noteq> po_SSR other \<or>
        po_CSR base \<noteq> po_CSR other \<or>
        po_SSROnly base \<noteq> po_SSROnly other \<or>
        po_CSRF base \<noteq> po_CSRF other \<or>
        po_TrailingSlash base \<noteq> po_TrailingSlash other \<or>
        po_Templates base \<noteq> po_Templates other then False
     else if length (po_ImageWidths base) \<noteq> length (po_ImageWidths other) then False
     else sameWidths (po_ImageWidths base) (po_ImageWidths other))"

record PageOptionsOverride =
  ov_Prerender :: bool
  ov_HasPrerender :: bool
  ov_PrerenderAuto :: bool
  ov_HasPrerenderAuto :: bool
  ov_PrerenderProtected :: bool
  ov_HasPrerenderProtected :: bool
  ov_SSR :: bool
  ov_HasSSR :: bool
  ov_CSR :: bool
  ov_HasCSR :: bool
  ov_SSROnly :: bool
  ov_HasSSROnly :: bool
  ov_CSRF :: bool
  ov_HasCSRF :: bool
  ov_TrailingSlash :: TrailingSlash
  ov_HasTrailingSlash :: bool
  ov_Templates :: string
  ov_HasTemplates :: bool

definition zeroOverride :: PageOptionsOverride where
  "zeroOverride = \<lparr>ov_Prerender = False, ov_HasPrerender = False,
     ov_PrerenderAuto = False, ov_HasPrerenderAuto = False,
     ov_PrerenderProtected = False, ov_HasPrerenderProtected = False,
     ov_SSR = False, ov_HasSSR = False, ov_CSR = False, ov_HasCSR = False,
     ov_SSROnly = False, ov_HasSSROnly = False, ov_CSRF = False, ov_HasCSRF = False,
     ov_TrailingSlash = TrailingSlashDefault, ov_HasTrailingSlash = False,
     ov_Templates = [], ov_HasTemplates = False\<rparr>"

definition AnyOverride :: "PageOptionsOverride \<Rightarrow> bool" where
  "AnyOverride x = (ov_HasPrerender x \<or> ov_HasPrerenderAuto x \<or> ov_HasPrerenderProtected x \<or>
     ov_HasSSR x \<or> ov_HasCSR x \<or> ov_HasSSROnly x \<or> ov_HasCSRF x \<or>
     ov_HasTrailingSlash x \<or> ov_HasTemplates x)"

definition Merge :: "PageOptions \<Rightarrow> PageOptionsOverride \<Rightarrow> PageOptions" where
  "Merge base override =
    (let o1 = (if ov_HasPrerender override then base\<lparr>po_Prerender := ov_Prerender override\<rparr> else base);
         o2 = (if ov_HasPrerenderAuto override then o1\<lparr>po_PrerenderAuto := ov_PrerenderAuto override\<rparr> else o1);
         o3 = (if ov_HasPrerenderProtected override
               then o2\<lparr>po_PrerenderProtected := ov_PrerenderProtected override\<rparr> else o2);
         o4 = (if ov_HasSSR override then o3\<lparr>po_SSR := ov_SSR override\<rparr> else o3);
         o5 = (if ov_HasCSR override then o4\<lparr>po_CSR := ov_CSR override\<rparr> else o4);
         o6 = (if ov_HasSSROnly override then o5\<lparr>po_SSROnly := ov_SSROnly override\<rparr> else o5);
         o7 = (if ov_HasCSRF override then o6\<lparr>po_CSRF := ov_CSRF override\<rparr> else o6);
         o8 = (if ov_HasTrailingSlash override then o7\<lparr>po_TrailingSlash := ov_TrailingSlash override\<rparr> else o7)
     in if ov_HasTemplates override then o8\<lparr>po_Templates := ov_Templates override\<rparr> else o8)"

section \<open>Scanning the declarations of a file\<close>

text \<open>The parsed file: its top-level declarations, of which only constant declarations matter. An
  expression is an identifier, a selector (by its last name), a string literal (with its unquoted
  value, if it unquotes) or anything else.\<close>

datatype optExpr = Ident string | SelectorExpr string | StringLit "string option" | OtherExpr

record valueSpec =
  vs_Names :: "string list"
  vs_Values :: "optExpr list"

datatype optError =
    ReadError string
  | ParseError string
  | NoInitializer string string
  | BadOption string string

definition optionConstNames :: "string list" where
  "optionConstNames = [''Prerender'', ''PrerenderAuto'', ''PrerenderProtected'', ''SSR'', ''CSR'', ''SSROnly'',
     ''CSRF'', ''TrailingSlash'', ''Templates'']"

definition evalBool :: "optExpr \<Rightarrow> bool option" where
  "evalBool e = (case e of
      Ident n \<Rightarrow> if n = ''true'' then Some True else if n = ''false'' then Some False else None
    | _ \<Rightarrow> None)"

definition trailingSlashFromIdent :: "string \<Rightarrow> TrailingSlash option" where
  "trailingSlashFromIdent name =
    (if name = ''TrailingSlashDefault'' then Some TrailingSlashDefault
     else if name = ''TrailingSlashNever'' then Some TrailingSlashNever
     else if name = ''TrailingSlashAlways'' then Some TrailingSlashAlways
     else if name = ''TrailingSlashIgnore'' then Some TrailingSlashIgnore
     else None)"

definition evalTrailingSlash :: "optExpr \<Rightarrow> TrailingSlash option" where
  "evalTrailingSlash e = (case e of
      SelectorExpr n \<Rightarrow> trailingSlashFromIdent n
    | Ident n \<Rightarrow> trailingSlashFromIdent n
    | _ \<Rightarrow> None)"

definition evalTemplates :: "optExpr \<Rightarrow> string option" where
  "evalTemplates e = (case e of
      StringLit (Some val) \<Rightarrow>
        if val = TemplatesSvelte then Some val
        else if val = [] then Some TemplatesSvelte
        else None
    | _ \<Rightarrow> None)"

definition assignOption :: "PageOptionsOverride \<Rightarrow> string \<Rightarrow> optExpr \<Rightarrow> string \<Rightarrow> (optError, PageOptionsOverride) result" where
  "assignOption out name expr path =
    (let err = Inl (BadOption path name) in
     if name = ''Prerender'' then (case evalBool expr of None \<Rightarrow> err
       | Some v \<Rightarrow> Inr (out\<lparr>ov_Prerender := v, ov_HasPrerender := True\<rparr>))
     else if name = ''PrerenderAuto'' then (case evalBool expr of None \<Rightarrow> err
       | Some v \<Rightarrow> Inr (out\<lparr>ov_PrerenderAuto := v, ov_HasPrerenderAuto := True\<rparr>))
     else if name = ''PrerenderProtected'' then (case evalBool expr of None \<Rightarrow> err
       | Some v \<Rightarrow> Inr (out\<lparr>ov_PrerenderProtected := v, ov_HasPrerenderProtected := True\<rparr>))
     else if name = ''SSR'' then (case evalBool expr of None \<Rightarrow> err
       | Some v \<Rightarrow> Inr (out\<lparr>ov_SSR := v, ov_HasSSR := True\<rparr>))
     else if name = ''CSR'' then (case evalBool expr of None \<Rightarrow> err
       | Some v \<Rightarrow> Inr (out\<lparr>ov_CSR := v, ov_HasCSR := True\<rparr>))
     else if name = ''SSROnly'' then (case evalBool expr of None \<Rightarrow> err
       | Some v \<Rightarrow> Inr (out\<lparr>ov_SSROnly := v, ov_HasSSROnly := True\<rparr>))
     else if name = ''CSRF'' then (case evalBool expr of None \<Rightarrow> err
       | Some v \<Rightarrow> Inr (out\<lparr>ov_CSRF := v, ov_HasCSRF := True\<rparr>))
     else if name = ''TrailingSlash'' then (case evalTrailingSlash expr of None \<Rightarrow> err
       | Some v \<Rightarrow> Inr (out\<lparr>ov_TrailingSlash := v, ov_HasTrailingSlash := True\<rparr>))
     else if name = ''Templates'' then (case evalTemplates expr of None \<Rightarrow> err
       | Some v \<Rightarrow> Inr (out\<lparr>ov_Templates := v, ov_HasTemplates := True\<rparr>))
     else Inr out)"

fun scanNames :: "string \<Rightarrow> string list \<Rightarrow> optExpr list \<Rightarrow> PageOptionsOverride \<Rightarrow> (optError, PageOptionsOverride) result" where
  "scanNames path [] vals out = Inr out"
| "scanNames path (n # ns) vals out =
    (if n \<notin> set optionConstNames then scanNames path ns (tl vals) out
     else (case vals of
        [] \<Rightarrow> Inl (NoInitializer path n)
      | e # es \<Rightarrow> (case assignOption out n e path of
          Inl err \<Rightarrow> Inl err
        | Inr out' \<Rightarrow> scanNames path ns es out')))"

fun scanSpecs :: "string \<Rightarrow> valueSpec list \<Rightarrow> PageOptionsOverride \<Rightarrow> (optError, PageOptionsOverride) result" where
  "scanSpecs path [] out = Inr out"
| "scanSpecs path (v # vs) out = (case scanNames path (vs_Names v) (vs_Values v) out of
      Inl err \<Rightarrow> Inl err
    | Inr out' \<Rightarrow> scanSpecs path vs out')"

text \<open>\<open>parse\<close> stands for reading and parsing a file: an error, no file, or its constant specs.\<close>

definition scanPageOptions :: "(string \<Rightarrow> (optError, valueSpec list option) result) \<Rightarrow> string \<Rightarrow>
    (optError, PageOptionsOverride) result" where
  "scanPageOptions parse path =
    (if path = [] then Inr zeroOverride
     else (case parse path of
        Inl e \<Rightarrow> Inl e
      | Inr None \<Rightarrow> Inr zeroOverride
      | Inr (Some specs) \<Rightarrow> scanSpecs path specs zeroOverride))"

section \<open>The cascade\<close>

record ScannedRoute =
  sr_Pattern :: string
  sr_Dir :: string
  sr_LayoutChain :: "string list"
  sr_LayoutServerFiles :: "string list"
  sr_HasPageServer :: bool
  sr_HasServer :: bool
  sr_HasPage :: bool
  sr_HasReset :: bool
  sr_ResetTarget :: string

text \<open>What the cascade needs of the file system: the parse of a Go file, the scan of a template's
  options, the template of a layout directory (if there is one), and the path join.\<close>

record optWorld =
  ow_parse :: "string \<Rightarrow> (optError, valueSpec list option) result"
  ow_scanSvelte :: "string \<Rightarrow> (optError, PageOptionsOverride) result"
  ow_layoutSource :: "string \<Rightarrow> string option"
  ow_join :: "string \<Rightarrow> string \<Rightarrow> string"

type_synonym optCache = "string \<rightharpoonup> PageOptionsOverride"

definition loadCached :: "(string \<Rightarrow> (optError, PageOptionsOverride) result) \<Rightarrow> string \<Rightarrow> optCache \<Rightarrow>
    (optError, PageOptionsOverride) result \<times> optCache" where
  "loadCached scan path cache = (case cache path of
      Some v \<Rightarrow> (Inr v, cache)
    | None \<Rightarrow> (case scan path of
        Inl e \<Rightarrow> (Inl e, cache)
      | Inr v \<Rightarrow> (Inr v, cache(path \<mapsto> v))))"

text \<open>The loop over the layouts, with the remaining server files beside it (a missing one is the
  index test of the source).\<close>

fun layoutLoop :: "optWorld \<Rightarrow> string list \<Rightarrow> string list \<Rightarrow> PageOptions \<Rightarrow> optCache \<Rightarrow> optCache \<Rightarrow>
    (optError, PageOptions \<times> optCache \<times> optCache) result" where
  "layoutLoop W [] files base lc sc = Inr (base, lc, sc)"
| "layoutLoop W (dir # dirs) files base lc sc =
    (let (r1, lc') = (case files of
           path # _ \<Rightarrow> if path \<noteq> [] then
               (case loadCached (scanPageOptions (ow_parse W)) path lc of
                  (Inl e, lc1) \<Rightarrow> (Inl e, lc1)
                | (Inr over, lc1) \<Rightarrow> (Inr (Merge base over), lc1))
             else (Inr base, lc)
         | [] \<Rightarrow> (Inr base, lc))
     in case r1 of
          Inl e \<Rightarrow> Inl e
        | Inr base' \<Rightarrow>
           (case ow_layoutSource W dir of
              None \<Rightarrow> layoutLoop W dirs (tl files) base' lc' sc
            | Some p \<Rightarrow>
               (case loadCached (ow_scanSvelte W) p sc of
                  (Inl e, _) \<Rightarrow> Inl e
                | (Inr over, sc') \<Rightarrow> layoutLoop W dirs (tl files) (Merge base' over) lc' sc')))"

definition routeFile :: "optWorld \<Rightarrow> ScannedRoute \<Rightarrow> string" where
  "routeFile W r = (if sr_HasPageServer r then ow_join W (sr_Dir r) ''_page.server.go''
     else if sr_HasServer r then ow_join W (sr_Dir r) ''_server.go''
     else [])"

definition pageSvelte :: "optWorld \<Rightarrow> ScannedRoute \<Rightarrow> string" where
  "pageSvelte W r = ow_join W (sr_Dir r)
     (if sr_HasReset r then ''_page@'' @ sr_ResetTarget r @ ''.svelte'' else ''_page.svelte'')"

definition routeOptions :: "optWorld \<Rightarrow> ScannedRoute \<Rightarrow> optCache \<Rightarrow> optCache \<Rightarrow>
    (optError, PageOptions \<times> optCache \<times> optCache) result" where
  "routeOptions W r lc sc =
    (case layoutLoop W (sr_LayoutChain r) (sr_LayoutServerFiles r) DefaultPageOptions lc sc of
       Inl e \<Rightarrow> Inl e
     | Inr (base, lc, sc) \<Rightarrow>
        (case (if routeFile W r \<noteq> [] then
                 (case scanPageOptions (ow_parse W) (routeFile W r) of Inl e \<Rightarrow> Inl e | Inr over \<Rightarrow> Inr (Merge base over))
               else Inr base) of
           Inl e \<Rightarrow> Inl e
         | Inr base' \<Rightarrow>
            if sr_HasPage r then
              (case loadCached (ow_scanSvelte W) (pageSvelte W r) sc of
                 (Inl e, _) \<Rightarrow> Inl e
               | (Inr over, sc') \<Rightarrow> Inr (Merge base' over, lc, sc'))
            else Inr (base', lc, sc)))"

fun routesLoop :: "optWorld \<Rightarrow> ScannedRoute list \<Rightarrow> (string \<rightharpoonup> PageOptions) \<Rightarrow> optCache \<Rightarrow> optCache \<Rightarrow>
    (optError, string \<rightharpoonup> PageOptions) result" where
  "routesLoop W [] out lc sc = Inr out"
| "routesLoop W (r # rs) out lc sc = (case routeOptions W r lc sc of
      Inl e \<Rightarrow> Inl e
    | Inr (base, lc', sc') \<Rightarrow> routesLoop W rs (out(sr_Pattern r \<mapsto> base)) lc' sc')"

definition resolvePageOptions :: "optWorld \<Rightarrow> ScannedRoute list \<Rightarrow> (optError, string \<rightharpoonup> PageOptions) result" where
  "resolvePageOptions W routes = routesLoop W routes Map.empty Map.empty Map.empty"

section \<open>Equality\<close>

lemma sameWidths_eq: "length ws = length vs \<Longrightarrow> sameWidths ws vs = (ws = vs)"
  by (induction ws vs rule: sameWidths.induct) auto

lemma Equal_iff: "Equal a b \<longleftrightarrow> a = b"
  by (auto simp: Equal_def sameWidths_eq)

section \<open>One option\<close>

text \<open>The value the last override that declares an option gives it.\<close>

fun lastDecl :: "(PageOptionsOverride \<Rightarrow> bool) \<Rightarrow> (PageOptionsOverride \<Rightarrow> 'v) \<Rightarrow> 'v \<Rightarrow> PageOptionsOverride list \<Rightarrow> 'v" where
  "lastDecl has val dflt [] = dflt"
| "lastDecl has val dflt (x # xs) = lastDecl has val (if has x then val x else dflt) xs"

lemma lastDecl_snoc: "lastDecl has val dflt (xs @ [x]) = (if has x then val x else lastDecl has val dflt xs)"
  by (induction xs arbitrary: dflt) auto

lemma lastDecl_last:
  "lastDecl has val dflt xs = (case filter has xs of [] \<Rightarrow> dflt | ys \<Rightarrow> val (last ys))"
  by (induction xs rule: rev_induct) (auto simp: lastDecl_snoc split: list.splits)

text \<open>An option of the cascade: how it is read from the options, and how an override declares it.\<close>

locale option_field =
  fixes get :: "PageOptions \<Rightarrow> 'v" and has :: "PageOptionsOverride \<Rightarrow> bool" and val :: "PageOptionsOverride \<Rightarrow> 'v"
  assumes merge_get: "get (Merge b x) = (if has x then val x else get b)"
begin

lemma cascade: "get (foldl Merge b xs) = lastDecl has val (get b) xs"
  by (induction xs arbitrary: b) (simp_all add: merge_get)

end

interpretation prerender: option_field po_Prerender ov_HasPrerender ov_Prerender
  by unfold_locales (simp add: Merge_def Let_def)
interpretation prerenderAuto: option_field po_PrerenderAuto ov_HasPrerenderAuto ov_PrerenderAuto
  by unfold_locales (simp add: Merge_def Let_def)
interpretation prerenderProtected: option_field po_PrerenderProtected ov_HasPrerenderProtected ov_PrerenderProtected
  by unfold_locales (simp add: Merge_def Let_def)
interpretation ssr: option_field po_SSR ov_HasSSR ov_SSR
  by unfold_locales (simp add: Merge_def Let_def)
interpretation csr: option_field po_CSR ov_HasCSR ov_CSR
  by unfold_locales (simp add: Merge_def Let_def)
interpretation ssrOnly: option_field po_SSROnly ov_HasSSROnly ov_SSROnly
  by unfold_locales (simp add: Merge_def Let_def)
interpretation csrf: option_field po_CSRF ov_HasCSRF ov_CSRF
  by unfold_locales (simp add: Merge_def Let_def)
interpretation trailingSlash: option_field po_TrailingSlash ov_HasTrailingSlash ov_TrailingSlash
  by unfold_locales (simp add: Merge_def Let_def)
interpretation templates: option_field po_Templates ov_HasTemplates ov_Templates
  by unfold_locales (simp add: Merge_def Let_def)
interpretation imageWidths: option_field po_ImageWidths "\<lambda>_. False" "\<lambda>_. []"
  by unfold_locales (simp add: Merge_def Let_def)

text \<open>The specification of the cascade: every option on its own, against the framework defaults.\<close>

definition effective :: "PageOptionsOverride list \<Rightarrow> PageOptions" where
  "effective xs = \<lparr>po_Prerender = lastDecl ov_HasPrerender ov_Prerender False xs,
     po_PrerenderAuto = lastDecl ov_HasPrerenderAuto ov_PrerenderAuto False xs,
     po_PrerenderProtected = lastDecl ov_HasPrerenderProtected ov_PrerenderProtected False xs,
     po_SSR = lastDecl ov_HasSSR ov_SSR True xs, po_CSR = lastDecl ov_HasCSR ov_CSR True xs,
     po_SSROnly = lastDecl ov_HasSSROnly ov_SSROnly False xs, po_CSRF = lastDecl ov_HasCSRF ov_CSRF True xs,
     po_TrailingSlash = lastDecl ov_HasTrailingSlash ov_TrailingSlash TrailingSlashNever xs,
     po_ImageWidths = [], po_Templates = lastDecl ov_HasTemplates ov_Templates ''svelte'' xs\<rparr>"

lemma lastDecl_never: "lastDecl (\<lambda>_. False) val d xs = d"
  by (induction xs) auto

lemma foldl_Merge_effective: "foldl Merge DefaultPageOptions xs = effective xs"
  by (rule PageOptions.equality)
    (simp_all add: effective_def prerender.cascade prerenderAuto.cascade prerenderProtected.cascade ssr.cascade
      csr.cascade ssrOnly.cascade csrf.cascade trailingSlash.cascade templates.cascade imageWidths.cascade
      lastDecl_never DefaultPageOptions_def zeroPageOptions_def TemplatesSvelte_def)

section \<open>The caches and the cascade\<close>

definition coherent :: "(string \<Rightarrow> (optError, PageOptionsOverride) result) \<Rightarrow> optCache \<Rightarrow> bool" where
  "coherent scan c = (\<forall>p v. c p = Some v \<longrightarrow> scan p = Inr v)"

lemma coherent_empty [simp]: "coherent scan Map.empty"
  by (simp add: coherent_def)

lemma loadCached_transparent:
  assumes "coherent scan c"
  shows "fst (loadCached scan p c) = scan p \<and> coherent scan (snd (loadCached scan p c))"
  using assms by (auto simp: coherent_def loadCached_def split: option.splits sum.splits)

text \<open>The scans of a route in the order of the cascade, and the first error or all their results.\<close>

fun collect :: "('e, 'a) result list \<Rightarrow> ('e, 'a list) result" where
  "collect [] = Inr []"
| "collect (Inl e # xs) = Inl e"
| "collect (Inr a # xs) = (case collect xs of Inl e \<Rightarrow> Inl e | Inr as \<Rightarrow> Inr (a # as))"

lemma collect_append:
  "collect (xs @ ys) = (case collect xs of Inl e \<Rightarrow> Inl e
    | Inr as \<Rightarrow> (case collect ys of Inl e \<Rightarrow> Inl e | Inr bs \<Rightarrow> Inr (as @ bs)))"
  by (induction xs rule: collect.induct) (auto split: sum.splits)

fun layoutScans :: "optWorld \<Rightarrow> string list \<Rightarrow> string list \<Rightarrow> (optError, PageOptionsOverride) result list" where
  "layoutScans W [] files = []"
| "layoutScans W (dir # dirs) files =
    (case files of p # _ \<Rightarrow> if p \<noteq> [] then [scanPageOptions (ow_parse W) p] else [] | [] \<Rightarrow> []) @
    (case ow_layoutSource W dir of None \<Rightarrow> [] | Some q \<Rightarrow> [ow_scanSvelte W q]) @
    layoutScans W dirs (tl files)"

definition routeScans :: "optWorld \<Rightarrow> ScannedRoute \<Rightarrow> (optError, PageOptionsOverride) result list" where
  "routeScans W r = layoutScans W (sr_LayoutChain r) (sr_LayoutServerFiles r) @
     (if routeFile W r \<noteq> [] then [scanPageOptions (ow_parse W) (routeFile W r)] else []) @
     (if sr_HasPage r then [ow_scanSvelte W (pageSvelte W r)] else [])"

definition cascadeOK :: "optWorld \<Rightarrow> PageOptions \<Rightarrow> (optError, PageOptionsOverride) result list \<Rightarrow>
    (optError, PageOptions \<times> optCache \<times> optCache) result \<Rightarrow> bool" where
  "cascadeOK W base scans res = (case collect scans of
      Inl e \<Rightarrow> res = Inl e
    | Inr os \<Rightarrow> (\<exists>lc sc. res = Inr (foldl Merge base os, lc, sc) \<and>
        coherent (scanPageOptions (ow_parse W)) lc \<and> coherent (ow_scanSvelte W) sc))"

lemma loadCachedE:
  assumes "coherent scan c"
  obtains c' where "loadCached scan p c = (scan p, c')" "coherent scan c'"
  using loadCached_transparent[OF assms, of p] by (metis prod.collapse)

lemma cascadeOK_Inl: "cascadeOK W base (Inl e # xs) (Inl e)"
  by (simp add: cascadeOK_def)

lemma cascadeOK_Inr: "cascadeOK W (Merge base x) xs res \<Longrightarrow> cascadeOK W base (Inr x # xs) res"
  by (auto simp: cascadeOK_def split: sum.splits)

lemma layoutLoop_ok:
  assumes "coherent (scanPageOptions (ow_parse W)) lc" "coherent (ow_scanSvelte W) sc"
  shows "cascadeOK W base (layoutScans W dirs files) (layoutLoop W dirs files base lc sc)"
  using assms
proof (induction dirs arbitrary: files base lc sc)
  case (Cons dir dirs)
  define go where "go = scanPageOptions (ow_parse W)"
  define svelte where "svelte = (case ow_layoutSource W dir of None \<Rightarrow> [] | Some q \<Rightarrow> [ow_scanSvelte W q])"
  define step where "step = (\<lambda>b lc'. case ow_layoutSource W dir of
      None \<Rightarrow> layoutLoop W dirs (tl files) b lc' sc
    | Some p \<Rightarrow> (case loadCached (ow_scanSvelte W) p sc of
        (Inl e, _) \<Rightarrow> Inl e
      | (Inr over, sc') \<Rightarrow> layoutLoop W dirs (tl files) (Merge b over) lc' sc'))"
  have st: "cascadeOK W b (svelte @ layoutScans W dirs (tl files)) (step b lc')" if "coherent go lc'" for b lc'
  proof (cases "ow_layoutSource W dir")
    case None
    with Cons.IH[OF that[unfolded go_def] Cons.prems(2)] show ?thesis by (simp add: svelte_def step_def)
  next
    case (Some q)
    obtain sc' where "loadCached (ow_scanSvelte W) q sc = (ow_scanSvelte W q, sc')" "coherent (ow_scanSvelte W) sc'"
      using loadCachedE[OF Cons.prems(2)] .
    with Some Cons.IH[OF that[unfolded go_def]] show ?thesis
      by (cases "ow_scanSvelte W q") (simp_all add: svelte_def step_def cascadeOK_Inl cascadeOK_Inr)
  qed
  show ?case
  proof (cases "files \<noteq> [] \<and> hd files \<noteq> []")
    case True
    then obtain p ps where p: "files = p # ps" "p \<noteq> []" by (cases files) auto
    obtain lc' where l: "loadCached go p lc = (go p, lc')" "coherent go lc'"
      using loadCachedE[OF Cons.prems(1)[folded go_def]] .
    then have "layoutLoop W (dir # dirs) files base lc sc =
        (case go p of Inl e \<Rightarrow> Inl e | Inr over \<Rightarrow> step (Merge base over) lc')"
      using p(2) unfolding step_def p(1) by (simp add: go_def split: sum.splits)
    moreover have "layoutScans W (dir # dirs) files = go p # svelte @ layoutScans W dirs (tl files)"
      using p by (simp add: svelte_def go_def)
    ultimately show ?thesis using st[OF l(2)] by (cases "go p") (simp_all only: sum.case cascadeOK_Inl cascadeOK_Inr)
  next
    case False
    then consider "files = []" | ps where "files = [] # ps" by (cases files) auto
    then have "layoutLoop W (dir # dirs) files base lc sc = step base lc"
      by cases (unfold step_def, simp_all only: layoutLoop.simps list.case Let_def prod.case sum.case simp_thms if_False)
    moreover have "layoutScans W (dir # dirs) files = svelte @ layoutScans W dirs (tl files)"
      using False by (cases files) (simp_all add: svelte_def)
    ultimately show ?thesis using st[OF Cons.prems(1)[folded go_def]] by (simp only:)
  qed
qed (simp add: cascadeOK_def)

lemma cascadeOK_extend:
  assumes "cascadeOK W base xs res"
    and "\<And>b lc sc. res = Inr (b, lc, sc) \<Longrightarrow> coherent (scanPageOptions (ow_parse W)) lc \<Longrightarrow>
      coherent (ow_scanSvelte W) sc \<Longrightarrow> cascadeOK W b ys (k b lc sc)"
  shows "cascadeOK W base (xs @ ys) (case res of Inl e \<Rightarrow> Inl e | Inr (b, lc, sc) \<Rightarrow> k b lc sc)"
  using assms by (auto simp: cascadeOK_def collect_append split: sum.splits)

lemma routeOptions_ok:
  assumes "coherent (scanPageOptions (ow_parse W)) lc" "coherent (ow_scanSvelte W) sc"
  shows "cascadeOK W DefaultPageOptions (routeScans W r) (routeOptions W r lc sc)"
proof -
  define page where "page = (\<lambda>b (lc :: optCache) sc. if sr_HasPage r then
      (case loadCached (ow_scanSvelte W) (pageSvelte W r) sc of
         (Inl e, _) \<Rightarrow> Inl e
       | (Inr over, sc') \<Rightarrow> Inr (Merge b over, lc, sc'))
      else Inr (b, lc, sc))"
  define own where "own = (\<lambda>b lc sc. case (if routeFile W r \<noteq> [] then
      (case scanPageOptions (ow_parse W) (routeFile W r) of Inl e \<Rightarrow> Inl e | Inr over \<Rightarrow> Inr (Merge b over))
      else Inr b) of Inl e \<Rightarrow> Inl e | Inr b' \<Rightarrow> page b' lc sc)"
  let ?ps = "if sr_HasPage r then [ow_scanSvelte W (pageSvelte W r)] else []"
  have pg: "cascadeOK W b ?ps (page b lc sc)"
    if co: "coherent (scanPageOptions (ow_parse W)) lc" "coherent (ow_scanSvelte W) sc" for b lc sc
  proof -
    obtain sc' where "loadCached (ow_scanSvelte W) (pageSvelte W r) sc = (ow_scanSvelte W (pageSvelte W r), sc')"
      "coherent (ow_scanSvelte W) sc'" using loadCachedE[OF co(2)] .
    with co show ?thesis
      by (cases "ow_scanSvelte W (pageSvelte W r)") (auto simp: page_def cascadeOK_def)
  qed
  have own: "cascadeOK W b ((if routeFile W r \<noteq> [] then [scanPageOptions (ow_parse W) (routeFile W r)] else []) @ ?ps)
      (own b lc sc)"
    if co: "coherent (scanPageOptions (ow_parse W)) lc" "coherent (ow_scanSvelte W) sc" for b lc sc
    using pg[OF co] by (cases "scanPageOptions (ow_parse W) (routeFile W r)")
      (auto simp: own_def intro: cascadeOK_Inl cascadeOK_Inr)
  from cascadeOK_extend[OF layoutLoop_ok[OF assms, of DefaultPageOptions "sr_LayoutChain r" "sr_LayoutServerFiles r"],
      where k = own, OF own]
  show ?thesis unfolding routeOptions_def routeScans_def own_def page_def .
qed

definition optionsOf :: "optWorld \<Rightarrow> ScannedRoute \<Rightarrow> PageOptions option" where
  "optionsOf W r = (case collect (routeScans W r) of Inl _ \<Rightarrow> None | Inr os \<Rightarrow> Some (effective os))"

lemma routesLoop_ok:
  assumes "coherent (scanPageOptions (ow_parse W)) lc" "coherent (ow_scanSvelte W) sc"
  shows "case routesLoop W rs out lc sc of
      Inl e \<Rightarrow> (\<exists>r \<in> set rs. collect (routeScans W r) = Inl e)
    | Inr m \<Rightarrow> (\<forall>r \<in> set rs. \<exists>os. collect (routeScans W r) = Inr os) \<and>
        m = foldl (\<lambda>out r. out(sr_Pattern r := optionsOf W r)) out rs"
  using assms
proof (induction rs arbitrary: out lc sc)
  case (Cons r rs)
  have ok: "cascadeOK W DefaultPageOptions (routeScans W r) (routeOptions W r lc sc)"
    by (rule routeOptions_ok[OF Cons.prems])
  show ?case
  proof (cases "collect (routeScans W r)")
    case (Inl e)
    with ok show ?thesis by (auto simp: cascadeOK_def)
  next
    case (Inr os)
    with ok obtain lc' sc' where res: "routeOptions W r lc sc = Inr (effective os, lc', sc')"
      and co: "coherent (scanPageOptions (ow_parse W)) lc'" "coherent (ow_scanSvelte W) sc'"
      by (auto simp: cascadeOK_def foldl_Merge_effective)
    have "optionsOf W r = Some (effective os)" using Inr by (simp add: optionsOf_def)
    then show ?thesis using Cons.IH[OF co, of "out(sr_Pattern r \<mapsto> effective os)"] Inr res
      by (cases "routesLoop W rs (out(sr_Pattern r \<mapsto> effective os)) lc' sc'") (simp_all del: fun_upd_apply)
  qed
qed simp

lemma foldl_upd_notin:
  "k \<notin> key ` set rs \<Longrightarrow> foldl (\<lambda>out r. out(key r := f r)) out rs k = out k"
  by (induction rs arbitrary: out) auto

lemma foldl_upd_in:
  "distinct (map key rs) \<Longrightarrow> r \<in> set rs \<Longrightarrow> foldl (\<lambda>out r. out(key r := f r)) out rs (key r) = f r"
  by (induction rs arbitrary: out) (auto simp: foldl_upd_notin)

text \<open>C17. The effective options of a route: for routes with distinct patterns the cascade either
  reports the first error of one of the route's files, or gives every route the options in which
  each option has the value of the last file that declares it, from the outermost layout to the
  page, and the framework default when none does; the caches shared between routes change
  nothing.\<close>

theorem options_cascade:
  assumes "distinct (map sr_Pattern routes)"
  shows "case resolvePageOptions W routes of
      Inl e \<Rightarrow> list_ex (\<lambda>r. collect (routeScans W r) = Inl e) routes
    | Inr m \<Rightarrow> list_all (\<lambda>r. case collect (routeScans W r) of
          Inl _ \<Rightarrow> False
        | Inr os \<Rightarrow> m (sr_Pattern r) = Some (effective os)) routes"
proof -
  note ok = routesLoop_ok[of W Map.empty Map.empty routes Map.empty, simplified, folded resolvePageOptions_def]
  show ?thesis
  proof (cases "resolvePageOptions W routes")
    case (Inl e)
    with ok show ?thesis by (simp add: list_ex_iff)
  next
    case (Inr m)
    have "\<exists>os. collect (routeScans W r) = Inr os \<and> m (sr_Pattern r) = Some (effective os)" if "r \<in> set routes" for r
      using ok Inr that foldl_upd_in[OF assms that, of "optionsOf W" Map.empty] by (force simp: optionsOf_def)
    with Inr show ?thesis by (fastforce simp: list_all_iff)
  qed
qed

definition demoWorld :: optWorld where
  "demoWorld = \<lparr>ow_parse = (\<lambda>p. Inr (
       if p = ''_layout.server.go'' then Some [\<lparr>vs_Names = [''SSR'', ''limit''], vs_Values = [Ident ''false'', OtherExpr]\<rparr>]
       else if p = ''admin/_page.server.go'' then Some [\<lparr>vs_Names = [''CSRF''], vs_Values = [Ident ''false'']\<rparr>,
         \<lparr>vs_Names = [''TrailingSlash''], vs_Values = [SelectorExpr ''TrailingSlashAlways'']\<rparr>]
       else None)),
     ow_scanSvelte = (\<lambda>_. Inr zeroOverride), ow_layoutSource = (\<lambda>_. None),
     ow_join = (\<lambda>d f. d @ ''/'' @ f)\<rparr>"

definition demoScan :: "ScannedRoute list" where
  "demoScan = [\<lparr>sr_Pattern = ''/'', sr_Dir = [], sr_LayoutChain = [''root''], sr_LayoutServerFiles = [''_layout.server.go''],
      sr_HasPageServer = False, sr_HasServer = False, sr_HasPage = True, sr_HasReset = False, sr_ResetTarget = []\<rparr>,
    \<lparr>sr_Pattern = ''/admin'', sr_Dir = ''admin'', sr_LayoutChain = [''root''], sr_LayoutServerFiles = [''_layout.server.go''],
      sr_HasPageServer = True, sr_HasServer = False, sr_HasPage = True, sr_HasReset = False, sr_ResetTarget = []\<rparr>]"

theorem options_cascade_witness:
  "\<exists>m opts. resolvePageOptions demoWorld demoScan = Inr m \<and> m ''/admin'' = Some opts \<and>
     \<not> po_SSR opts \<and> \<not> po_CSRF opts \<and> po_CSR opts \<and> po_TrailingSlash opts = TrailingSlashAlways"
proof -
  have d: "distinct (map sr_Pattern demoScan)" by code_simp
  have "isl (resolvePageOptions demoWorld demoScan) = False" by code_simp
  then obtain m where m: "resolvePageOptions demoWorld demoScan = Inr m"
    by (cases "resolvePageOptions demoWorld demoScan") auto
  define r where "r = demoScan ! 1"
  have r: "r \<in> set demoScan" "sr_Pattern r = ''/admin''" by (simp_all add: r_def demoScan_def)
  have c: "case collect (routeScans demoWorld r) of Inl _ \<Rightarrow> False
    | Inr os \<Rightarrow> (let x = effective os in \<not> po_SSR x \<and> \<not> po_CSRF x \<and> po_CSR x \<and> po_TrailingSlash x = TrailingSlashAlways)"
    unfolding r_def by code_simp
  from options_cascade[OF d, of demoWorld] have "list_all (\<lambda>r. case collect (routeScans demoWorld r) of
      Inl _ \<Rightarrow> False | Inr os \<Rightarrow> m (sr_Pattern r) = Some (effective os)) demoScan" unfolding m by simp
  then have "case collect (routeScans demoWorld r) of Inl _ \<Rightarrow> False | Inr os \<Rightarrow> m (sr_Pattern r) = Some (effective os)"
    unfolding list_all_iff using r(1) by (rule bspec)
  then have "case collect (routeScans demoWorld r) of Inl _ \<Rightarrow> False | Inr os \<Rightarrow> m ''/admin'' = Some (effective os)"
    unfolding r(2) .
  with c m show ?thesis by (auto simp: Let_def split: sum.splits)
qed

end
