(* ===== verification/KitHttp.thy ===== *)
theory KitHttp
  imports KitOptions
begin

text \<open>
  The HTTP values the request pipeline works on: headers, the response writer and URLs as far as
  the sources use \<^verbatim>\<open>net/http\<close> and \<^verbatim>\<open>net/url\<close>, and the types of \<^verbatim>\<open>exports/kit\<close>:
  the cookie jar (\<^verbatim>\<open>cookies.go\<close>), responses (\<^verbatim>\<open>response.go\<close>, \<^verbatim>\<open>hooks.go\<close>), the request
  event (\<^verbatim>\<open>event.go\<close>), the load context (\<^verbatim>\<open>ctx.go\<close>), the error values
  (\<^verbatim>\<open>sentinels.go\<close>) and the CSRF token helpers (\<^verbatim>\<open>csrf.go\<close>).

  A header map has canonical keys, as every literal key of the sources has. A pointer receiver
  that may be nil is an option. Status codes are those \<^verbatim>\<open>net/http\<close> accepts as final (200 to
  999); writing a status twice keeps the first one.
\<close>

section \<open>Headers and the response writer\<close>

type_synonym Header = "string \<rightharpoonup> string list"

definition hSet :: "string \<Rightarrow> string \<Rightarrow> Header \<Rightarrow> Header" where
  "hSet k v h = h(k \<mapsto> [v])"

definition hAdd :: "string \<Rightarrow> string \<Rightarrow> Header \<Rightarrow> Header" where
  "hAdd k v h = h(k \<mapsto> (case h k of None \<Rightarrow> [v] | Some vs \<Rightarrow> vs @ [v]))"

definition hDel :: "string \<Rightarrow> Header \<Rightarrow> Header" where
  "hDel k h = h(k := None)"

definition hGet :: "string \<Rightarrow> Header \<Rightarrow> string" where
  "hGet k h = (case h k of Some (v # _) \<Rightarrow> v | _ \<Rightarrow> [])"

text \<open>A response in the making: the header map under construction, the status and headers once they
  are sent, and the body bytes.\<close>

record ResponseWriter =
  rw_Header :: Header
  rw_Sent :: "(int \<times> Header) option"
  rw_Body :: string

definition newRW :: ResponseWriter where
  "newRW = \<lparr>rw_Header = Map.empty, rw_Sent = None, rw_Body = []\<rparr>"

definition rwSet :: "string \<Rightarrow> string \<Rightarrow> ResponseWriter \<Rightarrow> ResponseWriter" where
  "rwSet k v w = w\<lparr>rw_Header := hSet k v (rw_Header w)\<rparr>"

definition rwAll :: "Header \<Rightarrow> ResponseWriter \<Rightarrow> ResponseWriter" where
  "rwAll h w = w\<lparr>rw_Header := rw_Header w ++ h\<rparr>"

definition rwWriteHeader :: "int \<Rightarrow> ResponseWriter \<Rightarrow> ResponseWriter" where
  "rwWriteHeader code w = (case rw_Sent w of
      None \<Rightarrow> w\<lparr>rw_Sent := Some (code, rw_Header w)\<rparr>
    | Some _ \<Rightarrow> w)"

definition rwWrite :: "string \<Rightarrow> ResponseWriter \<Rightarrow> ResponseWriter" where
  "rwWrite b w = (let w' = rwWriteHeader 200 w in w'\<lparr>rw_Body := rw_Body w' @ b\<rparr>)"

section \<open>URLs\<close>

record URL =
  u_Scheme :: string
  u_Opaque :: string
  u_Host :: string
  u_Path :: string
  u_RawPath :: string
  u_ForceQuery :: bool
  u_RawQuery :: string

text \<open>\<^verbatim>\<open>escape\<close> in the mode of paths: slashes stay, a question mark does not.\<close>

definition keepInPath :: "char \<Rightarrow> bool" where
  "keepInPath c = (inRange 97 122 c \<or> inRange 65 90 c \<or> inRange 48 57 c \<or> c \<in> set ''-_.~$&+,/:;=@'')"

definition escapePath :: "string \<Rightarrow> string" where
  "escapePath s = concat (map (\<lambda>c. if keepInPath c then [c]
     else [CHR ''%'', hexDigitUpper (byteVal c div 16), hexDigitUpper (byteVal c mod 16)]) s)"

definition validEncoded :: "string \<Rightarrow> bool" where
  "validEncoded s = list_all (\<lambda>c. c \<in> set ''!$&()*+,;=:@[]%'' \<or> c = CHR 0x27 \<or> keepInPath c) s"

definition EscapedPath :: "URL \<Rightarrow> string" where
  "EscapedPath u =
    (if u_RawPath u \<noteq> [] \<and> validEncoded (u_RawPath u) \<and> pathUnescape (u_RawPath u) = Some (u_Path u)
     then u_RawPath u
     else if u_Path u = ''*'' then ''*''
     else escapePath (u_Path u))"

definition RequestURI :: "URL \<Rightarrow> string" where
  "RequestURI u =
    (let result = (if u_Opaque u = [] then (let p = EscapedPath u in if p = [] then ''/'' else p)
                   else if hasPrefix (u_Opaque u) ''//'' then u_Scheme u @ '':'' @ u_Opaque u
                   else u_Opaque u)
     in if u_ForceQuery u \<or> u_RawQuery u \<noteq> [] then result @ ''?'' @ u_RawQuery u else result)"

text \<open>The URL \<^verbatim>\<open>net/url\<close> makes of a request target that is a path and perhaps a query: the path
  is decoded, and its raw form is kept only when the default encoding of the decoded form is a
  different one.\<close>

definition parsePath :: "string \<Rightarrow> string \<Rightarrow> URL option" where
  "parsePath raw query = (case pathUnescape raw of
      None \<Rightarrow> None
    | Some p \<Rightarrow> Some \<lparr>u_Scheme = [], u_Opaque = [], u_Host = [], u_Path = p,
        u_RawPath = (if raw = escapePath p then [] else raw), u_ForceQuery = False, u_RawQuery = query\<rparr>)"

section \<open>Requests\<close>

record Request =
  rq_Method :: string
  rq_URL :: URL
  rq_Header :: Header
  rq_TLS :: bool
  rq_Cookies :: "(string \<times> string) list"
  rq_PostForm :: "string \<rightharpoonup> string"

definition PostFormValue :: "Request \<Rightarrow> string \<Rightarrow> string" where
  "PostFormValue r k = (case rq_PostForm r k of Some v \<Rightarrow> v | None \<Rightarrow> [])"

section \<open>Cookies\<close>

datatype SameSite = SameSiteUnset | SameSiteDefaultMode | SameSiteLaxMode | SameSiteStrictMode | SameSiteNoneMode

record CookieOpts =
  co_Path :: string
  co_Domain :: string
  co_MaxAge :: int
  co_Expires :: "int option"
  co_HttpOnly :: "bool option"
  co_Secure :: "bool option"
  co_SameSite :: SameSite

definition zeroCookieOpts :: CookieOpts where
  "zeroCookieOpts = \<lparr>co_Path = [], co_Domain = [], co_MaxAge = 0, co_Expires = None, co_HttpOnly = None,
     co_Secure = None, co_SameSite = SameSiteUnset\<rparr>"

record Cookie =
  ck_Name :: string
  ck_Value :: string
  ck_Path :: string
  ck_Domain :: string
  ck_MaxAge :: int
  ck_Expires :: "int option"
  ck_Secure :: bool
  ck_HttpOnly :: bool
  ck_SameSite :: SameSite

record Cookies =
  cj_in :: "string \<rightharpoonup> string"
  cj_out :: "Cookie list"
  cj_https :: bool

definition NewCookies :: "Request option \<Rightarrow> Cookies" where
  "NewCookies r = (case r of
      None \<Rightarrow> \<lparr>cj_in = Map.empty, cj_out = [], cj_https = False\<rparr>
    | Some rq \<Rightarrow> \<lparr>cj_in = foldl (\<lambda>m (n, v). m(n \<mapsto> v)) Map.empty (rq_Cookies rq), cj_out = [],
        cj_https = rq_TLS rq\<rparr>)"

definition ckGet :: "string \<Rightarrow> Cookies option \<Rightarrow> string \<times> bool" where
  "ckGet name c = (case c of
      None \<Rightarrow> ([], False)
    | Some j \<Rightarrow> (case cj_in j name of Some v \<Rightarrow> (v, True) | None \<Rightarrow> ([], False)))"

text \<open>\<open>secs\<close> is \<^verbatim>\<open>int(d.Seconds())\<close>, a conversion through floating point.\<close>

definition buildCookie :: "(int \<Rightarrow> int) \<Rightarrow> Cookies \<Rightarrow> string \<Rightarrow> string \<Rightarrow> CookieOpts \<Rightarrow> bool \<Rightarrow> Cookie" where
  "buildCookie secs c name value opts httpOnlyDefault =
    (let path = (if co_Path opts = [] then ''/'' else co_Path opts);
         sameSite = (if co_SameSite opts = SameSiteUnset then SameSiteLaxMode else co_SameSite opts);
         secure = (case co_Secure opts of None \<Rightarrow> cj_https c | Some b \<Rightarrow> b);
         httpOnly = (case co_HttpOnly opts of None \<Rightarrow> httpOnlyDefault | Some b \<Rightarrow> b)
     in \<lparr>ck_Name = name, ck_Value = value, ck_Path = path, ck_Domain = co_Domain opts,
         ck_MaxAge = secs (co_MaxAge opts), ck_Expires = co_Expires opts, ck_Secure = secure,
         ck_HttpOnly = httpOnly, ck_SameSite = sameSite\<rparr>)"

definition ckSet :: "(int \<Rightarrow> int) \<Rightarrow> string \<Rightarrow> string \<Rightarrow> CookieOpts \<Rightarrow> Cookies option \<Rightarrow> Cookies option" where
  "ckSet secs name value opts c =
    map_option (\<lambda>j. j\<lparr>cj_out := cj_out j @ [buildCookie secs j name value opts True]\<rparr>) c"

definition ckSetExposed :: "(int \<Rightarrow> int) \<Rightarrow> string \<Rightarrow> string \<Rightarrow> CookieOpts \<Rightarrow> Cookies option \<Rightarrow> Cookies option" where
  "ckSetExposed secs name value opts c =
    map_option (\<lambda>j. j\<lparr>cj_out := cj_out j @ [buildCookie secs j name value opts False]\<rparr>) c"

definition ckDelete :: "string \<Rightarrow> CookieOpts \<Rightarrow> Cookies option \<Rightarrow> Cookies option" where
  "ckDelete name opts c =
    map_option (\<lambda>j. j\<lparr>cj_out := cj_out j @ [\<lparr>ck_Name = name, ck_Value = [],
       ck_Path = (if co_Path opts = [] then ''/'' else co_Path opts), ck_Domain = co_Domain opts,
       ck_MaxAge = -1, ck_Expires = Some 0, ck_Secure = False, ck_HttpOnly = False,
       ck_SameSite = SameSiteUnset\<rparr>]\<rparr>) c"

text \<open>\<^verbatim>\<open>Apply\<close> adds one header per queued cookie; \<open>str\<close> prints a cookie (empty when it is
  not valid, and then no header is added).\<close>

definition ckApply :: "(Cookie \<Rightarrow> string) \<Rightarrow> Cookies option \<Rightarrow> ResponseWriter \<Rightarrow> ResponseWriter" where
  "ckApply str c w = (case c of
      None \<Rightarrow> w
    | Some j \<Rightarrow> foldl (\<lambda>w ck. let v = str ck in
        if v \<noteq> [] then w\<lparr>rw_Header := hAdd ''Set-Cookie'' v (rw_Header w)\<rparr> else w) w (cj_out j))"

section \<open>Responses\<close>

record Response =
  rs_Status :: int
  rs_Headers :: Header
  rs_Body :: string

definition NewResponse :: "int \<Rightarrow> string \<Rightarrow> Response" where
  "NewResponse status body = \<lparr>rs_Status = (if status = 0 then 200 else status), rs_Headers = Map.empty, rs_Body = body\<rparr>"

definition rsSet :: "string \<Rightarrow> string \<Rightarrow> Response \<Rightarrow> Response" where
  "rsSet k v r = r\<lparr>rs_Headers := hSet k v (rs_Headers r)\<rparr>"

definition lenString :: "string \<Rightarrow> string" where
  "lenString s = formatInt (int (length s))"

text \<open>\<^verbatim>\<open>JSON\<close>; the encoder is a parameter with its error text or its bytes.\<close>

definition JSONResponse :: "('v \<Rightarrow> (string, string) result) \<Rightarrow> int \<Rightarrow> 'v \<Rightarrow> Response" where
  "JSONResponse enc status body = (case enc body of
      Inl e \<Rightarrow> rsSet ''Content-Type'' ''text/plain; charset=utf-8'' (NewResponse 500 (''internal error: '' @ e))
    | Inr buf \<Rightarrow> rsSet ''Content-Length'' (lenString buf)
        (rsSet ''Content-Type'' ''application/json; charset=utf-8'' (NewResponse status buf)))"

definition TextResponse :: "int \<Rightarrow> string \<Rightarrow> Response" where
  "TextResponse status body = rsSet ''Content-Length'' (lenString body)
     (rsSet ''Content-Type'' ''text/plain; charset=utf-8'' (NewResponse status body))"

definition XMLResponse :: "int \<Rightarrow> string \<Rightarrow> Response" where
  "XMLResponse status body = rsSet ''Content-Length'' (lenString body)
     (rsSet ''Content-Type'' ''application/xml; charset=utf-8'' (NewResponse status body))"

definition NoContent :: Response where
  "NoContent = NewResponse 204 []"

definition MethodNotAllowed :: "string list \<Rightarrow> Response" where
  "MethodNotAllowed allowed =
    (let cleaned = sort (filter (\<lambda>m. m \<noteq> []) allowed)
     in rsSet ''Allow'' (joinStr '', '' cleaned) (TextResponse 405 (''405 method not allowed'' @ [CHR 0x0A])))"

section \<open>Errors\<close>

text \<open>The error values the pipeline tells apart. A user error carries what it implements: the
  status and public text of \<^verbatim>\<open>kit.HTTPError\<close>, and \<^verbatim>\<open>HTTPStatus\<close>. A wrapped error is one
  made with \<^verbatim>\<open>%w\<close>.\<close>

record SafeError =
  se_Code :: int
  se_Message :: string
  se_ID :: string

datatype 'd goerr =
    RedirectErr int string bool
  | HTTPErr int string
  | FailErr int 'd
  | SafeErr SafeError
  | UserErr string "(int \<times> string) option" "int option"
  | ServerRouteWrote
  | StreamingWrote
  | ClientGone
  | Wrapped string "'d goerr"

definition Redirect :: "int \<Rightarrow> string \<Rightarrow> bool \<Rightarrow> 'd goerr" where
  "Redirect code location reload = RedirectErr code location reload"

definition kitError :: "(int \<Rightarrow> string) \<Rightarrow> int \<Rightarrow> string list \<Rightarrow> 'd goerr" where
  "kitError statusText code message = HTTPErr code (case message of
      m # _ \<Rightarrow> if m \<noteq> [] then m else statusText code
    | [] \<Rightarrow> statusText code)"

definition Fail :: "int \<Rightarrow> 'd \<Rightarrow> 'd goerr" where
  "Fail code data = FailErr code data"

definition seError :: "(int \<Rightarrow> string) \<Rightarrow> SafeError \<Rightarrow> string" where
  "seError statusText s =
    (if se_Message s \<noteq> [] then se_Message s
     else if statusText (se_Code s) \<noteq> [] then statusText (se_Code s)
     else statusText 500)"

definition seHTTPStatus :: "SafeError \<Rightarrow> int" where
  "seHTTPStatus s = (if se_Code s = 0 then 500 else se_Code s)"

text \<open>\<^verbatim>\<open>errors.As\<close> and \<^verbatim>\<open>errors.Is\<close> along the chain of wrapped errors.\<close>

fun asRedirect :: "'d goerr \<Rightarrow> (int \<times> string \<times> bool) option" where
  "asRedirect (RedirectErr c l b) = Some (c, l, b)"
| "asRedirect (Wrapped _ e) = asRedirect e"
| "asRedirect _ = None"

fun asHTTPErr :: "'d goerr \<Rightarrow> (int \<times> string) option" where
  "asHTTPErr (HTTPErr c m) = Some (c, m)"
| "asHTTPErr (Wrapped _ e) = asHTTPErr e"
| "asHTTPErr _ = None"

fun asFail :: "'d goerr \<Rightarrow> int option" where
  "asFail (FailErr c _) = Some c"
| "asFail (Wrapped _ e) = asFail e"
| "asFail _ = None"

fun asSafe :: "'d goerr \<Rightarrow> SafeError option" where
  "asSafe (SafeErr s) = Some s"
| "asSafe (Wrapped _ e) = asSafe e"
| "asSafe _ = None"

fun asHTTPError :: "'d goerr \<Rightarrow> (int \<times> string) option" where
  "asHTTPError (UserErr _ p _) = p"
| "asHTTPError (Wrapped _ e) = asHTTPError e"
| "asHTTPError _ = None"

fun asStatuser :: "'d goerr \<Rightarrow> int option" where
  "asStatuser (RedirectErr c _ _) = Some c"
| "asStatuser (HTTPErr c _) = Some c"
| "asStatuser (FailErr c _) = Some c"
| "asStatuser (SafeErr s) = Some (seHTTPStatus s)"
| "asStatuser (UserErr _ _ h) = h"
| "asStatuser (Wrapped _ e) = asStatuser e"
| "asStatuser _ = None"

fun isWrote :: "'d goerr \<Rightarrow> bool" where
  "isWrote ServerRouteWrote = True"
| "isWrote StreamingWrote = True"
| "isWrote (Wrapped _ e) = isWrote e"
| "isWrote _ = False"

fun isClientGoneErr :: "'d goerr \<Rightarrow> bool" where
  "isClientGoneErr ClientGone = True"
| "isClientGoneErr (Wrapped _ e) = isClientGoneErr e"
| "isClientGoneErr _ = False"

text \<open>The text of an error; a wrapped error carries its own text.\<close>

fun errText :: "(int \<Rightarrow> string) \<Rightarrow> 'd goerr \<Rightarrow> string" where
  "errText st (RedirectErr c l _) = ''redirect '' @ formatInt c @ '' -> '' @ l"
| "errText st (HTTPErr c m) = m"
| "errText st (FailErr c _) = ''fail '' @ formatInt c"
| "errText st (SafeErr s) = seError st s"
| "errText st (UserErr m _ _) = m"
| "errText st ServerRouteWrote = ''server: server route wrote response''"
| "errText st StreamingWrote = ''server: streaming response wrote''"
| "errText st ClientGone = ''kit: client disconnected''"
| "errText st (Wrapped m _) = m"

section \<open>The request event\<close>

text \<open>A value stored under a key of \<^verbatim>\<open>Locals\<close>: a string, or anything else.\<close>

datatype 'x anyval = AStr string | AAny 'x

record ('x, 'f) RequestEvent =
  ev_URL :: URL
  ev_OriginalURL :: URL
  ev_Params :: "string gomap"
  ev_RawParams :: "string gomap option"
  ev_Locals :: "string \<rightharpoonup> 'x anyval"
  ev_Cookies :: "Cookies option"
  ev_MatchPath :: string
  ev_responseHeader :: Header
  ev_afterFns :: "'f list"

definition NewRequestEvent :: "Request \<Rightarrow> string gomap option \<Rightarrow> ('x, 'f) RequestEvent" where
  "NewRequestEvent r params = \<lparr>ev_URL = rq_URL r, ev_OriginalURL = rq_URL r,
     ev_Params = (case params of None \<Rightarrow> [] | Some p \<Rightarrow> p), ev_RawParams = None, ev_Locals = Map.empty,
     ev_Cookies = Some (NewCookies (Some r)), ev_MatchPath = [], ev_responseHeader = Map.empty, ev_afterFns = []\<rparr>"

definition After :: "'f option \<Rightarrow> ('x, 'f) RequestEvent \<Rightarrow> ('x, 'f) RequestEvent" where
  "After fn ev = (case fn of None \<Rightarrow> ev | Some f \<Rightarrow> ev\<lparr>ev_afterFns := ev_afterFns ev @ [f]\<rparr>)"

text \<open>\<^verbatim>\<open>DrainAfter\<close> empties the queue and runs its functions in order until the context is done;
  \<open>isDone i\<close> says whether it is done before the \<open>i\<close>-th of them. The result lists those run.\<close>

fun drainLoop :: "(nat \<Rightarrow> bool) \<Rightarrow> nat \<Rightarrow> 'x list \<Rightarrow> 'x list" where
  "drainLoop isDone i [] = []"
| "drainLoop isDone i (f # fs) = (if isDone i then [] else f # drainLoop isDone (Suc i) fs)"

definition DrainAfter :: "(nat \<Rightarrow> bool) \<Rightarrow> ('x, 'f) RequestEvent \<Rightarrow> ('x, 'f) RequestEvent \<times> 'f list" where
  "DrainAfter isDone ev = (ev\<lparr>ev_afterFns := []\<rparr>, drainLoop isDone 0 (ev_afterFns ev))"

definition localString :: "string \<Rightarrow> ('x, 'f) RequestEvent \<Rightarrow> string" where
  "localString k ev = (case ev_Locals ev k of Some (AStr s) \<Rightarrow> s | _ \<Rightarrow> [])"

definition setLocal :: "string \<Rightarrow> string \<Rightarrow> ('x, 'f) RequestEvent \<Rightarrow> ('x, 'f) RequestEvent" where
  "setLocal k s ev = ev\<lparr>ev_Locals := (ev_Locals ev)(k \<mapsto> AStr s)\<rparr>"

definition Nonce :: "('x, 'f) RequestEvent \<Rightarrow> string" where
  "Nonce ev = localString ''cspNonce'' ev"

definition SetNonce :: "string \<Rightarrow> ('x, 'f) RequestEvent \<Rightarrow> ('x, 'f) RequestEvent" where
  "SetNonce nonce ev = setLocal ''cspNonce'' nonce ev"

definition NonceAttr :: "('x, 'f) RequestEvent \<Rightarrow> string" where
  "NonceAttr ev = (let n = Nonce ev in
     if n = [] then [] else '' nonce='' @ [CHR 0x22] @ n @ [CHR 0x22])"

definition CSRFCookieName :: string where "CSRFCookieName = ''_csrf''"

definition CSRFFieldName :: string where "CSRFFieldName = ''_csrf_token''"

definition CSRFToken :: "('x, 'f) RequestEvent \<Rightarrow> string" where
  "CSRFToken ev = localString ''csrfToken'' ev"

definition SetCSRFToken :: "string \<Rightarrow> ('x, 'f) RequestEvent \<Rightarrow> ('x, 'f) RequestEvent" where
  "SetCSRFToken token ev = setLocal ''csrfToken'' token ev"

text \<open>The constant-time comparison of byte slices is equality, whatever its timing.\<close>

definition CSRFTokenEqual :: "string \<Rightarrow> string \<Rightarrow> bool" where
  "CSRFTokenEqual cookie submitted = (if cookie = [] \<or> submitted = [] then False else cookie = submitted)"

text \<open>\<^verbatim>\<open>GenerateCSRFToken\<close> and the nonce generator: the random bytes (or the failure of the source)
  and the base64 encoding are parameters.\<close>

definition generateToken :: "(string \<Rightarrow> string) \<Rightarrow> string option \<Rightarrow> string" where
  "generateToken base64 rnd = (case rnd of None \<Rightarrow> [] | Some bytes \<Rightarrow> base64 bytes)"

section \<open>The load context\<close>

record 'x LoadCtx =
  lc_Locals :: "string \<rightharpoonup> 'x anyval"
  lc_Params :: "string gomap"
  lc_RawParams :: "string gomap option"
  lc_Cookies :: "Cookies option"
  lc_parents :: "'x list"
  lc_headers :: Header
  lc_deps :: "string list"

definition NewLoadCtx :: "Request \<Rightarrow> string gomap \<Rightarrow> 'x LoadCtx" where
  "NewLoadCtx r params = \<lparr>lc_Locals = Map.empty, lc_Params = params, lc_RawParams = None,
     lc_Cookies = Some (NewCookies (Some r)), lc_parents = [], lc_headers = Map.empty, lc_deps = []\<rparr>"

definition lcParam :: "string \<Rightarrow> 'x LoadCtx \<Rightarrow> string \<times> bool" where
  "lcParam name c = (case map_of (lc_Params c) name of Some v \<Rightarrow> (v, True) | None \<Rightarrow> ([], False))"

definition lcRawParam :: "string \<Rightarrow> 'x LoadCtx \<Rightarrow> string \<times> bool" where
  "lcRawParam name c = (case lc_RawParams c of
      None \<Rightarrow> ([], False)
    | Some m \<Rightarrow> (case map_of m name of Some v \<Rightarrow> (v, True) | None \<Rightarrow> ([], False)))"

definition Parent :: "'x LoadCtx \<Rightarrow> 'x option" where
  "Parent c = (if length (lc_parents c) = 0 then None else Some (last (lc_parents c)))"

definition PushParent :: "'x \<Rightarrow> 'x LoadCtx \<Rightarrow> 'x LoadCtx" where
  "PushParent d c = c\<lparr>lc_parents := lc_parents c @ [d]\<rparr>"

definition lcHeaderSet :: "string \<Rightarrow> string \<Rightarrow> 'x LoadCtx \<Rightarrow> 'x LoadCtx" where
  "lcHeaderSet k v c = c\<lparr>lc_headers := hSet k v (lc_headers c)\<rparr>"

definition lcHeaderAdd :: "string \<Rightarrow> string \<Rightarrow> 'x LoadCtx \<Rightarrow> 'x LoadCtx" where
  "lcHeaderAdd k v c = c\<lparr>lc_headers := hAdd k v (lc_headers c)\<rparr>"

definition lcHeaderDel :: "string \<Rightarrow> 'x LoadCtx \<Rightarrow> 'x LoadCtx" where
  "lcHeaderDel k c = c\<lparr>lc_headers := hDel k (lc_headers c)\<rparr>"

definition Depends :: "string list \<Rightarrow> 'x LoadCtx \<Rightarrow> 'x LoadCtx" where
  "Depends tags c = c\<lparr>lc_deps := lc_deps c @ tags\<rparr>"

definition Speculative :: "Request option \<Rightarrow> bool" where
  "Speculative r = (case r of
      None \<Rightarrow> False
    | Some rq \<Rightarrow>
       if hGet ''X-Sveltego-Preload'' (rq_Header rq) = ''1'' then True
       else contains (hGet ''Sec-Purpose'' (rq_Header rq)) ''prefetch'')"

section \<open>The render context\<close>

record 'x RenderCtx =
  rc_Locals :: "string \<rightharpoonup> 'x anyval"
  rc_URL :: "URL option"
  rc_OriginalURL :: "URL option"
  rc_Params :: "string gomap"
  rc_RawParams :: "string gomap option"
  rc_Cookies :: "Cookies option"

definition rcRawParam :: "string \<Rightarrow> 'x RenderCtx \<Rightarrow> string \<times> bool" where
  "rcRawParam name c = (case rc_RawParams c of
      None \<Rightarrow> ([], False)
    | Some m \<Rightarrow> (case map_of m name of Some v \<Rightarrow> (v, True) | None \<Rightarrow> ([], False)))"

definition rcCSRFToken :: "'x RenderCtx option \<Rightarrow> string" where
  "rcCSRFToken c = (case c of None \<Rightarrow> []
     | Some rc \<Rightarrow> (case rc_Locals rc ''csrfToken'' of Some (AStr s) \<Rightarrow> s | _ \<Rightarrow> []))"

definition rcNonce :: "'x RenderCtx option \<Rightarrow> string" where
  "rcNonce c = (case c of None \<Rightarrow> []
     | Some rc \<Rightarrow> (case rc_Locals rc ''cspNonce'' of Some (AStr s) \<Rightarrow> s | _ \<Rightarrow> []))"

definition NewRenderCtx :: "Request option \<Rightarrow> string gomap \<Rightarrow> 'x RenderCtx" where
  "NewRenderCtx r params = \<lparr>rc_Locals = Map.empty, rc_URL = map_option rq_URL r, rc_OriginalURL = None, rc_Params = params,
     rc_RawParams = None, rc_Cookies = Some (NewCookies r)\<rparr>"

end
