(* ===== verification/KitCsp.thy ===== *)
theory KitCsp
  imports KitHttp
begin

text \<open>
  The Content-Security-Policy header, \<^verbatim>\<open>exports/kit/csp.go\<close>: the template split around the
  nonce, the merge of the configured directives over the defaults, and the process-wide template
  cache with its string key. The theorems: the spliced header is the list of all directives in
  alphabetical order whatever the iteration order of the maps, with the nonce in
  \<^verbatim>\<open>script-src\<close>; and the cache key does not tell all configurations apart.
\<close>

section \<open>Configuration and template\<close>

datatype CSPMode = CSPOff | CSPStrict | CSPReportOnly

definition modeNum :: "CSPMode \<Rightarrow> nat" where
  "modeNum m = (case m of CSPOff \<Rightarrow> 0 | CSPStrict \<Rightarrow> 1 | CSPReportOnly \<Rightarrow> 2)"

record CSPConfig =
  csp_Mode :: CSPMode
  csp_Directives :: "string list gomap"
  csp_ReportTo :: string

record CSPTemplate =
  ct_prefix :: string
  ct_suffix :: string

definition DefaultCSPDirectives :: "string list gomap" where
  "DefaultCSPDirectives =
    [(''default-src'', [[CHR 0x27] @ ''self'' @ [CHR 0x27]]),
     (''script-src'', [[CHR 0x27] @ ''strict-dynamic'' @ [CHR 0x27]]),
     (''style-src'', [[CHR 0x27] @ ''self'' @ [CHR 0x27], [CHR 0x27] @ ''unsafe-inline'' @ [CHR 0x27]]),
     (''img-src'', [[CHR 0x27] @ ''self'' @ [CHR 0x27], ''data:'']),
     (''connect-src'', [[CHR 0x27] @ ''self'' @ [CHR 0x27]]),
     (''base-uri'', [[CHR 0x27] @ ''self'' @ [CHR 0x27]]),
     (''form-action'', [[CHR 0x27] @ ''self'' @ [CHR 0x27]])]"

text \<open>The merge loop over the configured directives: an empty list deletes, any other one replaces.\<close>

definition mergeStep :: "string list gomap \<Rightarrow> string \<times> string list \<Rightarrow> string list gomap" where
  "mergeStep merged kv = (case kv of (k, v) \<Rightarrow> if length v = 0 then delKey k merged else setKey k v merged)"

definition mergeDirectives :: "string list gomap \<Rightarrow> string list gomap" where
  "mergeDirectives ds = foldl mergeStep DefaultCSPDirectives ds"

definition lookupDir :: "string list gomap \<Rightarrow> string \<Rightarrow> string list" where
  "lookupDir m k = (case map_of m k of Some v \<Rightarrow> v | None \<Rightarrow> [])"

text \<open>\<^verbatim>\<open>sort.SearchStrings\<close> on a sorted slice: the first index whose element is not smaller.\<close>

definition searchStrings :: "string list \<Rightarrow> string \<Rightarrow> nat" where
  "searchStrings keys k = length (takeWhile (\<lambda>x. x < k) keys)"

definition composeCSP :: "CSPConfig \<Rightarrow> string \<times> string" where
  "composeCSP cfg =
    (let merged0 = mergeDirectives (csp_Directives cfg);
         scripts = lookupDir merged0 ''script-src'';
         merged = delKey ''script-src'' merged0;
         keys = sortedKeys merged;
         scriptIdx = searchStrings keys ''script-src'';
         prefix = foldl (\<lambda>b k. b @ k @ '' '' @ joinStr '' '' (lookupDir merged k) @ ''; '') [] (take scriptIdx keys)
           @ ''script-src '' @ [CHR 0x27] @ ''nonce-'';
         b1 = [CHR 0x27] @ (if length scripts > 0 then '' '' @ joinStr '' '' scripts else []);
         b2 = foldl (\<lambda>b k. b @ ''; '' @ k @ '' '' @ joinStr '' '' (lookupDir merged k)) b1 (drop scriptIdx keys);
         b3 = (if csp_ReportTo cfg \<noteq> [] then b2 @ ''; report-to '' @ csp_ReportTo cfg else b2)
     in (prefix, b3))"

definition NewCSPTemplate :: "CSPConfig \<Rightarrow> CSPTemplate" where
  "NewCSPTemplate cfg = (let (prefix, suffix) = composeCSP cfg in \<lparr>ct_prefix = prefix, ct_suffix = suffix\<rparr>)"

definition BuildCSP :: "CSPTemplate option \<Rightarrow> string \<Rightarrow> string" where
  "BuildCSP t nonce = (case t of None \<Rightarrow> [] | Some tpl \<Rightarrow> ct_prefix tpl @ nonce @ ct_suffix tpl)"

section \<open>The cache\<close>

definition commaJoin :: "string list \<Rightarrow> string" where
  "commaJoin vs = joinStr '','' vs"

definition cspCacheKey :: "CSPConfig \<Rightarrow> string" where
  "cspCacheKey cfg = [char_of (48 + modeNum (csp_Mode cfg))] @ ''|'' @ csp_ReportTo cfg @ ''|'' @
     foldl (\<lambda>b k. b @ k @ ''='' @ commaJoin (lookupDir (csp_Directives cfg) k) @ '';'') []
       (sortedKeys (csp_Directives cfg))"

type_synonym cspCache = "string \<rightharpoonup> CSPTemplate"

definition BuildCSPHeader :: "CSPConfig \<Rightarrow> string \<Rightarrow> cspCache \<Rightarrow> string \<times> cspCache" where
  "BuildCSPHeader cfg nonce cache =
    (let key = cspCacheKey cfg in
     case cache key of
       Some tpl \<Rightarrow> (BuildCSP (Some tpl) nonce, cache)
     | None \<Rightarrow> (let tpl = NewCSPTemplate cfg in (BuildCSP (Some tpl) nonce, cache(key \<mapsto> tpl))))"

definition CSPHeaderName :: "CSPMode \<Rightarrow> string" where
  "CSPHeaderName mode = (case mode of
      CSPStrict \<Rightarrow> ''Content-Security-Policy''
    | CSPReportOnly \<Rightarrow> ''Content-Security-Policy-Report-Only''
    | CSPOff \<Rightarrow> [])"

section \<open>The header as a list of directives\<close>

text \<open>The reference: the effective value of a directive, the names of all directives in order, and
  the header with one entry per name.\<close>

definition effectiveDir :: "string list gomap \<Rightarrow> string \<Rightarrow> string list option" where
  "effectiveDir ds k = (case map_of ds k of
      Some [] \<Rightarrow> None
    | Some v \<Rightarrow> Some v
    | None \<Rightarrow> map_of DefaultCSPDirectives k)"

definition directiveText :: "string list gomap \<Rightarrow> string \<Rightarrow> string \<Rightarrow> string" where
  "directiveText ds nonce k = k @ '' '' @
     (let vs = (case effectiveDir ds k of Some v \<Rightarrow> v | None \<Rightarrow> []) in
      if k = ''script-src'' then joinStr '' '' (([CHR 0x27] @ ''nonce-'' @ nonce @ [CHR 0x27]) # vs) else joinStr '' '' vs)"

definition directiveNames :: "string list gomap \<Rightarrow> string list" where
  "directiveNames ds = sorted_list_of_set (insert ''script-src'' {k. effectiveDir ds k \<noteq> None})"

definition policyText :: "CSPConfig \<Rightarrow> string \<Rightarrow> string" where
  "policyText cfg nonce = joinStr ''; '' (map (directiveText (csp_Directives cfg) nonce) (directiveNames (csp_Directives cfg)) @
     (if csp_ReportTo cfg \<noteq> [] then [''report-to '' @ csp_ReportTo cfg] else []))"

lemma mergeStep_fold:
  assumes "mapOK m" "distinct (map fst ds)"
  shows "map_of (foldl mergeStep m ds) k =
      (case map_of ds k of Some [] \<Rightarrow> None | Some v \<Rightarrow> Some v | None \<Rightarrow> map_of m k)" (is ?lookup)
    and "mapOK (foldl mergeStep m ds)" (is ?ok)
proof -
  have "?lookup \<and> ?ok" using assms
  proof (induction ds arbitrary: m)
    case (Cons d ds)
    obtain a v where d: "d = (a, v)" by (cases d)
    have ok: "mapOK (mergeStep m d)" using Cons.prems(1) by (simp add: mergeStep_def d mapOK_delKey mapOK_setKey)
    have a: "map_of ds a = None" using Cons.prems(2) d by (simp add: map_of_eq_None_iff)
    have "map_of (mergeStep m d) k = (if k = a then if v = [] then None else Some v else map_of m k)"
      by (simp add: mergeStep_def d delKey_lookup setKey_lookup)
    then show ?case using Cons.IH[OF ok] Cons.prems(2) a
      by (auto simp: d split: list.splits option.splits)
  qed simp
  then show ?lookup ?ok by blast+
qed

lemma defaults_ok: "mapOK DefaultCSPDirectives"
  unfolding mapOK_def DefaultCSPDirectives_def by simp

lemma merged_lookup:
  assumes "mapOK ds"
  shows "map_of (mergeDirectives ds) k = effectiveDir ds k" "mapOK (mergeDirectives ds)"
  using mergeStep_fold[OF defaults_ok, of ds] assms
  by (auto simp: mergeDirectives_def effectiveDir_def mapOK_def split: option.splits list.splits)

lemma insort_split:
  "sorted xs \<Longrightarrow> insort (x :: 'a :: linorder) xs = takeWhile (\<lambda>y. y < x) xs @ x # dropWhile (\<lambda>y. y < x) xs"
  by (induction xs) (auto simp: not_less dest: order.antisym)

lemma take_drop_search:
  "take (searchStrings ks k) ks = takeWhile (\<lambda>x. x < k) ks" "drop (searchStrings ks k) ks = dropWhile (\<lambda>x. x < k) ks"
  by (simp_all add: searchStrings_def takeWhile_eq_take[symmetric] dropWhile_eq_drop[symmetric])

lemma sortedKeys_set:
  assumes "mapOK m" shows "sortedKeys m = sorted_list_of_set {k. map_of m k \<noteq> None}"
proof -
  have "{k. map_of m k \<noteq> None} = set (map fst m)"
    using map_of_eq_None_iff[of m] by auto
  then show ?thesis using assms
    by (simp only: sortedKeys_def mapOK_def sorted_list_of_set_sort_remdups distinct_remdups_id)
qed

lemma joinStr_around:
  "joinStr sep (xs @ y # zs) = concat (map (\<lambda>x. x @ sep) xs) @ y @ concat (map (\<lambda>z. sep @ z) zs)"
proof (induction xs)
  case Nil
  show ?case by (induction zs arbitrary: y) simp_all
next
  case (Cons x xs)
  then show ?case by (simp add: joinStr_Cons)
qed

lemma foldl_concat: "foldl (\<lambda>b k. b @ f k) b ks = b @ concat (map f ks)"
  by (induction ks arbitrary: b) simp_all

lemma directiveNames_split:
  assumes "mapOK ds"
  defines "ks \<equiv> sortedKeys (delKey ''script-src'' (mergeDirectives ds))"
  shows "directiveNames ds = take (searchStrings ks ''script-src'') ks @ ''script-src'' # drop (searchStrings ks ''script-src'') ks"
proof -
  have ks: "ks = sorted_list_of_set ({k. effectiveDir ds k \<noteq> None} - {''script-src''})"
    using merged_lookup[OF assms(1)] unfolding ks_def
    by (subst sortedKeys_set) (auto simp: mapOK_delKey delKey_lookup intro!: arg_cong[where f = sorted_list_of_set])
  have fin: "finite {k. effectiveDir ds k \<noteq> None}"
    using finite_dom_map_of[of "mergeDirectives ds"] merged_lookup(1)[OF assms(1)] by (simp add: dom_def)
  then have "directiveNames ds = insort ''script-src'' ks"
    unfolding directiveNames_def ks by (subst sorted_list_of_set.fold_insort_key.insert_remove) simp_all
  moreover have "sorted ks" by (simp add: ks)
  ultimately show ?thesis by (simp add: insort_split take_drop_search)
qed

text \<open>C18. The policy header: for any configuration the template with a nonce spliced in is the list
  of all effective directives (the configured ones over the defaults, an empty list removing a
  directive) in alphabetical order, the nonce token first in \<^verbatim>\<open>script-src\<close>, which is always
  present, and \<^verbatim>\<open>report-to\<close> last when it is configured.\<close>

theorem csp_template_equiv:
  assumes "mapOK (csp_Directives cfg)"
  shows "BuildCSP (Some (NewCSPTemplate cfg)) nonce = policyText cfg nonce"
proof -
  let ?ds = "csp_Directives cfg"
  define m where "m = delKey ''script-src'' (mergeDirectives ?ds)"
  define ks where "ks = sortedKeys m"
  define i where "i = searchStrings ks ''script-src''"
  define dir where "dir = (\<lambda>k. k @ '' '' @ joinStr '' '' (lookupDir m k))"
  define scripts where "scripts = lookupDir (mergeDirectives ?ds) ''script-src''"
  have n: "directiveNames ?ds = take i ks @ ''script-src'' # drop i ks"
    using directiveNames_split[OF assms] by (simp add: i_def ks_def m_def)
  have "''script-src'' \<notin> set ks" by (auto simp: ks_def m_def delKey_keys)
  then have t: "map (directiveText ?ds nonce) xs = map dir xs" if "set xs \<subseteq> set ks" for xs
    using that merged_lookup[OF assms] unfolding directiveText_def dir_def lookupDir_def m_def
    by (auto simp: delKey_lookup Let_def)
  have s: "directiveText ?ds nonce ''script-src'' = ''script-src '' @ [CHR 0x27] @ ''nonce-'' @ nonce @ [CHR 0x27] @
      (if length scripts > 0 then '' '' @ joinStr '' '' scripts else [])"
    using merged_lookup(1)[OF assms]
    by (cases scripts) (auto simp: directiveText_def scripts_def lookupDir_def Let_def)
  have sub: "set (take i ks) \<subseteq> set ks" "set (drop i ks) \<subseteq> set ks" by (auto dest: in_set_takeD in_set_dropD)
  show ?thesis
    unfolding policyText_def n
    by (simp add: t[OF sub(1)] t[OF sub(2)] s joinStr_around BuildCSP_def NewCSPTemplate_def composeCSP_def Let_def
        foldl_concat comp_def flip: scripts_def m_def ks_def i_def) (simp add: dir_def)
qed

text \<open>The cache key joins the values of a directive with commas that values may contain: two
  configurations with different headers share a key, and the second one is answered with the
  header of the first.\<close>

definition cspA :: CSPConfig where
  "cspA = \<lparr>csp_Mode = CSPStrict, csp_Directives = [(''img-src'', [''a'', ''b''])], csp_ReportTo = []\<rparr>"

definition cspB :: CSPConfig where
  "cspB = \<lparr>csp_Mode = CSPStrict, csp_Directives = [(''img-src'', [''a,b''])], csp_ReportTo = []\<rparr>"

lemma csp_cache_collision:
  "cspCacheKey cspA = cspCacheKey cspB \<and>
   fst (BuildCSPHeader cspB ''n'' (snd (BuildCSPHeader cspA ''n'' Map.empty))) \<noteq> BuildCSP (Some (NewCSPTemplate cspB)) ''n''"
  by (rule conjI; code_simp)

theorem csp_template_equiv_witness:
  "BuildCSP (Some (NewCSPTemplate cspA)) ''n'' = policyText cspA ''n''"
  by (rule csp_template_equiv) (simp add: cspA_def mapOK_def)

end
