(* ===== verification/PayloadJson.thy ===== *)
theory PayloadJson
  imports KitHttp Segments
begin

text \<open>
  The hydration payload: its types and assembly in \<^verbatim>\<open>server/pipeline.go\<close>, the splice writer of
  \<^verbatim>\<open>server/payload_writer.go\<close>, and the escaping of JSON inside a script element. The JSON encoder
  of the standard library is a parameter \<open>marshal\<close>, an error or the bytes. The theorems: the
  splice writer produces what encoding the whole structure would, escaped script text cannot close
  its element, and the second escaping routine is the identity.
\<close>

section \<open>Script text\<close>

text \<open>\<^verbatim>\<open>indexScriptSpecial\<close>: the first less-than sign before a slash or an exclamation mark.\<close>

definition scriptSpecial :: "char \<Rightarrow> char \<Rightarrow> bool" where
  "scriptSpecial a b = (a = CHR ''<'' \<and> (b = CHR ''/'' \<or> b = CHR ''!''))"

fun indexScriptSpecial :: "string \<Rightarrow> nat option" where
  "indexScriptSpecial (a # b # p) = (if scriptSpecial a b then Some 0 else map_option Suc (indexScriptSpecial (b # p)))"
| "indexScriptSpecial _ = None"

definition uEsc :: string where "uEsc = [CHR 0x5C] @ ''u003c''"

text \<open>The loop of \<^verbatim>\<open>escapeScriptSpecial\<close> with the output, the bytes of \<open>raw\<close> before \<open>i\<close> and
  those from \<open>i\<close> on: a hit flushes the former and restarts behind the less-than sign.\<close>

fun escapeLoop :: "string \<Rightarrow> string \<Rightarrow> string \<Rightarrow> string" where
  "escapeLoop out done [] = out @ done"
| "escapeLoop out done [a] = out @ done @ [a]"
| "escapeLoop out done (a # b # rest) =
    (if scriptSpecial a b then escapeLoop (out @ done @ uEsc) [] (b # rest)
     else escapeLoop out (done @ [a]) (b # rest))"

definition escapeScriptSpecial :: "string \<Rightarrow> string" where
  "escapeScriptSpecial raw = (if indexScriptSpecial raw = None then raw else escapeLoop [] [] raw)"

text \<open>\<^verbatim>\<open>writeEscapedScriptJSON\<close>: the prefix, then the loop over the tail with \<open>start\<close> as the
  bytes since the last flush. Its constant \<^verbatim>\<open>escape\<close> is the single byte of the source.\<close>

fun scriptLoop :: "string \<Rightarrow> string \<Rightarrow> string \<Rightarrow> string" where
  "scriptLoop buf pending [] = (if pending \<noteq> [] then buf @ pending else buf)"
| "scriptLoop buf pending [a] = buf @ pending @ [a]"
| "scriptLoop buf pending (a # b # rest) =
    (if scriptSpecial a b then
       scriptLoop ((if pending \<noteq> [] then buf @ pending else buf) @ ''<'') [] (b # rest)
     else scriptLoop buf (pending @ [a]) (b # rest))"

definition writeEscapedScriptJSON :: "string \<Rightarrow> string \<Rightarrow> string" where
  "writeEscapedScriptJSON buf p = (case indexScriptSpecial p of
      None \<Rightarrow> buf @ p
    | Some i \<Rightarrow> scriptLoop (buf @ take i p) [] (drop i p))"

section \<open>Payload types\<close>

record clientManifestSegment =
  cs_Kind :: nat
  cs_Name :: string
  cs_Value :: string

record clientManifestEntry =
  cm_Pattern :: string
  cm_Segments :: "clientManifestSegment list"

record clientVersionPoll =
  cv_IntervalMS :: int
  cv_Disabled :: bool

record clientPageError =
  ce_Message :: string
  ce_Status :: int

record 'd clientPayload =
  cp_RouteID :: string
  cp_Data :: "'d option"
  cp_LayoutData :: "'d option list"
  cp_Form :: "'d option"
  cp_URL :: string
  cp_Params :: "string gomap option"
  cp_Status :: int
  cp_PageError :: "clientPageError option"
  cp_Manifest :: "clientManifestEntry list"
  cp_Deps :: "string list"
  cp_AppVersion :: string
  cp_CSRFToken :: string
  cp_VersionPoll :: "clientVersionPoll option"

text \<open>What is handed to the encoder.\<close>

datatype 'd jval =
    JNull
  | JAny "'d option"
  | JAnys "'d option list"
  | JString string
  | JStrings "string list"
  | JStringMap "string gomap"
  | JInt int
  | JPageError clientPageError
  | JManifest "clientManifestEntry list"
  | JVersionPoll clientVersionPoll

type_synonym 'd encoder = "'d jval \<Rightarrow> (string, string) result"

definition kindNum :: "SegmentKind \<Rightarrow> nat" where
  "kindNum k = (case k of SegmentStatic \<Rightarrow> 0 | SegmentParam \<Rightarrow> 1 | SegmentOptional \<Rightarrow> 2 | SegmentRest \<Rightarrow> 3)"

text \<open>\<^verbatim>\<open>buildClientManifest\<close> on the patterns and segments of the routes with a flag for those
  that have a page handler.\<close>

definition buildClientManifest :: "(string \<times> Segment list \<times> bool) list \<Rightarrow> clientManifestEntry list" where
  "buildClientManifest routes = concat (map (\<lambda>(pat, segs, hasPage).
     if \<not> hasPage then []
     else [\<lparr>cm_Pattern = pat, cm_Segments = map (\<lambda>s. \<lparr>cs_Kind = kindNum (seg_kind s), cs_Name = seg_name s,
        cs_Value = seg_value s\<rparr>) segs\<rparr>]) routes)"

section \<open>The splice writer\<close>

text \<open>The pre-encoded fields of a server.\<close>

record payloadCache =
  pc_encodedManifest :: string
  pc_encodedAppVersion :: string
  pc_encodedVersionPoll :: string
  pc_encodedRouteIDs :: "string \<rightharpoonup> string"

definition dq :: string where "dq = [CHR 0x22]"

text \<open>\<^verbatim>\<open>encodePayloadField\<close> panics when the encoder fails (\<^const>\<open>None\<close>).\<close>

definition encodePayloadField :: "'d encoder \<Rightarrow> string \<Rightarrow> 'd jval \<Rightarrow> string option" where
  "encodePayloadField marshal name v = (case marshal v of
      Inl _ \<Rightarrow> None
    | Inr raw \<Rightarrow> Some ('','' @ dq @ name @ dq @ '':'' @ raw))"

definition encodeAppVersionField :: "'d encoder \<Rightarrow> string \<Rightarrow> string option" where
  "encodeAppVersionField marshal version =
    (if version = [] then Some [] else encodePayloadField marshal ''appVersion'' (JString version))"

definition encodeVersionPollField :: "'d encoder \<Rightarrow> string \<Rightarrow> clientVersionPoll \<Rightarrow> string option" where
  "encodeVersionPollField marshal appVersion vp =
    (if appVersion = [] then Some [] else encodePayloadField marshal ''versionPoll'' (JVersionPoll vp))"

fun encodeRouteIDsLoop :: "'d encoder \<Rightarrow> string list \<Rightarrow> (string \<rightharpoonup> string) \<Rightarrow> (string \<rightharpoonup> string) option" where
  "encodeRouteIDsLoop marshal [] out = Some out"
| "encodeRouteIDsLoop marshal (pat # pats) out =
    (if out pat \<noteq> None then encodeRouteIDsLoop marshal pats out
     else (case marshal (JString pat) of
        Inl _ \<Rightarrow> None
      | Inr raw \<Rightarrow> encodeRouteIDsLoop marshal pats (out(pat \<mapsto> raw))))"

definition encodeRouteIDs :: "'d encoder \<Rightarrow> string list \<Rightarrow> (string \<rightharpoonup> string) option" where
  "encodeRouteIDs marshal pats = encodeRouteIDsLoop marshal pats Map.empty"

definition needsByteEscape :: "char \<Rightarrow> bool" where
  "needsByteEscape c = (byteVal c < 0x20 \<or> byteVal c \<ge> 0x7F \<or> c = CHR 0x22 \<or> c = CHR 0x5C \<or>
     c = CHR ''<'' \<or> c = CHR ''>'' \<or> c = CHR ''&'')"

definition needsJSONStringEscape :: "string \<Rightarrow> bool" where
  "needsJSONStringEscape s = list_ex needsByteEscape s"

definition encodeJSONValue :: "'d encoder \<Rightarrow> string \<Rightarrow> 'd jval \<Rightarrow> (string, string) result" where
  "encodeJSONValue marshal dst v = (case marshal v of Inl e \<Rightarrow> Inl e | Inr raw \<Rightarrow> Inr (dst @ raw))"

definition encodeJSONString :: "'d encoder \<Rightarrow> string \<Rightarrow> string \<Rightarrow> (string, string) result" where
  "encodeJSONString marshal dst s =
    (if \<not> needsJSONStringEscape s then Inr (dst @ dq @ s @ dq)
     else (case marshal (JString s) of Inl e \<Rightarrow> Inl e | Inr raw \<Rightarrow> Inr (dst @ raw)))"

fun mapPairs :: "string gomap \<Rightarrow> string list \<Rightarrow> nat \<Rightarrow> string \<Rightarrow> string" where
  "mapPairs m [] i dst = dst"
| "mapPairs m (k # ks) i dst = mapPairs m ks (Suc i)
     ((if i > 0 then dst @ '','' else dst) @ dq @ k @ dq @ '':'' @ dq @ (case map_of m k of Some v \<Rightarrow> v | None \<Rightarrow> []) @ dq)"

definition encodeStringMap :: "'d encoder \<Rightarrow> string \<Rightarrow> string gomap option \<Rightarrow> (string, string) result" where
  "encodeStringMap marshal dst mo = (case mo of
      None \<Rightarrow> Inr (dst @ ''null'')
    | Some m \<Rightarrow>
       if length m = 0 then Inr (dst @ ''{}'')
       else if list_ex (\<lambda>(k, v). needsJSONStringEscape k \<or> needsJSONStringEscape v) m
       then encodeJSONValue marshal dst (JStringMap m)
       else Inr (mapPairs m (sortedKeys m) 0 (dst @ ''{'') @ ''}''))"

definition rbind :: "('e, 'a) result \<Rightarrow> ('a \<Rightarrow> ('e, 'b) result) \<Rightarrow> ('e, 'b) result" where
  "rbind r f = (case r of Inl e \<Rightarrow> Inl e | Inr a \<Rightarrow> f a)"

definition keyText :: "string \<Rightarrow> string" where
  "keyText name = dq @ name @ dq @ '':''"

text \<open>The fields after the route id, then the route id before them.\<close>

definition writePayloadTail :: "'d encoder \<Rightarrow> payloadCache \<Rightarrow> 'd clientPayload \<Rightarrow> string \<Rightarrow> (string, string) result" where
  "writePayloadTail marshal C p = (\<lambda>d.
    rbind (encodeJSONValue marshal (d @ '','' @ keyText ''data'') (JAny (cp_Data p))) (\<lambda>d.
    rbind (if length (cp_LayoutData p) > 0
           then encodeJSONValue marshal (d @ '','' @ keyText ''layoutData'') (JAnys (cp_LayoutData p)) else Inr d) (\<lambda>d.
    rbind (encodeJSONValue marshal (d @ '','' @ keyText ''form'') (JAny (cp_Form p))) (\<lambda>d.
    rbind (encodeJSONString marshal (d @ '','' @ keyText ''url'') (cp_URL p)) (\<lambda>d.
    rbind (encodeStringMap marshal (d @ '','' @ keyText ''params'') (cp_Params p)) (\<lambda>d.
    rbind (Inr (d @ '','' @ keyText ''status'' @ formatInt (cp_Status p))) (\<lambda>d.
    rbind (case cp_PageError p of
             None \<Rightarrow> Inr (d @ '','' @ keyText ''error'' @ ''null'')
           | Some e \<Rightarrow> encodeJSONValue marshal (d @ '','' @ keyText ''error'') (JPageError e)) (\<lambda>d.
    rbind (if length (cp_Manifest p) > 0 then
             (if length (pc_encodedManifest C) > 0 then Inr (d @ pc_encodedManifest C)
              else encodeJSONValue marshal (d @ '','' @ keyText ''manifest'') (JManifest (cp_Manifest p)))
           else Inr d) (\<lambda>d.
    rbind (if length (cp_Deps p) > 0
           then encodeJSONValue marshal (d @ '','' @ keyText ''deps'') (JStrings (cp_Deps p)) else Inr d) (\<lambda>d.
    rbind (if cp_AppVersion p \<noteq> [] then
             (if length (pc_encodedAppVersion C) > 0 then Inr (d @ pc_encodedAppVersion C)
              else encodeJSONString marshal (d @ '','' @ keyText ''appVersion'') (cp_AppVersion p))
           else Inr d) (\<lambda>d.
    rbind (if cp_CSRFToken p \<noteq> []
           then encodeJSONString marshal (d @ '','' @ keyText ''csrfToken'') (cp_CSRFToken p) else Inr d) (\<lambda>d.
    rbind (case cp_VersionPoll p of
             None \<Rightarrow> Inr d
           | Some v \<Rightarrow> if length (pc_encodedVersionPoll C) > 0 then Inr (d @ pc_encodedVersionPoll C)
               else encodeJSONValue marshal (d @ '','' @ keyText ''versionPoll'') (JVersionPoll v)) (\<lambda>d.
    Inr (d @ ''}''))))))))))))))"

definition writePayloadJSON :: "'d encoder \<Rightarrow> payloadCache \<Rightarrow> string \<Rightarrow> 'd clientPayload \<Rightarrow> (string, string) result" where
  "writePayloadJSON marshal C dst p =
    rbind (let d = dst @ ''{'' @ keyText ''routeId'' in
           case pc_encodedRouteIDs C (cp_RouteID p) of
             Some enc \<Rightarrow> if length enc > 0 then Inr (d @ enc) else encodeJSONValue marshal d (JString (cp_RouteID p))
           | None \<Rightarrow> encodeJSONValue marshal d (JString (cp_RouteID p)))
      (writePayloadTail marshal C p)"

section \<open>Assembling the payload\<close>

record 'd formData =
  fd_code :: int
  fd_data :: "'d option"

definition buildClientPayload :: "string \<Rightarrow> string \<Rightarrow> string option \<Rightarrow> 'd option \<Rightarrow> 'd option list \<Rightarrow> string gomap option \<Rightarrow>
    'd formData option \<Rightarrow> 'd clientPayload" where
  "buildClientPayload url pattern csrf data layoutDatas params form =
    (let p0 = \<lparr>cp_RouteID = pattern, cp_Data = data, cp_LayoutData = [], cp_Form = None, cp_URL = url,
           cp_Params = params, cp_Status = 200, cp_PageError = None, cp_Manifest = [], cp_Deps = [],
           cp_AppVersion = [], cp_CSRFToken = [], cp_VersionPoll = None\<rparr>;
         p1 = (case cp_Params p0 of None \<Rightarrow> p0\<lparr>cp_Params := Some []\<rparr> | Some _ \<Rightarrow> p0);
         p2 = (if length layoutDatas > 0 then p1\<lparr>cp_LayoutData := layoutDatas\<rparr> else p1);
         p3 = (case form of
                 None \<Rightarrow> p2
               | Some f \<Rightarrow> (let q = p2\<lparr>cp_Form := fd_data f\<rparr> in
                    if fd_code f \<noteq> 0 then q\<lparr>cp_Status := fd_code f\<rparr> else q))
     in case csrf of None \<Rightarrow> p3 | Some t \<Rightarrow> p3\<lparr>cp_CSRFToken := t\<rparr>)"

definition applyInitialPayloadFields :: "clientManifestEntry list \<Rightarrow> string \<Rightarrow> clientVersionPoll \<Rightarrow>
    'd clientPayload \<Rightarrow> 'd clientPayload" where
  "applyInitialPayloadFields manifest appVersion poll p =
    (let q = p\<lparr>cp_Manifest := manifest\<rparr>
     in if appVersion \<noteq> [] then q\<lparr>cp_AppVersion := appVersion, cp_VersionPoll := Some poll\<rparr> else q)"

definition payloadOpenTag :: "string \<Rightarrow> string" where
  "payloadOpenTag nonce = (if nonce \<noteq> []
     then ''<script id='' @ dq @ ''sveltego-data'' @ dq @ '' nonce='' @ dq @ nonce @ dq @ '' type='' @ dq @ ''application/json'' @ dq @ ''>''
     else ''<script id='' @ dq @ ''sveltego-data'' @ dq @ '' type='' @ dq @ ''application/json'' @ dq @ ''>'')"

definition emitPayloadScriptTag :: "'d encoder \<Rightarrow> payloadCache \<Rightarrow> string \<Rightarrow> 'd clientPayload \<Rightarrow> string \<Rightarrow> string" where
  "emitPayloadScriptTag marshal C buf p nonce = (case writePayloadJSON marshal C [] p of
      Inl _ \<Rightarrow> buf @ payloadOpenTag nonce @ ''{}</script>''
    | Inr scratch \<Rightarrow> buf @ payloadOpenTag nonce @ escapeScriptSpecial scratch @ ''</script>'')"

text \<open>\<^verbatim>\<open>writeJSONString\<close> and \<^verbatim>\<open>emitResolveScript\<close>; the outcome of waiting for the stream is an
  argument.\<close>

definition writeJSONString :: "'d encoder \<Rightarrow> string \<Rightarrow> string \<Rightarrow> string" where
  "writeJSONString marshal buf s = (case marshal (JString s) of
      Inl _ \<Rightarrow> buf @ dq @ dq
    | Inr encoded \<Rightarrow> writeEscapedScriptJSON buf encoded)"

definition emitResolveScript :: "'d encoder \<Rightarrow> string \<Rightarrow> nat \<Rightarrow> (string, 'd option) result \<Rightarrow> string \<Rightarrow> string" where
  "emitResolveScript marshal buf sid outcome nonce =
    (let b0 = (if nonce \<noteq> [] then buf @ ''<script nonce='' @ dq @ nonce @ dq @ ''>__sveltego__resolve(''
               else buf @ ''<script>__sveltego__resolve('');
         b1 = b0 @ formatInt (int sid) @ '','';
         b2 = (case outcome of
                 Inl err \<Rightarrow> writeJSONString marshal (b1 @ ''{'' @ keyText ''error'') err @ ''}''
               | Inr v \<Rightarrow> (case marshal (JAny v) of
                    Inl mErr \<Rightarrow> writeJSONString marshal (b1 @ ''{'' @ keyText ''error'') mErr @ ''}''
                  | Inr encoded \<Rightarrow> writeEscapedScriptJSON (b1 @ ''{'' @ keyText ''data'') encoded @ ''}''))
     in b2 @ '')</script>'')"

section \<open>Script text cannot close its element\<close>

definition scriptSafe :: "string \<Rightarrow> bool" where
  "scriptSafe s = (\<not> adjacent CHR ''<'' CHR ''/'' s \<and> \<not> adjacent CHR ''<'' CHR ''!'' s)"

lemma indexScriptSpecial_None: "indexScriptSpecial s = None \<longleftrightarrow> scriptSafe s"
  by (induction s rule: indexScriptSpecial.induct) (auto simp: scriptSafe_def scriptSpecial_def)

lemma scriptSafe_append:
  "scriptSafe (xs @ ys) \<longleftrightarrow> scriptSafe xs \<and> scriptSafe ys \<and>
     \<not> (xs \<noteq> [] \<and> ys \<noteq> [] \<and> scriptSpecial (last xs) (hd ys))"
  by (auto simp: scriptSafe_def scriptSpecial_def adjacent_append)

lemma scriptSafe_uEsc: "scriptSafe uEsc" "last uEsc \<noteq> CHR ''<''" "uEsc \<noteq> []" "hd uEsc = CHR 0x5C"
  by (simp_all add: scriptSafe_def uEsc_def)

text \<open>The reference: byte by byte.\<close>

fun scriptEsc :: "string \<Rightarrow> string" where
  "scriptEsc (a # b # rest) = (if scriptSpecial a b then uEsc else [a]) @ scriptEsc (b # rest)"
| "scriptEsc s = s"

lemma escapeLoop_ref: "escapeLoop out done s = out @ done @ scriptEsc s"
  by (induction out "done" s rule: escapeLoop.induct) simp_all

lemma scriptEsc_id: "scriptSafe s \<Longrightarrow> scriptEsc s = s"
  by (induction s rule: scriptEsc.induct) (auto simp: scriptSafe_def scriptSpecial_def)

lemma escapeScriptSpecial_ref: "escapeScriptSpecial s = scriptEsc s"
  by (simp add: escapeScriptSpecial_def escapeLoop_ref scriptEsc_id indexScriptSpecial_None)

lemma scriptEsc_hd: "scriptEsc (b # s) \<noteq> [] \<and> (hd (scriptEsc (b # s)) = b \<or> hd (scriptEsc (b # s)) = CHR 0x5C)"
  by (cases s) (auto simp: uEsc_def)

lemma scriptEsc_safe: "scriptSafe (scriptEsc s)"
proof (induction s rule: scriptEsc.induct)
  case (1 a b rest)
  have h: "scriptEsc (b # rest) \<noteq> []" "hd (scriptEsc (b # rest)) = b \<or> hd (scriptEsc (b # rest)) = CHR 0x5C"
    using scriptEsc_hd[of b rest] by auto
  have "scriptSafe [a]" by (simp add: scriptSafe_def)
  with 1 h scriptSafe_uEsc show ?case
    by (auto simp: scriptSafe_append scriptSpecial_def)
qed (simp_all add: scriptSafe_def)

lemma scriptLoop_id: "scriptLoop buf pending s = buf @ pending @ s"
  by (induction buf pending s rule: scriptLoop.induct) (auto simp: scriptSpecial_def)

text \<open>C15. The payload script: whatever the load functions returned and whatever the JSON encoder
  makes of it, the tag that is written is the opening tag, a text in which no less-than sign
  stands before a slash or an exclamation mark, and the closing tag; so the data can neither end
  the script element nor open a comment in it.\<close>

theorem payload_script_confined:
  "\<exists>mid. emitPayloadScriptTag marshal C buf p nonce = buf @ payloadOpenTag nonce @ mid @ ''</script>'' \<and> scriptSafe mid \<and>
     (case writePayloadJSON marshal C [] p of Inl _ \<Rightarrow> mid = ''{}'' | Inr json \<Rightarrow> mid = scriptEsc json)"
  by (auto simp: emitPayloadScriptTag_def escapeScriptSpecial_ref scriptEsc_safe scriptSafe_def[of "''{}''"] split: sum.splits)


section \<open>The splice writer equals the encoder\<close>

text \<open>What the encoder documents: null, integers, strings that need no escape, and string maps with
  sorted keys.\<close>

definition pairText :: "string gomap \<Rightarrow> string \<Rightarrow> string" where
  "pairText m k = keyText k @ dq @ (case map_of m k of Some v \<Rightarrow> v | None \<Rightarrow> []) @ dq"

definition encoderLaws :: "'d encoder \<Rightarrow> bool" where
  "encoderLaws marshal = (marshal JNull = Inr ''null'' \<and> (\<forall>n. marshal (JInt n) = Inr (formatInt n)) \<and>
     (\<forall>s. \<not> needsJSONStringEscape s \<longrightarrow> marshal (JString s) = Inr (dq @ s @ dq)) \<and>
     (\<forall>m. \<not> list_ex (\<lambda>(k, v). needsJSONStringEscape k \<or> needsJSONStringEscape v) m \<longrightarrow>
        marshal (JStringMap m) = Inr (''{'' @ joinStr '','' (map (pairText m) (sortedKeys m)) @ ''}'')))"

text \<open>The structure the encoder would see: the fields in declaration order, the optional ones left
  out when empty.\<close>

definition payloadFields :: "'d clientPayload \<Rightarrow> (string \<times> 'd jval) list" where
  "payloadFields p =
    [(''routeId'', JString (cp_RouteID p)), (''data'', JAny (cp_Data p))] @
    (if cp_LayoutData p \<noteq> [] then [(''layoutData'', JAnys (cp_LayoutData p))] else []) @
    [(''form'', JAny (cp_Form p)), (''url'', JString (cp_URL p)),
     (''params'', case cp_Params p of None \<Rightarrow> JNull | Some m \<Rightarrow> JStringMap m), (''status'', JInt (cp_Status p)),
     (''error'', case cp_PageError p of None \<Rightarrow> JNull | Some e \<Rightarrow> JPageError e)] @
    (if cp_Manifest p \<noteq> [] then [(''manifest'', JManifest (cp_Manifest p))] else []) @
    (if cp_Deps p \<noteq> [] then [(''deps'', JStrings (cp_Deps p))] else []) @
    (if cp_AppVersion p \<noteq> [] then [(''appVersion'', JString (cp_AppVersion p))] else []) @
    (if cp_CSRFToken p \<noteq> [] then [(''csrfToken'', JString (cp_CSRFToken p))] else []) @
    (case cp_VersionPoll p of None \<Rightarrow> [] | Some v \<Rightarrow> [(''versionPoll'', JVersionPoll v)])"

definition fieldText :: "'d encoder \<Rightarrow> string \<times> 'd jval \<Rightarrow> string option" where
  "fieldText marshal f = (case f of (n, v) \<Rightarrow> (case marshal v of Inl _ \<Rightarrow> None | Inr raw \<Rightarrow> Some (keyText n @ raw)))"

definition objectText :: "'d encoder \<Rightarrow> (string \<times> 'd jval) list \<Rightarrow> string option" where
  "objectText marshal fs = map_option (\<lambda>ts. ''{'' @ joinStr '','' ts @ ''}'') (those (map (fieldText marshal) fs))"

definition okText :: "(string, string) result \<Rightarrow> string option" where
  "okText r = (case r of Inl _ \<Rightarrow> None | Inr t \<Rightarrow> Some t)"

text \<open>The caches of a server as \<^verbatim>\<open>New\<close> fills them.\<close>

definition cacheFor :: "'d encoder \<Rightarrow> clientManifestEntry list \<Rightarrow> string \<Rightarrow> clientVersionPoll \<Rightarrow> string list \<Rightarrow> payloadCache \<Rightarrow> bool" where
  "cacheFor marshal man ver poll pats C =
    (encodePayloadField marshal ''manifest'' (JManifest man) = Some (pc_encodedManifest C) \<and>
     encodeAppVersionField marshal ver = Some (pc_encodedAppVersion C) \<and>
     encodeVersionPollField marshal ver poll = Some (pc_encodedVersionPoll C) \<and>
     encodeRouteIDs marshal pats = Some (pc_encodedRouteIDs C))"

lemma those_append: "those (xs @ ys) = (case those xs of None \<Rightarrow> None | Some a \<Rightarrow> map_option (\<lambda>b. a @ b) (those ys))"
  by (cases "those ys"; induction xs) (auto split: option.splits)

definition commas :: "string list \<Rightarrow> string" where
  "commas ts = concat (map (\<lambda>t. '','' @ t) ts)"

lemma commas_simps [simp]: "commas [] = []" "commas (t # ts) = '','' @ t @ commas ts" "commas (xs @ ys) = commas xs @ commas ys"
  by (simp_all add: commas_def)

lemma joinStr_commas: "joinStr '','' (t # ts) = t @ commas ts"
  by (induction ts arbitrary: t) (simp_all add: joinStr_Cons commas_def)

text \<open>A step that appends fields, and a continuation that appends the remaining ones and closes.\<close>

definition adds :: "'d encoder \<Rightarrow> (string \<Rightarrow> (string, string) result) \<Rightarrow> (string \<times> 'd jval) list \<Rightarrow> bool" where
  "adds marshal step fs = (\<forall>d. okText (step d) = map_option (\<lambda>ts. d @ commas ts) (those (map (fieldText marshal) fs)))"

definition finishes :: "'d encoder \<Rightarrow> (string \<Rightarrow> (string, string) result) \<Rightarrow> (string \<times> 'd jval) list \<Rightarrow> bool" where
  "finishes marshal k fs = (\<forall>d. okText (k d) = map_option (\<lambda>ts. d @ commas ts @ ''}'') (those (map (fieldText marshal) fs)))"

lemma finishes_end: "finishes marshal (\<lambda>d. Inr (d @ ''}'')) []"
  by (simp add: finishes_def okText_def)

lemma finishes_bind:
  assumes "adds marshal step fs" "finishes marshal k gs"
  shows "finishes marshal (\<lambda>d. rbind (step d) k) (fs @ gs)"
  unfolding finishes_def
proof
  fix d
  from assms(1) have s: "okText (step d) = map_option (\<lambda>ts. d @ commas ts) (those (map (fieldText marshal) fs))"
    by (simp add: adds_def)
  show "okText (rbind (step d) k) = map_option (\<lambda>ts. d @ commas ts @ ''}'') (those (map (fieldText marshal) (fs @ gs)))"
  proof (cases "those (map (fieldText marshal) fs)")
    case None
    with s show ?thesis by (auto simp: okText_def rbind_def those_append split: sum.splits)
  next
    case (Some ts)
    with s have "step d = Inr (d @ commas ts)" by (auto simp: okText_def split: sum.splits)
    with Some assms(2) show ?thesis
      by (simp add: rbind_def those_append finishes_def option.map_comp comp_def)
  qed
qed

lemma adds_value: "adds marshal (\<lambda>d. encodeJSONValue marshal (d @ '','' @ keyText n) v) [(n, v)]"
  by (simp add: adds_def encodeJSONValue_def okText_def fieldText_def split: sum.splits)

lemma adds_text: "marshal v = Inr raw \<Longrightarrow> adds marshal (\<lambda>d. Inr (d @ '','' @ keyText n @ raw)) [(n, v)]"
  by (simp add: adds_def okText_def fieldText_def)

lemma adds_if: "(b \<Longrightarrow> adds marshal s fs) \<Longrightarrow> adds marshal (\<lambda>d. if b then s d else Inr d) (if b then fs else [])"
  by (simp add: adds_def okText_def)

lemma adds_string:
  assumes "encoderLaws marshal"
  shows "adds marshal (\<lambda>d. encodeJSONString marshal (d @ '','' @ keyText n) s) [(n, JString s)]"
  using assms by (auto simp: adds_def encodeJSONString_def okText_def fieldText_def encoderLaws_def split: sum.splits)

lemma mapPairs_text:
  "mapPairs m ks i dst = dst @ (if i > 0 then commas (map (pairText m) ks) else joinStr '','' (map (pairText m) ks))"
proof (induction m ks i dst rule: mapPairs.induct)
  case (2 m k ks i dst)
  then show ?case by (cases i; cases ks) (simp_all add: pairText_def keyText_def joinStr_commas)
qed simp

lemma adds_params:
  assumes "encoderLaws marshal"
  shows "adds marshal (\<lambda>d. encodeStringMap marshal (d @ '','' @ keyText n) mo)
     [(n, case mo of None \<Rightarrow> JNull | Some m \<Rightarrow> JStringMap m)]"
proof (cases mo)
  case None
  with assms show ?thesis by (simp add: adds_def encodeStringMap_def okText_def fieldText_def encoderLaws_def)
next
  case (Some m)
  show ?thesis
  proof (cases "list_ex (\<lambda>(k, v). needsJSONStringEscape k \<or> needsJSONStringEscape v) m")
    case True
    moreover from True have "m \<noteq> []" by auto
    ultimately show ?thesis using Some
      by (simp add: adds_def encodeStringMap_def encodeJSONValue_def okText_def fieldText_def split: sum.splits)
  next
    case False
    with assms have "marshal (JStringMap m) = Inr (''{'' @ joinStr '','' (map (pairText m) (sortedKeys m)) @ ''}'')"
      by (simp only: encoderLaws_def simp_thms)
    with Some False show ?thesis
      by (simp add: adds_def encodeStringMap_def okText_def fieldText_def mapPairs_text sortedKeys_def)
  qed
qed

lemma adds_error:
  assumes "encoderLaws marshal"
  shows "adds marshal (\<lambda>d. case eo of
      None \<Rightarrow> Inr (d @ '','' @ keyText n @ ''null'')
    | Some e \<Rightarrow> encodeJSONValue marshal (d @ '','' @ keyText n) (JPageError e))
    [(n, case eo of None \<Rightarrow> JNull | Some e \<Rightarrow> JPageError e)]"
  using assms adds_text[of marshal JNull "''null''" n] adds_value[of marshal n]
  by (cases eo) (simp_all add: encoderLaws_def)

text \<open>A field with a pre-encoded form: the splice is the field.\<close>

lemma adds_cached:
  assumes "encodePayloadField marshal n v = Some enc"
  shows "adds marshal (\<lambda>d. if length enc > 0 then Inr (d @ enc) else s d) [(n, v)]"
  using assms adds_text[of marshal v _ n]
  by (auto simp: encodePayloadField_def keyText_def split: sum.splits)

lemma encodeRouteIDsLoop_facts:
  assumes "encodeRouteIDsLoop marshal pats out = Some m" "\<And>p r. out p = Some r \<Longrightarrow> marshal (JString p) = Inr r"
    "m p = Some r"
  shows "marshal (JString p) = Inr r"
  using assms
proof (induction pats arbitrary: out)
  case (Cons pat pats)
  show ?case
  proof (cases "out pat = None")
    case True
    with Cons.prems(1) obtain raw where raw: "marshal (JString pat) = Inr raw"
      "encodeRouteIDsLoop marshal pats (out(pat \<mapsto> raw)) = Some m" by (auto split: sum.splits)
    show ?thesis by (rule Cons.IH[OF raw(2) _ Cons.prems(3)]) (use raw(1) Cons.prems(2) in \<open>auto split: if_splits\<close>)
  qed (use Cons in auto)
qed simp

lemma routeId_text:
  assumes "encodeRouteIDs marshal pats = Some (pc_encodedRouteIDs C)"
  shows "okText (let d = dst @ ''{'' @ keyText ''routeId'' in
           case pc_encodedRouteIDs C pat of
             Some enc \<Rightarrow> if length enc > 0 then Inr (d @ enc) else encodeJSONValue marshal d (JString pat)
           | None \<Rightarrow> encodeJSONValue marshal d (JString pat)) =
    map_option (\<lambda>t. dst @ ''{'' @ t) (fieldText marshal (''routeId'', JString pat))"
  using encodeRouteIDsLoop_facts[OF assms[unfolded encodeRouteIDs_def], of pat]
  by (auto simp: Let_def okText_def fieldText_def encodeJSONValue_def split: option.splits sum.splits)

text \<open>The payloads that reach the writer: without the initial fields, or with those of the server.\<close>

definition noInitial :: "'d clientPayload \<Rightarrow> bool" where
  "noInitial p = (cp_Manifest p = [] \<and> cp_AppVersion p = [] \<and> cp_VersionPoll p = None)"

lemma initial_cases:
  assumes "noInitial q" "p = q \<or> p = applyInitialPayloadFields man ver poll q"
  shows "cp_Manifest p = [] \<or> cp_Manifest p = man"
    and "(cp_AppVersion p = [] \<and> cp_VersionPoll p = None) \<or> (cp_AppVersion p = ver \<and> ver \<noteq> [] \<and> cp_VersionPoll p = Some poll)"
  using assms by (cases "ver = []"; auto simp: noInitial_def applyInitialPayloadFields_def Let_def)+

lemma payloadTail_finishes:
  assumes "encoderLaws marshal" "cacheFor marshal man ver poll pats C" "noInitial q"
    "p = q \<or> p = applyInitialPayloadFields man ver poll q"
  shows "finishes marshal (writePayloadTail marshal C p) (tl (payloadFields p))"
proof -
  note laws = assms(1) and man = initial_cases(1)[OF assms(3,4)] and ver = initial_cases(2)[OF assms(3,4)]
  have m: "adds marshal (\<lambda>d. if length (cp_Manifest p) > 0 then
      (if length (pc_encodedManifest C) > 0 then Inr (d @ pc_encodedManifest C)
       else encodeJSONValue marshal (d @ '','' @ keyText ''manifest'') (JManifest (cp_Manifest p))) else Inr d)
      (if length (cp_Manifest p) > 0 then [(''manifest'', JManifest (cp_Manifest p))] else [])"
    using assms(2) man by (intro adds_if adds_cached) (auto simp: cacheFor_def)
  have a: "adds marshal (\<lambda>d. if cp_AppVersion p \<noteq> [] then
      (if length (pc_encodedAppVersion C) > 0 then Inr (d @ pc_encodedAppVersion C)
       else encodeJSONString marshal (d @ '','' @ keyText ''appVersion'') (cp_AppVersion p)) else Inr d)
      (if cp_AppVersion p \<noteq> [] then [(''appVersion'', JString (cp_AppVersion p))] else [])"
    using assms(2) ver by (intro adds_if adds_cached) (auto simp: cacheFor_def encodeAppVersionField_def)
  have v: "adds marshal (\<lambda>d. case cp_VersionPoll p of None \<Rightarrow> Inr d
      | Some v \<Rightarrow> if length (pc_encodedVersionPoll C) > 0 then Inr (d @ pc_encodedVersionPoll C)
          else encodeJSONValue marshal (d @ '','' @ keyText ''versionPoll'') (JVersionPoll v))
      (case cp_VersionPoll p of None \<Rightarrow> [] | Some v \<Rightarrow> [(''versionPoll'', JVersionPoll v)])"
    using assms(2) ver adds_cached[of marshal "''versionPoll''" "JVersionPoll poll" "pc_encodedVersionPoll C"]
    by (auto simp: cacheFor_def encodeVersionPollField_def adds_def[of _ Inr] okText_def)
  have int: "marshal (JInt (cp_Status p)) = Inr (formatInt (cp_Status p))" using laws by (simp add: encoderLaws_def)
  have "finishes marshal (writePayloadTail marshal C p) ([(''data'', JAny (cp_Data p))] @
    (if length (cp_LayoutData p) > 0 then [(''layoutData'', JAnys (cp_LayoutData p))] else []) @
    [(''form'', JAny (cp_Form p))] @ [(''url'', JString (cp_URL p))] @
    [(''params'', case cp_Params p of None \<Rightarrow> JNull | Some m \<Rightarrow> JStringMap m)] @ [(''status'', JInt (cp_Status p))] @
    [(''error'', case cp_PageError p of None \<Rightarrow> JNull | Some e \<Rightarrow> JPageError e)] @
    (if length (cp_Manifest p) > 0 then [(''manifest'', JManifest (cp_Manifest p))] else []) @
    (if length (cp_Deps p) > 0 then [(''deps'', JStrings (cp_Deps p))] else []) @
    (if cp_AppVersion p \<noteq> [] then [(''appVersion'', JString (cp_AppVersion p))] else []) @
    (if cp_CSRFToken p \<noteq> [] then [(''csrfToken'', JString (cp_CSRFToken p))] else []) @
    (case cp_VersionPoll p of None \<Rightarrow> [] | Some v \<Rightarrow> [(''versionPoll'', JVersionPoll v)]) @ [])"
    unfolding writePayloadTail_def
    by (intro finishes_bind finishes_end m a v adds_value adds_if adds_string[OF laws] adds_params[OF laws]
        adds_error[OF laws] adds_text[where marshal = marshal and v = "JInt (cp_Status p)", OF int])
  then show ?thesis by (simp add: payloadFields_def)
qed

text \<open>C16. The splice writer is the encoder: with the server's caches filled as \<^verbatim>\<open>New\<close> fills
  them, for a data request's payload and for an initial render's payload alike, writing the
  fields one by one with the pre-encoded slices and the fast paths for plain strings and maps
  yields the bytes of encoding the whole structure, and fails exactly when a field does not
  encode.\<close>

theorem payload_splice_equiv:
  assumes "encoderLaws marshal" "cacheFor marshal man ver poll pats C" "noInitial q"
    "p = q \<or> p = applyInitialPayloadFields man ver poll q"
  shows "okText (writePayloadJSON marshal C [] p) = objectText marshal (payloadFields p)"
proof -
  have r: "encodeRouteIDs marshal pats = Some (pc_encodedRouteIDs C)" using assms(2) by (simp add: cacheFor_def)
  have f: "payloadFields p = (''routeId'', JString (cp_RouteID p)) # tl (payloadFields p)" by (simp add: payloadFields_def)
  show ?thesis
    using routeId_text[OF r, of "[]" "cp_RouteID p"] payloadTail_finishes[OF assms, unfolded finishes_def]
    unfolding writePayloadJSON_def objectText_def by (subst f)
      (auto simp: okText_def rbind_def joinStr_commas option.map_comp comp_def split: sum.splits option.splits)
qed

definition demoMarshal :: "unit encoder" where
  "demoMarshal v = (case v of
      JInt n \<Rightarrow> Inr (formatInt n)
    | JString s \<Rightarrow> Inr (dq @ s @ dq)
    | JStringMap m \<Rightarrow> Inr (''{'' @ joinStr '','' (map (pairText m) (sortedKeys m)) @ ''}'')
    | JManifest _ \<Rightarrow> Inr ''[]''
    | _ \<Rightarrow> Inr ''null'')"

definition demoCache :: payloadCache where
  "demoCache = \<lparr>pc_encodedManifest = '','' @ keyText ''manifest'' @ ''[]'',
     pc_encodedAppVersion = '','' @ keyText ''appVersion'' @ dq @ ''v1'' @ dq,
     pc_encodedVersionPoll = '','' @ keyText ''versionPoll'' @ ''null'', pc_encodedRouteIDs = [''/a'' \<mapsto> dq @ ''/a'' @ dq]\<rparr>"

definition demoPoll :: clientVersionPoll where
  "demoPoll = \<lparr>cv_IntervalMS = 60000, cv_Disabled = False\<rparr>"

definition demoPayload :: "unit clientPayload" where
  "demoPayload = buildClientPayload ''http://h/a'' ''/a'' (Some ''tok'') None [] (Some [(''id'', ''7'')]) None"

theorem payload_splice_equiv_witness:
  "okText (writePayloadJSON demoMarshal demoCache [] (applyInitialPayloadFields [] ''v1'' demoPoll demoPayload)) =
   objectText demoMarshal (payloadFields (applyInitialPayloadFields [] ''v1'' demoPoll demoPayload))"
proof (rule payload_splice_equiv)
  show "encoderLaws demoMarshal" by (simp add: encoderLaws_def demoMarshal_def)
  show "cacheFor demoMarshal [] ''v1'' demoPoll [''/a''] demoCache"
    by (simp add: cacheFor_def demoCache_def demoMarshal_def encodePayloadField_def encodeAppVersionField_def
        encodeVersionPollField_def encodeRouteIDs_def keyText_def)
  show "noInitial demoPayload" by (simp add: noInitial_def demoPayload_def buildClientPayload_def)
qed simp

end
