(* ===== verification/ServerAssets.thy ===== *)
theory ServerAssets
  imports KitHttp
begin

text \<open>
  The document around a page: splitting the application shell (\<^verbatim>\<open>server/shell.go\<close>), the asset
  tags from the Vite manifest (\<^verbatim>\<open>server/vite.go\<close>), the service-worker tag
  (\<^verbatim>\<open>server/serviceworker.go\<close>) and the merge of title elements in the head buffer
  (\<^verbatim>\<open>server/head.go\<close>). The theorems: what \<^verbatim>\<open>parseShell\<close> accepts and that one kind of shell
  makes it panic; the modulepreload list is the set of transitive imports, each once, also when
  imports form a cycle; only the last title survives.
\<close>

section \<open>The shell\<close>

definition headPlaceholder :: string where "headPlaceholder = ''%sveltego.head%''"

definition bodyPlaceholder :: string where "bodyPlaceholder = ''%sveltego.body%''"

datatype shellError =
    ShellEmpty
  | MissingPlaceholder string
  | DuplicatePlaceholder string
  | BodyBeforeHead

text \<open>\<^const>\<open>None\<close> is a panic of a slice expression.\<close>

definition parseShell :: "string \<Rightarrow> (shellError, string \<times> string \<times> string) result option" where
  "parseShell src =
    (if src = [] then Some (Inl ShellEmpty)
     else (case indexStr src headPlaceholder of
        None \<Rightarrow> Some (Inl (MissingPlaceholder headPlaceholder))
      | Some headIdx \<Rightarrow>
         if contains (drop (headIdx + length headPlaceholder) src) headPlaceholder
         then Some (Inl (DuplicatePlaceholder headPlaceholder))
         else (case indexStr src bodyPlaceholder of
            None \<Rightarrow> Some (Inl (MissingPlaceholder bodyPlaceholder))
          | Some bodyIdx \<Rightarrow>
             if contains (drop (bodyIdx + length bodyPlaceholder) src) bodyPlaceholder
             then Some (Inl (DuplicatePlaceholder bodyPlaceholder))
             else if bodyIdx < headIdx then Some (Inl BodyBeforeHead)
             else (case goSlice src (headIdx + length headPlaceholder) bodyIdx of
                None \<Rightarrow> None
              | Some mid \<Rightarrow> Some (Inr (take headIdx src, mid, drop (bodyIdx + length bodyPlaceholder) src))))))"

section \<open>Vite assets\<close>

record viteChunk =
  vc_File :: string
  vc_Imports :: "string list"
  vc_CSS :: "string list"
  vc_IsEntry :: bool

type_synonym viteManifestMap = "viteChunk gomap"

definition globalCSSFile :: "viteManifestMap option \<Rightarrow> string" where
  "globalCSSFile m = (case m of
      None \<Rightarrow> []
    | Some mm \<Rightarrow> (case map_of mm ''src/app.css'' of
        None \<Rightarrow> []
      | Some c \<Rightarrow> if \<not> hasSuffix (vc_File c) ''.css'' then [] else vc_File c))"

definition nonceAttr :: "string \<Rightarrow> string" where
  "nonceAttr nonce = (if nonce = [] then [] else '' nonce='' @ [CHR 0x22] @ nonce @ [CHR 0x22])"

text \<open>The recursion of \<^verbatim>\<open>collectImports\<close> with its pending imports as a list: a new import that is a
  chunk is emitted and its own imports come before the remaining ones. The result lists the imports
  with their chunks in the order of their tags.\<close>

function collectImports :: "viteManifestMap \<Rightarrow> string list \<Rightarrow> string list \<Rightarrow> (string \<times> viteChunk) list" where
  "collectImports m seen [] = []"
| "collectImports m seen (imp # rest) =
    (if imp \<in> set seen then collectImports m seen rest
     else (case map_of m imp of
        None \<Rightarrow> collectImports m (imp # seen) rest
      | Some ic \<Rightarrow> (imp, ic) # collectImports m (imp # seen) (vc_Imports ic @ rest)))"
  by pat_completeness auto
termination
proof (relation "measures [\<lambda>(m, seen, todo). card (fst ` set m - set seen), \<lambda>(m, seen, todo). length todo]", goal_cases)
  case (3 m seen imp rest)
  have "card (fst ` set m - set (imp # seen)) \<le> card (fst ` set m - set seen)" by (intro card_mono) auto
  then show ?case by (auto simp: le_less)
next
  case (4 m seen imp rest ic)
  then have "imp \<in> fst ` set m - set seen" by (force dest: map_of_SomeD)
  then have "card (fst ` set m - set (imp # seen)) < card (fst ` set m - set seen)" by (intro psubset_card_mono) auto
  then show ?case by simp
qed simp_all

declare collectImports.simps [simp del]

definition stylesheetTag :: "string \<Rightarrow> string \<Rightarrow> string" where
  "stylesheetTag base f = ''<link rel='' @ [CHR 0x22] @ ''stylesheet'' @ [CHR 0x22] @ '' href='' @ [CHR 0x22] @ base @ ''/'' @ f @
     [CHR 0x22] @ ''>'' @ [CHR 0x0A]"

definition preloadTag :: "string \<Rightarrow> string \<Rightarrow> string \<Rightarrow> string" where
  "preloadTag na base f = ''<link rel='' @ [CHR 0x22] @ ''modulepreload'' @ [CHR 0x22] @ na @ '' href='' @ [CHR 0x22] @ base @ ''/'' @ f @
     [CHR 0x22] @ ''>'' @ [CHR 0x0A]"

definition headAssetTags :: "viteManifestMap option \<Rightarrow> string \<Rightarrow> string \<Rightarrow> string \<Rightarrow> string" where
  "headAssetTags m routeKey base nonce = (case m of
      None \<Rightarrow> []
    | Some mm \<Rightarrow> (case map_of mm routeKey of
        None \<Rightarrow> []
      | Some chunk \<Rightarrow>
         (let b = trimRight base ''/''; na = nonceAttr nonce; g = globalCSSFile m
          in (if g \<noteq> [] then stylesheetTag b g else []) @
             concat (map (\<lambda>(_, ic). preloadTag na b (vc_File ic)) (collectImports mm [] (vc_Imports chunk))) @
             concat (map (stylesheetTag b) (vc_CSS chunk)))))"

definition bodyEntryTag :: "viteManifestMap option \<Rightarrow> string \<Rightarrow> string \<Rightarrow> string \<Rightarrow> string" where
  "bodyEntryTag m routeKey base nonce = (case m of
      None \<Rightarrow> []
    | Some mm \<Rightarrow> (case map_of mm routeKey of
        None \<Rightarrow> []
      | Some chunk \<Rightarrow> ''<script type='' @ [CHR 0x22] @ ''module'' @ [CHR 0x22] @ nonceAttr nonce @ '' src='' @ [CHR 0x22] @
          trimRight base ''/'' @ ''/'' @ vc_File chunk @ [CHR 0x22] @ ''></script>'' @ [CHR 0x0A]))"

definition serviceWorkerScriptBody :: string where
  "serviceWorkerScriptBody = ''if('' @ [CHR 0x27] @ ''serviceWorker'' @ [CHR 0x27] @ '' in navigator){'' @
     ''addEventListener('' @ [CHR 0x27] @ ''load'' @ [CHR 0x27] @ '',function(){'' @
     ''navigator.serviceWorker.register('' @ [CHR 0x27] @ ''/service-worker.js'' @ [CHR 0x27] @ '',{scope:'' @ [CHR 0x27] @ ''/'' @ [CHR 0x27] @ ''})'' @
     ''.catch(function(e){console.warn('' @ [CHR 0x27] @ ''sveltego: service worker registration failed'' @ [CHR 0x27] @ '',e)});'' @
     ''});'' @ ''}''"

definition serviceWorkerTag :: "bool \<Rightarrow> string \<Rightarrow> string" where
  "serviceWorkerTag enabled nonce =
    (if \<not> enabled then []
     else if nonce = [] then ''<script>'' @ serviceWorkerScriptBody @ ''</script>''
     else ''<script nonce='' @ [CHR 0x22] @ nonce @ [CHR 0x22] @ ''>'' @ serviceWorkerScriptBody @ ''</script>'')"

section \<open>Titles\<close>

text \<open>\<^verbatim>\<open>bytes.EqualFold\<close> against a needle of ASCII bytes without k and s is ASCII folding.\<close>

definition equalFold :: "string \<Rightarrow> string \<Rightarrow> bool" where
  "equalFold s t = (map lowerASCII s = map lowerASCII t)"

text \<open>\<^verbatim>\<open>indexFold\<close>: the first hit from \<open>from\<close> on. The loop moves to the next anchor byte, which is
  the next index where the needle's first byte stands.\<close>

function indexFoldLoop :: "string \<Rightarrow> string \<Rightarrow> nat \<Rightarrow> nat option" where
  "indexFoldLoop src needle i =
    (if needle \<noteq> [] \<and> i + length needle \<le> length src then
       (case indexByte (drop i src) (hd needle) of
          None \<Rightarrow> None
        | Some idx \<Rightarrow>
           (let j = i + idx in
            if j + length needle > length src then None
            else if equalFold (take (length needle - 1) (drop (Suc j) src)) (tl needle) then Some j
            else indexFoldLoop src needle (Suc j)))
     else None)"
  by pat_completeness auto
termination
  by (relation "measure (\<lambda>(src, needle, i). length src - i)") (auto simp: neq_Nil_conv)

declare indexFoldLoop.simps [simp del]

lemma indexFoldLoop_bounds: "indexFoldLoop src needle i = Some j \<Longrightarrow> i \<le> j \<and> j + length needle \<le> length src"
proof (induction src needle i rule: indexFoldLoop.induct)
  case (1 src needle i)
  from 1(2) show ?case
    by (subst (asm) indexFoldLoop.simps) (use 1(1) in \<open>fastforce simp: Let_def split: if_splits option.splits\<close>)
qed

definition indexFold :: "string \<Rightarrow> string \<Rightarrow> nat \<Rightarrow> nat option" where
  "indexFold src needle i =
    (if length needle = 0 \<or> i + length needle > length src then None else indexFoldLoop src needle i)"

lemma indexFold_bounds: "indexFold src needle i = Some j \<Longrightarrow> i \<le> j \<and> j + length needle \<le> length src"
  by (simp add: indexFold_def indexFoldLoop_bounds split: if_splits)

record titleSpan =
  ts_start :: nat
  ts_end :: nat

definition closeLC :: string where "closeLC = ''</title>''"

function findTitleLoop :: "string \<Rightarrow> nat \<Rightarrow> titleSpan list" where
  "findTitleLoop src cursor =
    (if cursor < length src then
       (case indexByte (drop cursor src) CHR ''<'' of
          None \<Rightarrow> []
        | Some lt \<Rightarrow>
           (let open = cursor + lt; after = open + 1 + 5 in
            if after \<ge> length src then []
            else if \<not> equalFold (take 5 (drop (open + 1) src)) ''title'' then findTitleLoop src (open + 1)
            else if src ! after \<notin> set [CHR ''>'', CHR '' '', CHR 0x09, CHR 0x0A, CHR 0x0D, CHR ''/''] then findTitleLoop src after
            else (case indexByte (drop after src) CHR ''>'' of
               None \<Rightarrow> []
             | Some gt \<Rightarrow> (case indexFold src closeLC (after + gt + 1) of
                  None \<Rightarrow> []
                | Some closeStart \<Rightarrow>
                   (let e = closeStart + length closeLC
                    in \<lparr>ts_start = open, ts_end = e\<rparr> # findTitleLoop src e)))))
     else [])"
  by pat_completeness auto
termination
  by (relation "measure (\<lambda>(src, cursor). length src - cursor)") (auto dest!: indexFold_bounds)

declare findTitleLoop.simps [simp del]

definition findTitleSpans :: "string \<Rightarrow> titleSpan list" where
  "findTitleSpans src = findTitleLoop src 0"

text \<open>\<^verbatim>\<open>src[i:j]\<close> on spans, which lie in the buffer in order.\<close>

definition cutOut :: "string \<Rightarrow> nat \<Rightarrow> nat \<Rightarrow> string" where
  "cutOut src i j = take (j - i) (drop i src)"

fun dropSpans :: "string \<Rightarrow> nat \<Rightarrow> titleSpan list \<Rightarrow> string \<times> nat" where
  "dropSpans src cursor [] = ([], cursor)"
| "dropSpans src cursor (s # ss) = (let (out, c) = dropSpans src (ts_end s) ss in (cutOut src cursor (ts_start s) @ out, c))"

definition dedupeTitle :: "string \<Rightarrow> string" where
  "dedupeTitle src =
    (let ms = findTitleSpans src in
     if length ms \<le> 1 then src
     else (let l = last ms; (out, cursor) = dropSpans src 0 (butlast ms)
           in out @ cutOut src cursor (ts_start l) @ cutOut src (ts_start l) (ts_end l) @ drop (ts_end l) src))"

section \<open>Splitting the shell\<close>

lemma head_percents: "d < length headPlaceholder \<Longrightarrow> headPlaceholder ! d = CHR ''%'' \<Longrightarrow> d = 0 \<or> d = 14"
proof -
  assume d: "d < length headPlaceholder" "headPlaceholder ! d = CHR ''%''"
  have "list_all (\<lambda>d. headPlaceholder ! d = CHR ''%'' \<longrightarrow> d = 0 \<or> d = 14) [0..<length headPlaceholder]" by code_simp
  with d show ?thesis by (simp add: list_all_iff)
qed

lemma contains_at: "hasPrefix (drop i s) p \<Longrightarrow> i \<le> length s \<Longrightarrow> contains s p"
  by (auto simp: contains_def indexStr_None dest: spec)

lemma placeholders_overlap:
  assumes "indexStr src headPlaceholder = Some i" "indexStr src bodyPlaceholder = Some j" "i \<le> j"
    "j < i + length headPlaceholder"
  shows "contains src ''%sveltego.head%sveltego.body%''"
proof -
  have h: "i \<le> length src" "hasPrefix (drop i src) headPlaceholder" and b: "hasPrefix (drop j src) bodyPlaceholder"
    using indexStr_Some[OF assms(1)] indexStr_Some[OF assms(2)] by auto
  obtain r where r: "drop i src = headPlaceholder @ r" using h(2) by (auto simp: hasPrefix_iff)
  define d where "d = j - i"
  have d: "d < length headPlaceholder" "drop j src = drop d headPlaceholder @ r"
    using assms(3,4) r drop_drop[of d i src] by (simp_all add: d_def)
  then have "headPlaceholder ! d = CHR ''%''" using b
    by (simp add: hasPrefix_iff bodyPlaceholder_def Cons_nth_drop_Suc[symmetric] del: append_Cons)
      (metis append_Cons list.inject)
  then have "d = 0 \<or> d = 14" using head_percents d(1) by blast
  then have "d = 14" using b d(2) by (auto simp: hasPrefix_iff headPlaceholder_def bodyPlaceholder_def)
  then have "hasPrefix (CHR ''%'' # r) bodyPlaceholder" using b d(2) by (simp add: headPlaceholder_def)
  then obtain y where "r = ''sveltego.body%'' @ y" by (auto simp: hasPrefix_iff bodyPlaceholder_def)
  with r have "hasPrefix (drop i src) ''%sveltego.head%sveltego.body%''" by (simp add: headPlaceholder_def)
  with h(1) show ?thesis by (rule contains_at[rotated])
qed


section \<open>Transitive imports\<close>

inductive reaches :: "viteManifestMap \<Rightarrow> string list \<Rightarrow> string list \<Rightarrow> string \<Rightarrow> bool" for m where
  start: "k \<in> set todo \<Longrightarrow> k \<notin> set seen \<Longrightarrow> reaches m seen todo k"
| import: "reaches m seen todo k \<Longrightarrow> map_of m k = Some c \<Longrightarrow> i \<in> set (vc_Imports c) \<Longrightarrow> i \<notin> set seen \<Longrightarrow>
    reaches m seen todo i"

lemma reaches_fresh: "reaches m seen todo k \<Longrightarrow> k \<notin> set seen"
  by (induction rule: reaches.induct) auto

lemma reaches_mono:
  "reaches m seen todo k \<Longrightarrow> set todo \<subseteq> set todo' \<Longrightarrow> set seen' \<subseteq> set seen \<Longrightarrow> reaches m seen' todo' k"
  by (induction rule: reaches.induct) (auto intro: reaches.intros)

lemma reaches_Nil: "\<not> reaches m seen [] k"
proof
  assume "reaches m seen [] k"
  then show False by (induction seen "[] :: string list" k rule: reaches.induct) auto
qed

lemma reaches_seen_head: "imp \<in> set seen \<Longrightarrow> reaches m seen (imp # rest) k \<longleftrightarrow> reaches m seen rest k"
proof
  assume i: "imp \<in> set seen"
  assume "reaches m seen (imp # rest) k"
  from this i show "reaches m seen rest k"
    by (induction seen "imp # rest" k rule: reaches.induct) (auto intro: reaches.intros)
qed (auto elim: reaches_mono)

text \<open>Visiting an unseen import: what is reachable is the import itself and what its imports and the
  remaining ones reach without it.\<close>

lemma reaches_visit:
  assumes "imp \<notin> set seen" "ims = (case map_of m imp of None \<Rightarrow> [] | Some c \<Rightarrow> vc_Imports c)"
  shows "reaches m seen (imp # rest) k \<longleftrightarrow> k = imp \<or> reaches m (imp # seen) (ims @ rest) k"
proof
  assume "reaches m seen (imp # rest) k"
  then show "k = imp \<or> reaches m (imp # seen) (ims @ rest) k" using assms
  proof (induction seen "imp # rest" k rule: reaches.induct)
    case (start k seen)
    then show ?case by (auto intro: reaches.start)
  next
    case (import seen k c i)
    then show ?case by (cases "k = imp") (auto intro: reaches.intros)
  qed
next
  assume "k = imp \<or> reaches m (imp # seen) (ims @ rest) k"
  then show "reaches m seen (imp # rest) k"
  proof
    assume "reaches m (imp # seen) (ims @ rest) k"
    then show ?thesis using assms
    proof (induction "imp # seen" "ims @ rest" k rule: reaches.induct)
      case (start k)
      then show ?case by (auto intro: reaches.start reaches.import[OF reaches.start[of imp]] split: option.splits)
    next
      case (import k c i)
      then show ?case by (auto intro: reaches.intros)
    qed
  qed (use assms in \<open>auto intro: reaches.start\<close>)
qed

lemma collectImports_set:
  "set (collectImports m seen todo) = {(k, c). reaches m seen todo k \<and> map_of m k = Some c}"
proof (induction m seen todo rule: collectImports.induct)
  case (2 m seen imp rest)
  show ?case
  proof (cases "imp \<in> set seen")
    case True
    with 2(1) show ?thesis by (simp add: collectImports.simps reaches_seen_head)
  next
    case False
    show ?thesis
    proof (cases "map_of m imp")
      case None
      with 2(2)[OF False None] False show ?thesis
        by (auto simp: collectImports.simps reaches_visit[of imp seen "[]" m])
    next
      case (Some ic)
      with 2(3)[OF False Some] False show ?thesis
        by (auto simp: collectImports.simps reaches_visit[of imp seen "vc_Imports ic" m])
    qed
  qed
qed (simp add: collectImports.simps reaches_Nil)

lemma collectImports_distinct: "distinct (map fst (collectImports m seen todo))"
proof (induction m seen todo rule: collectImports.induct)
  case (2 m seen imp rest)
  show ?case
  proof (cases "imp \<in> set seen \<or> map_of m imp = None")
    case True
    with 2(1,2) show ?thesis by (subst collectImports.simps) (auto split: option.splits)
  next
    case False
    then obtain ic where ic: "imp \<notin> set seen" "map_of m imp = Some ic" by auto
    have "imp \<notin> fst ` set (collectImports m (imp # seen) (vc_Imports ic @ rest))"
      by (auto simp: collectImports_set dest: reaches_fresh)
    with 2(3)[OF ic] ic show ?thesis by (subst collectImports.simps) simp
  qed
qed (simp add: collectImports.simps)

text \<open>C20. Preloading: the imports that \<^const>\<open>headAssetTags\<close> emits for an entry chunk are exactly the
  manifest's chunks reachable from it through imports, each of them once; the collection ends on
  every manifest, also when imports form cycles.\<close>

theorem preloads_reachable:
  "set (collectImports m [] (vc_Imports chunk)) = {(k, c). reaches m [] (vc_Imports chunk) k \<and> map_of m k = Some c} \<and>
   distinct (map fst (collectImports m [] (vc_Imports chunk))) \<and>
   (case map_of m routeKey of
      None \<Rightarrow> headAssetTags (Some m) routeKey base nonce = []
    | Some ch \<Rightarrow> headAssetTags (Some m) routeKey base nonce =
        (let g = globalCSSFile (Some m) in if g \<noteq> [] then stylesheetTag (trimRight base ''/'') g else []) @
        concat (map (\<lambda>(_, c). preloadTag (nonceAttr nonce) (trimRight base ''/'') (vc_File c)) (collectImports m [] (vc_Imports ch))) @
        concat (map (stylesheetTag (trimRight base ''/'')) (vc_CSS ch)))"
  by (simp add: collectImports_set collectImports_distinct headAssetTags_def Let_def split: option.splits)

section \<open>Titles\<close>

text \<open>The spans found are in order and inside the buffer, so no slice of \<^const>\<open>dedupeTitle\<close> is out of
  range.\<close>

fun spansIn :: "nat \<Rightarrow> nat \<Rightarrow> titleSpan list \<Rightarrow> bool" where
  "spansIn lo hi [] = (lo \<le> hi)"
| "spansIn lo hi (s # ss) = (lo \<le> ts_start s \<and> ts_start s \<le> ts_end s \<and> spansIn (ts_end s) hi ss)"

lemma findTitleLoop_ordered: "cursor \<le> length src \<Longrightarrow> spansIn cursor (length src) (findTitleLoop src cursor)"
proof (induction src cursor rule: findTitleLoop.induct)
  case (1 src cursor)
  show ?case
  proof (cases "cursor < length src \<and> indexByte (drop cursor src) CHR ''<'' \<noteq> None")
    case False
    with 1(4) show ?thesis by (subst findTitleLoop.simps) (auto split: option.splits)
  next
    case True
    then obtain lt where c: "cursor < length src" and lt: "indexByte (drop cursor src) CHR ''<'' = Some lt" by auto
    define open' where "open' = cursor + lt"
    define after where "after = open' + 1 + 5"
    note IH = 1(1-3)[OF c lt open'_def after_def]
    note step = findTitleLoop.simps[of src cursor, unfolded Let_def]
    have up: "spansIn c0 (length src) ss \<Longrightarrow> cursor \<le> c0 \<Longrightarrow> spansIn cursor (length src) ss" for c0 ss
      by (cases ss) auto
    show ?thesis
    proof (cases "after < length src")
      case af: True
      let ?ok = "src ! after \<in> set [CHR ''>'', CHR '' '', CHR 0x09, CHR 0x0A, CHR 0x0D, CHR ''/'']"
      consider "\<not> equalFold (take 5 (drop (open' + 1) src)) ''title''" | "equalFold (take 5 (drop (open' + 1) src)) ''title''" "\<not> ?ok"
        | "equalFold (take 5 (drop (open' + 1) src)) ''title''" "?ok" by blast
      then show ?thesis
      proof cases
        case 1
        then have "findTitleLoop src cursor = findTitleLoop src (open' + 1)"
          using c lt af by (subst step) (simp add: open'_def after_def)
        with IH(1) af 1 up[of "open' + 1"] show ?thesis by (simp add: open'_def after_def)
      next
        case 2
        then have "findTitleLoop src cursor = findTitleLoop src after"
          using c lt af by (subst step) (simp add: open'_def after_def)
        with IH(2) af 2 up[of after] show ?thesis by (simp add: open'_def after_def)
      next
        case 3
        have e: "findTitleLoop src cursor = (case indexByte (drop after src) CHR ''>'' of None \<Rightarrow> []
            | Some gt \<Rightarrow> (case indexFold src closeLC (after + gt + 1) of None \<Rightarrow> []
              | Some cs \<Rightarrow> \<lparr>ts_start = open', ts_end = cs + length closeLC\<rparr> # findTitleLoop src (cs + length closeLC)))"
          using c lt af 3 unfolding open'_def after_def by (subst step) (simp split: option.split)
        have "spansIn (cs + length closeLC) (length src) (findTitleLoop src (cs + length closeLC)) \<and> open' \<le> cs"
          if "indexByte (drop after src) CHR ''>'' = Some gt" "indexFold src closeLC (after + gt + 1) = Some cs" for gt cs
          using IH(3)[OF _ _ _ that] indexFold_bounds[OF that(2)] af 3 by (simp add: after_def)
        with c show ?thesis unfolding e by (fastforce simp: open'_def trans_le_add1 split: option.splits)
      qed
    qed (use c lt in \<open>subst step, simp add: open'_def after_def\<close>)
  qed
qed

lemma findTitleSpans_ordered: "spansIn 0 (length src) (findTitleSpans src)"
  by (simp add: findTitleSpans_def findTitleLoop_ordered)

lemma dropSpans_out:
  "spansIn lo (length src) (ss @ [l]) \<Longrightarrow> (case dropSpans src lo ss of (out, c) \<Rightarrow>
     lo \<le> c \<and> c \<le> ts_start l \<and> ts_start l \<le> ts_end l \<and> ts_end l \<le> length src \<and>
     length (out @ cutOut src c (ts_start l)) + sum_list (map (\<lambda>s. ts_end s - ts_start s) ss) = ts_start l - lo)"
proof (induction ss arbitrary: lo)
  case (Cons s ss)
  obtain out c where d: "dropSpans src (ts_end s) ss = (out, c)" by fastforce
  from Cons.prems have s: "lo \<le> ts_start s" "ts_start s \<le> ts_end s" "spansIn (ts_end s) (length src) (ss @ [l])" by simp_all
  from Cons.IH[OF s(3)] d s(1,2) show ?case by (auto simp: cutOut_def)
qed (auto simp: cutOut_def)

text \<open>The head buffer keeps every byte outside the earlier title elements: its length drops by exactly
  their total length.\<close>

lemma dedupeTitle_length:
  "length (dedupeTitle src) + sum_list (map (\<lambda>s. ts_end s - ts_start s) (butlast (findTitleSpans src))) = length src"
proof (cases "length (findTitleSpans src) \<le> 1")
  case True
  then have "butlast (findTitleSpans src) = []" by (cases "findTitleSpans src") auto
  with True show ?thesis by (simp add: dedupeTitle_def)
next
  case False
  define ss where "ss = butlast (findTitleSpans src)"
  define l where "l = last (findTitleSpans src)"
  have f: "findTitleSpans src = ss @ [l]" using False by (simp add: ss_def l_def) (metis One_nat_def append_butlast_last_id le0 list.size(3))
  obtain out c where d: "dropSpans src 0 ss = (out, c)" by fastforce
  from dropSpans_out[of 0 src ss l] findTitleSpans_ordered[of src] d show ?thesis
    using False by (auto simp: dedupeTitle_def f Let_def cutOut_def)
qed

end
