(* ===== verification/ServerStatic.thy ===== *)
theory ServerStatic
  imports KitHttp Segments
begin

text \<open>
  What the server answers without running the request pipeline: static files
  (\<^verbatim>\<open>server/static.go\<close>), prerendered pages (\<^verbatim>\<open>server/prerender_serve.go\<close>), the version
  endpoint (\<^verbatim>\<open>server/version.go\<close>), and the route summaries of \<^verbatim>\<open>server/routes.go\<close>. The file
  system, float parsing, the MIME database and the hash are parameters. The theorems: a path that
  leaves the root or names it is refused and every other one maps to its plain segments, and a
  protected page is only served through its gate.
\<close>

section \<open>Helpers of net/http and path\<close>

definition httpError :: "string \<Rightarrow> int \<Rightarrow> ResponseWriter \<Rightarrow> ResponseWriter" where
  "httpError msg code w =
    rwWrite (msg @ [CHR 0x0A]) (rwWriteHeader code (rwSet ''X-Content-Type-Options'' ''nosniff''
      (rwSet ''Content-Type'' ''text/plain; charset=utf-8'' (w\<lparr>rw_Header := hDel ''Content-Length'' (rw_Header w)\<rparr>))))"

definition httpNotFound :: "ResponseWriter \<Rightarrow> ResponseWriter" where
  "httpNotFound w = httpError ''404 page not found'' 404 w"

text \<open>\<^verbatim>\<open>path.Clean\<close> on a rooted path: empty and dot elements vanish, a double dot removes the element
  before it.\<close>

definition cleanStep :: "string list \<Rightarrow> string \<Rightarrow> string list" where
  "cleanStep st s = (if s = [] \<or> s = ''.'' then st else if s = ''..'' then butlast st else st @ [s])"

definition cleanRooted :: "string \<Rightarrow> string" where
  "cleanRooted p = ''/'' @ joinStr ''/'' (foldl cleanStep [] (splitByte CHR ''/'' p))"

section \<open>Static files\<close>

definition safeRelPath :: "string \<Rightarrow> string \<times> bool" where
  "safeRelPath urlPath =
    (if urlPath = [] then ([], False)
     else if containsAny urlPath [CHR 0x00] then ([], False)
     else if list_ex (\<lambda>seg. seg = ''..'') (splitByte CHR ''/'' urlPath) then ([], False)
     else (let cleaned = cleanRooted (''/'' @ urlPath) in
       if cleaned = ''/'' then ([], False) else (trimPrefix cleaned ''/'', True)))"

text \<open>\<open>pf\<close> parses a quality value: an error, or whether it is positive.\<close>

fun acceptsLoop :: "(string \<Rightarrow> bool option) \<Rightarrow> string \<Rightarrow> string list \<Rightarrow> bool" where
  "acceptsLoop pf tok [] = False"
| "acceptsLoop pf tok (part # parts) =
    (let seg = trimSpace part in
     if seg = [] then acceptsLoop pf tok parts
     else (let (name, qual) = (case indexByte seg CHR '';'' of
              Some i \<Rightarrow> (trimSpace (take i seg), trimSpace (drop (Suc i) seg))
            | None \<Rightarrow> (seg, []))
       in if map lowerASCII name \<noteq> map lowerASCII tok \<and> name \<noteq> ''*'' then acceptsLoop pf tok parts
          else if qual = [] then True
          else if \<not> hasPrefix qual ''q='' then True
          else (case pf (trimPrefix qual ''q='') of None \<Rightarrow> True | Some pos \<Rightarrow> pos)))"

definition acceptsEncoding :: "(string \<Rightarrow> bool option) \<Rightarrow> string \<Rightarrow> string \<Rightarrow> bool" where
  "acceptsEncoding pf header tok = (if header = [] then False else acceptsLoop pf tok (splitByte CHR '','' header))"

definition setCacheHeaders :: "string \<Rightarrow> string \<Rightarrow> int \<Rightarrow> ResponseWriter \<Rightarrow> ResponseWriter" where
  "setCacheHeaders urlPath immutablePrefix maxAge w =
    (if immutablePrefix \<noteq> [] \<and> hasPrefix urlPath immutablePrefix
     then rwSet ''Cache-Control'' (''public, max-age='' @ formatInt maxAge @ '', immutable'') w
     else rwSet ''Cache-Control'' ''public, max-age=0, must-revalidate'' w)"

fun hexDigits :: "nat \<Rightarrow> string" where
  "hexDigits n = (if n < 16 then [''0123456789abcdef'' ! n] else hexDigits (n div 16) @ [''0123456789abcdef'' ! (n mod 16)])"

declare hexDigits.simps [simp del]

definition formatHex :: "int \<Rightarrow> string" where
  "formatHex n = (if n < 0 then CHR ''-'' # hexDigits (nat (- n)) else hexDigits (nat n))"

record fileInfo =
  fi_IsDir :: bool
  fi_ModNano :: int
  fi_Size :: int

definition buildETag :: "fileInfo \<Rightarrow> string \<Rightarrow> string" where
  "buildETag info enc =
    (let tag = formatHex (fi_ModNano info) @ ''-'' @ formatHex (fi_Size info);
         tag' = (if enc \<noteq> [] then tag @ ''-'' @ enc else tag)
     in [CHR 0x22] @ tag' @ [CHR 0x22])"

text \<open>\<^verbatim>\<open>filepath.Ext\<close>: from the last dot of the last path element.\<close>

definition filepathExt :: "string \<Rightarrow> string" where
  "filepathExt p = (let base = last (splitByte CHR ''/'' p); parts = splitByte CHR ''.'' base
     in if length parts \<le> 1 then [] else ''.'' @ last parts)"

definition extTable :: "(string \<times> string) list" where
  "extTable =
    [(''.js'', ''application/javascript; charset=utf-8''), (''.mjs'', ''application/javascript; charset=utf-8''),
     (''.css'', ''text/css; charset=utf-8''), (''.html'', ''text/html; charset=utf-8''), (''.htm'', ''text/html; charset=utf-8''),
     (''.json'', ''application/json; charset=utf-8''), (''.svg'', ''image/svg+xml''), (''.txt'', ''text/plain; charset=utf-8''),
     (''.xml'', ''application/xml; charset=utf-8''), (''.wasm'', ''application/wasm''), (''.woff'', ''font/woff''),
     (''.woff2'', ''font/woff2''), (''.ico'', ''image/x-icon''), (''.webmanifest'', ''application/manifest+json'')]"

definition contentTypeFor :: "(nat \<Rightarrow> nat) \<Rightarrow> (string \<Rightarrow> string) \<Rightarrow> string \<Rightarrow> string" where
  "contentTypeFor lr mime rawPath =
    (let ext = toLower lr (filepathExt rawPath) in
     case map_of extTable ext of
       Some ct \<Rightarrow> ct
     | None \<Rightarrow> if mime ext \<noteq> [] then mime ext else ''application/octet-stream'')"

record staticHandler =
  sh_root :: string
  sh_immutablePrefix :: string
  sh_maxAgeSeconds :: int
  sh_etag :: bool
  sh_brotli :: bool
  sh_gzip :: bool

record StaticConfig =
  sc_Dir :: string
  sc_ImmutablePrefix :: string
  sc_MaxAge :: int
  sc_ETag :: bool
  sc_Brotli :: bool
  sc_Gzip :: bool

text \<open>The host: absolute paths, path join, file information (an error is \<^const>\<open>None\<close>), opening a
  file, the content server, float parsing, the lower-case mapping and the MIME table.\<close>

record host =
  ho_abs :: "string \<Rightarrow> (string, string) result"
  ho_join :: "string \<Rightarrow> string \<Rightarrow> string"
  ho_stat :: "string \<Rightarrow> fileInfo option"
  ho_open :: "string \<Rightarrow> bool"
  ho_read :: "string \<Rightarrow> string option"
  ho_serve :: "Request \<Rightarrow> string \<Rightarrow> fileInfo \<Rightarrow> ResponseWriter \<Rightarrow> ResponseWriter"
  ho_parseFloat :: "string \<Rightarrow> bool option"
  ho_lower :: "nat \<Rightarrow> nat"
  ho_mime :: "string \<Rightarrow> string"

text \<open>\<^verbatim>\<open>StaticHandler\<close>: a handler, or the message of the handler that answers every request with an
  error. Durations are in nanoseconds.\<close>

definition StaticHandler :: "host \<Rightarrow> StaticConfig \<Rightarrow> (string, staticHandler) result" where
  "StaticHandler H cfg =
    (let root = trimSpace (sc_Dir cfg) in
     if root = [] then Inl ''server: StaticConfig.Dir is empty''
     else (case ho_abs H root of
        Inl e \<Rightarrow> Inl (''server: resolve static dir: '' @ e)
      | Inr p \<Rightarrow> Inr \<lparr>sh_root = p,
          sh_immutablePrefix = (if sc_ImmutablePrefix cfg = [] then ''/_app/immutable/'' else sc_ImmutablePrefix cfg),
          sh_maxAgeSeconds = (if sc_MaxAge cfg \<le> 0 then 31536000 else sc_MaxAge cfg div 1000000000),
          sh_etag = sc_ETag cfg, sh_brotli = sc_Brotli cfg, sh_gzip = sc_Gzip cfg\<rparr>))"

definition negotiate :: "host \<Rightarrow> staticHandler \<Rightarrow> Request \<Rightarrow> string \<Rightarrow> fileInfo \<Rightarrow> string \<times> string \<times> string \<times> fileInfo" where
  "negotiate H h r rawPath rawInfo =
    (let accept = hGet ''Accept-Encoding'' (rq_Header r);
         try = (\<lambda>on tok ext. if on \<and> acceptsEncoding (ho_parseFloat H) accept tok then
                  (case ho_stat H (rawPath @ ext) of
                     Some info \<Rightarrow> if fi_IsDir info then None else Some (tok, tok, rawPath @ ext, info)
                   | None \<Rightarrow> None)
                else None)
     in case try (sh_brotli h) ''br'' ''.br'' of
          Some x \<Rightarrow> x
        | None \<Rightarrow> (case try (sh_gzip h) ''gzip'' ''.gz'' of
            Some x \<Rightarrow> x
          | None \<Rightarrow> ([], [], rawPath, rawInfo)))"

definition staticServeHTTP :: "host \<Rightarrow> staticHandler \<Rightarrow> Request \<Rightarrow> ResponseWriter \<Rightarrow> ResponseWriter" where
  "staticServeHTTP H h r w =
    (if rq_Method r \<noteq> ''GET'' \<and> rq_Method r \<noteq> ''HEAD'' then
       httpError ''method not allowed'' 405 (rwSet ''Allow'' ''GET, HEAD'' w)
     else (case safeRelPath (u_Path (rq_URL r)) of (rel, ok) \<Rightarrow>
       if \<not> ok then httpError ''invalid path'' 400 w
       else let rawPath = ho_join H (sh_root h) rel in
         (case ho_stat H rawPath of
            None \<Rightarrow> httpNotFound w
          | Some rawInfo \<Rightarrow>
             if fi_IsDir rawInfo then httpNotFound w
             else (case negotiate H h r rawPath rawInfo of (enc, encName, servePath, info) \<Rightarrow>
               let w1 = rwSet ''X-Content-Type-Options'' ''nosniff''
                     (setCacheHeaders (u_Path (rq_URL r)) (sh_immutablePrefix h) (sh_maxAgeSeconds h) w);
                   vary = (\<lambda>w. w\<lparr>rw_Header := hAdd ''Vary'' ''Accept-Encoding'' (rw_Header w)\<rparr>);
                   w2 = (if encName \<noteq> [] then vary (rwSet ''Content-Encoding'' encName w1)
                         else if sh_brotli h \<or> sh_gzip h then vary w1 else w1);
                   w3 = rwSet ''Content-Type'' (contentTypeFor (ho_lower H) (ho_mime H) rawPath) w2;
                   w4 = (if sh_etag h then rwSet ''ETag'' (buildETag info enc) w3 else w3)
               in if \<not> ho_open H servePath then httpNotFound w4 else ho_serve H r servePath info w4))))"

section \<open>Prerendered pages\<close>

record prerenderEntry =
  pe_Path :: string
  pe_File :: string
  pe_Protected :: bool

record prerenderTable =
  pt_root :: string
  pt_entries :: "string \<rightharpoonup> prerenderEntry"

text \<open>Reading the manifest: the file system answers with the bytes or with an error and whether it says
  that the file does not exist; the JSON decoder answers with the entries or an error. A missing file
  is no table; a later entry replaces an earlier one for the same path.\<close>

definition DefaultPrerenderOutDir :: string where "DefaultPrerenderOutDir = ''static/_prerendered''"

definition PrerenderManifestFilename :: string where "PrerenderManifestFilename = ''manifest.json''"

definition LoadPrerenderManifest ::
    "(string \<Rightarrow> string \<Rightarrow> string) \<Rightarrow> (string \<Rightarrow> (bool \<times> string, string) result) \<Rightarrow>
     (string \<Rightarrow> (string, prerenderEntry list) result) \<Rightarrow> string \<Rightarrow> string \<Rightarrow> (string, prerenderTable option) result" where
  "LoadPrerenderManifest join readFile unmarshal projectRoot dir =
    (let dir' = (if dir = [] then DefaultPrerenderOutDir else dir);
         root = join projectRoot dir';
         manifestPath = join root PrerenderManifestFilename
     in case readFile manifestPath of
          Inl (notExist, e) \<Rightarrow>
            if notExist then Inr None
            else Inl (''server: read prerender manifest '' @ manifestPath @ '': '' @ e)
        | Inr body \<Rightarrow> (case unmarshal body of
            Inl e \<Rightarrow> Inl (''server: parse prerender manifest '' @ manifestPath @ '': '' @ e)
          | Inr es \<Rightarrow> Inr (Some \<lparr>pt_root = root,
              pt_entries = foldl (\<lambda>m e. m(pe_Path e \<mapsto> e)) Map.empty es\<rparr>)))"

definition servePrerendered :: "host \<Rightarrow> prerenderTable option \<Rightarrow> (Request \<Rightarrow> bool) option \<Rightarrow> Request \<Rightarrow> ResponseWriter \<Rightarrow>
    ResponseWriter \<times> bool" where
  "servePrerendered H table auth r w = (case table of
      None \<Rightarrow> (w, False)
    | Some t \<Rightarrow>
       if rq_Method r \<noteq> ''GET'' \<and> rq_Method r \<noteq> ''HEAD'' then (w, False)
       else (case pt_entries t (u_Path (rq_URL r)) of
          None \<Rightarrow> (w, False)
        | Some entry \<Rightarrow>
           if pe_Protected entry \<and> \<not> (case auth of None \<Rightarrow> False | Some gate \<Rightarrow> gate r) then (w, False)
           else (case ho_read H (ho_join H (pt_root t) (pe_File entry)) of
              None \<Rightarrow> (w, False)
            | Some body \<Rightarrow>
               (let w' = rwWriteHeader 200 (rwSet ''X-Sveltego-Prerendered'' ''1'' (rwSet ''Content-Length'' (lenString body)
                     (rwSet ''Content-Type'' ''text/html; charset=utf-8'' w)))
                in if rq_Method r = ''HEAD'' then (w', True) else (rwWrite body w', True)))))"

section \<open>The version endpoint and the route table\<close>

definition versionEndpointPath :: string where "versionEndpointPath = ''/_app/version.json''"

definition computeAppVersion :: "(string \<Rightarrow> string) \<Rightarrow> string \<Rightarrow> string" where
  "computeAppVersion shortHash manifest = (if manifest = [] then [] else shortHash manifest)"

definition serveVersion :: "string \<Rightarrow> Request \<Rightarrow> ResponseWriter \<Rightarrow> ResponseWriter \<times> bool" where
  "serveVersion appVersion r w =
    (if u_Path (rq_URL r) \<noteq> versionEndpointPath then (w, False)
     else if rq_Method r \<noteq> ''GET'' \<and> rq_Method r \<noteq> ''HEAD'' then
       (httpError ''method not allowed'' 405 (rwSet ''Allow'' ''GET, HEAD'' w), True)
     else if appVersion = [] then (httpNotFound w, True)
     else (let body = ''{'' @ [CHR 0x22] @ ''version'' @ [CHR 0x22, CHR '':'', CHR 0x22] @ appVersion @ [CHR 0x22] @ ''}'';
               w' = rwWriteHeader 200 (rwSet ''Content-Length'' (lenString body) (rwSet ''Pragma'' ''no-cache''
                 (rwSet ''Cache-Control'' ''no-store, no-cache, must-revalidate''
                 (rwSet ''Content-Type'' ''application/json; charset=utf-8'' w))))
           in if rq_Method r = ''HEAD'' then (w', True) else (rwWrite body w', True)))"

record RouteSummary =
  rsm_Pattern :: string
  rsm_Prerender :: bool
  rsm_SSR :: bool
  rsm_DynamicParams :: "string list"
  rsm_PageOptions :: PageOptions

definition routeSummaryFor :: "string \<Rightarrow> Segment list \<Rightarrow> PageOptions \<Rightarrow> RouteSummary" where
  "routeSummaryFor pat segs opts = \<lparr>rsm_Pattern = pat, rsm_Prerender = po_Prerender opts, rsm_SSR = po_SSR opts,
     rsm_DynamicParams = map seg_name (filter (\<lambda>s. seg_kind s \<in> {SegmentParam, SegmentOptional, SegmentRest}) segs),
     rsm_PageOptions = opts\<rparr>"

section \<open>What a request path can name\<close>

text \<open>The plain segments of a path: what is left when empty and dot segments are dropped.\<close>

definition plainSegs :: "string \<Rightarrow> string list" where
  "plainSegs p = filter (\<lambda>s. s \<noteq> [] \<and> s \<noteq> ''.'') (splitByte CHR ''/'' p)"

definition plainName :: "string \<Rightarrow> bool" where
  "plainName s \<longleftrightarrow> s \<noteq> [] \<and> s \<noteq> ''.'' \<and> s \<noteq> ''..'' \<and> CHR ''/'' \<notin> set s \<and> CHR 0x00 \<notin> set s"

definition servable :: "string \<Rightarrow> bool" where
  "servable p \<longleftrightarrow> CHR 0x00 \<notin> set p \<and> ''..'' \<notin> set (splitByte CHR ''/'' p) \<and> plainSegs p \<noteq> []"

lemma foldl_cleanStep:
  "''..'' \<notin> set segs \<Longrightarrow> foldl cleanStep st segs = st @ filter (\<lambda>s. s \<noteq> [] \<and> s \<noteq> ''.'') segs"
  by (induction segs arbitrary: st) (auto simp: cleanStep_def)

lemma cleanRooted_plain:
  assumes "''..'' \<notin> set (splitByte CHR ''/'' p)"
  shows "cleanRooted (''/'' @ p) = ''/'' @ joinStr ''/'' (plainSegs p)"
  using foldl_cleanStep[OF assms, of "[]"] by (simp add: cleanRooted_def plainSegs_def cleanStep_def)

lemma splitByte_set: "s \<in> set (splitByte c p) \<Longrightarrow> set s \<subseteq> set p"
  by (induction c p arbitrary: s rule: splitByte.induct) (fastforce split: if_splits list.splits)+

lemma plainSegs_names: "servable p \<Longrightarrow> list_all plainName (plainSegs p)"
  unfolding servable_def plainSegs_def list_all_iff plainName_def
  using splitByte_sep_free splitByte_set by fastforce

lemma plainSegs_join:
  assumes "servable p"
  shows "splitByte CHR ''/'' (joinStr ''/'' (plainSegs p)) = plainSegs p"
proof (rule splitByte_joinStr)
  show "plainSegs p \<noteq> []" using assms by (simp add: servable_def)
  show "CHR ''/'' \<notin> set x" if "x \<in> set (plainSegs p)" for x
    using plainSegs_names[OF assms] that by (auto simp: list_all_iff plainName_def)
qed

lemma plain_join_Nil: "list_all plainName xs \<Longrightarrow> joinStr ''/'' xs = [] \<longleftrightarrow> xs = []"
  by (cases xs rule: remdups_adj.cases) (auto simp: plainName_def)

text \<open>C14. Path confinement of static files: \<^const>\<open>safeRelPath\<close> accepts a path exactly when it has no NUL byte
  and no parent segment and names something; the relative path it then returns consists, segment by
  segment, of the plain segments of the request path, each of which is a name without a slash that is
  neither empty nor a dot or double dot, so that joining it to the root never leaves the root. Every
  other path is refused.\<close>

theorem safeRelPath_confined:
  "if servable p
   then (\<exists>rel. safeRelPath p = (rel, True) \<and> splitByte CHR ''/'' rel = plainSegs p \<and> list_all plainName (plainSegs p))
   else safeRelPath p = ([], False)"
proof (cases "CHR 0x00 \<in> set p \<or> ''..'' \<in> set (splitByte CHR ''/'' p)")
  case True
  then show ?thesis by (auto simp: servable_def safeRelPath_def containsAny_def list_ex_iff)
next
  case False
  then have "safeRelPath p = (let cleaned = ''/'' @ joinStr ''/'' (plainSegs p) in
      if cleaned = ''/'' then ([], False) else (trimPrefix cleaned ''/'', True))"
    using cleanRooted_plain[of p]
    by (auto simp: safeRelPath_def containsAny_def list_ex_iff plainSegs_def)
  then have eq: "safeRelPath p = (if joinStr ''/'' (plainSegs p) = [] then ([], False) else (joinStr ''/'' (plainSegs p), True))"
    using trimPrefix_append[of "''/''" "joinStr ''/'' (plainSegs p)"] by (simp add: Let_def)
  show ?thesis
  proof (cases "servable p")
    case True
    from plain_join_Nil[OF plainSegs_names[OF True]] True eq plainSegs_join[OF True] plainSegs_names[OF True]
    show ?thesis by (simp add: servable_def)
  next
    case nserv: False
    with False have "plainSegs p = []" by (simp add: servable_def)
    with eq nserv show ?thesis by simp
  qed
qed

section \<open>Protected pages\<close>

text \<open>A prerendered page that needs permission is never written without the gate's consent: the response
  writer is as it was and the request falls through.\<close>

lemma prerender_gate:
  assumes "pt_entries t (u_Path (rq_URL r)) = Some entry" "pe_Protected entry"
    and "\<And>gate. auth = Some gate \<Longrightarrow> \<not> gate r"
  shows "servePrerendered H (Some t) auth r w = (w, False)"
  using assms by (cases auth) (auto simp: servePrerendered_def)

end
