(* ===== verification/PipelineBase.thy ===== *)
theory PipelineBase
  imports KitCsp PayloadJson ServerAssets RouterProps
begin

text \<open>
  What the request pipeline of \<^verbatim>\<open>packages/sveltego/server\<close> is built from: the state of a request in
  flight, user code as state transformers that may fail or panic, the server's fields, CSRF
  protection (\<^verbatim>\<open>csrf.go\<close>), form actions (\<^verbatim>\<open>actions.go\<close>), the enhance envelopes
  (\<^verbatim>\<open>enhance.go\<close>), hooks (\<^verbatim>\<open>exports/kit/hooks.go\<close>, \<^verbatim>\<open>action.go\<close>) and the path helpers of
  \<^verbatim>\<open>pipeline.go\<close>. The request event and the request hold their own copies of the URL: a hook that
  changes the URL changes the event's. Logging is not modelled.
\<close>

section \<open>Running user code\<close>

text \<open>A run ends normally or with a panic, whose value is an error or something printed. A fallible
  function returns an error or a value.\<close>

datatype 'd panic = PanicErr "'d option goerr" | PanicVal string

datatype ('d, 'a) run = Done 'a | Crash "'d panic"

type_synonym 'd err = "'d option goerr"

type_synonym ('d, 'a) frun = "('d, ('d err, 'a) result) run"

definition bindR :: "('t \<Rightarrow> ('d, 'a) frun \<times> 't) \<Rightarrow> ('a \<Rightarrow> 't \<Rightarrow> ('d, 'b) frun \<times> 't) \<Rightarrow> 't \<Rightarrow> ('d, 'b) frun \<times> 't" where
  "bindR m k s = (case m s of
      (Done (Inr a), s') \<Rightarrow> k a s'
    | (Done (Inl e), s') \<Rightarrow> (Done (Inl e), s')
    | (Crash p, s') \<Rightarrow> (Crash p, s'))"

definition okR :: "'a \<Rightarrow> 't \<Rightarrow> ('d, 'a) frun \<times> 't" where
  "okR a s = (Done (Inr a), s)"

definition failR :: "'d err \<Rightarrow> 't \<Rightarrow> ('d, 'a) frun \<times> 't" where
  "failR e s = (Done (Inl e), s)"

lemma bindR_okR [simp]: "bindR (okR a) k s = k a s"
  by (simp add: bindR_def okR_def)

lemma bindR_failR [simp]: "bindR (failR e) k s = failR e s"
  by (simp add: bindR_def failR_def)

type_synonym ('d, 's) event = "('d option, 's \<Rightarrow> 's) RequestEvent"

text \<open>The signatures of user code. The state of the application is \<^typ>\<open>'s\<close>; an event, load context
  or render context is passed along and returned, for user code changes what it refers to.\<close>

type_synonym ('d, 's) loadFn = "'d option LoadCtx \<times> 's \<Rightarrow> ('d, 'd option) frun \<times> ('d option LoadCtx \<times> 's)"

type_synonym ('d, 's) renderFn = "'d option \<Rightarrow> string \<Rightarrow> 'd option RenderCtx \<times> 's \<Rightarrow> ('d, string) frun \<times> ('d option RenderCtx \<times> 's)"

type_synonym ('d, 's) chainFn = "('d, 's) renderFn \<Rightarrow> 'd option \<Rightarrow> 'd option list \<Rightarrow> string \<Rightarrow> 'd option RenderCtx \<times> 's \<Rightarrow>
  ('d, string) frun \<times> ('d option RenderCtx \<times> 's)"

type_synonym ('d, 's) errorFn = "SafeError \<Rightarrow> string \<Rightarrow> 'd option RenderCtx \<times> 's \<Rightarrow> ('d, string) frun \<times> ('d option RenderCtx \<times> 's)"

type_synonym ('d, 's) serverFn = "Request \<Rightarrow> ResponseWriter \<times> 's \<Rightarrow> ('d, unit) run \<times> (ResponseWriter \<times> 's)"

datatype 'd ActionResult =
    ActionData int "'d option"
  | ActionFailData int "'d option"
  | ActionRedirectResult int string
  | OtherActionResult

definition ActionDataResult :: "int \<Rightarrow> 'd option \<Rightarrow> 'd ActionResult" where
  "ActionDataResult code data = ActionData code data"

definition ActionFail :: "int \<Rightarrow> 'd option \<Rightarrow> 'd ActionResult" where
  "ActionFail code data = ActionFailData code data"

definition ActionRedirect :: "int \<Rightarrow> string \<Rightarrow> 'd ActionResult" where
  "ActionRedirect code location = ActionRedirectResult (if code = 0 then 303 else code) location"

type_synonym ('d, 's) actionFn = "('d, 's) event \<times> 's \<Rightarrow> ('d, 'd ActionResult option) run \<times> (('d, 's) event \<times> 's)"

section \<open>Routes and the server\<close>

text \<open>The handler fields of a route. A nil function is \<^const>\<open>None\<close>; \<^verbatim>\<open>Actions\<close> returns a map (empty
  when the value has another type).\<close>

record ('d, 's) handlers =
  hd_Page :: "('d, 's) renderFn option"
  hd_Server :: "('d, 's) serverFn option gomap"
  hd_Load :: "('d, 's) loadFn option"
  hd_Actions :: "('d, 's) actionFn option gomap option"
  hd_RenderChain :: "('d, 's) chainFn option"
  hd_LayoutLoaders :: "('d, 's) loadFn option list"
  hd_Head :: "('d, 's) renderFn option"
  hd_LayoutHeads :: "('d, 's) renderFn option list"
  hd_Options :: PageOptions
  hd_RenderError :: "('d, 's) errorFn option"
  hd_ClientKey :: string

type_synonym ('d, 's) route = "('d, 's) handlers Route"

text \<open>A request in flight: the response writer, the event, the application, the matched route, the
  cancelled streams and the number of observations made of the outside world so far.\<close>

record ('d, 's) pst =
  ps_w :: ResponseWriter
  ps_ev :: "('d, 's) event"
  ps_user :: 's
  ps_matched :: "('d, 's) route option"
  ps_cancelled :: "nat list"
  ps_tick :: nat

type_synonym ('d, 's) resolveFn = "('d, 's) pst \<Rightarrow> ('d, Response option) frun \<times> ('d, 's) pst"

type_synonym ('d, 's) handleFn = "('d, 's) resolveFn \<Rightarrow> ('d, 's) resolveFn"

type_synonym ('d, 's) handleErrorFn = "'d err \<Rightarrow> ('d, 's) event \<times> 's \<Rightarrow>
  ('d, SafeError \<times> 'd err option) run \<times> (('d, 's) event \<times> 's)"

type_synonym ('d, 's) handleActionFn = "string \<Rightarrow> ('d, 's) actionFn option \<Rightarrow> ('d, 's) actionFn"

text \<open>An outgoing request and its response are opaque texts.\<close>

type_synonym ('d, 's) fetchFn = "string \<Rightarrow> ('d, 's) event \<times> 's \<Rightarrow> ('d, string) frun \<times> (('d, 's) event \<times> 's)"

record ('d, 's) Hooks =
  hk_Handle :: "('d, 's) handleFn option"
  hk_HandleError :: "('d, 's) handleErrorFn option"
  hk_HandleAction :: "('d, 's) handleActionFn option"
  hk_HandleFetch :: "('d, 's) fetchFn option"
  hk_Init :: "('s \<Rightarrow> ('d, unit) frun \<times> 's) option"
  hk_Reroute :: "(URL \<Rightarrow> 's \<Rightarrow> ('d, string) run \<times> 's) option"

definition nilCall :: "'d panic" where
  "nilCall = PanicErr (UserErr ''runtime error: invalid memory address or nil pointer dereference'' None None)"

definition callAction :: "('d, 's) actionFn option \<Rightarrow> ('d, 's) actionFn" where
  "callAction fn s = (case fn of None \<Rightarrow> (Crash nilCall, s) | Some f \<Rightarrow> f s)"

definition IdentityHandle :: "('d, 's) handleFn" where
  "IdentityHandle resolve s = resolve s"

definition IdentityHandleAction :: "('d, 's) handleActionFn" where
  "IdentityHandleAction name next s = callAction next s"

definition IdentityHandleError :: "(int \<Rightarrow> string) \<Rightarrow> ('d, 's) handleErrorFn" where
  "IdentityHandleError statusText e s = (Done (\<lparr>se_Code = 500, se_Message = statusText 500, se_ID = []\<rparr>, None), s)"

definition IdentityReroute :: "URL \<Rightarrow> 's \<Rightarrow> ('d, string) run \<times> 's" where
  "IdentityReroute u s = (Done [], s)"

text \<open>\<open>client\<close> is the default HTTP client.\<close>

definition IdentityHandleFetch :: "('d, 's) fetchFn \<Rightarrow> ('d, 's) fetchFn" where
  "IdentityHandleFetch client req s = client req s"

definition IdentityInit :: "'s \<Rightarrow> ('d, unit) frun \<times> 's" where
  "IdentityInit s = (Done (Inr ()), s)"

definition DefaultHooks :: "(int \<Rightarrow> string) \<Rightarrow> ('d, 's) fetchFn \<Rightarrow> ('d, 's) Hooks" where
  "DefaultHooks statusText client = \<lparr>hk_Handle = Some IdentityHandle, hk_HandleError = Some (IdentityHandleError statusText),
     hk_HandleAction = Some IdentityHandleAction, hk_HandleFetch = Some (IdentityHandleFetch client),
     hk_Init = Some IdentityInit, hk_Reroute = Some IdentityReroute\<rparr>"

definition orElse :: "'a option \<Rightarrow> 'a \<Rightarrow> 'a option" where
  "orElse x d = (case x of None \<Rightarrow> Some d | Some _ \<Rightarrow> x)"

definition WithDefaults :: "(int \<Rightarrow> string) \<Rightarrow> ('d, 's) fetchFn \<Rightarrow> ('d, 's) Hooks \<Rightarrow> ('d, 's) Hooks" where
  "WithDefaults statusText client h = h\<lparr>hk_Handle := orElse (hk_Handle h) IdentityHandle,
     hk_HandleError := orElse (hk_HandleError h) (IdentityHandleError statusText),
     hk_HandleFetch := orElse (hk_HandleFetch h) (IdentityHandleFetch client),
     hk_HandleAction := orElse (hk_HandleAction h) IdentityHandleAction,
     hk_Reroute := orElse (hk_Reroute h) IdentityReroute,
     hk_Init := orElse (hk_Init h) IdentityInit\<rparr>"

text \<open>Calling a hook field; a nil field would panic, \<^const>\<open>WithDefaults\<close> leaves none.\<close>

definition callHandle :: "('d, 's) Hooks \<Rightarrow> ('d, 's) handleFn" where
  "callHandle h resolve s = (case hk_Handle h of None \<Rightarrow> (Crash nilCall, s) | Some f \<Rightarrow> f resolve s)"

definition callHandleError :: "('d, 's) Hooks \<Rightarrow> ('d, 's) handleErrorFn" where
  "callHandleError h e s = (case hk_HandleError h of None \<Rightarrow> (Crash nilCall, s) | Some f \<Rightarrow> f e s)"

definition callHandleAction :: "('d, 's) Hooks \<Rightarrow> ('d, 's) handleActionFn" where
  "callHandleAction h name next s = (case hk_HandleAction h of None \<Rightarrow> (Crash nilCall, s) | Some f \<Rightarrow> f name next s)"

definition callReroute :: "('d, 's) Hooks \<Rightarrow> URL \<Rightarrow> 's \<Rightarrow> ('d, string) run \<times> 's" where
  "callReroute h u s = (case hk_Reroute h of None \<Rightarrow> (Crash nilCall, s) | Some f \<Rightarrow> f u s)"

text \<open>\<^verbatim>\<open>Sequence\<close>: the loop wraps the continuation from the last handler to the first.\<close>

fun seqLoop :: "('d, 's) handleFn list \<Rightarrow> ('d, 's) resolveFn \<Rightarrow> ('d, 's) resolveFn" where
  "seqLoop [] next = next"
| "seqLoop (h # hs) next = seqLoop hs (h next)"

definition Sequence :: "('d, 's) handleFn list \<Rightarrow> ('d, 's) handleFn" where
  "Sequence handlers = (if handlers = [] then IdentityHandle else (\<lambda>resolve. seqLoop (rev handlers) resolve))"

text \<open>The envelope of an enhanced form submission; its data is a value or a text.\<close>

datatype 'd envData = NoData | TextData string | AnyData "'d option"

record 'd enhanceEnvelope =
  en_Type :: string
  en_Status :: int
  en_Data :: "'d envData"
  en_Location :: string

text \<open>A deferred value found in load data: its id and whether it can be cancelled.\<close>

record streamedField =
  sf_id :: nat
  sf_cancel :: bool

datatype writeErr = EPIPE | ECONNRESET | ErrClosedPipe | NetErrClosed | OpError | OtherWriteErr string

text \<open>The library functions the pipeline calls: the JSON encoders, status texts, cookie and URL
  printing, durations, base64, the resolution of a redirect target, HTML escaping, and what reflection
  finds in a value.\<close>

record 'd lib =
  lb_marshal :: "'d encoder"
  lb_marshalEnv :: "'d enhanceEnvelope \<Rightarrow> (string, string) result"
  lb_statusText :: "int \<Rightarrow> string"
  lb_cookie :: "Cookie \<Rightarrow> string"
  lb_secs :: "int \<Rightarrow> int"
  lb_base64 :: "string \<Rightarrow> string"
  lb_urlString :: "URL \<Rightarrow> string"
  lb_location :: "URL \<Rightarrow> string \<Rightarrow> string"
  lb_headerEscape :: "string \<Rightarrow> string"
  lb_htmlEscape :: "string \<Rightarrow> string"
  lb_isStruct :: "'d \<Rightarrow> bool"
  lb_hasForm :: "'d \<Rightarrow> bool"
  lb_canSetForm :: "'d \<Rightarrow> bool"
  lb_setForm :: "'d \<Rightarrow> 'd option \<Rightarrow> ('d, 'd) run"
  lb_deref :: "'d \<Rightarrow> 'd option"
  lb_typeOf :: "'d \<Rightarrow> string"
  lb_numField :: "string \<Rightarrow> nat"
  lb_exported :: "string \<Rightarrow> nat \<Rightarrow> bool"
  lb_implements :: "string \<Rightarrow> nat \<Rightarrow> bool"
  lb_field :: "'d \<Rightarrow> nat \<Rightarrow> streamedField option"

text \<open>What a request observes of the outside world, by the number of the observation: random bytes,
  whether the request's context has ended, the outcome of a write, of waiting for a stream, and
  whether the context of the after-queue is done.\<close>

record 'd io =
  io_rand :: "nat \<Rightarrow> string option"
  io_ctxErr :: "nat \<Rightarrow> bool"
  io_flush :: "nat \<Rightarrow> writeErr option"
  io_wait :: "nat \<Rightarrow> nat \<Rightarrow> (string, 'd option) result"
  io_drainDone :: "nat \<Rightarrow> bool"

record ('d, 's) Server =
  sv_tree :: "('d, 's) handlers Tree"
  sv_hooks :: "('d, 's) Hooks"
  sv_csp :: CSPConfig
  sv_cspTemplate :: "CSPTemplate option"
  sv_shellHead :: string
  sv_shellMid :: string
  sv_shellTail :: string
  sv_viteManifest :: "viteManifestMap option"
  sv_viteBase :: string
  sv_serviceWorker :: bool
  sv_clientManifest :: "clientManifestEntry list"
  sv_cache :: payloadCache
  sv_appVersion :: string
  sv_versionPoll :: clientVersionPoll

definition tick :: "('d, 's) pst \<Rightarrow> ('d, 's) pst" where
  "tick s = s\<lparr>ps_tick := Suc (ps_tick s)\<rparr>"

section \<open>CSRF protection\<close>

definition csrfTokenMaxAge :: int where "csrfTokenMaxAge = 24 * 3600 * 1000000000"

definition csrfApplies :: "('d, 's) route option \<Rightarrow> bool" where
  "csrfApplies route = (case route of
      None \<Rightarrow> False
    | Some r \<Rightarrow> (case hd_Actions (rt_handlers r) of None \<Rightarrow> False | Some _ \<Rightarrow> po_CSRF (hd_Options (rt_handlers r))))"

definition forbiddenResponse :: "string \<Rightarrow> Response" where
  "forbiddenResponse msg = \<lparr>rs_Status = 403, rs_Headers = [''Content-Type'' \<mapsto> [''text/plain; charset=utf-8'']], rs_Body = msg\<rparr>"

text \<open>The canonical form of \<^verbatim>\<open>X-CSRF-Token\<close> is \<^verbatim>\<open>X-Csrf-Token\<close>.\<close>

definition submittedToken :: "Request \<Rightarrow> string" where
  "submittedToken r = (let t = PostFormValue r CSRFFieldName in if t = [] then hGet ''X-Csrf-Token'' (rq_Header r) else t)"

definition applyCSRF :: "'d lib \<Rightarrow> 'd io \<Rightarrow> Request \<Rightarrow> ('d, 's) route \<Rightarrow> ('d, 's) pst \<Rightarrow> Response option \<times> ('d, 's) pst" where
  "applyCSRF L W r route s =
    (if \<not> csrfApplies (Some route) then (None, s)
     else let cookieToken = fst (ckGet CSRFCookieName (ev_Cookies (ps_ev s))) in
       if rq_Method r = ''POST'' then
         (if \<not> CSRFTokenEqual cookieToken (submittedToken r)
          then (Some (forbiddenResponse ''forbidden: csrf token missing or invalid''), s)
          else (None, s\<lparr>ps_ev := SetCSRFToken cookieToken (ps_ev s)\<rparr>))
       else if cookieToken = [] then
         (let fresh = generateToken (lb_base64 L) (io_rand W (ps_tick s)); s1 = tick s in
          if fresh = [] then (None, s1)
          else let ev1 = (ps_ev s1)\<lparr>ev_Cookies := ckSet (lb_secs L) CSRFCookieName fresh
                     (zeroCookieOpts\<lparr>co_MaxAge := csrfTokenMaxAge, co_SameSite := SameSiteLaxMode\<rparr>) (ev_Cookies (ps_ev s1))\<rparr>
               in (None, s1\<lparr>ps_ev := SetCSRFToken fresh ev1\<rparr>))
       else (None, s\<lparr>ps_ev := SetCSRFToken cookieToken (ps_ev s)\<rparr>))"

section \<open>Form actions\<close>

definition injectFormField :: "'d lib \<Rightarrow> 'd option \<Rightarrow> 'd option \<Rightarrow> ('d, 'd option) run" where
  "injectFormField L data formValue = (case data of
      None \<Rightarrow> Done None
    | Some d \<Rightarrow>
       if \<not> lb_isStruct L d then Done data
       else if \<not> lb_hasForm L d then Done data
       else if \<not> lb_canSetForm L d then Done data
       else (case lb_setForm L d formValue of Crash p \<Rightarrow> Crash p | Done d' \<Rightarrow> Done (Some d')))"

function actionNameFromQuery :: "string \<Rightarrow> string" where
  "actionNameFromQuery raw =
    (if raw = [] then ''default''
     else let (part, rest) = (case indexByte raw CHR ''&'' of
              Some i \<Rightarrow> (take i raw, drop (Suc i) raw)
            | None \<Rightarrow> (raw, []))
       in if part = [] \<or> hd part \<noteq> CHR ''/'' then actionNameFromQuery rest
          else let name = (case indexByte (tl part) CHR ''='' of Some i \<Rightarrow> take i (tl part) | None \<Rightarrow> tl part)
            in if name = [] then ''default'' else name)"
  by pat_completeness auto

termination
  by (relation "measure length") (auto split: option.splits)

declare actionNameFromQuery.simps [simp del]

definition codeOr :: "int \<Rightarrow> int \<Rightarrow> int" where
  "codeOr code fallback = (if code = 0 then fallback else code)"

definition unknownActionResult :: "'d err" where
  "unknownActionResult = UserErr ''server: unknown ActionResult variant'' None None"

text \<open>\<^verbatim>\<open>dispatchAction\<close>: the response, or the form data, or neither, or an error.\<close>

definition dispatchAction :: "('d, 's) Server \<Rightarrow> Request \<Rightarrow> ('d, 's) route \<Rightarrow> ('d, 's) pst \<Rightarrow>
    ('d, Response option \<times> 'd formData option) frun \<times> ('d, 's) pst" where
  "dispatchAction sv r route s =
    (case hd_Actions (rt_handlers route) of
       None \<Rightarrow> okR (Some (MethodNotAllowed [''GET'']), None) s
     | Some actions \<Rightarrow>
        if length actions = 0 then okR (Some (MethodNotAllowed [''GET'']), None) s
        else let name = actionNameFromQuery (u_RawQuery (rq_URL r)) in
          (case map_of actions name of
             None \<Rightarrow> okR (Some \<lparr>rs_Status = 404, rs_Headers = [''Content-Type'' \<mapsto> [''text/plain; charset=utf-8'']],
                       rs_Body = ''action not found: '' @ name\<rparr>, None) s
           | Some fn \<Rightarrow>
              (case callHandleAction (sv_hooks sv) name fn (ps_ev s, ps_user s) of (res, ev', u') \<Rightarrow>
                let s' = s\<lparr>ps_ev := ev', ps_user := u'\<rparr> in
                (case res of
                   Crash p \<Rightarrow> (Crash p, s')
                 | Done (Some (ActionRedirectResult code loc)) \<Rightarrow>
                     okR (Some \<lparr>rs_Status = (if code = 0 then 303 else code), rs_Headers = [''Location'' \<mapsto> [loc]], rs_Body = []\<rparr>, None) s'
                 | Done (Some (ActionData code d)) \<Rightarrow> okR (None, Some \<lparr>fd_code = codeOr code 200, fd_data = d\<rparr>) s'
                 | Done (Some (ActionFailData code d)) \<Rightarrow> okR (None, Some \<lparr>fd_code = codeOr code 400, fd_data = d\<rparr>) s'
                 | Done None \<Rightarrow> okR (None, None) s'
                 | Done (Some OtherActionResult) \<Rightarrow> failR unknownActionResult s'))))"

section \<open>Enhanced submissions\<close>

definition isEnhanceRequest :: "Request option \<Rightarrow> bool" where
  "isEnhanceRequest r = (case r of None \<Rightarrow> False | Some rq \<Rightarrow> hGet ''X-Sveltego-Action'' (rq_Header rq) = ''1'')"

definition envelopeFallback :: string where
  "envelopeFallback = ''{'' @ keyText ''type'' @ dq @ ''error'' @ dq @ '','' @ keyText ''status'' @ ''500,'' @ keyText ''data'' @
     dq @ ''server: marshal action envelope'' @ dq @ ''}''"

definition jsonEnvelope :: "'d lib \<Rightarrow> 'd enhanceEnvelope \<Rightarrow> Response" where
  "jsonEnvelope L env =
    (let body = (case lb_marshalEnv L env of Inl _ \<Rightarrow> envelopeFallback | Inr b \<Rightarrow> b)
     in \<lparr>rs_Status = 200,
         rs_Headers = hSet ''X-Sveltego-Action'' ''1'' (hSet ''Content-Length'' (lenString body)
           (hSet ''Content-Type'' ''application/json; charset=utf-8'' Map.empty)),
         rs_Body = body\<rparr>)"

definition enhanceResponse :: "'d lib \<Rightarrow> Response option \<Rightarrow> 'd formData option \<Rightarrow> Response" where
  "enhanceResponse L res fd = (case res of
      Some rs \<Rightarrow>
        (let loc = hGet ''Location'' (rs_Headers rs) in
         if loc \<noteq> [] then jsonEnvelope L \<lparr>en_Type = ''redirect'', en_Status = rs_Status rs, en_Data = NoData, en_Location = loc\<rparr>
         else jsonEnvelope L \<lparr>en_Type = ''error'', en_Status = rs_Status rs, en_Data = TextData (rs_Body rs), en_Location = []\<rparr>)
    | None \<Rightarrow> (case fd of
        None \<Rightarrow> jsonEnvelope L \<lparr>en_Type = ''success'', en_Status = 200, en_Data = NoData, en_Location = []\<rparr>
      | Some f \<Rightarrow> jsonEnvelope L \<lparr>en_Type = (if fd_code f \<ge> 400 then ''failure'' else ''success''), en_Status = fd_code f,
          en_Data = AnyData (fd_data f), en_Location = []\<rparr>))"

definition enhanceForbiddenResponse :: "'d lib \<Rightarrow> Response" where
  "enhanceForbiddenResponse L = jsonEnvelope L \<lparr>en_Type = ''error'', en_Status = 403,
     en_Data = TextData ''csrf token missing or invalid'', en_Location = []\<rparr>"

section \<open>Paths\<close>

definition isDataJSONPath :: "string \<Rightarrow> bool" where
  "isDataJSONPath path = hasSuffix path ''/__data.json''"

definition isDataJSONRequest :: "Request \<Rightarrow> bool" where
  "isDataJSONRequest r = (rq_Method r = ''GET'' \<and> isDataJSONPath (u_Path (rq_URL r)))"

definition togglePathSlash :: "string \<Rightarrow> string" where
  "togglePathSlash path =
    (if path = ''/'' \<or> path = [] then path
     else if hasSuffix path ''/'' then trimRight path ''/''
     else path @ ''/'')"

definition canonicalRedirect :: "URL \<Rightarrow> string \<Rightarrow> string" where
  "canonicalRedirect u path = RequestURI (u\<lparr>u_Path := path, u_Scheme := [], u_Host := []\<rparr>)"

definition trailingSlashRedirect :: "URL option \<Rightarrow> TrailingSlash \<Rightarrow> string" where
  "trailingSlashRedirect uo policy = (case uo of
      None \<Rightarrow> []
    | Some u \<Rightarrow>
       (let path = u_Path u in
        case policy of
          TrailingSlashAlways \<Rightarrow> if \<not> hasSuffix path ''/'' then canonicalRedirect u (path @ ''/'') else []
        | TrailingSlashNever \<Rightarrow> if path \<noteq> ''/'' \<and> hasSuffix path ''/'' then canonicalRedirect u (trimRight path ''/'') else []
        | _ \<Rightarrow> []))"

text \<open>\<^verbatim>\<open>rawParamsFromPath\<close>; \<open>decoded\<close> is the map of decoded parameters, in which an absent name reads
  as the empty string.\<close>

fun rawParamsLoop :: "Segment list \<Rightarrow> string list \<Rightarrow> (string \<rightharpoonup> string) option \<Rightarrow> nat \<Rightarrow> string gomap \<Rightarrow> string gomap" where
  "rawParamsLoop [] parts decoded pi out = out"
| "rawParamsLoop (sg # segs) parts decoded pi out = (case seg_kind sg of
      SegmentStatic \<Rightarrow> rawParamsLoop segs parts decoded (Suc pi) out
    | SegmentParam \<Rightarrow>
       if pi < length parts then rawParamsLoop segs parts decoded (Suc pi) (setKey (seg_name sg) (parts ! pi) out)
       else rawParamsLoop segs parts decoded pi out
    | SegmentOptional \<Rightarrow>
       if (case decoded of None \<Rightarrow> [] | Some m \<Rightarrow> (case m (seg_name sg) of None \<Rightarrow> [] | Some v \<Rightarrow> v)) \<noteq> [] \<and> pi < length parts
       then rawParamsLoop segs parts decoded (Suc pi) (setKey (seg_name sg) (parts ! pi) out)
       else rawParamsLoop segs parts decoded pi (setKey (seg_name sg) [] out)
    | SegmentRest \<Rightarrow>
       rawParamsLoop segs parts decoded (length parts)
         (setKey (seg_name sg) (if pi < length parts then joinStr ''/'' (drop pi parts) else []) out))"

definition rawParamsFromPath :: "string \<Rightarrow> Segment list \<Rightarrow> (string \<rightharpoonup> string) option \<Rightarrow> string gomap option" where
  "rawParamsFromPath path segs decoded =
    (let path' = (if path \<noteq> [] \<and> hd path = CHR ''/'' then tl path else path);
         parts = (if path' \<noteq> [] then splitByte CHR ''/'' path' else [])
     in if length (filter (\<lambda>s. seg_kind s \<noteq> SegmentStatic) segs) = 0 then None
        else Some (rawParamsLoop segs parts decoded 0 []))"

end
