(* ===== verification/Pipeline.thy ===== *)
theory Pipeline
  imports PipelineBase
begin

text \<open>
  The request pipeline (\<^verbatim>\<open>server/pipeline.go\<close>) with its error handling (\<^verbatim>\<open>server/errors.go\<close>) and
  head assembly (\<^verbatim>\<open>server/head.go\<close>): the load chain, the data endpoint, the empty and the Svelte
  shell, the buffered and the streamed page, \<^verbatim>\<open>resolve\<close>, \<^verbatim>\<open>runHandle\<close>, \<^verbatim>\<open>handle\<close> and the
  conversion of errors to responses. Buffers from the pool are strings.
\<close>

section \<open>The load chain\<close>

definition hasAnyLayoutLoader :: "('d, 's) loadFn option list \<Rightarrow> bool" where
  "hasAnyLayoutLoader loaders = list_ex (\<lambda>l. \<not> Option.is_none l) loaders"

fun loadLayouts :: "('d, 's) loadFn option list \<Rightarrow> 'd option LoadCtx \<times> 's \<Rightarrow> ('d, 'd option list) frun \<times> ('d option LoadCtx \<times> 's)" where
  "loadLayouts [] c = okR [] c"
| "loadLayouts (None # ls) c = bindR (loadLayouts ls) (\<lambda>ds. okR (None # ds)) c"
| "loadLayouts (Some f # ls) c =
    bindR f (\<lambda>d (lc, u). bindR (loadLayouts ls) (\<lambda>ds. okR (d # ds)) (PushParent d lc, u)) c"

definition loadChain :: "('d, 's) handlers \<Rightarrow> 'd option LoadCtx \<times> 's \<Rightarrow> ('d, 'd option \<times> 'd option list) frun \<times> ('d option LoadCtx \<times> 's)" where
  "loadChain h = bindR (loadLayouts (hd_LayoutLoaders h)) (\<lambda>ds. case hd_Load h of
      None \<Rightarrow> okR (None, ds)
    | Some f \<Rightarrow> bindR f (\<lambda>d. okR (d, ds)))"

text \<open>Running the chain for a request. The load context shares the event's locals, cookies and
  parameters, so what user code changes in them is seen in the event. When \<open>flush\<close> is set, the headers
  set before an error are kept in the event.\<close>

definition runLoads :: "bool \<Rightarrow> Request \<Rightarrow> ('d, 's) handlers \<Rightarrow> ('d, 's) pst \<Rightarrow>
    ('d, 'd option \<times> 'd option list \<times> 'd option LoadCtx option) frun \<times> ('d, 's) pst" where
  "runLoads flush r h s =
    (if Option.is_none (hd_Load h) \<and> \<not> hasAnyLayoutLoader (hd_LayoutLoaders h) then okR (None, [], None) s
     else let lc0 = (NewLoadCtx r (ev_Params (ps_ev s)))\<lparr>lc_Locals := ev_Locals (ps_ev s),
                lc_Cookies := ev_Cookies (ps_ev s), lc_RawParams := ev_RawParams (ps_ev s)\<rparr>
       in (case loadChain h (lc0, ps_user s) of (res, lc, u) \<Rightarrow>
         let s' = s\<lparr>ps_ev := (ps_ev s)\<lparr>ev_Locals := lc_Locals lc, ev_Cookies := lc_Cookies lc, ev_Params := lc_Params lc\<rparr>,
                    ps_user := u\<rparr> in
         (case res of
            Done (Inr (d, lds)) \<Rightarrow> okR (d, lds, Some lc) s'
          | Done (Inl e) \<Rightarrow> failR e (if flush then
              s'\<lparr>ps_ev := (ps_ev s')\<lparr>ev_responseHeader := ev_responseHeader (ps_ev s') ++ lc_headers lc\<rparr>\<rparr> else s')
          | Crash p \<Rightarrow> (Crash p, s'))))"

definition withForm :: "'d lib \<Rightarrow> 'd formData option \<Rightarrow> 'd option \<Rightarrow> ('d, 's) pst \<Rightarrow> ('d, 'd option) frun \<times> ('d, 's) pst" where
  "withForm L form data s = (case form of
      None \<Rightarrow> okR data s
    | Some f \<Rightarrow> (case injectFormField L data (fd_data f) of Done d \<Rightarrow> okR d s | Crash p \<Rightarrow> (Crash p, s)))"

definition formStatus :: "'d formData option \<Rightarrow> int" where
  "formStatus form = (case form of Some f \<Rightarrow> if fd_code f \<noteq> 0 then fd_code f else 200 | None \<Rightarrow> 200)"

text \<open>The payload of a request after its loads; \<open>initial\<close> adds the fields of a first paint.\<close>

definition requestPayload :: "'d lib \<Rightarrow> ('d, 's) Server \<Rightarrow> Request \<Rightarrow> ('d, 's) route \<Rightarrow> ('d, 's) pst \<Rightarrow> bool \<Rightarrow> 'd option \<Rightarrow>
    'd option list \<Rightarrow> 'd option LoadCtx option \<Rightarrow> 'd formData option \<Rightarrow> 'd clientPayload" where
  "requestPayload L sv r route s initial data lds lctx form =
    (let p0 = buildClientPayload (lb_urlString L (rq_URL r)) (rt_Pattern route) (Some (CSRFToken (ps_ev s))) data lds
           (Some (ev_Params (ps_ev s))) form;
         p1 = (if initial then applyInitialPayloadFields (sv_clientManifest sv) (sv_appVersion sv) (sv_versionPoll sv) p0 else p0)
     in case lctx of None \<Rightarrow> p1 | Some lc \<Rightarrow> p1\<lparr>cp_Deps := lc_deps lc\<rparr>)"

definition loadHeaders :: "'x LoadCtx option \<Rightarrow> Header" where
  "loadHeaders lctx = (case lctx of None \<Rightarrow> Map.empty | Some lc \<Rightarrow> lc_headers lc)"

definition htmlResponse :: "int \<Rightarrow> Header \<Rightarrow> string \<Rightarrow> Response" where
  "htmlResponse status headers body = \<lparr>rs_Status = status,
     rs_Headers = hSet ''Content-Length'' (lenString body) (hSet ''Content-Type'' ''text/html; charset=utf-8'' headers),
     rs_Body = body\<rparr>"

section \<open>The data endpoint and the shells\<close>

definition renderDataJSON :: "'d lib \<Rightarrow> ('d, 's) Server \<Rightarrow> Request \<Rightarrow> ('d, 's) route \<Rightarrow> 'd formData option \<Rightarrow> ('d, 's) pst \<Rightarrow>
    ('d, Response) frun \<times> ('d, 's) pst" where
  "renderDataJSON L sv r route form s =
    (if rq_Method r \<noteq> ''GET'' then
       okR \<lparr>rs_Status = 405, rs_Headers = [''Allow'' \<mapsto> [''GET'']], rs_Body = ''method not allowed''\<rparr> s
     else bindR (runLoads False r (rt_handlers route)) (\<lambda>(d0, lds, lctx).
       bindR (withForm L form d0) (\<lambda>data s.
         case writePayloadJSON (lb_marshal L) (sv_cache sv) [] (requestPayload L sv r route s False data lds lctx form) of
           Inl e \<Rightarrow> failR (Wrapped (''server: marshal __data.json: '' @ e) (UserErr e None None)) s
         | Inr body \<Rightarrow> okR \<lparr>rs_Status = 200,
             rs_Headers = hSet ''X-Sveltego-Data'' ''1'' (hSet ''Content-Length'' (lenString body)
               (hSet ''Content-Type'' ''application/json'' Map.empty)),
             rs_Body = body\<rparr> s)) s)"

definition appDiv :: string where "appDiv = ''<div id='' @ dq @ ''app'' @ dq @ ''></div>''"

definition renderEmptyShell :: "('d, 's) Server \<Rightarrow> ('d, 's) event \<Rightarrow> Response" where
  "renderEmptyShell sv ev = htmlResponse 200 Map.empty
     (sv_shellHead sv @ sv_shellMid sv @ appDiv @ serviceWorkerTag (sv_serviceWorker sv) (Nonce ev) @ sv_shellTail sv)"

definition headTags :: "('d, 's) Server \<Rightarrow> ('d, 's) route \<Rightarrow> string \<Rightarrow> string" where
  "headTags sv route nonce = (if hd_ClientKey (rt_handlers route) \<noteq> []
     then headAssetTags (sv_viteManifest sv) (hd_ClientKey (rt_handlers route)) (sv_viteBase sv) nonce else [])"

definition entryTag :: "('d, 's) Server \<Rightarrow> ('d, 's) route \<Rightarrow> string \<Rightarrow> string" where
  "entryTag sv route nonce = (if hd_ClientKey (rt_handlers route) \<noteq> []
     then bodyEntryTag (sv_viteManifest sv) (hd_ClientKey (rt_handlers route)) (sv_viteBase sv) nonce else [])"

definition renderSvelteShell :: "'d lib \<Rightarrow> ('d, 's) Server \<Rightarrow> Request \<Rightarrow> ('d, 's) route \<Rightarrow> 'd formData option \<Rightarrow> ('d, 's) pst \<Rightarrow>
    ('d, Response) frun \<times> ('d, 's) pst" where
  "renderSvelteShell L sv r route form =
    bindR (runLoads True r (rt_handlers route)) (\<lambda>(d0, lds, lctx).
      bindR (withForm L form d0) (\<lambda>data s.
        let nonce = Nonce (ps_ev s);
            buf0 = sv_shellHead sv @ headTags sv route nonce @ sv_shellMid sv @ appDiv;
            buf1 = emitPayloadScriptTag (lb_marshal L) (sv_cache sv) buf0 (requestPayload L sv r route s True data lds lctx form) nonce;
            body = buf1 @ entryTag sv route nonce @ serviceWorkerTag (sv_serviceWorker sv) nonce @ sv_shellTail sv
        in okR (htmlResponse (formStatus form) (loadHeaders lctx) body) s))"

section \<open>Rendering\<close>

definition renderCtxOf :: "('d, 's) event \<Rightarrow> 'd option RenderCtx" where
  "renderCtxOf ev = \<lparr>rc_Locals = ev_Locals ev, rc_URL = Some (ev_URL ev), rc_OriginalURL = Some (ev_OriginalURL ev),
     rc_Params = ev_Params ev, rc_RawParams = ev_RawParams ev, rc_Cookies = ev_Cookies ev\<rparr>"

text \<open>Running render code: the context shares the event's locals, cookies and parameters.\<close>

definition onRender :: "('d option RenderCtx \<times> 's \<Rightarrow> ('d, 'a) run \<times> ('d option RenderCtx \<times> 's)) \<Rightarrow> ('d, 's) pst \<Rightarrow> ('d, 'a) run \<times> ('d, 's) pst" where
  "onRender f s = (case f (renderCtxOf (ps_ev s), ps_user s) of (res, rc, u) \<Rightarrow>
     (res, s\<lparr>ps_ev := (ps_ev s)\<lparr>ev_Locals := rc_Locals rc, ev_Cookies := rc_Cookies rc, ev_Params := rc_Params rc\<rparr>, ps_user := u\<rparr>))"

definition anyLayoutHead :: "('d, 's) renderFn option list \<Rightarrow> bool" where
  "anyLayoutHead heads = list_ex (\<lambda>h. \<not> Option.is_none h) heads"

fun layoutHeadsLoop :: "('d, 's) renderFn option list \<Rightarrow> 'd option list \<Rightarrow> string \<Rightarrow> 'd option RenderCtx \<times> 's \<Rightarrow>
    ('d, string) frun \<times> ('d option RenderCtx \<times> 's)" where
  "layoutHeadsLoop [] lds buf c = okR buf c"
| "layoutHeadsLoop (None # hs) lds buf c = layoutHeadsLoop hs (tl lds) buf c"
| "layoutHeadsLoop (Some lh # hs) lds buf c =
    bindR (lh (case lds of [] \<Rightarrow> None | ld # _ \<Rightarrow> ld) buf) (\<lambda>buf'. layoutHeadsLoop hs (tl lds) buf') c"

definition gatherHead :: "('d, 's) handlers \<Rightarrow> 'd option \<Rightarrow> 'd option list \<Rightarrow> 'd option RenderCtx \<times> 's \<Rightarrow>
    ('d, string) frun \<times> ('d option RenderCtx \<times> 's)" where
  "gatherHead h data lds c =
    (if Option.is_none (hd_Head h) \<and> \<not> anyLayoutHead (hd_LayoutHeads h) then okR [] c
     else bindR (layoutHeadsLoop (hd_LayoutHeads h) lds []) (\<lambda>buf.
       bindR (case hd_Head h of None \<Rightarrow> okR buf | Some f \<Rightarrow> f data buf) (\<lambda>out.
         if out = [] then okR [] else okR (dedupeTitle out))) c)"

text \<open>The closure that renders the route into a buffer. A route without a page that has no render
  chain panics.\<close>

definition innerRender :: "('d, 's) handlers \<Rightarrow> 'd option \<Rightarrow> 'd option list \<Rightarrow> string \<Rightarrow> 'd option RenderCtx \<times> 's \<Rightarrow>
    ('d, string) frun \<times> ('d option RenderCtx \<times> 's)" where
  "innerRender h data lds buf c =
    (let page = (case hd_Page h of Some f \<Rightarrow> f | None \<Rightarrow> (\<lambda>_ _ c. (Crash nilCall, c)))
     in case hd_RenderChain h of Some chain \<Rightarrow> chain page data lds buf c | None \<Rightarrow> page data buf c)"

section \<open>Streams\<close>

text \<open>\<^verbatim>\<open>streamFieldIndices\<close> with its cache of types seen.\<close>

type_synonym fieldCache = "string \<rightharpoonup> nat list"

definition streamFieldIndices :: "'d lib \<Rightarrow> string \<Rightarrow> fieldCache \<Rightarrow> nat list \<times> fieldCache" where
  "streamFieldIndices L t cache = (case cache t of
      Some v \<Rightarrow> (v, cache)
    | None \<Rightarrow> (let indices = filter (\<lambda>i. lb_exported L t i \<and> lb_implements L t i) [0..<lb_numField L t]
               in (indices, cache(t \<mapsto> indices))))"

definition appendStreams :: "'d lib \<Rightarrow> streamedField list \<Rightarrow> 'd option \<Rightarrow> streamedField list" where
  "appendStreams L dst v = (case v of
      None \<Rightarrow> dst
    | Some d \<Rightarrow> (case lb_deref L d of
        None \<Rightarrow> dst
      | Some rv \<Rightarrow>
         if \<not> lb_isStruct L rv then dst
         else dst @ List.map_filter (lb_field L rv) (fst (streamFieldIndices L (lb_typeOf L rv) Map.empty))))"

definition collectStreams :: "'d lib \<Rightarrow> 'd option \<Rightarrow> 'd option list \<Rightarrow> streamedField list" where
  "collectStreams L data lds = foldl (appendStreams L) (appendStreams L [] data) lds"

definition isClientGone :: "bool \<Rightarrow> writeErr \<Rightarrow> bool" where
  "isClientGone ctxEnded e = (if ctxEnded then True else case e of OtherWriteErr _ \<Rightarrow> False | _ \<Rightarrow> True)"

definition cancelStreams :: "streamedField list \<Rightarrow> ('d, 's) pst \<Rightarrow> ('d, 's) pst" where
  "cancelStreams fs s = s\<lparr>ps_cancelled := ps_cancelled s @ map sf_id (filter sf_cancel fs)\<rparr>"

definition writeErrText :: "writeErr \<Rightarrow> string" where
  "writeErrText e = (case e of EPIPE \<Rightarrow> ''broken pipe'' | ECONNRESET \<Rightarrow> ''connection reset by peer''
     | ErrClosedPipe \<Rightarrow> ''io: read/write on closed pipe'' | NetErrClosed \<Rightarrow> ''use of closed network connection''
     | OpError \<Rightarrow> ''network operation failed'' | OtherWriteErr m \<Rightarrow> m)"

text \<open>Flushing the buffer: an empty buffer is not written; on an error nothing more arrives.\<close>

definition flushBuf :: "'d io \<Rightarrow> string \<Rightarrow> ('d, 's) pst \<Rightarrow> writeErr option \<times> ('d, 's) pst" where
  "flushBuf W buf s = (if buf = [] then (None, s) else (case io_flush W (ps_tick s) of
      Some e \<Rightarrow> (Some e, tick s)
    | None \<Rightarrow> (None, tick (s\<lparr>ps_w := rwWrite buf (ps_w s)\<rparr>))))"

text \<open>One observation of the request's context.\<close>

definition ctxErr :: "'d io \<Rightarrow> ('d, 's) pst \<Rightarrow> bool \<times> ('d, 's) pst" where
  "ctxErr W s = (io_ctxErr W (ps_tick s), tick s)"

text \<open>A flush whose failure ends the response: when the client has gone, the streams that are still
  to be waited for are cancelled.\<close>

definition flushed :: "'d io \<Rightarrow> string \<Rightarrow> streamedField list \<Rightarrow> ('d, 's) pst \<Rightarrow> ('d, unit) frun \<times> ('d, 's) pst" where
  "flushed W buf pending s = (case flushBuf W buf s of
      (None, s1) \<Rightarrow> okR () s1
    | (Some e, s1) \<Rightarrow>
       (case ctxErr W s1 of (gone, s2) \<Rightarrow>
          if isClientGone gone e then failR ClientGone (cancelStreams pending s2)
          else failR (UserErr (writeErrText e) None None) s2))"

text \<open>The loop over the streams; the result says whether the tail of the document is still to be
  written.\<close>

fun streamLoop :: "'d lib \<Rightarrow> 'd io \<Rightarrow> string \<Rightarrow> streamedField list \<Rightarrow> ('d, 's) pst \<Rightarrow> ('d, bool) frun \<times> ('d, 's) pst" where
  "streamLoop L W nonce [] s = okR True s"
| "streamLoop L W nonce (f # fs) s =
    (let buf = emitResolveScript (lb_marshal L) [] (sf_id f) (io_wait W (ps_tick s) (sf_id f)) nonce in
     case ctxErr W (tick s) of (gone, s1) \<Rightarrow>
       if gone then failR ClientGone (cancelStreams fs s1)
       else bindR (flushed W buf fs) (\<lambda>_ s2. case ctxErr W s2 of (gone2, s3) \<Rightarrow>
         if gone2 then okR False (cancelStreams fs s3) else streamLoop L W nonce fs s3) s1)"

definition beginStreaming :: "'d lib \<Rightarrow> int \<Rightarrow> ('d, 's) pst \<Rightarrow> ('d, 's) pst" where
  "beginStreaming L status s =
    (let w1 = ckApply (lb_cookie L) (ev_Cookies (ps_ev s)) (ps_w s);
         w2 = rwSet ''X-Accel-Buffering'' ''no'' (rwSet ''Content-Type'' ''text/html; charset=utf-8'' w1)
     in s\<lparr>ps_w := rwWriteHeader status (w2\<lparr>rw_Header := hDel ''Content-Length'' (rw_Header w2)\<rparr>)\<rparr>)"

definition renderStreaming :: "'d lib \<Rightarrow> 'd io \<Rightarrow> ('d, 's) Server \<Rightarrow>
    (string \<Rightarrow> 'd option RenderCtx \<times> 's \<Rightarrow> ('d, string) frun \<times> ('d option RenderCtx \<times> 's)) \<Rightarrow> streamedField list \<Rightarrow> int \<Rightarrow>
    string \<Rightarrow> string \<Rightarrow> string \<Rightarrow> 'd clientPayload \<Rightarrow> string \<Rightarrow> ('d, 's) pst \<Rightarrow> ('d, unit) frun \<times> ('d, 's) pst" where
  "renderStreaming L W sv inner streams status headBytes hTags eTag payload nonce s =
    bindR (onRender (inner (sv_shellHead sv @ headBytes @ hTags @ sv_shellMid sv))) (\<lambda>buf.
      bindR (flushed W (emitPayloadScriptTag (lb_marshal L) (sv_cache sv) buf payload nonce) streams) (\<lambda>_.
        bindR (streamLoop L W nonce streams) (\<lambda>more.
          if more then flushed W (eTag @ serviceWorkerTag (sv_serviceWorker sv) nonce @ sv_shellTail sv) []
          else okR ()))) (beginStreaming L status s)"

section \<open>The page\<close>

definition renderPage :: "'d lib \<Rightarrow> 'd io \<Rightarrow> ('d, 's) Server \<Rightarrow> Request \<Rightarrow> ('d, 's) route \<Rightarrow> 'd formData option \<Rightarrow> ('d, 's) pst \<Rightarrow>
    ('d, Response) frun \<times> ('d, 's) pst" where
  "renderPage L W sv r route form =
    bindR (runLoads True r (rt_handlers route)) (\<lambda>(d0, lds, lctx).
      bindR (withForm L form d0) (\<lambda>data s.
        let h = rt_handlers route; nonce = Nonce (ps_ev s); streams = collectStreams L data lds in
        bindR (onRender (gatherHead h data lds)) (\<lambda>headBytes s1.
          if length streams > 0 then
            (let s2 = s1\<lparr>ps_w := rwAll (loadHeaders lctx) (ps_w s1)\<rparr>;
                 payload = requestPayload L sv r route s2 True data lds lctx form
             in case renderStreaming L W sv (innerRender h data lds) streams (formStatus form) headBytes
                       (headTags sv route nonce) (entryTag sv route nonce) payload nonce s2 of
                  (Done (Inr _), s3) \<Rightarrow> failR StreamingWrote s3
                | (Done (Inl e), s3) \<Rightarrow> if isClientGoneErr e then failR StreamingWrote s3 else failR e s3
                | (Crash p, s3) \<Rightarrow> (Crash p, s3))
          else bindR (onRender (innerRender h data lds (sv_shellHead sv @ headBytes @ headTags sv route nonce @ sv_shellMid sv))) (\<lambda>buf s2.
            let buf1 = emitPayloadScriptTag (lb_marshal L) (sv_cache sv) buf (requestPayload L sv r route s2 True data lds lctx form) nonce;
                body = buf1 @ entryTag sv route nonce @ serviceWorkerTag (sv_serviceWorker sv) nonce @ sv_shellTail sv
            in okR (htmlResponse (formStatus form) (loadHeaders lctx) body) s2) s1) s))"

section \<open>Resolving a request\<close>

definition optionsAllowSSR :: "PageOptions \<Rightarrow> bool" where
  "optionsAllowSSR opts = (if Equal opts zeroPageOptions then True else po_SSR opts)"

definition notFound :: "'d lib \<Rightarrow> 'd err" where
  "notFound L = SafeErr \<lparr>se_Code = 404, se_Message = lb_statusText L 404, se_ID = []\<rparr>"

text \<open>The path that is matched, and the route with its parameters and the path it was found for.\<close>

definition matchPathOf :: "Request \<Rightarrow> ('d, 's) event \<Rightarrow> string" where
  "matchPathOf r ev =
    (let m0 = (if ev_MatchPath ev = [] then u_Path (ev_URL ev) else ev_MatchPath ev)
     in if isDataJSONPath (u_Path (rq_URL r)) then
          (let m1 = trimSuffix m0 ''/__data.json'' in if m1 = [] then ''/'' else m1)
        else m0)"

definition findRoute :: "('d, 's) handlers Tree \<Rightarrow> string \<Rightarrow> (('d, 's) route \<times> (string \<rightharpoonup> string) option \<times> string) option" where
  "findRoute t matchPath = (case Match t matchPath of
      Some (route, params) \<Rightarrow> Some (route, params, matchPath)
    | None \<Rightarrow>
       (let alt = togglePathSlash matchPath in
        if alt \<noteq> matchPath then
          (case Match t alt of Some (route, params) \<Rightarrow> Some (route, params, alt) | None \<Rightarrow> None)
        else None))"

text \<open>The parameter map is walked by the names of the route's segments.\<close>

definition paramEntries :: "Segment list \<Rightarrow> (string \<rightharpoonup> string) option \<Rightarrow> string gomap" where
  "paramEntries segs params = (case params of
      None \<Rightarrow> []
    | Some m \<Rightarrow> List.map_filter (\<lambda>n. map_option (Pair n) (m n)) (map seg_name (filter (\<lambda>sg. seg_kind sg \<noteq> SegmentStatic) segs)))"

definition setParamsEv :: "('d, 's) route \<Rightarrow> (string \<rightharpoonup> string) option \<Rightarrow> string \<Rightarrow> ('d, 's) event \<Rightarrow> ('d, 's) event" where
  "setParamsEv route params matchedPath ev =
    ev\<lparr>ev_Params := foldl (\<lambda>m (k, v). setKey k v m) (ev_Params ev) (paramEntries (rt_Segments route) params),
       ev_RawParams := rawParamsFromPath matchedPath (rt_Segments route) params\<rparr>"

definition methodsOf :: "('d, 's) serverFn option gomap \<Rightarrow> string list" where
  "methodsOf m = sort (map fst (filter (\<lambda>(k, v). \<not> Option.is_none v) m))"

definition writePlain :: "int \<Rightarrow> string \<Rightarrow> ResponseWriter \<Rightarrow> ResponseWriter" where
  "writePlain status body w = rwWrite body (rwWriteHeader status (rwSet ''X-Content-Type-Options'' ''nosniff''
     (rwSet ''Content-Type'' ''text/plain; charset=utf-8'' w)))"

definition methodNotAllowed :: "string list \<Rightarrow> ResponseWriter \<Rightarrow> ResponseWriter" where
  "methodNotAllowed allowed w = writePlain 405 (''405 method not allowed'' @ [CHR 0x0A]) (rwSet ''Allow'' (joinStr '', '' allowed) w)"

definition serveServerRoute :: "Request \<Rightarrow> ('d, 's) serverFn option gomap \<Rightarrow> ('d, 's) pst \<Rightarrow> ('d, Response) frun \<times> ('d, 's) pst" where
  "serveServerRoute r m s = (case map_of m (rq_Method r) of
      Some (Some h) \<Rightarrow>
        (case h r (ps_w s, ps_user s) of (res, w, u) \<Rightarrow>
          let s' = s\<lparr>ps_w := w, ps_user := u\<rparr> in
          (case res of Done _ \<Rightarrow> failR ServerRouteWrote s' | Crash p \<Rightarrow> (Crash p, s')))
    | _ \<Rightarrow> failR ServerRouteWrote (s\<lparr>ps_w := methodNotAllowed (methodsOf m) (ps_w s)\<rparr>))"

text \<open>What is answered for a page once CSRF has been checked and the action, if any, has run.\<close>

definition renderRoute :: "'d lib \<Rightarrow> 'd io \<Rightarrow> ('d, 's) Server \<Rightarrow> Request \<Rightarrow> ('d, 's) route \<Rightarrow> 'd formData option \<Rightarrow> ('d, 's) pst \<Rightarrow>
    ('d, Response) frun \<times> ('d, 's) pst" where
  "renderRoute L W sv r route form s =
    (let h = rt_handlers route; isSvelteMode = (po_Templates (hd_Options h) = TemplatesSvelte) in
     if \<not> optionsAllowSSR (hd_Options h) then
       (if isSvelteMode then renderSvelteShell L sv r route form s else okR (renderEmptyShell sv (ps_ev s)) s)
     else if isSvelteMode \<and> Option.is_none (hd_Page h) then renderSvelteShell L sv r route form s
     else renderPage L W sv r route form s)"

definition resolvePage :: "'d lib \<Rightarrow> 'd io \<Rightarrow> ('d, 's) Server \<Rightarrow> Request \<Rightarrow> ('d, 's) route \<Rightarrow> ('d, 's) pst \<Rightarrow>
    ('d, Response) frun \<times> ('d, 's) pst" where
  "resolvePage L W sv r route s =
    (case applyCSRF L W r route s of
       (Some rejected, s1) \<Rightarrow> if isEnhanceRequest (Some r) then okR (enhanceForbiddenResponse L) s1 else okR rejected s1
     | (None, s1) \<Rightarrow>
        if rq_Method r = ''POST'' then
          bindR (dispatchAction sv r route) (\<lambda>(res, fd) s2.
            if isEnhanceRequest (Some r) then okR (enhanceResponse L res fd) s2
            else (case res of Some rs \<Rightarrow> okR rs s2 | None \<Rightarrow> renderRoute L W sv r route fd s2)) s1
        else renderRoute L W sv r route None s1)"

definition resolve :: "'d lib \<Rightarrow> 'd io \<Rightarrow> ('d, 's) Server \<Rightarrow> Request \<Rightarrow> ('d, 's) pst \<Rightarrow> ('d, Response) frun \<times> ('d, 's) pst" where
  "resolve L W sv r s = (case findRoute (sv_tree sv) (matchPathOf r (ps_ev s)) of
      None \<Rightarrow> failR (notFound L) s
    | Some (route, params, matchedPath) \<Rightarrow>
       (let h = rt_handlers route;
            s1 = s\<lparr>ps_matched := Some route, ps_ev := setParamsEv route params matchedPath (ps_ev s)\<rparr>;
            redirect = trailingSlashRedirect (Some (ev_URL (ps_ev s1))) (po_TrailingSlash (hd_Options h))
        in if redirect \<noteq> [] then okR \<lparr>rs_Status = 308, rs_Headers = [''Location'' \<mapsto> [redirect]], rs_Body = []\<rparr> s1
           else if length (hd_Server h) > 0 then serveServerRoute r (hd_Server h) s1
           else if po_Templates (hd_Options h) \<noteq> TemplatesSvelte \<and> Option.is_none (hd_Page h) then failR (notFound L) s1
           else if isDataJSONPath (u_Path (rq_URL r)) then
             (if po_SSROnly (hd_Options h) then failR (notFound L) s1
              else renderDataJSON L sv r route None (snd (applyCSRF L W r route s1)))
           else resolvePage L W sv r route s1))"

end
