(* ===== verification/PipelineHandle.thy ===== *)
theory PipelineHandle
  imports Pipeline
begin

text \<open>
  The request entry point: the CSP header and nonce, the hook around \<^verbatim>\<open>resolve\<close> with its panic
  boundary, the conversion of errors to responses (\<^verbatim>\<open>server/errors.go\<close>) and the flushing of the
  response (\<^verbatim>\<open>handle\<close>, \<^verbatim>\<open>runHandle\<close>, \<^verbatim>\<open>writeResponse\<close> and \<^verbatim>\<open>drainAfter\<close> of
  \<^verbatim>\<open>server/pipeline.go\<close>).
\<close>

section \<open>Errors\<close>

text \<open>\<^verbatim>\<open>http.Redirect\<close>: \<open>lb_location\<close> makes a relative target absolute.\<close>

definition httpRedirect :: "'d lib \<Rightarrow> Request \<Rightarrow> string \<Rightarrow> int \<Rightarrow> ResponseWriter \<Rightarrow> ResponseWriter" where
  "httpRedirect L r target code w =
    (let url = lb_location L (rq_URL r) target;
         hadCT = (rw_Header w ''Content-Type'' \<noteq> None);
         w1 = rwSet ''Location'' (lb_headerEscape L url) w;
         w2 = (if \<not> hadCT \<and> (rq_Method r = ''GET'' \<or> rq_Method r = ''HEAD'')
               then rwSet ''Content-Type'' ''text/html; charset=utf-8'' w1 else w1);
         w3 = rwWriteHeader code w2
     in if \<not> hadCT \<and> rq_Method r = ''GET''
        then rwWrite (''<a href='' @ dq @ lb_htmlEscape L url @ dq @ ''>'' @ lb_statusText L code @ ''</a>.'' @ [CHR 0x0A, CHR 0x0A]) w3
        else w3)"

definition applyCookies :: "'d lib \<Rightarrow> ('d, 's) event \<Rightarrow> ResponseWriter \<Rightarrow> ResponseWriter" where
  "applyCookies L ev w = ckApply (lb_cookie L) (ev_Cookies ev) w"

definition applyEvent :: "'d lib \<Rightarrow> ('d, 's) event \<Rightarrow> ResponseWriter \<Rightarrow> ResponseWriter" where
  "applyEvent L ev w = rwAll (ev_responseHeader ev) (applyCookies L ev w)"

definition writeSafeError :: "'d lib \<Rightarrow> ('d, 's) event \<Rightarrow> SafeError \<Rightarrow> ResponseWriter \<Rightarrow> ResponseWriter" where
  "writeSafeError L ev safe w =
    (let status = seHTTPStatus safe;
         msg = (if se_Message safe = [] then lb_statusText L status else se_Message safe)
     in writePlain status (msg @ [CHR 0x0A]) (applyEvent L ev w))"

definition renderErrorBoundary :: "'d lib \<Rightarrow> ('d, 's) Server \<Rightarrow> ('d, 's) errorFn \<Rightarrow> SafeError \<Rightarrow> ('d, 's) pst \<Rightarrow>
    ('d, unit) frun \<times> ('d, 's) pst" where
  "renderErrorBoundary L sv renderError safe =
    bindR (onRender (renderError safe (sv_shellHead sv @ sv_shellMid sv))) (\<lambda>buf s.
      let body = buf @ sv_shellTail sv;
          w1 = applyEvent L (ps_ev s) (ps_w s);
          w2 = rwSet ''Content-Length'' (lenString body) (rwSet ''Content-Type'' ''text/html; charset=utf-8'' w1)
      in okR () (s\<lparr>ps_w := rwWrite body (rwWriteHeader (seHTTPStatus safe) w2)\<rparr>))"

definition respondWithError :: "'d lib \<Rightarrow> ('d, 's) Server \<Rightarrow> ('d, 's) route option \<Rightarrow> SafeError \<Rightarrow> ('d, 's) pst \<Rightarrow>
    ('d, unit) run \<times> ('d, 's) pst" where
  "respondWithError L sv route safe s =
    (case Option.bind route (\<lambda>rt. hd_RenderError (rt_handlers rt)) of
       None \<Rightarrow> (Done (), s\<lparr>ps_w := writeSafeError L (ps_ev s) safe (ps_w s)\<rparr>)
     | Some renderError \<Rightarrow> (case renderErrorBoundary L sv renderError safe s of
         (Done (Inr _), s') \<Rightarrow> (Done (), s')
       | (Done (Inl _), s') \<Rightarrow> (Done (), s'\<lparr>ps_w := writeSafeError L (ps_ev s') safe (ps_w s')\<rparr>)
       | (Crash p, s') \<Rightarrow> (Crash p, s')))"

definition serverErrorPlain :: "'d lib \<Rightarrow> ResponseWriter \<Rightarrow> ResponseWriter" where
  "serverErrorPlain L w = writePlain 500 (lb_statusText L 500 @ [CHR 0x0A]) w"

text \<open>The outcome of the user's error hook: a safe error, or an error that replaces the response.\<close>

definition afterHandleError :: "'d lib \<Rightarrow> ('d, 's) Server \<Rightarrow> Request \<Rightarrow> ('d, 's) route option \<Rightarrow> 'd err \<Rightarrow> SafeError \<Rightarrow> 'd err option \<Rightarrow>
    ('d, 's) pst \<Rightarrow> ('d, unit) run \<times> ('d, 's) pst" where
  "afterHandleError L sv r route e safe shortCircuit s = (case shortCircuit of
      Some sc \<Rightarrow> (Done (), s\<lparr>ps_w := (case asRedirect sc of
          Some (code, loc, _) \<Rightarrow> httpRedirect L r loc code (applyCookies L (ps_ev s) (ps_w s))
        | None \<Rightarrow> (case asHTTPErr sc of
            Some (code, msg) \<Rightarrow> writePlain code (msg @ [CHR 0x0A]) (applyCookies L (ps_ev s) (ps_w s))
          | None \<Rightarrow> serverErrorPlain L (ps_w s)))\<rparr>)
    | None \<Rightarrow>
       (let safe' = (if se_Code safe = 500 \<and> se_Message safe = lb_statusText L 500 then
               (case asStatuser e of
                  Some c \<Rightarrow> safe\<lparr>se_Code := c, se_Message := lb_statusText L c\<rparr>
                | None \<Rightarrow> safe)
             else safe)
        in respondWithError L sv route safe' s))"

definition handlePipelineError :: "'d lib \<Rightarrow> ('d, 's) Server \<Rightarrow> Request \<Rightarrow> ('d, 's) route option \<Rightarrow> 'd err \<Rightarrow> ('d, 's) pst \<Rightarrow>
    ('d, unit) run \<times> ('d, 's) pst" where
  "handlePipelineError L sv r route e s = (case asRedirect e of
      Some (code, loc, reload) \<Rightarrow>
        (let w1 = applyEvent L (ps_ev s) (ps_w s);
             w2 = (if reload then rwSet ''X-Sveltego-Reload'' ''1'' w1 else w1)
         in (Done (), s\<lparr>ps_w := httpRedirect L r loc code w2\<rparr>))
    | None \<Rightarrow> (case asHTTPErr e of
        Some (code, msg) \<Rightarrow> (Done (), s\<lparr>ps_w := writePlain code (msg @ [CHR 0x0A]) (applyEvent L (ps_ev s) (ps_w s))\<rparr>)
      | None \<Rightarrow> (case asFail e of
          Some _ \<Rightarrow> (Done (), s\<lparr>ps_w := serverErrorPlain L (ps_w s)\<rparr>)
        | None \<Rightarrow> (case asSafe e of
            Some safe \<Rightarrow> respondWithError L sv route safe s
          | None \<Rightarrow> (case asHTTPError e of
              Some (code, pub) \<Rightarrow> respondWithError L sv route \<lparr>se_Code = code, se_Message = pub, se_ID = []\<rparr> s
            | None \<Rightarrow> (case callHandleError (sv_hooks sv) e (ps_ev s, ps_user s) of
                (Crash p, ev', u') \<Rightarrow> (Crash p, s\<lparr>ps_ev := ev', ps_user := u'\<rparr>)
              | (Done (safe, sc), ev', u') \<Rightarrow> afterHandleError L sv r route e safe sc (s\<lparr>ps_ev := ev', ps_user := u'\<rparr>)))))))"

section \<open>The entry point\<close>

definition applyCSP :: "'d lib \<Rightarrow> 'd io \<Rightarrow> ('d, 's) Server \<Rightarrow> ('d, 's) pst \<Rightarrow> ('d, 's) pst" where
  "applyCSP L W sv s =
    (if csp_Mode (sv_csp sv) = CSPOff then s
     else let nonce = generateToken (lb_base64 L) (io_rand W (ps_tick s)); s1 = tick s in
       if nonce = [] then s1
       else let s2 = s1\<lparr>ps_ev := SetNonce nonce (ps_ev s1)\<rparr>; name = CSPHeaderName (csp_Mode (sv_csp sv)) in
         if name \<noteq> [] then s2\<lparr>ps_w := rwSet name (BuildCSP (sv_cspTemplate sv) nonce) (ps_w s2)\<rparr> else s2)"

definition resolveFn :: "'d lib \<Rightarrow> 'd io \<Rightarrow> ('d, 's) Server \<Rightarrow> Request \<Rightarrow> ('d, 's) resolveFn" where
  "resolveFn L W sv r = bindR (resolve L W sv r) (\<lambda>rs. okR (Some rs))"

definition runHandle :: "'d lib \<Rightarrow> ('d, 's) Server \<Rightarrow> ('d, 's) resolveFn \<Rightarrow> ('d, 's) pst \<Rightarrow>
    ('d err, Response option) result \<times> ('d, 's) pst" where
  "runHandle L sv rf s = (case callHandle (sv_hooks sv) rf s of
      (Done res, s') \<Rightarrow> (res, s')
    | (Crash (PanicErr e), s') \<Rightarrow> (Inl (Wrapped (''server: pipeline panic: '' @ errText (lb_statusText L) e) e), s')
    | (Crash (PanicVal v), s') \<Rightarrow> (Inl (UserErr (''server: pipeline panic: '' @ v) None None), s'))"

definition writeResponse :: "'d lib \<Rightarrow> ('d, 's) event \<Rightarrow> Response \<Rightarrow> ResponseWriter \<Rightarrow> ResponseWriter" where
  "writeResponse L ev res w =
    (let w1 = rwAll (rs_Headers res) (applyCookies L ev w);
         w2 = rwWriteHeader (if rs_Status res = 0 then 200 else rs_Status res) w1
     in if length (rs_Body res) > 0 then rwWrite (rs_Body res) w2 else w2)"

text \<open>\<^verbatim>\<open>drainAfter\<close> runs the queued functions on the application.\<close>

definition drainAfter :: "'d io \<Rightarrow> ('d, 's) pst \<Rightarrow> ('d, 's) pst" where
  "drainAfter W s = (case DrainAfter (io_drainDone W) (ps_ev s) of (ev', fns) \<Rightarrow>
     s\<lparr>ps_ev := ev', ps_user := foldl (\<lambda>u f. f u) (ps_user s) fns\<rparr>)"

definition handle :: "'d lib \<Rightarrow> 'd io \<Rightarrow> ('d, 's) Server \<Rightarrow> Request \<Rightarrow> ResponseWriter \<Rightarrow> 's \<Rightarrow> ('d, unit) run \<times> ('d, 's) pst" where
  "handle L W sv r w u =
    (let s0 = \<lparr>ps_w = w, ps_ev = NewRequestEvent r None, ps_user = u, ps_matched = None, ps_cancelled = [], ps_tick = 0\<rparr>;
         s1 = applyCSP L W sv s0
     in case callReroute (sv_hooks sv) (ev_URL (ps_ev s1)) (ps_user s1) of
          (Crash p, u1) \<Rightarrow> (Crash p, s1\<lparr>ps_user := u1\<rparr>)
        | (Done rewritten, u1) \<Rightarrow>
           (let s2 = s1\<lparr>ps_user := u1\<rparr>;
                s3 = (if rewritten \<noteq> [] then s2\<lparr>ps_ev := (ps_ev s2)\<lparr>ev_MatchPath := rewritten\<rparr>\<rparr> else s2)
            in case runHandle L sv (resolveFn L W sv r) s3 of
                 (Inl e, s4) \<Rightarrow>
                   if isWrote e then (Done (), drainAfter W s4)
                   else (case handlePipelineError L sv r (ps_matched s4) e s4 of
                      (Crash p, s5) \<Rightarrow> (Crash p, s5)
                    | (Done _, s5) \<Rightarrow> (Done (), drainAfter W s5))
               | (Inr None, s4) \<Rightarrow> (Done (), s4)
               | (Inr (Some res), s4) \<Rightarrow> (Done (), drainAfter W (s4\<lparr>ps_w := writeResponse L (ps_ev s4) res (ps_w s4)\<rparr>))))"

end
