(* ===== verification/PipelineProps.thy ===== *)
theory PipelineProps
  imports PipelineHandle
begin

text \<open>
  What the request pipeline promises: an action runs only behind a valid CSRF token, panics of user
  code do not leave the request, trailing-slash redirects end, and what a streamed response has sent
  is final.
\<close>

section \<open>CSRF\<close>

definition tokenValid :: "Request \<Rightarrow> ('d, 's) event \<Rightarrow> bool" where
  "tokenValid r ev \<longleftrightarrow> CSRFTokenEqual (fst (ckGet CSRFCookieName (ev_Cookies ev))) (submittedToken r)"

text \<open>A route on which form actions are only reachable behind the CSRF check.\<close>

definition csrfGuarded :: "('d, 's) route \<Rightarrow> bool" where
  "csrfGuarded route \<longleftrightarrow> (case hd_Actions (rt_handlers route) of None \<Rightarrow> True | Some _ \<Rightarrow> po_CSRF (hd_Options (rt_handlers route)))"

definition withAction :: "('d, 's) handleActionFn option \<Rightarrow> ('d, 's) Server \<Rightarrow> ('d, 's) Server" where
  "withAction a sv = sv\<lparr>sv_hooks := (sv_hooks sv)\<lparr>hk_HandleAction := a\<rparr>\<rparr>"

lemma withAction_fields [simp]:
  "sv_tree (withAction a sv) = sv_tree sv" "sv_shellHead (withAction a sv) = sv_shellHead sv"
  "sv_shellMid (withAction a sv) = sv_shellMid sv" "sv_shellTail (withAction a sv) = sv_shellTail sv"
  "sv_viteManifest (withAction a sv) = sv_viteManifest sv" "sv_viteBase (withAction a sv) = sv_viteBase sv"
  "sv_serviceWorker (withAction a sv) = sv_serviceWorker sv" "sv_clientManifest (withAction a sv) = sv_clientManifest sv"
  "sv_cache (withAction a sv) = sv_cache sv" "sv_appVersion (withAction a sv) = sv_appVersion sv"
  "sv_versionPoll (withAction a sv) = sv_versionPoll sv"
  by (simp_all add: withAction_def)

lemma headTags_withAction: "headTags (withAction a sv) = headTags sv"
  by (intro ext) (unfold headTags_def withAction_fields, rule refl)

lemma entryTag_withAction: "entryTag (withAction a sv) = entryTag sv"
  by (intro ext) (unfold entryTag_def withAction_fields, rule refl)

lemma requestPayload_withAction: "requestPayload L (withAction a sv) = requestPayload L sv"
  by (intro ext) (unfold requestPayload_def withAction_fields, rule refl)

lemma renderEmptyShell_withAction: "renderEmptyShell (withAction a sv) = renderEmptyShell sv"
  by (intro ext) (unfold renderEmptyShell_def withAction_fields, rule refl)

lemmas parts_withAction = withAction_fields headTags_withAction entryTag_withAction requestPayload_withAction
  renderEmptyShell_withAction

lemma renderDataJSON_withAction [simp]: "renderDataJSON L (withAction a sv) = renderDataJSON L sv"
  by (intro ext) (unfold renderDataJSON_def parts_withAction, rule refl)

lemma renderSvelteShell_withAction: "renderSvelteShell L (withAction a sv) = renderSvelteShell L sv"
  by (intro ext) (unfold renderSvelteShell_def parts_withAction, rule refl)

lemma renderStreaming_withAction: "renderStreaming L W (withAction a sv) = renderStreaming L W sv"
  by (intro ext) (unfold renderStreaming_def parts_withAction, rule refl)

lemma renderPage_withAction: "renderPage L W (withAction a sv) = renderPage L W sv"
  by (intro ext) (unfold renderPage_def parts_withAction renderStreaming_withAction, rule refl)

lemma renderRoute_withAction [simp]: "renderRoute L W (withAction a sv) = renderRoute L W sv"
  by (intro ext) (unfold renderRoute_def parts_withAction renderSvelteShell_withAction renderPage_withAction, rule refl)

lemma dispatchAction_none:
  "hd_Actions (rt_handlers route) = None \<Longrightarrow> dispatchAction sv r route = okR (Some (MethodNotAllowed [''GET'']), None)"
  by (simp add: dispatchAction_def fun_eq_iff)

lemma applyCSRF_rejects:
  assumes "csrfApplies (Some route)" "rq_Method r = ''POST''" "\<not> tokenValid r (ps_ev s)"
  shows "applyCSRF L W r route s = (Some (forbiddenResponse ''forbidden: csrf token missing or invalid''), s)"
  using assms by (simp add: applyCSRF_def tokenValid_def)

lemma resolvePage_withAction:
  assumes "csrfGuarded route" "\<not> tokenValid r (ps_ev s)"
  shows "resolvePage L W (withAction a sv) r route s = resolvePage L W sv r route s"
proof (cases "csrfApplies (Some route) \<and> rq_Method r = ''POST''")
  case True
  then show ?thesis using assms by (simp add: resolvePage_def applyCSRF_rejects)
next
  case False
  moreover have "hd_Actions (rt_handlers route) = None" if "\<not> csrfApplies (Some route)"
    using assms(1) that by (simp add: csrfGuarded_def csrfApplies_def split: option.splits)
  ultimately show ?thesis
    by (auto simp: resolvePage_def dispatchAction_none split: option.split prod.split)
qed

lemma tokenValid_setParamsEv [simp]: "tokenValid r (setParamsEv route params p ev) = tokenValid r ev"
  by (simp add: tokenValid_def setParamsEv_def)

text \<open>C8. CSRF protection: when the request's token is missing or wrong and the route the request resolves to
  keeps the check on (or has no actions), the outcome of \<^const>\<open>resolve\<close>, the response, the response
  writer, the event and the application's state, is the same whatever the action hook does: no form
  action runs.\<close>

theorem csrf_gate:
  assumes "\<not> tokenValid r (ps_ev s)"
    and "case findRoute (sv_tree sv) (matchPathOf r (ps_ev s)) of None \<Rightarrow> True | Some (route, _) \<Rightarrow> csrfGuarded route"
  shows "resolve L W (withAction a sv) r s = resolve L W sv r s"
  using assms
  by (auto simp: resolve_def Let_def resolvePage_withAction split: option.splits)

section \<open>A concrete server\<close>

definition demoLib :: "unit lib" where
  "demoLib = \<lparr>lb_marshal = demoMarshal, lb_marshalEnv = (\<lambda>_. Inr ''{}''), lb_statusText = (\<lambda>c. if c = 404 then ''Not Found'' else ''Internal Server Error''),
     lb_cookie = (\<lambda>c. ck_Name c @ ''='' @ ck_Value c), lb_secs = (\<lambda>n. n div 1000000000), lb_base64 = (\<lambda>b. b), lb_urlString = u_Path,
     lb_location = (\<lambda>_ t. t), lb_headerEscape = (\<lambda>t. t), lb_htmlEscape = (\<lambda>t. t), lb_isStruct = (\<lambda>_. False), lb_hasForm = (\<lambda>_. False),
     lb_canSetForm = (\<lambda>_. False), lb_setForm = (\<lambda>d _. Done d), lb_deref = Some, lb_typeOf = (\<lambda>_. []), lb_numField = (\<lambda>_. 0),
     lb_exported = (\<lambda>_ _. False), lb_implements = (\<lambda>_ _. False), lb_field = (\<lambda>_ _. None)\<rparr>"

definition demoIo :: "unit io" where
  "demoIo = \<lparr>io_rand = (\<lambda>_. Some ''rnd''), io_ctxErr = (\<lambda>_. False), io_flush = (\<lambda>_. None), io_wait = (\<lambda>_ _. Inr None), io_drainDone = (\<lambda>_. False)\<rparr>"

definition demoHandlers :: "(unit, nat) handlers" where
  "demoHandlers = \<lparr>hd_Page = Some (\<lambda>_ buf c. okR (buf @ ''page'') c), hd_Server = [], hd_Load = None, hd_Actions = None,
     hd_RenderChain = None, hd_LayoutLoaders = [], hd_Head = None, hd_LayoutHeads = [], hd_Options = DefaultPageOptions\<lparr>po_Templates := []\<rparr>,
     hd_RenderError = None, hd_ClientKey = []\<rparr>"

definition demoRoute :: "string \<Rightarrow> Segment list \<Rightarrow> (unit, nat) handlers \<Rightarrow> (unit, nat) route" where
  "demoRoute pat segs h = \<lparr>rt_ID = [], rt_Pattern = pat, rt_Segments = segs, rt_handlers = h\<rparr>"

definition treeOf :: "'h Route list \<Rightarrow> 'h Tree" where
  "treeOf rs = (case NewTree rs of Inr t \<Rightarrow> t | Inl _ \<Rightarrow> \<lparr>tr_root = newNode SegmentStatic [] [] [], tr_routes = [], tr_matchers = None\<rparr>)"

definition demoServer :: "(unit, nat) route list \<Rightarrow> (unit, nat) Hooks \<Rightarrow> (unit, nat) Server" where
  "demoServer rs hooks = \<lparr>sv_tree = treeOf rs, sv_hooks = hooks, sv_csp = \<lparr>csp_Mode = CSPOff, csp_Directives = [], csp_ReportTo = []\<rparr>,
     sv_cspTemplate = None, sv_shellHead = ''<h>'', sv_shellMid = ''<m>'', sv_shellTail = ''<t>'', sv_viteManifest = None, sv_viteBase = [],
     sv_serviceWorker = False, sv_clientManifest = [], sv_cache = demoCache, sv_appVersion = [], sv_versionPoll = demoPoll\<rparr>"

definition demoURL :: "string \<Rightarrow> URL" where
  "demoURL p = \<lparr>u_Scheme = [], u_Opaque = [], u_Host = [], u_Path = p, u_RawPath = [], u_ForceQuery = False, u_RawQuery = []\<rparr>"

definition demoRequest :: "string \<Rightarrow> string \<Rightarrow> Request" where
  "demoRequest m p = \<lparr>rq_Method = m, rq_URL = demoURL p, rq_Header = Map.empty, rq_TLS = False, rq_Cookies = [], rq_PostForm = Map.empty\<rparr>"

definition startState :: "Request \<Rightarrow> 's \<Rightarrow> ('d, 's) pst" where
  "startState r u = \<lparr>ps_w = newRW, ps_ev = NewRequestEvent r None, ps_user = u, ps_matched = None, ps_cancelled = [], ps_tick = 0\<rparr>"

text \<open>An application that counts its submissions.\<close>

definition countAction :: "(unit, nat) actionFn" where
  "countAction c = (case c of (ev, n) \<Rightarrow> (Done (Some (ActionData 200 None)), ev, Suc n))"

definition counterServer :: "(unit, nat) Server" where
  "counterServer = demoServer [demoRoute ''/c'' [\<lparr>seg_kind = SegmentStatic, seg_name = [], seg_value = ''c'', seg_matcher = []\<rparr>]
     (demoHandlers\<lparr>hd_Actions := Some [(''default'', Some countAction)]\<rparr>)] (DefaultHooks (lb_statusText demoLib) (\<lambda>_ s. (Done (Inr []), s)))"

definition withToken :: "string \<Rightarrow> Request \<Rightarrow> Request" where
  "withToken t r = r\<lparr>rq_Cookies := [(CSRFCookieName, t)], rq_PostForm := [CSRFFieldName \<mapsto> t]\<rparr>"

lemma demo_counts:
  "ps_user (snd (resolve demoLib demoIo counterServer (withToken ''t'' (demoRequest ''POST'' ''/c''))
     (startState (withToken ''t'' (demoRequest ''POST'' ''/c'')) 0))) = 1"
  by code_simp

theorem csrf_gate_witness:
  "resolve demoLib demoIo (withAction None counterServer) (demoRequest ''POST'' ''/c'') (startState (demoRequest ''POST'' ''/c'') 0) =
   resolve demoLib demoIo counterServer (demoRequest ''POST'' ''/c'') (startState (demoRequest ''POST'' ''/c'') 0)"
proof (rule csrf_gate)
  show "\<not> tokenValid (demoRequest ''POST'' ''/c'') (ps_ev (startState (demoRequest ''POST'' ''/c'') 0 :: (unit, nat) pst))"
    by code_simp
  show "case findRoute (sv_tree counterServer) (matchPathOf (demoRequest ''POST'' ''/c'') (ps_ev (startState (demoRequest ''POST'' ''/c'') 0 :: (unit, nat) pst))) of
     None \<Rightarrow> True | Some (route, _) \<Rightarrow> csrfGuarded route"
    by code_simp
qed

section \<open>Panics\<close>

text \<open>The hypotheses on user code that runs outside the panic boundary: the error hook, the reroute
  hook and the error boundaries of the routes return. The variable that holds the matched route belongs
  to the framework: a handle hook changes it only by resolving.\<close>

definition calmErrors :: "('d, 's) Hooks \<Rightarrow> bool" where
  "calmErrors h \<longleftrightarrow> (\<forall>e c. case callHandleError h e c of (Done _, _) \<Rightarrow> True | (Crash _, _) \<Rightarrow> False)"

definition calmReroute :: "('d, 's) Hooks \<Rightarrow> bool" where
  "calmReroute h \<longleftrightarrow> (\<forall>u c. case callReroute h u c of (Done _, _) \<Rightarrow> True | (Crash _, _) \<Rightarrow> False)"

definition calmRoute :: "('d, 's) route option \<Rightarrow> bool" where
  "calmRoute route \<longleftrightarrow> (case Option.bind route (\<lambda>rt. hd_RenderError (rt_handlers rt)) of None \<Rightarrow> True
     | Some f \<Rightarrow> (\<forall>safe buf c. case f safe buf c of (Done _, _) \<Rightarrow> True | (Crash _, _) \<Rightarrow> False))"

definition keepsMatched :: "('d, 's) Hooks \<Rightarrow> bool" where
  "keepsMatched h \<longleftrightarrow> (\<forall>P rf s. (\<forall>t. P (ps_matched t) \<longrightarrow> P (ps_matched (snd (rf t)))) \<longrightarrow> P (ps_matched s) \<longrightarrow>
     P (ps_matched (snd (callHandle h rf s))))"

text \<open>A run keeps a property of the state.\<close>

definition keeps :: "('t \<Rightarrow> bool) \<Rightarrow> ('t \<Rightarrow> 'r \<times> 't) \<Rightarrow> bool" where
  "keeps P f \<longleftrightarrow> (\<forall>s. P s \<longrightarrow> P (snd (f s)))"

lemma keepsI [intro?]: "(\<And>s. P s \<Longrightarrow> P (snd (f s))) \<Longrightarrow> keeps P f"
  by (simp add: keeps_def)

lemma keepsD: "keeps P f \<Longrightarrow> P s \<Longrightarrow> P (snd (f s))"
  by (simp add: keeps_def)

lemma keeps_pair: "keeps P f \<Longrightarrow> f s = (x, s') \<Longrightarrow> P s \<Longrightarrow> P s'"
  by (auto simp: keeps_def)

lemma keeps_okR [simp]: "keeps P (okR a)" and keeps_failR [simp]: "keeps P (failR e)"
  by (simp_all add: keeps_def okR_def failR_def)

lemma keeps_bindR: "keeps P m \<Longrightarrow> (\<And>a. keeps P (k a)) \<Longrightarrow> keeps P (bindR m k)"
  unfolding keeps_def bindR_def by (auto split: prod.split run.split sum.split)

lemma bindR_keeps: "P s \<Longrightarrow> keeps P m \<Longrightarrow> (\<And>a. keeps P (k a)) \<Longrightarrow> P (snd (bindR m k s))"
  by (rule keepsD[OF keeps_bindR])

lemma keeps_split: "(\<And>x y. keeps P (f x y)) \<Longrightarrow> keeps P (case p of (x, y) \<Rightarrow> f x y)"
  by (cases p) simp

lemma snd_okR [simp]: "snd (okR a s) = s" and snd_failR [simp]: "snd (failR e s) = s"
  by (simp_all add: okR_def failR_def)

text \<open>Such a property only looks at what the framework owns: the writer, the matched route.\<close>

definition frameworkOnly :: "(('d, 's) pst \<Rightarrow> bool) \<Rightarrow> bool" where
  "frameworkOnly P \<longleftrightarrow> (\<forall>s ev u c n. P s \<longrightarrow> P (s\<lparr>ps_ev := ev, ps_user := u, ps_cancelled := c, ps_tick := n\<rparr>))"

lemma frameworkD:
  assumes "frameworkOnly P" "P s"
  shows "P (s\<lparr>ps_ev := ev\<rparr>)" "P (s\<lparr>ps_user := u\<rparr>)" "P (s\<lparr>ps_cancelled := c\<rparr>)" "P (s\<lparr>ps_tick := n\<rparr>)"
    "P (s\<lparr>ps_ev := ev, ps_user := u\<rparr>)"
proof -
  have *: "P (s\<lparr>ps_ev := ev', ps_user := u', ps_cancelled := c', ps_tick := n'\<rparr>)" for ev' u' c' n'
    using assms unfolding frameworkOnly_def by blast
  show "P (s\<lparr>ps_ev := ev\<rparr>)" using *[where ev' = ev and u' = "ps_user s" and c' = "ps_cancelled s" and n' = "ps_tick s"] by simp
  show "P (s\<lparr>ps_user := u\<rparr>)" using *[where ev' = "ps_ev s" and u' = u and c' = "ps_cancelled s" and n' = "ps_tick s"] by simp
  show "P (s\<lparr>ps_cancelled := c\<rparr>)" using *[where ev' = "ps_ev s" and u' = "ps_user s" and c' = c and n' = "ps_tick s"] by simp
  show "P (s\<lparr>ps_tick := n\<rparr>)" using *[where ev' = "ps_ev s" and u' = "ps_user s" and c' = "ps_cancelled s" and n' = n] by simp
  show "P (s\<lparr>ps_ev := ev, ps_user := u\<rparr>)" using *[where ev' = ev and u' = u and c' = "ps_cancelled s" and n' = "ps_tick s"] by simp
qed

lemma keeps_runLoads: "frameworkOnly P \<Longrightarrow> keeps P (runLoads flush r h)"
  by (rule keepsI) (auto simp: runLoads_def Let_def frameworkD split: prod.split run.split sum.split)

lemma keeps_withForm: "keeps P (withForm L form d)"
  by (rule keepsI) (auto simp: withForm_def split: option.split run.split)

lemma keeps_onRender: "frameworkOnly P \<Longrightarrow> keeps P (onRender f)"
  by (rule keepsI) (auto simp: onRender_def frameworkD split: prod.split)

lemma keeps_dispatchAction: "frameworkOnly P \<Longrightarrow> keeps P (dispatchAction sv r route)"
  by (rule keepsI) (auto simp: dispatchAction_def Let_def frameworkD split: option.split prod.split run.split ActionResult.split)

lemma keeps_applyCSRF: "frameworkOnly P \<Longrightarrow> P s \<Longrightarrow> P (snd (applyCSRF L W r route s))"
  by (simp add: applyCSRF_def tick_def Let_def frameworkD)

lemma keeps_renderDataJSON: "frameworkOnly P \<Longrightarrow> keeps P (renderDataJSON L sv r route form)"
  apply (rule keepsI)
  apply (simp only: renderDataJSON_def split: if_split)
  apply (intro conjI impI)
   apply simp
  apply (erule keepsD[rotated])
  apply (intro keeps_bindR keeps_runLoads keeps_split keeps_withForm)
   apply assumption
  apply (rule keepsI)
  apply (simp split: sum.split)
  done

lemma keeps_renderSvelteShell: "frameworkOnly P \<Longrightarrow> keeps P (renderSvelteShell L sv r route form)"
  unfolding renderSvelteShell_def
  by (intro keeps_bindR keeps_runLoads keeps_split keeps_withForm, assumption) (rule keepsI, simp add: Let_def)

text \<open>Operations on the response writer keep what has been sent.\<close>

definition sentOp :: "(ResponseWriter \<Rightarrow> ResponseWriter) \<Rightarrow> bool" where
  "sentOp f \<longleftrightarrow> (\<forall>w x. rw_Sent w = Some x \<longrightarrow> rw_Sent (f w) = Some x)"

lemma sentOpD: "sentOp f \<Longrightarrow> rw_Sent w = Some x \<Longrightarrow> rw_Sent (f w) = Some x"
  unfolding sentOp_def by blast

lemma sentOp_id: "sentOp (\<lambda>w. w)"
  by (simp add: sentOp_def)

lemma sentOp_comp: "sentOp f \<Longrightarrow> sentOp g \<Longrightarrow> sentOp (\<lambda>w. f (g w))"
  by (simp add: sentOp_def)

lemma sentOp_header: "sentOp (rwSet k v)" "sentOp (rwAll h)" "sentOp (\<lambda>w. w\<lparr>rw_Header := g (rw_Header w)\<rparr>)"
  by (simp_all add: sentOp_def rwSet_def rwAll_def)

lemma sentOp_write: "sentOp (rwWriteHeader c)" "sentOp (rwWrite b)"
  by (simp_all add: sentOp_def rwWrite_def rwWriteHeader_def Let_def)

lemma sentOp_foldl: "(\<And>x. sentOp (\<lambda>w. f w x)) \<Longrightarrow> sentOp (\<lambda>w. foldl f w xs)"
proof (induction xs)
  case (Cons x xs)
  from Cons.IH[OF Cons.prems] Cons.prems[of x] show ?case by (simp add: sentOp_def)
qed (simp add: sentOp_def)

lemma sentOp_ckApply: "sentOp (ckApply str c)"
proof (cases c)
  case (Some j)
  have "sentOp (\<lambda>w. foldl (\<lambda>w ck. let v = str ck in
      if v \<noteq> [] then w\<lparr>rw_Header := hAdd ''Set-Cookie'' v (rw_Header w)\<rparr> else w) w (cj_out j))"
    by (rule sentOp_foldl) (simp add: sentOp_def Let_def)
  then show ?thesis by (simp add: Some ckApply_def sentOp_def)
qed (simp add: ckApply_def sentOp_def)

lemmas sentOps = sentOp_header sentOp_write sentOp_ckApply

definition writerStable :: "(('d, 's) pst \<Rightarrow> bool) \<Rightarrow> bool" where
  "writerStable P \<longleftrightarrow> frameworkOnly P \<and> (\<forall>f s. sentOp f \<longrightarrow> P s \<longrightarrow> P (s\<lparr>ps_w := f (ps_w s)\<rparr>))"

lemma writerD: "writerStable P \<Longrightarrow> sentOp f \<Longrightarrow> P s \<Longrightarrow> P (s\<lparr>ps_w := f (ps_w s)\<rparr>)"
  and writer_framework: "writerStable P \<Longrightarrow> frameworkOnly P"
  by (simp_all add: writerStable_def)

lemma keeps_tick: "writerStable P \<Longrightarrow> P s \<Longrightarrow> P (tick s)"
  by (simp add: tick_def frameworkD writer_framework)

lemma keeps_ctxErr: "writerStable P \<Longrightarrow> keeps P (ctxErr W)"
  by (rule keepsI) (simp add: ctxErr_def keeps_tick)

lemma keeps_cancelStreams: "writerStable P \<Longrightarrow> P s \<Longrightarrow> P (cancelStreams fs s)"
  by (simp add: cancelStreams_def frameworkD writer_framework)

lemma keeps_flushBuf: "writerStable P \<Longrightarrow> keeps P (flushBuf W buf)"
  by (rule keepsI) (auto simp: flushBuf_def keeps_tick writerD sentOps split: option.split)

lemma keeps_case:
  assumes "P (snd p)" "\<And>x s'. p = (x, s') \<Longrightarrow> P s' \<Longrightarrow> P (snd (k x s'))"
  shows "P (snd (case p of (x, s') \<Rightarrow> k x s'))"
  using assms by (cases p) simp

lemma keeps_flushed: 
  assumes ws: "writerStable P" shows "keeps P (flushed W buf pending)"
proof (rule keepsI, unfold flushed_def, rule keeps_case)
  fix s assume "P s"
  then show "P (snd (flushBuf W buf s))" by (rule keepsD[OF keeps_flushBuf[OF ws]])
  fix eo s1 assume P1: "P s1"
  show "P (snd (case eo of None \<Rightarrow> okR () s1
     | Some e \<Rightarrow> (case ctxErr W s1 of (gone, s2) \<Rightarrow>
          if isClientGone gone e then failR ClientGone (cancelStreams pending s2)
          else failR (UserErr (writeErrText e) None None) s2)))"
  proof (cases eo)
    case (Some e)
    have "P (snd (case ctxErr W s1 of (gone, s2) \<Rightarrow>
        if isClientGone gone e then failR ClientGone (cancelStreams pending s2)
        else failR (UserErr (writeErrText e) None None) s2))"
      by (rule keeps_case) (simp_all add: keepsD[OF keeps_ctxErr[OF ws] P1] keeps_cancelStreams[OF ws])
    then show ?thesis by (simp add: Some)
  qed (simp add: P1)
qed

lemma keeps_streamLoop: "writerStable P \<Longrightarrow> keeps P (streamLoop L W nonce fs)"
proof (induction fs)
  case (Cons f fs)
  note ws = Cons.prems and IH = Cons.IH[OF Cons.prems]
  have rest: "keeps P (\<lambda>s2. case ctxErr W s2 of (gone2, s3) \<Rightarrow>
      if gone2 then okR False (cancelStreams fs s3) else streamLoop L W nonce fs s3)"
    by (rule keepsI, rule keeps_case) (simp_all add: keepsD[OF keeps_ctxErr[OF ws]] keeps_cancelStreams[OF ws] keepsD[OF IH])
  show ?case
    by (rule keepsI, unfold streamLoop.simps Let_def, rule keeps_case)
      (simp_all add: keepsD[OF keeps_ctxErr[OF ws]] keeps_tick[OF ws] keeps_cancelStreams[OF ws]
        keepsD[OF keeps_bindR[OF keeps_flushed[OF ws] rest]])
qed (simp add: keeps_def)

lemma keeps_beginStreaming:
  assumes "writerStable P" "P s" shows "P (beginStreaming L status s)"
proof -
  let ?f = "\<lambda>w. rwWriteHeader status ((rwSet ''X-Accel-Buffering'' ''no'' (rwSet ''Content-Type'' ''text/html; charset=utf-8''
      (ckApply (lb_cookie L) (ev_Cookies (ps_ev s)) w)))\<lparr>rw_Header := hDel ''Content-Length''
      (rw_Header (rwSet ''X-Accel-Buffering'' ''no'' (rwSet ''Content-Type'' ''text/html; charset=utf-8''
      (ckApply (lb_cookie L) (ev_Cookies (ps_ev s)) w))))\<rparr>)"
  have "sentOp ?f"
    unfolding sentOp_def rwWriteHeader_def rwSet_def
    using sentOpD[OF sentOp_ckApply, of _ _ "lb_cookie L" "ev_Cookies (ps_ev s)"] by simp
  from writerD[OF assms(1) this assms(2)] show ?thesis by (simp add: beginStreaming_def Let_def)
qed

lemma keeps_renderStreaming:
  assumes ws: "writerStable P"
  shows "keeps P (renderStreaming L W sv inner streams status headBytes hTags eTag payload nonce)"
  unfolding renderStreaming_def
  by (rule keepsI, rule bindR_keeps, erule keeps_beginStreaming[OF ws])
    (simp_all add: keeps_bindR keeps_onRender writer_framework ws keeps_flushed keeps_streamLoop)

lemma keeps_renderPage:
  assumes ws: "writerStable P" shows "keeps P (renderPage L W sv r route form)"
proof -
  note fw = writer_framework[OF ws]
  note str = keepsD[OF keeps_renderStreaming[OF ws]]
  show ?thesis
    unfolding renderPage_def
    apply (intro keeps_bindR keeps_runLoads keeps_split keeps_withForm fw)
    apply (rule keepsI)
    apply (unfold Let_def)
    apply (erule bindR_keeps)
     apply (intro keeps_onRender fw)
    apply (rule keepsI)
    apply (simp only: split: if_split)
    apply (intro conjI impI)
     apply (rule keeps_case)
      apply (rule str)
      apply (erule writerD[OF ws sentOp_header(2)])
     apply (simp split: run.split sum.split)
    apply (erule bindR_keeps)
     apply (intro keeps_onRender fw)
    apply (rule keepsI)
    apply simp
    done
qed

lemma keeps_renderRoute:
  assumes ws: "writerStable P" shows "keeps P (renderRoute L W sv r route form)"
  by (rule keepsI) (simp add: renderRoute_def Let_def keepsD[OF keeps_renderPage[OF ws]]
      keepsD[OF keeps_renderSvelteShell[OF writer_framework[OF ws]]])

lemma keeps_resolvePage:
  assumes ws: "writerStable P" shows "keeps P (resolvePage L W sv r route)"
proof (rule keepsI, unfold resolvePage_def, rule keeps_case)
  fix s assume "P s"
  then show "P (snd (applyCSRF L W r route s))" by (rule keeps_applyCSRF[OF writer_framework[OF ws]])
  fix rej s1 assume P1: "P s1"
  have act: "keeps P (bindR (dispatchAction sv r route) (\<lambda>(res, fd) s2.
      if isEnhanceRequest (Some r) then okR (enhanceResponse L res fd) s2
      else (case res of Some rs \<Rightarrow> okR rs s2 | None \<Rightarrow> renderRoute L W sv r route fd s2)))"
    by (intro keeps_bindR keeps_dispatchAction[OF writer_framework[OF ws]] keeps_split)
      (rule keepsI, simp add: keepsD[OF keeps_renderRoute[OF ws]] split: option.split)
  show "P (snd (case rej of
       None \<Rightarrow>
        if rq_Method r = ''POST'' then
          bindR (dispatchAction sv r route) (\<lambda>(res, fd) s2.
            if isEnhanceRequest (Some r) then okR (enhanceResponse L res fd) s2
            else (case res of None \<Rightarrow> renderRoute L W sv r route fd s2 | Some rs \<Rightarrow> okR rs s2)) s1
        else renderRoute L W sv r route None s1
     | Some rejected \<Rightarrow> if isEnhanceRequest (Some r) then okR (enhanceForbiddenResponse L) s1 else okR rejected s1))"
    using P1 keepsD[OF act P1] keepsD[OF keeps_renderRoute[OF ws] P1] by (simp split: option.split)
qed

lemma matched_stable: "writerStable (\<lambda>s. Q (ps_matched s))"
  by (simp add: writerStable_def frameworkOnly_def)

lemma resolve_matched:
  assumes "\<And>route params p. findRoute (sv_tree sv) (matchPathOf r (ps_ev s)) = Some (route, params, p) \<Longrightarrow> Q (Some route)"
    and "Q (ps_matched s)"
  shows "Q (ps_matched (snd (resolve L W sv r s)))"
proof (cases "findRoute (sv_tree sv) (matchPathOf r (ps_ev s))")
  case None
  with assms(2) show ?thesis by (simp add: resolve_def)
next
  case (Some found)
  obtain route params p where f: "found = (route, params, p)" by (cases found) auto
  define s1 where "s1 = s\<lparr>ps_matched := Some route, ps_ev := setParamsEv route params p (ps_ev s)\<rparr>"
  have Q1: "Q (ps_matched s1)" using assms(1) Some f by (simp add: s1_def)
  note ws = matched_stable[of Q]
  have srv: "Q (ps_matched (snd (serveServerRoute r m s1)))" for m
    using Q1 by (auto simp: serveServerRoute_def Let_def split: option.split prod.split run.split)
  show ?thesis
    using Q1 srv keepsD[OF keeps_resolvePage[OF ws] Q1]
      keepsD[OF keeps_renderDataJSON[OF writer_framework[OF ws]] keeps_applyCSRF[OF writer_framework[OF ws] Q1]]
    by (simp add: resolve_def Some f s1_def[symmetric] Let_def)
qed

lemma respondWithError_returns:
  assumes "calmRoute route" shows "\<exists>s'. respondWithError L sv route safe s = (Done (), s')"
proof (cases "Option.bind route (\<lambda>rt. hd_RenderError (rt_handlers rt))")
  case (Some f)
  have "\<exists>x c'. f safe buf c = (Done x, c')" for buf c
    using assms Some by (auto simp: calmRoute_def split: prod.splits run.splits) (metis run.exhaust surj_pair)
  then obtain x c' where "f safe (sv_shellHead sv @ sv_shellMid sv) (renderCtxOf (ps_ev s), ps_user s) = (Done x, c')" by blast
  then show ?thesis
    by (cases x; cases c') (simp_all add: respondWithError_def Some renderErrorBoundary_def bindR_def onRender_def okR_def Let_def)
qed (simp add: respondWithError_def)

lemma handlePipelineError_returns:
  assumes "calmErrors (sv_hooks sv)" "calmRoute route"
  shows "\<exists>s'. handlePipelineError L sv r route e s = (Done (), s')"
proof -
  have he: "\<exists>safe sc ev u. callHandleError (sv_hooks sv) e c = (Done (safe, sc), ev, u)" for c
    using assms(1) unfolding calmErrors_def by (metis (no_types, lifting) case_prod_conv run.exhaust run.simps(6) surj_pair)
  show ?thesis
    using respondWithError_returns[OF assms(2)] he[of "(ps_ev s, ps_user s)"]
    by (auto simp: handlePipelineError_def afterHandleError_def Let_def split: option.split prod.split)
qed

lemma Match_in_routes:
  assumes "NewTree routes = Inr t0" "WithMatchers t0 m = (t, e)" "Match t path = Some (r, ps)"
  shows "r \<in> set (Routes t)"
proof -
  obtain segs cs where "firstCandidate t segs = Some (r, cs)"
    using assms(3) by (auto simp: Match_first split: option.splits)
  then have "(r, cs) \<in> set (candidates (tr_matchers t) (tr_root t) segs)"
    by (auto simp: firstCandidate_def split: list.splits)
  from built_candidates(1)[OF assms(1,2) this] show ?thesis by (simp add: Routes_def)
qed

lemma findRoute_in_routes:
  assumes "NewTree routes = Inr t0" "WithMatchers t0 m = (t, e)" "findRoute t p = Some (route, params, q)"
  shows "route \<in> set (Routes t)"
  using assms(3) Match_in_routes[OF assms(1,2)] by (auto simp: findRoute_def Let_def split: option.splits if_splits)



lemma demo_calm:
  "calmErrors (sv_hooks counterServer)" "calmReroute (sv_hooks counterServer)" "keepsMatched (sv_hooks counterServer)"
  by (simp_all add: counterServer_def demoServer_def DefaultHooks_def calmErrors_def calmReroute_def keepsMatched_def
      callHandleError_def callReroute_def callHandle_def IdentityHandleError_def IdentityReroute_def IdentityHandle_def)

lemma demo_tree:
  "isl (NewTree rs) = False \<Longrightarrow> NewTree rs = Inr (treeOf rs) \<and> WithMatchers (treeOf rs) None = (treeOf rs, missingMatchers None (Routes (treeOf rs)))"
  by (cases "NewTree rs") (auto simp: treeOf_def WithMatchers_def Let_def Routes_def NewTree_def split: sum.splits)


section \<open>Streaming\<close>

lemma ckApply_sent [simp]: "rw_Sent (ckApply str c w) = rw_Sent w"
proof (cases c)
  case (Some j)
  have "rw_Sent (foldl (\<lambda>w ck. let v = str ck in
      if v \<noteq> [] then w\<lparr>rw_Header := hAdd ''Set-Cookie'' v (rw_Header w)\<rparr> else w) w cs) = rw_Sent w" for cs
    by (induction cs arbitrary: w) (simp_all add: Let_def)
  then show ?thesis by (simp add: Some ckApply_def)
qed (simp add: ckApply_def)

lemma beginStreaming_sent:
  assumes "rw_Sent (ps_w s) = None"
  shows "\<exists>h. rw_Sent (ps_w (beginStreaming L status s)) = Some (status, h)"
  using assms by (simp add: beginStreaming_def Let_def rwWriteHeader_def rwSet_def)

lemma sentOp_error:
  "sentOp (writePlain status body)" "sentOp (applyEvent L ev)" "sentOp (applyCookies L ev)"
  "sentOp (writeSafeError L ev safe)" "sentOp (serverErrorPlain L)" "sentOp (httpRedirect L r loc code)"
  by (simp_all add: sentOp_def writePlain_def applyEvent_def applyCookies_def writeSafeError_def serverErrorPlain_def
      httpRedirect_def rwSet_def rwAll_def rwWrite_def rwWriteHeader_def Let_def)

lemma sent_stable: "writerStable (\<lambda>s. rw_Sent (ps_w s) = Some x)"
  by (simp add: writerStable_def frameworkOnly_def) (blast dest: sentOpD)

lemma keeps_respondWithError:
  assumes ws: "writerStable P" and "P s" shows "P (snd (respondWithError L sv route safe s))"
proof (cases "Option.bind route (\<lambda>rt. hd_RenderError (rt_handlers rt))")
  case None
  with writerD[OF ws sentOp_error(4) assms(2)] show ?thesis by (simp add: respondWithError_def)
next
  case (Some f)
  have boundary: "keeps P (renderErrorBoundary L sv f safe)"
    unfolding renderErrorBoundary_def
  proof (intro keeps_bindR keeps_onRender writer_framework[OF ws] keepsI)
    fix buf s assume "P s"
    have "sentOp (\<lambda>w. rwWrite (buf @ sv_shellTail sv) (rwWriteHeader (seHTTPStatus safe) (rwSet ''Content-Length''
        (lenString (buf @ sv_shellTail sv)) (rwSet ''Content-Type'' ''text/html; charset=utf-8'' (applyEvent L (ps_ev s) w)))))"
      by (simp add: sentOp_def applyEvent_def applyCookies_def rwSet_def rwAll_def rwWrite_def rwWriteHeader_def Let_def)
    from writerD[OF ws this \<open>P s\<close>]
    show "P (snd (let body = buf @ sv_shellTail sv;
          w1 = applyEvent L (ps_ev s) (ps_w s);
          w2 = rwSet ''Content-Length'' (lenString body) (rwSet ''Content-Type'' ''text/html; charset=utf-8'' w1)
      in okR () (s\<lparr>ps_w := rwWrite body (rwWriteHeader (seHTTPStatus safe) w2)\<rparr>)))" by (simp add: Let_def)
  qed
  from keepsD[OF boundary assms(2)] writerD[OF ws sentOp_error(4)] show ?thesis
    by (auto simp: respondWithError_def Some split: prod.split run.split sum.split)
qed

lemma keeps_handlePipelineError:
  assumes ws: "writerStable P" shows "keeps P (handlePipelineError L sv r route e)"
proof (rule keepsI)
  note fw = frameworkD(5)[OF writer_framework[OF ws]] and resp = keeps_respondWithError[OF ws]
  fix s assume P: "P s"
  have w: "P (t\<lparr>ps_w := f (g (ps_w t))\<rparr>)" if "sentOp f" "sentOp g" "P t" for f g t
    using writerD[OF ws sentOp_comp[OF that(1,2)] that(3)] .
  have after: "P (snd (afterHandleError L sv r route e safe sc t))" if "P t" for safe sc t
    using that writerD[OF ws sentOp_error(5) that] w[OF sentOp_error(6) sentOp_error(3) that] w[OF sentOp_error(1) sentOp_error(3) that] resp
    by (auto simp: afterHandleError_def Let_def split: option.split)
  have redir: "P (s\<lparr>ps_w := httpRedirect L r loc code (rwSet k v (applyEvent L (ps_ev s) (ps_w s)))\<rparr>)" for loc code k v
    using w[OF sentOp_error(6) sentOp_comp[OF sentOp_header(1) sentOp_error(2)] P] .
  have hooked: "P (snd (case callHandleError (sv_hooks sv) e (ps_ev s, ps_user s) of
      (Crash p, ev', u') \<Rightarrow> (Crash p, s\<lparr>ps_ev := ev', ps_user := u'\<rparr>)
    | (Done (safe, sc), ev', u') \<Rightarrow> afterHandleError L sv r route e safe sc (s\<lparr>ps_ev := ev', ps_user := u'\<rparr>)))"
    using fw[OF P] after[OF fw[OF P]] by (auto split: prod.split run.split)
  show "P (snd (handlePipelineError L sv r route e s))"
    using redir w[OF sentOp_error(6) sentOp_error(2) P] w[OF sentOp_error(1) sentOp_error(2) P]
      writerD[OF ws sentOp_error(5) P] resp[OF P] hooked
    by (auto simp: handlePipelineError_def Let_def split: option.split)
qed

text \<open>C10. A streamed response cannot report an error: \<^const>\<open>renderStreaming\<close> sends the status line
  before it runs the page, so when rendering or writing then fails, the error response that follows
  leaves the status as it was, the success status, whatever status the error asks for.\<close>

theorem streaming_status_final:
  assumes "rw_Sent (ps_w s) = None"
    and "renderStreaming L W sv inner streams status headBytes hTags eTag payload nonce s = (Done (Inl e), s')"
    and "handlePipelineError L sv r route e s' = (Done (), s'')"
  shows "\<exists>h. rw_Sent (ps_w s'') = Some (status, h)"
proof -
  obtain h where h: "rw_Sent (ps_w (beginStreaming L status s)) = Some (status, h)" using beginStreaming_sent[OF assms(1)] by blast
  have "rw_Sent (ps_w (snd (renderStreaming L W sv inner streams status headBytes hTags eTag payload nonce s))) = Some (status, h)"
    unfolding renderStreaming_def
    by (rule bindR_keeps[where P = "\<lambda>s. rw_Sent (ps_w s) = Some (status, h)", OF h])
      (simp_all add: keeps_bindR keeps_onRender keeps_flushed keeps_streamLoop writer_framework sent_stable)
  with assms(2) have "rw_Sent (ps_w s') = Some (status, h)" by simp
  from keepsD[OF keeps_handlePipelineError[OF sent_stable] this, of L sv r route e] assms(3) show ?thesis by auto
qed

theorem streaming_status_final_witness:
  "\<exists>h s'. handlePipelineError demoLib counterServer (demoRequest ''GET'' ''/c'') None (UserErr ''boom'' None None)
      (snd (renderStreaming demoLib demoIo counterServer (\<lambda>_. failR (UserErr ''boom'' None None))
        [\<lparr>sf_id = 1, sf_cancel = True\<rparr>] 200 [] [] [] demoPayload [] (startState (demoRequest ''GET'' ''/c'') 0))) = (Done (), s') \<and>
    rw_Sent (ps_w s') = Some (200, h)"
proof -
  let ?e = "UserErr ''boom'' None None :: unit err"
  let ?s = "startState (demoRequest ''GET'' ''/c'') 0 :: (unit, nat) pst"
  let ?run = "renderStreaming demoLib demoIo counterServer (\<lambda>_. failR ?e) [\<lparr>sf_id = 1, sf_cancel = True\<rparr>] 200 [] [] [] demoPayload [] ?s"
  have r: "?run = (Done (Inl ?e), snd ?run)"
    by (simp add: renderStreaming_def bindR_def onRender_def failR_def split: prod.split)
  have none: "calmRoute (None :: (unit, nat) route option)" by (simp add: calmRoute_def)
  obtain s' where h: "handlePipelineError demoLib counterServer (demoRequest ''GET'' ''/c'') None ?e (snd ?run) = (Done (), s')"
    using handlePipelineError_returns[OF demo_calm(1) none] by blast
  have "rw_Sent (ps_w ?s) = None" by (simp add: startState_def newRW_def)
  from streaming_status_final[OF this r h] h show ?thesis by blast
qed


end
