(* ===== verification/PipelinePaths.thy ===== *)
theory PipelinePaths
  imports PipelineProps
begin

text \<open>
  Paths through the pipeline: a trailing-slash redirect is followed once and not again, the raw
  parameters of a request decode to its parameters, and what happens to a path that is decoded twice.
\<close>

section \<open>Escaping and parsing paths\<close>

lemma pathUnescape_escapePath: "pathUnescape (escapePath s) = Some s"
proof (induction s)
  case (Cons c cs)
  have nib: "byteVal c div 16 < 16" "byteVal c mod 16 < 16" using byteVal_less[of c] by auto
  show ?case
  proof (cases "keepInPath c")
    case True
    then have "c \<noteq> CHR ''%''" by (auto simp: keepInPath_def inRange_def byteVal_def)
    with True Cons show ?thesis by (simp add: escapePath_def)
  next
    case False
    with Cons nib show ?thesis by (simp add: escapePath_def hexDigitUpper_inv)
  qed
qed (simp add: escapePath_def)

lemma hex_not_question: "n < 16 \<Longrightarrow> hexDigitUpper n \<noteq> CHR ''?''"
  using hexDigitUpper_inv(1)[of n] by (auto simp: isHexByte_def inRange_def byteVal_def)

lemma escapePath_no_question: "CHR ''?'' \<notin> set (escapePath s)"
proof (induction s)
  case (Cons c cs)
  have nib: "byteVal c div 16 < 16" "byteVal c mod 16 < 16" using byteVal_less[of c] by auto
  have "keepInPath c \<Longrightarrow> c \<noteq> CHR ''?''" by (auto simp: keepInPath_def inRange_def byteVal_def)
  with Cons hex_not_question[OF nib(1)] hex_not_question[OF nib(2)] show ?case
    by (auto simp: escapePath_def)
qed (simp add: escapePath_def)

lemma validEncoded_no_question: "validEncoded s \<Longrightarrow> CHR ''?'' \<notin> set s"
proof
  assume "validEncoded s" "CHR ''?'' \<in> set s"
  then have "validEncoded ''?''" unfolding validEncoded_def list_all_iff by (metis empty_iff list.set(1) set_ConsD)
  moreover have "\<not> validEncoded ''?''" by code_simp
  ultimately show False by simp
qed

lemma EscapedPath_decodes: "u_Path u \<noteq> ''*'' \<Longrightarrow> pathUnescape (EscapedPath u) = Some (u_Path u)"
  by (simp add: EscapedPath_def pathUnescape_escapePath)

lemma EscapedPath_no_question: "CHR ''?'' \<notin> set (EscapedPath u)"
  using escapePath_no_question validEncoded_no_question by (auto simp: EscapedPath_def)

section \<open>Trailing slashes\<close>

text \<open>The URL a client asks for when it follows a redirect to a path of the same server.\<close>

definition followTarget :: "string \<Rightarrow> URL option" where
  "followTarget t = (case cutByte t CHR ''?'' of (p, q, _) \<Rightarrow> parsePath p q)"

lemma follow_RequestURI:
  assumes "u_Opaque u = []" "u_Path u \<noteq> ''*''" "u_Path u \<noteq> []"
  shows "\<exists>u'. followTarget (RequestURI u) = Some u' \<and> u_Path u' = u_Path u \<and> u_RawQuery u' = u_RawQuery u"
proof -
  have ne: "EscapedPath u \<noteq> []" using EscapedPath_decodes[OF assms(2)] assms(3) by (metis pathUnescape.simps(1) option.inject)
  have "cutByte (RequestURI u) CHR ''?'' = (EscapedPath u, u_RawQuery u, u_ForceQuery u \<or> u_RawQuery u \<noteq> [])"
    using cutByte_found[OF EscapedPath_no_question, of u "u_RawQuery u"] cutByte_missing[OF EscapedPath_no_question, of u] ne
    by (auto simp: RequestURI_def Let_def assms(1))
  then show ?thesis by (simp add: followTarget_def parsePath_def EscapedPath_decodes[OF assms(2)])
qed

lemma trimRight_no_slash: "hasPrefix p ''/'' \<Longrightarrow> \<not> hasSuffix (trimRight p ''/'') ''/''"
  using trimRight_last[of p "''/''"] by (auto simp: hasSuffix_snoc)



text \<open>The location is a bare path: a path that starts with two slashes becomes a redirect to another
  host.\<close>

definition restServer :: "(unit, nat) Server" where
  "restServer = demoServer [demoRoute ''/[...rest]'' [\<lparr>seg_kind = SegmentRest, seg_name = ''rest'', seg_value = [], seg_matcher = []\<rparr>]
     (demoHandlers\<lparr>hd_Options := (hd_Options demoHandlers)\<lparr>po_TrailingSlash := TrailingSlashNever\<rparr>\<rparr>)]
     (DefaultHooks (lb_statusText demoLib) (\<lambda>_ s. (Done (Inr []), s)))"

lemma open_redirect_location:
  "(case fst (resolve demoLib demoIo restServer (demoRequest ''GET'' ''//evil.example/'') (startState (demoRequest ''GET'' ''//evil.example/'') 0)) of
      Done (Inr rs) \<Rightarrow> rs_Status rs = 308 \<and> hGet ''Location'' (rs_Headers rs) = ''//evil.example'' | _ \<Rightarrow> False)"
  by code_simp

section \<open>Raw parameters\<close>

lemma pathUnescape_append:
  "pathUnescape a = Some x \<Longrightarrow> pathUnescape b = Some y \<Longrightarrow> pathUnescape (a @ b) = Some (x @ y)"
proof (induction a arbitrary: x rule: pathUnescape.induct)
  case (2 c cs)
  show ?case
  proof (cases "c = CHR ''%''")
    case True
    with 2(3) obtain p q rest x' where cs: "cs = p # q # rest" "isHexByte p" "isHexByte q" "pathUnescape rest = Some x'"
        "x = char_of (16 * unhex p + unhex q) # x'"
      by (auto split: list.splits if_splits)
    with 2(1)[of p "q # rest" q rest x'] 2(4) True show ?thesis by simp
  next
    case False
    with 2(3) obtain x' where "pathUnescape cs = Some x'" "x = c # x'" by auto
    with 2(2)[OF False] 2(4) False show ?thesis by simp
  qed
qed simp

lemma pathUnescape_join:
  "those (map pathUnescape raws) = Some vs \<Longrightarrow> pathUnescape (joinStr ''/'' raws) = Some (joinStr ''/'' vs)"
proof (induction raws arbitrary: vs)
  case (Cons a raws)
  then obtain x vs' where x: "pathUnescape a = Some x" "those (map pathUnescape raws) = Some vs'" "vs = x # vs'"
    by (auto split: option.splits)
  have len: "length vs' = length raws" using x(2) unfolding those_Some by (metis length_map)
  have s: "pathUnescape (''/'' @ joinStr ''/'' raws) = Some (''/'' @ joinStr ''/'' vs')" using Cons.IH[OF x(2)] by simp
  show ?case
  proof (cases raws)
    case (Cons b bs)
    from Cons len obtain v vs'' where "vs' = v # vs''" by (cases vs') auto
    with Cons pathUnescape_append[OF x(1) s] x(3) show ?thesis by simp
  qed (use x in simp)
qed simp

text \<open>The loop keeps in step with the match: when every piece is non-empty, an optional segment has a
  non-empty value exactly when it consumed a piece.\<close>

definition decodedVal :: "(string \<rightharpoonup> string) option \<Rightarrow> string \<Rightarrow> string" where
  "decodedVal decoded n = (case decoded of None \<Rightarrow> [] | Some m \<Rightarrow> (case m n of None \<Rightarrow> [] | Some v \<Rightarrow> v))"

lemma map_drop_Cons:
  "map f (drop i xs) = map Some (v # vs) \<Longrightarrow> i < length xs \<and> f (xs ! i) = Some v \<and> map f (drop (Suc i) xs) = map Some vs"
  by (cases "i < length xs") (auto simp: Cons_nth_drop_Suc[symmetric])

lemma rawParamsLoop_decodes:
  assumes "matchesPath ms segs vs cs" "map pathUnescape (drop pi parts) = map Some vs"
    and "[] \<notin> set vs" "distinct (map fst cs)" "\<forall>(n, v) \<in> set cs. decodedVal decoded n = v"
  shows "Option.bind (map_of (rawParamsLoop segs parts decoded pi out) n) pathUnescape =
    (case map_of cs n of Some v \<Rightarrow> Some v | None \<Rightarrow> Option.bind (map_of out n) pathUnescape)"
  using assms
proof (induction arbitrary: pi out rule: matchesPath.induct)
  case (mp_static s v p vs cs)
  from map_drop_Cons[OF mp_static.prems(1)] mp_static show ?case by simp
next
  case (mp_param s v p vs cs)
  note d = map_drop_Cons[OF mp_param.prems(1)]
  have "map_of cs (seg_name s) = None" using mp_param.prems(3) by (simp add: map_of_eq_None_iff)
  with mp_param.IH[of "Suc pi"] mp_param.prems mp_param.hyps d show ?case by (auto simp: setKey_lookup split: option.splits)
next
  case (mp_take s v p vs cs)
  note d = map_drop_Cons[OF mp_take.prems(1)]
  have "map_of cs (seg_name s) = None" using mp_take.prems(3) by (simp add: map_of_eq_None_iff)
  moreover have "decodedVal decoded (seg_name s) \<noteq> []" using mp_take.prems by auto
  ultimately show ?case using mp_take.IH[of "Suc pi"] mp_take.prems mp_take.hyps d
    by (auto simp: setKey_lookup decodedVal_def[symmetric] split: option.splits)
next
  case (mp_skip s p vs cs)
  have "map_of cs (seg_name s) = None" using mp_skip.prems(3) by (simp add: map_of_eq_None_iff)
  moreover have "decodedVal decoded (seg_name s) = []" using mp_skip.prems by auto
  ultimately show ?case using mp_skip.IH[of pi] mp_skip.prems mp_skip.hyps
    by (auto simp: setKey_lookup decodedVal_def[symmetric] split: option.splits)
next
  case (mp_rest s vs)
  have "those (map pathUnescape (drop pi parts)) = Some vs" using mp_rest.prems(1) by (simp add: those_Some)
  from pathUnescape_join[OF this] have "pathUnescape (if pi < length parts then joinStr ''/'' (drop pi parts) else []) = Some (joinStr ''/'' vs)"
    by (cases "pi < length parts") auto
  with mp_rest show ?case by (simp add: setKey_lookup)
qed simp

lemma normSeg_kind [simp]: "seg_kind (normSeg s) = seg_kind s"
  by (cases "seg_kind s") (simp_all add: normSeg_def mkSegment_def)

lemma normSeg_name: "seg_kind s \<noteq> SegmentStatic \<Longrightarrow> seg_name (normSeg s) = seg_name s"
  by (cases "seg_kind s") (simp_all add: normSeg_def mkSegment_def)

lemma rawParamsLoop_norm: "rawParamsLoop (map normSeg segs) parts decoded pi out = rawParamsLoop segs parts decoded pi out"
proof (induction segs arbitrary: pi out)
  case (Cons s segs)
  then show ?case by (cases "seg_kind s"; cases decoded) (simp_all add: normSeg_name)
qed simp

definition paramNames :: "Segment list \<Rightarrow> string list" where
  "paramNames segs = map seg_name (filter (\<lambda>s. seg_kind s \<noteq> SegmentStatic) segs)"

lemma paramNames_norm: "paramNames (map normSeg segs) = paramNames segs"
  by (induction segs) (auto simp: paramNames_def normSeg_name)

lemma matchesPath_names: "matchesPath ms segs vs cs \<Longrightarrow> map fst cs = paramNames segs"
  by (induction rule: matchesPath.induct) (auto simp: paramNames_def)

text \<open>C13. The raw parameters of a request percent-decode to its parameters: after a match on a path without
  empty pieces, for a route whose parameter names are distinct, rawParamsFromPath has an entry for
  exactly the names the router bound, and each decodes to the bound value.\<close>

theorem raw_params_decode:
  assumes "NewTree routes = Inr t0" "WithMatchers t0 m = (t, e)" "Match t path = Some (r, Some params)"
    and "those (map pathUnescape (pathSegs path)) = Some vs" "[] \<notin> set vs" "distinct (paramNames (rt_Segments r))"
  shows "\<exists>raw. rawParamsFromPath path (rt_Segments r) (Some params) = Some raw \<and>
    (\<lambda>n. Option.bind (map_of raw n) pathUnescape) = params"
proof -
  from Match_built[OF assms(1-3)] assms(4) obtain cs where
    cs: "matchesPath m (normPath r) vs cs" "Some params = paramMap cs" by auto
  have nm: "map fst cs = paramNames (rt_Segments r)"
    using matchesPath_names[OF cs(1)] by (simp add: paramNames_norm)
  have dist: "distinct (map fst cs)" using nm assms(6) by simp
  have "map_of (rev cs) = map_of cs" using dist by (subst map_of_inject_set) (simp_all flip: rev_map)
  then have pm: "params = map_of cs" "cs \<noteq> []" using cs(2) by (auto simp: paramMap_def split: if_splits)
  have dec: "\<forall>(n, v) \<in> set cs. decodedVal (Some params) n = v"
    using dist pm(1) by (auto simp: decodedVal_def)
  let ?parts = "pathSegs path"
  have split: "(if (if path \<noteq> [] \<and> hd path = CHR ''/'' then tl path else path) \<noteq> []
      then splitByte CHR ''/'' (if path \<noteq> [] \<and> hd path = CHR ''/'' then tl path else path) else []) = ?parts"
    by (cases path) (auto simp: pathSegs_def trimPrefix_def)
  have ne: "length (filter (\<lambda>s. seg_kind s \<noteq> SegmentStatic) (rt_Segments r)) \<noteq> 0"
    using nm pm(2) by (auto simp: paramNames_def)
  have loop: "Option.bind (map_of (rawParamsLoop (rt_Segments r) ?parts (Some params) 0 []) n) pathUnescape = params n" for n
    using rawParamsLoop_decodes[OF cs(1) _ assms(5) dist dec, where pi = 0 and parts = ?parts and out = "[]" and n = n] assms(4) pm(1)
    by (auto simp: those_Some rawParamsLoop_norm split: option.splits)
  show ?thesis
    using ne loop by (simp add: rawParamsFromPath_def Let_def split del: if_split add: split)
qed


theorem raw_params_decode_witness:
  "\<exists>r params raw. Match demoTree' ''/posts/a%20b'' = Some (r, Some params) \<and> params ''slug'' = Some ''a b'' \<and>
     rawParamsFromPath ''/posts/a%20b'' (rt_Segments r) (Some params) = Some raw \<and>
     (\<lambda>n. Option.bind (map_of raw n) pathUnescape) = params"
proof -
  have "(case Match demoTree' ''/posts/a%20b'' of
      Some (r, Some params) \<Rightarrow> params ''slug'' = Some ''a b'' \<and> distinct (paramNames (rt_Segments r)) | _ \<Rightarrow> False)" by code_simp
  then obtain r params where m: "Match demoTree' ''/posts/a%20b'' = Some (r, Some params)"
    and p: "params ''slug'' = Some ''a b''" "distinct (paramNames (rt_Segments r))"
    by (auto split: option.splits)
  have "those (map pathUnescape (pathSegs ''/posts/a%20b'')) = Some [''posts'', ''a b'']" by code_simp
  from raw_params_decode[OF demo_built demo_matchers m this _ p(2)] m p(1) show ?thesis by auto
qed

text \<open>In a request the path that reaches the router has been decoded once by the URL parser already, and
  the router decodes it again: the escaped path of a literal percent sign is matched before, and
  rejected after, the first decoding.\<close>

lemma double_decoding:
  "map_option (\<lambda>u. u_Path u) (parsePath ''/100%25'' []) = Some ''/100%'' \<and>
   map_option (\<lambda>(r, ps). map_option (\<lambda>m. m ''rest'') ps) (Match demoTree' ''/100%25'') = Some (Some (Some ''100%'')) \<and>
   Option.is_none (Match demoTree' ''/100%'')"
  by code_simp

end
