(* ===== verification/KitMisc.thy ===== *)
theory KitMisc
  imports KitHttp Escape
begin

text \<open>
  The small builders and settings of \<^verbatim>\<open>exports/kit\<close>: version polling (\<^verbatim>\<open>version.go\<close>), schedules
  (\<^verbatim>\<open>cron.go\<close>, with the task loop of \<^verbatim>\<open>server/cron.go\<close>), \<^verbatim>\<open>robots.txt\<close> (\<^verbatim>\<open>robots.go\<close>), sitemaps
  (\<^verbatim>\<open>sitemap.go\<close>), the asset table (\<^verbatim>\<open>asset.go\<close>) and the gate of protected prerendered pages
  (\<^verbatim>\<open>prerender.go\<close>). Durations are in nanoseconds; parsing of durations and integers, quoting and
  the formatting of dates and priorities are parameters.
\<close>

section \<open>Version polling\<close>

record VersionPollConfig =
  vp_Disabled :: bool
  vp_PollInterval :: int

definition DefaultVersionPollInterval :: int where "DefaultVersionPollInterval = 60 * 1000000000"

definition MinVersionPollInterval :: int where "MinVersionPollInterval = 1000000000"

definition ResolvePoll :: "VersionPollConfig \<Rightarrow> VersionPollConfig" where
  "ResolvePoll c =
    (let c1 = (if vp_PollInterval c \<le> 0 then c\<lparr>vp_PollInterval := DefaultVersionPollInterval\<rparr> else c)
     in if vp_PollInterval c1 < MinVersionPollInterval then c1\<lparr>vp_PollInterval := MinVersionPollInterval\<rparr> else c1)"

lemma ResolvePoll_bound: "MinVersionPollInterval \<le> vp_PollInterval (ResolvePoll c)"
  by (simp add: ResolvePoll_def Let_def MinVersionPollInterval_def DefaultVersionPollInterval_def)

lemma ResolvePoll_idem: "ResolvePoll (ResolvePoll c) = ResolvePoll c"
  using ResolvePoll_bound[of c] by (simp add: ResolvePoll_def[of "ResolvePoll c"] Let_def MinVersionPollInterval_def)

section \<open>Schedules\<close>

record 's CronTask =
  ct_Name :: string
  ct_Spec :: string
  ct_Fn :: "'s \<Rightarrow> string option \<times> 's"

definition parseDurationOrBare :: "(string \<Rightarrow> (string, int) result) \<Rightarrow> (string \<Rightarrow> int option) \<Rightarrow> string \<Rightarrow> (string, int) result" where
  "parseDurationOrBare parseDuration parseInt s = (case parseDuration s of
      Inr d \<Rightarrow> Inr d
    | Inl e \<Rightarrow> (case parseInt s of Some _ \<Rightarrow> Inl (e @ '' (did you mean '' @ s @ ''s?)'') | None \<Rightarrow> Inl e))"

definition ParseSchedule :: "(string \<Rightarrow> (string, int) result) \<Rightarrow> (string \<Rightarrow> int option) \<Rightarrow> (string \<Rightarrow> string) \<Rightarrow> string \<Rightarrow>
    (string, int) result" where
  "ParseSchedule parseDuration parseInt quote spec0 =
    (let spec = trimSpace spec0 in
     if spec = ''@hourly'' then Inr (3600 * 1000000000)
     else if spec = ''@daily'' then Inr (24 * 3600 * 1000000000)
     else if spec = ''@weekly'' then Inr (7 * 24 * 3600 * 1000000000)
     else (case cutPrefix spec ''@every '' of (rest, ok) \<Rightarrow>
       if \<not> ok then Inl (''kit: unsupported cron spec '' @ quote spec @ ''; use @every <duration>, @hourly, @daily, or @weekly'')
       else (case parseDurationOrBare parseDuration parseInt (trimSpace rest) of
          Inl e \<Rightarrow> Inl (''kit: invalid @every duration '' @ quote rest @ '': '' @ e)
        | Inr d \<Rightarrow> if d \<le> 0 then Inl (''kit: @every duration must be positive, got '' @ quote rest) else Inr d)))"

lemma ParseSchedule_positive: "ParseSchedule pd pi q spec = Inr d \<Longrightarrow> 0 < d"
  by (auto simp: ParseSchedule_def Let_def split: if_splits sum.splits prod.splits)

text \<open>The tasks that get a loop, with their intervals; a task with a bad schedule is skipped.\<close>

definition runCronTasks :: "(string \<Rightarrow> (string, int) result) \<Rightarrow> 's CronTask list \<Rightarrow> ('s CronTask \<times> int) list" where
  "runCronTasks parse tasks =
    List.map_filter (\<lambda>t. case parse (ct_Spec t) of Inl _ \<Rightarrow> None | Inr d \<Rightarrow> Some (t, d)) tasks"

text \<open>One loop over what its select receives; the errors are those that are logged.\<close>

datatype cronEvent = CtxDone | Ticked

fun runCronLoop :: "'s CronTask \<Rightarrow> cronEvent list \<Rightarrow> 's \<Rightarrow> (string \<times> string) list \<times> 's" where
  "runCronLoop t [] s = ([], s)"
| "runCronLoop t (CtxDone # es) s = ([], s)"
| "runCronLoop t (Ticked # es) s =
    (case ct_Fn t s of (err, s1) \<Rightarrow>
      (case runCronLoop t es s1 of (logs, s2) \<Rightarrow>
        ((case err of None \<Rightarrow> [] | Some e \<Rightarrow> [(e, if ct_Name t = [] then ct_Spec t else ct_Name t)]) @ logs, s2)))"

text \<open>Errors do not stop the loop: it runs the task once per tick before the context ends.\<close>

lemma runCronLoop_runs:
  "snd (runCronLoop t es s) = ((\<lambda>s. snd (ct_Fn t s)) ^^ length (takeWhile (\<lambda>e. e = Ticked) es)) s"
  by (induction t es s rule: runCronLoop.induct) (auto simp add: funpow_Suc_right simp del: funpow.simps(2) split: prod.split)

section \<open>robots.txt\<close>

record robotsRule =
  rr_directive :: string
  rr_value :: string

record robotsGroup =
  rg_agent :: string
  rg_rules :: "robotsRule list"

record RobotsBuilder =
  rb_groups :: "robotsGroup list"
  rb_sitemaps :: "string list"

definition NewRobots :: RobotsBuilder where "NewRobots = \<lparr>rb_groups = [], rb_sitemaps = []\<rparr>"

definition UserAgent :: "string \<Rightarrow> RobotsBuilder \<Rightarrow> RobotsBuilder" where
  "UserAgent name r = r\<lparr>rb_groups := rb_groups r @ [\<lparr>rg_agent = name, rg_rules = []\<rparr>]\<rparr>"

definition appendRule :: "string \<Rightarrow> string \<Rightarrow> RobotsBuilder \<Rightarrow> RobotsBuilder" where
  "appendRule directive value r =
    (let gs = (if rb_groups r = [] then [\<lparr>rg_agent = ''*'', rg_rules = []\<rparr>] else rb_groups r);
         idx = length gs - 1; g = gs ! idx
     in r\<lparr>rb_groups := gs[idx := g\<lparr>rg_rules := rg_rules g @ [\<lparr>rr_directive = directive, rr_value = value\<rparr>]\<rparr>]\<rparr>)"

definition Allow :: "string \<Rightarrow> RobotsBuilder \<Rightarrow> RobotsBuilder" where "Allow path r = appendRule ''Allow'' path r"

definition Disallow :: "string \<Rightarrow> RobotsBuilder \<Rightarrow> RobotsBuilder" where "Disallow path r = appendRule ''Disallow'' path r"

definition SitemapLine :: "string \<Rightarrow> RobotsBuilder \<Rightarrow> RobotsBuilder" where
  "SitemapLine url r = r\<lparr>rb_sitemaps := rb_sitemaps r @ [url]\<rparr>"

fun robotsGroups :: "nat \<Rightarrow> robotsGroup list \<Rightarrow> string" where
  "robotsGroups i [] = []"
| "robotsGroups i (g # gs) =
    (if i > 0 then [CHR 0x0A] else []) @ ''User-agent: '' @ rg_agent g @ [CHR 0x0A] @
    concat (map (\<lambda>rule. rr_directive rule @ '': '' @ rr_value rule @ [CHR 0x0A]) (rg_rules g)) @ robotsGroups (Suc i) gs"

definition robotsString :: "RobotsBuilder \<Rightarrow> string" where
  "robotsString r = robotsGroups 0 (rb_groups r) @
    (if length (rb_sitemaps r) > 0 then
       (if length (rb_groups r) > 0 then [CHR 0x0A] else []) @
       concat (map (\<lambda>s. ''Sitemap: '' @ s @ [CHR 0x0A]) (rb_sitemaps r))
     else [])"

text \<open>A rule goes to the last group, which exists afterwards.\<close>

lemma appendRule_last:
  "rb_groups (appendRule d v r) = butlast (rb_groups r) @
    [(if rb_groups r = [] then \<lparr>rg_agent = ''*'', rg_rules = [\<lparr>rr_directive = d, rr_value = v\<rparr>]\<rparr>
      else (last (rb_groups r))\<lparr>rg_rules := rg_rules (last (rb_groups r)) @ [\<lparr>rr_directive = d, rr_value = v\<rparr>]\<rparr>)]"
proof (cases "rb_groups r" rule: rev_cases)
  case (snoc gs g)
  then show ?thesis by (simp add: appendRule_def Let_def list_update_append nth_append)
qed (simp add: appendRule_def Let_def)

section \<open>Sitemaps\<close>

text \<open>An entry's date and priority are opaque: \<open>fmtDate\<close> prints a date, nothing for the zero value,
  \<open>fmtPrio\<close> a priority, nothing when it is out of range.\<close>

record ('t, 'p) SitemapEntry =
  sm_Loc :: string
  sm_LastMod :: 't
  sm_Freq :: string
  sm_Priority :: 'p

record ('t, 'p) SitemapBuilder =
  sb_baseURL :: string
  sb_entries :: "('t, 'p) SitemapEntry list"

definition NewSitemap :: "string \<Rightarrow> ('t, 'p) SitemapBuilder" where
  "NewSitemap baseURL = \<lparr>sb_baseURL = trimRight baseURL ''/'', sb_entries = []\<rparr>"

definition resolveLoc :: "('t, 'p) SitemapBuilder \<Rightarrow> string \<Rightarrow> string" where
  "resolveLoc s path =
    (if path = [] then sb_baseURL s
     else if hasPrefix path ''http://'' \<or> hasPrefix path ''https://'' then path
     else sb_baseURL s @ (if hasPrefix path ''/'' then path else ''/'' @ path))"

definition AddEntry :: "('t, 'p) SitemapEntry \<Rightarrow> ('t, 'p) SitemapBuilder \<Rightarrow> ('t, 'p) SitemapBuilder" where
  "AddEntry e s = s\<lparr>sb_entries := sb_entries s @ [e]\<rparr>"

definition AddLoc :: "string \<Rightarrow> 't \<Rightarrow> string \<Rightarrow> 'p \<Rightarrow> ('t, 'p) SitemapBuilder \<Rightarrow> ('t, 'p) SitemapBuilder" where
  "AddLoc path lastMod freq priority s =
    s\<lparr>sb_entries := sb_entries s @ [\<lparr>sm_Loc = resolveLoc s path, sm_LastMod = lastMod, sm_Freq = freq, sm_Priority = priority\<rparr>]\<rparr>"

definition LenEntries :: "('t, 'p) SitemapBuilder \<Rightarrow> nat" where "LenEntries s = length (sb_entries s)"

definition xmlRune :: "nat \<Rightarrow> string" where
  "xmlRune r =
    (if r = byteVal CHR ''&'' then ''&amp;''
     else if r = byteVal CHR ''<'' then ''&lt;''
     else if r = byteVal CHR ''>'' then ''&gt;''
     else if r = 0x22 then ''&quot;''
     else if r = 0x27 then ''&apos;''
     else encodeRune r)"

definition writeXMLEscape :: "string \<Rightarrow> string \<Rightarrow> string" where
  "writeXMLEscape buf s = buf @ concat (map xmlRune (runes s))"

definition sitemapEntry :: "('t \<Rightarrow> string option) \<Rightarrow> ('p \<Rightarrow> string option) \<Rightarrow> ('t, 'p) SitemapEntry \<Rightarrow> string \<Rightarrow> string" where
  "sitemapEntry fmtDate fmtPrio e buf =
    (let nl = [CHR 0x0A];
         b1 = writeXMLEscape (buf @ nl @ ''  <url>'' @ nl @ ''    <loc>'') (sm_Loc e) @ ''</loc>'';
         b2 = (case fmtDate (sm_LastMod e) of None \<Rightarrow> b1 | Some d \<Rightarrow> b1 @ nl @ ''    <lastmod>'' @ d @ ''</lastmod>'');
         b3 = (if sm_Freq e \<noteq> [] then b2 @ nl @ ''    <changefreq>'' @ sm_Freq e @ ''</changefreq>'' else b2);
         b4 = (case fmtPrio (sm_Priority e) of None \<Rightarrow> b3 | Some p \<Rightarrow> b3 @ nl @ ''    <priority>'' @ p @ ''</priority>'')
     in b4 @ nl @ ''  </url>'')"

definition sitemapBytes :: "('t \<Rightarrow> string option) \<Rightarrow> ('p \<Rightarrow> string option) \<Rightarrow> ('t, 'p) SitemapBuilder \<Rightarrow> string" where
  "sitemapBytes fmtDate fmtPrio s =
    (let q = [CHR 0x22]; nl = [CHR 0x0A];
         open0 = ''<?xml version='' @ q @ ''1.0'' @ q @ '' encoding='' @ q @ ''UTF-8'' @ q @ ''?>'' @ nl @
           ''<urlset xmlns='' @ q @ ''http://www.sitemaps.org/schemas/sitemap/0.9'' @ q @ ''>''
     in foldl (\<lambda>buf e. sitemapEntry fmtDate fmtPrio e buf) open0 (sb_entries s) @ nl @ ''</urlset>'' @ nl)"

text \<open>An escaped location holds no markup byte.\<close>

lemma xmlRune_confined:
  assumes "c \<in> set (xmlRune r)" shows "c \<notin> {CHR ''<'', CHR ''>'', CHR 0x22, CHR 0x27}"
proof
  assume c: "c \<in> {CHR ''<'', CHR ''>'', CHR 0x22, CHR 0x27}"
  then have ascii: "byteVal c < 0x80" by (auto simp: byteVal_def)
  show False
  proof (cases "r \<in> {byteVal CHR ''&'', byteVal CHR ''<'', byteVal CHR ''>'', 0x22, 0x27}")
    case True
    with assms c show False by (auto simp: xmlRune_def byteVal_def split: if_splits)
  next
    case False
    with assms have "c \<in> set (encodeRune r)" by (auto simp: xmlRune_def)
    from encodeRune_ascii[OF this ascii] have "r = byteVal c" .
    with False c show False by (auto simp: byteVal_def)
  qed
qed

lemma sitemap_loc_confined:
  "\<exists>out. writeXMLEscape buf s = buf @ out \<and> set out \<inter> {CHR ''<'', CHR ''>'', CHR 0x22, CHR 0x27} = {}"
  using xmlRune_confined by (fastforce simp: writeXMLEscape_def)

section \<open>Assets\<close>

type_synonym assetsMap = "(string \<rightharpoonup> string) option"

definition RegisterAssets :: "(string \<rightharpoonup> string) option \<Rightarrow> assetsMap \<Rightarrow> assetsMap" where
  "RegisterAssets m old = (case m of None \<Rightarrow> None | Some t \<Rightarrow> Some t)"

definition Asset :: "assetsMap \<Rightarrow> string \<Rightarrow> string" where
  "Asset assets path =
    (let clean = trimPrefix path ''/'' in
     if clean = [] then ''/''
     else (case Option.bind assets (\<lambda>m. m clean) of Some hashed \<Rightarrow> hashed | None \<Rightarrow> ''/'' @ clean))"

lemma Asset_slash: "path \<noteq> [] \<Longrightarrow> \<not> hasPrefix path ''/'' \<Longrightarrow> Asset m (''/'' @ path) = Asset m path"
  by (cases path) (auto simp: Asset_def trimPrefix_def hasPrefix_iff)

section \<open>The prerender gate\<close>

definition allowGate :: "(Request \<Rightarrow> bool) option \<Rightarrow> Request \<Rightarrow> bool" where
  "allowGate f r = (case f of None \<Rightarrow> False | Some g \<Rightarrow> g r)"

definition DenyAllPrerenderAuth :: "Request \<Rightarrow> bool" where
  "DenyAllPrerenderAuth r = allowGate (Some (\<lambda>_. False)) r"

end
