(* ===== verification/ServerInit.thy ===== *)
theory ServerInit
  imports PipelineHandle ServerStatic KitMisc
begin

text \<open>
  The server object (\<^verbatim>\<open>server/server.go\<close>): \<^verbatim>\<open>New\<close>, the front of \<^verbatim>\<open>ServeHTTP\<close>, and the concurrent
  protocol between the start-up (\<^verbatim>\<open>startInit\<close>, \<^verbatim>\<open>Init\<close>, \<^verbatim>\<open>runInitAsync\<close>) and the requests that wait for
  it, as a step relation over atomic actions on the shared state. The theorem: a request that arrives
  once start-up has begun reaches the pipeline only after start-up succeeded, and is refused with an
  error only when it failed.
\<close>

section \<open>Construction\<close>

record ('d, 's) Config =
  cf_Routes :: "('d, 's) route list"
  cf_Matchers :: "Matchers option"
  cf_Shell :: string
  cf_Hooks :: "('d, 's) Hooks"
  cf_CSP :: CSPConfig
  cf_StreamTimeout :: int
  cf_InitTimeout :: int
  cf_InitPendingHTML :: string
  cf_InitErrorHTML :: string
  cf_CronTasks :: "'s CronTask list"
  cf_ViteManifest :: string
  cf_ViteBase :: string
  cf_Prerender :: "prerenderTable option"
  cf_PrerenderAuth :: "(Request \<Rightarrow> bool) option"
  cf_ServiceWorker :: bool
  cf_VersionPoll :: VersionPollConfig

text \<open>What \<^verbatim>\<open>New\<close> returns: the fields the pipeline reads and the settings of the server around it.\<close>

record ('d, 's) ServerObject =
  so_server :: "('d, 's) Server"
  so_streamTimeout :: int
  so_initTimeout :: int
  so_initPendingHTML :: string
  so_initErrorHTML :: string
  so_cronTasks :: "'s CronTask list"
  so_prerender :: "prerenderTable option"
  so_prerenderAuth :: "(Request \<Rightarrow> bool) option"
  so_appVersion :: string

definition defaultInitPendingHTML :: string where
  "defaultInitPendingHTML = ''<!doctype html><html><body><p>Server is starting, please retry.</p></body></html>''"

definition defaultInitErrorHTML :: string where
  "defaultInitErrorHTML = ''<!doctype html><html><body><p>Server failed to start. Please check the logs.</p></body></html>''"

datatype newError = EmptyRoutes | EmptyShell | BadShell shellError | BadTree treeError | BadMatchers treeError | BadManifest string

definition orDefault :: "string \<Rightarrow> string \<Rightarrow> string" where
  "orDefault s d = (if s = [] then d else s)"

definition positiveOr :: "int \<Rightarrow> int \<Rightarrow> int" where
  "positiveOr n d = (if n \<le> 0 then d else n)"

text \<open>Fields that \<^verbatim>\<open>New\<close> derives from the routes and the manifest.\<close>

definition manifestInput :: "('d, 's) handlers Tree \<Rightarrow> (string \<times> Segment list \<times> bool) list" where
  "manifestInput t = map (\<lambda>r. (rt_Pattern r, rt_Segments r, \<not> Option.is_none (hd_Page (rt_handlers r)))) (Routes t)"

definition wirePoll :: "VersionPollConfig \<Rightarrow> clientVersionPoll" where
  "wirePoll c = \<lparr>cv_IntervalMS = vp_PollInterval c div 1000000, cv_Disabled = vp_Disabled c\<rparr>"

text \<open>\<open>parseManifest\<close> decodes a Vite manifest, \<open>hash\<close> is the short digest, \<open>client\<close> the default HTTP
  client. A panic is \<^const>\<open>None\<close>.\<close>

definition New :: "'d lib \<Rightarrow> (string \<Rightarrow> (string, viteManifestMap) result) \<Rightarrow> (string \<Rightarrow> string) \<Rightarrow> ('d, 's) fetchFn \<Rightarrow> ('d, 's) Config \<Rightarrow>
    (newError, ('d, 's) ServerObject) result option" where
  "New L parseManifest hash client cfg =
    (if length (cf_Routes cfg) = 0 then Some (Inl EmptyRoutes)
     else if cf_Shell cfg = [] then Some (Inl EmptyShell)
     else (case parseShell (cf_Shell cfg) of
       None \<Rightarrow> None
     | Some (Inl e) \<Rightarrow> Some (Inl (BadShell e))
     | Some (Inr (head, mid, tail)) \<Rightarrow>
        let matchers = (case cf_Matchers cfg of None \<Rightarrow> Some DefaultMatchers | Some m \<Rightarrow> Some m) in
        (case NewTree (cf_Routes cfg) of
           Inl e \<Rightarrow> Some (Inl (BadTree e))
         | Inr t0 \<Rightarrow> (case WithMatchers t0 matchers of
             (_, Some e) \<Rightarrow> Some (Inl (BadMatchers e))
           | (tree, None) \<Rightarrow>
             (case (if cf_ViteManifest cfg \<noteq> [] then (case parseManifest (cf_ViteManifest cfg) of Inl e \<Rightarrow> Inl e | Inr m \<Rightarrow> Inr (Some m)) else Inr None) of
                Inl e \<Rightarrow> Some (Inl (BadManifest e))
              | Inr vm \<Rightarrow>
                let clientManifest = buildClientManifest (manifestInput tree);
                    appVersion = computeAppVersion hash (cf_ViteManifest cfg);
                    poll = wirePoll (ResolvePoll (cf_VersionPoll cfg));
                    cache = Option.bind (encodePayloadField (lb_marshal L) ''manifest'' (JManifest clientManifest)) (\<lambda>em.
                      Option.bind (encodeAppVersionField (lb_marshal L) appVersion) (\<lambda>ea.
                      Option.bind (encodeVersionPollField (lb_marshal L) appVersion poll) (\<lambda>ev.
                      map_option (\<lambda>ids. \<lparr>pc_encodedManifest = em, pc_encodedAppVersion = ea, pc_encodedVersionPoll = ev, pc_encodedRouteIDs = ids\<rparr>)
                        (encodeRouteIDs (lb_marshal L) (map rt_Pattern (Routes tree))))))
                in (case cache of
                      None \<Rightarrow> None
                    | Some c \<Rightarrow> Some (Inr \<lparr>so_server = \<lparr>sv_tree = tree, sv_hooks = WithDefaults (lb_statusText L) client (cf_Hooks cfg), sv_csp = cf_CSP cfg,
                        sv_cspTemplate = Some (NewCSPTemplate (cf_CSP cfg)), sv_shellHead = head, sv_shellMid = mid, sv_shellTail = tail,
                        sv_viteManifest = vm, sv_viteBase = (if cf_ViteBase cfg = [] \<and> vm \<noteq> None then ''/static/_app'' else cf_ViteBase cfg),
                        sv_serviceWorker = cf_ServiceWorker cfg, sv_clientManifest = clientManifest, sv_cache = c, sv_appVersion = appVersion,
                        sv_versionPoll = poll\<rparr>,
                      so_streamTimeout = positiveOr (cf_StreamTimeout cfg) (30 * 1000000000), so_initTimeout = positiveOr (cf_InitTimeout cfg) (5 * 1000000000),
                      so_initPendingHTML = orDefault (cf_InitPendingHTML cfg) defaultInitPendingHTML,
                      so_initErrorHTML = orDefault (cf_InitErrorHTML cfg) defaultInitErrorHTML,
                      so_cronTasks = cf_CronTasks cfg, so_prerender = cf_Prerender cfg, so_prerenderAuth = cf_PrerenderAuth cfg,
                      so_appVersion = appVersion\<rparr>)))))))"

text \<open>The caches of a constructed server are those the payload writer expects.\<close>

lemma New_cacheFor:
  assumes "New L pm hash client cfg = Some (Inr so)"
  shows "cacheFor (lb_marshal L) (sv_clientManifest (so_server so)) (sv_appVersion (so_server so)) (sv_versionPoll (so_server so))
    (map rt_Pattern (Routes (sv_tree (so_server so)))) (sv_cache (so_server so))"
  using assms unfolding New_def cacheFor_def
  by (auto simp: Let_def bind_eq_Some_conv split: if_splits option.splits sum.splits prod.splits)

section \<open>The front of the server\<close>

definition writeInitFallback :: "int \<Rightarrow> string \<Rightarrow> ResponseWriter \<Rightarrow> ResponseWriter" where
  "writeInitFallback status body w = rwWrite body (rwWriteHeader status (rwSet ''Content-Type'' ''text/html; charset=utf-8'' w))"

text \<open>What waiting for start-up ended with.\<close>

datatype gate = Proceed | StartFailed | StartPending | ClientLeft

definition ServeHTTP :: "'d lib \<Rightarrow> 'd io \<Rightarrow> host \<Rightarrow> ('d, 's) ServerObject \<Rightarrow> gate \<Rightarrow> Request \<Rightarrow> ResponseWriter \<Rightarrow> 's \<Rightarrow>
    ('d, unit) run \<times> ResponseWriter \<times> 's" where
  "ServeHTTP L W H so g r w u =
    (case serveVersion (so_appVersion so) r w of
       (w1, True) \<Rightarrow> (Done (), w1, u)
     | (w1, False) \<Rightarrow>
        (case servePrerendered H (so_prerender so) (so_prerenderAuth so) r w1 of
           (w2, True) \<Rightarrow> (Done (), w2, u)
         | (w2, False) \<Rightarrow>
            (case g of
               StartFailed \<Rightarrow> (Done (), writeInitFallback 500 (so_initErrorHTML so) w2, u)
             | StartPending \<Rightarrow> (Done (), writeInitFallback 503 (so_initPendingHTML so) w2, u)
             | ClientLeft \<Rightarrow> (Done (), w2, u)
             | Proceed \<Rightarrow> (case handle L W (so_server so) r w2 u of (res, s) \<Rightarrow> (res, ps_w s, ps_user s)))))"

section \<open>Start-up\<close>

datatype initStateVal = initPending | initReady | initFailed

text \<open>The atomic actions of the start-up code: replacing the channel under the lock, storing the state,
  the two phases that can fail, starting the cron tasks, closing the channel.\<close>

datatype initAct = SwapDone | StoreState initStateVal | RunHook | StartSidecar | StartCron | CloseDone

definition startInit :: "initAct list" where
  "startInit = [SwapDone, StoreState initPending]"

definition runInitAsync :: "bool \<Rightarrow> bool \<Rightarrow> initAct list" where
  "runInitAsync hookErr sidecarErr = RunHook #
    (if hookErr then [StoreState initFailed, CloseDone]
     else StartSidecar #
       (if sidecarErr then [StoreState initFailed, CloseDone]
        else [StoreState initReady, StartCron, CloseDone]))"

definition RunInitAsync :: "bool \<Rightarrow> bool \<Rightarrow> initAct list" where
  "RunInitAsync hookErr sidecarErr = startInit @ runInitAsync hookErr sidecarErr"

definition Init :: "bool \<Rightarrow> bool \<Rightarrow> initAct list" where
  "Init hookErr sidecarErr = startInit @ (RunHook #
    (if hookErr then [StoreState initFailed, CloseDone]
     else StartSidecar #
       (if sidecarErr then [StoreState initFailed, CloseDone]
        else [StoreState initReady, CloseDone, StartCron])))"

text \<open>The shared state: the state word, the current channel, the channels closed so far, the channel the
  start-up code holds, the number of channels made, and whether the cron tasks run. A new server is ready
  and its channel is closed.\<close>

record initSys =
  is_state :: initStateVal
  is_done :: nat
  is_closed :: "nat list"
  is_local :: nat
  is_next :: nat
  is_cron :: bool

definition newSys :: initSys where
  "newSys = \<lparr>is_state = initReady, is_done = 0, is_closed = [0], is_local = 0, is_next = 1, is_cron = False\<rparr>"

fun doAct :: "initAct \<Rightarrow> initSys \<Rightarrow> initSys" where
  "doAct SwapDone s = s\<lparr>is_local := is_next s, is_done := is_next s, is_next := Suc (is_next s)\<rparr>"
| "doAct (StoreState x) s = s\<lparr>is_state := x\<rparr>"
| "doAct RunHook s = s"
| "doAct StartSidecar s = s"
| "doAct StartCron s = s\<lparr>is_cron := True\<rparr>"
| "doAct CloseDone s = s\<lparr>is_closed := is_local s # is_closed s\<rparr>"

section \<open>Requests\<close>

text \<open>Where a request is in \<^verbatim>\<open>ServeHTTP\<close>. The flag records whether it arrived after the state had been
  set to pending.\<close>

datatype reqPC =
    Absent
  | Arrived bool
  | Loaded bool
  | Waiting bool nat
  | Woken bool
  | Handling bool
  | Answered gate

record world =
  wd_sys :: initSys
  wd_todo :: "initAct list"
  wd_reqs :: "nat \<Rightarrow> reqPC"

definition begun :: "world \<Rightarrow> bool" where
  "begun w \<longleftrightarrow> StoreState initPending \<notin> set (wd_todo w)"

definition setReq :: "nat \<Rightarrow> reqPC \<Rightarrow> world \<Rightarrow> world" where
  "setReq i pc w = w\<lparr>wd_reqs := (wd_reqs w)(i := pc)\<rparr>"

text \<open>The first load of the state, and the second one after the wait.\<close>

definition firstLoad :: "bool \<Rightarrow> initStateVal \<Rightarrow> reqPC" where
  "firstLoad b st = (case st of initReady \<Rightarrow> Handling b | initFailed \<Rightarrow> Answered StartFailed | initPending \<Rightarrow> Loaded b)"

definition secondLoad :: "bool \<Rightarrow> initStateVal \<Rightarrow> reqPC" where
  "secondLoad b st = (if st = initFailed then Answered StartFailed else Handling b)"

inductive step :: "world \<Rightarrow> world \<Rightarrow> bool" where
  startup: "wd_todo w = a # as \<Longrightarrow> step w (w\<lparr>wd_sys := doAct a (wd_sys w), wd_todo := as\<rparr>)"
| arrive: "wd_reqs w i = Absent \<Longrightarrow> step w (setReq i (Arrived (begun w)) w)"
| load: "wd_reqs w i = Arrived b \<Longrightarrow> step w (setReq i (firstLoad b (is_state (wd_sys w))) w)"
| channel: "wd_reqs w i = Loaded b \<Longrightarrow> step w (setReq i (Waiting b (is_done (wd_sys w))) w)"
| wake: "wd_reqs w i = Waiting b ch \<Longrightarrow> ch \<in> set (is_closed (wd_sys w)) \<Longrightarrow> step w (setReq i (Woken b) w)"
| check: "wd_reqs w i = Woken b \<Longrightarrow> step w (setReq i (secondLoad b (is_state (wd_sys w))) w)"
| timeout: "wd_reqs w i = Waiting b ch \<Longrightarrow> step w (setReq i (Answered StartPending) w)"
| left: "wd_reqs w i = Waiting b ch \<Longrightarrow> step w (setReq i (Answered ClientLeft) w)"

inductive_cases stepE: "step w w'"

inductive reachable :: "initAct list \<Rightarrow> world \<Rightarrow> bool" for prog where
  start: "reachable prog \<lparr>wd_sys = newSys, wd_todo = prog, wd_reqs = (\<lambda>_. Absent)\<rparr>"
| next_step: "reachable prog w \<Longrightarrow> step w w' \<Longrightarrow> reachable prog w'"


section \<open>The invariant\<close>

text \<open>The shared state is determined by the actions performed.\<close>

definition ranTo :: "initAct list \<Rightarrow> initSys \<Rightarrow> initAct list \<Rightarrow> bool" where
  "ranTo prog s todo \<longleftrightarrow> (\<exists>acts. prog = acts @ todo \<and> s = foldl (\<lambda>s a. doAct a s) newSys acts)"

definition succeeded :: "bool \<Rightarrow> bool \<Rightarrow> initAct list \<Rightarrow> bool" where
  "succeeded hookErr sidecarErr todo \<longleftrightarrow> \<not> hookErr \<and> \<not> sidecarErr \<and> StoreState initReady \<notin> set todo"

text \<open>What holds of the shared state at every point of a start-up: the state is only pending once the new
  channel is in place, and the new channel is only closed once the state is decided.\<close>

definition sysOK :: "bool \<Rightarrow> bool \<Rightarrow> initSys \<Rightarrow> initAct list \<Rightarrow> bool" where
  "sysOK h f s todo \<longleftrightarrow>
    (is_state s = initPending \<longrightarrow> StoreState initPending \<notin> set todo) \<and>
    (is_state s = initFailed \<longrightarrow> h \<or> f) \<and>
    (StoreState initPending \<notin> set todo \<longrightarrow> is_done s = 1) \<and>
    (StoreState initPending \<notin> set todo \<longrightarrow> is_state s = initReady \<longrightarrow> succeeded h f todo) \<and>
    (1 \<in> set (is_closed s) \<longrightarrow> is_state s \<noteq> initPending)"

text \<open>Checking every point of a program.\<close>

fun allStages :: "bool \<Rightarrow> bool \<Rightarrow> initSys \<Rightarrow> initAct list \<Rightarrow> bool" where
  "allStages h f s [] = sysOK h f s []"
| "allStages h f s (a # as) = (sysOK h f s (a # as) \<and> allStages h f (doAct a s) as)"

lemma allStages_at: "allStages h f s (acts @ todo) \<Longrightarrow> sysOK h f (foldl (\<lambda>s a. doAct a s) s acts) todo"
  by (induction acts arbitrary: s) (cases todo; simp)+

lemma programs_ok: "allStages h f newSys (RunInitAsync h f)" "allStages h f newSys (Init h f)"
  by (induct h; induct f; code_simp)+

lemma ranTo_sysOK:
  assumes "ranTo prog s todo" "prog = RunInitAsync h f \<or> prog = Init h f"
  shows "sysOK h f s todo"
  using assms programs_ok[of h f] by (auto simp: ranTo_def intro: allStages_at)

definition reqOK :: "bool \<Rightarrow> bool \<Rightarrow> initSys \<Rightarrow> initAct list \<Rightarrow> reqPC \<Rightarrow> bool" where
  "reqOK h f s todo pc = (case pc of
      Absent \<Rightarrow> True
    | Arrived b \<Rightarrow> b \<longrightarrow> StoreState initPending \<notin> set todo
    | Loaded b \<Rightarrow> StoreState initPending \<notin> set todo
    | Waiting b ch \<Rightarrow> StoreState initPending \<notin> set todo \<and> ch = 1
    | Woken b \<Rightarrow> StoreState initPending \<notin> set todo \<and> 1 \<in> set (is_closed s)
    | Handling b \<Rightarrow> b \<longrightarrow> succeeded h f todo
    | Answered g \<Rightarrow> g = StartFailed \<longrightarrow> h \<or> f)"

lemma closed_doAct: "set (is_closed s) \<subseteq> set (is_closed (doAct a s))"
  by (cases a) auto

lemma reqOK_startup: "reqOK h f s (a # todo) pc \<Longrightarrow> reqOK h f (doAct a s) todo pc"
  using closed_doAct[of s a] by (auto simp: reqOK_def succeeded_def split: reqPC.splits)

lemma loads_reqOK:
  assumes "sysOK h f s todo"
  shows "reqOK h f s todo (Arrived b) \<Longrightarrow> reqOK h f s todo (firstLoad b (is_state s))"
    and "reqOK h f s todo (Woken b) \<Longrightarrow> reqOK h f s todo (secondLoad b (is_state s))"
  using assms by (cases "is_state s"; auto simp: sysOK_def reqOK_def firstLoad_def secondLoad_def)+

lemma reachable_inv:
  assumes "reachable prog w" "prog = RunInitAsync h f \<or> prog = Init h f"
  shows "ranTo prog (wd_sys w) (wd_todo w) \<and> (\<forall>i. reqOK h f (wd_sys w) (wd_todo w) (wd_reqs w i))"
  using assms(1)
proof induction
  case start
  show ?case by (simp add: ranTo_def reqOK_def)
next
  case (next_step w w')
  then have ran: "ranTo prog (wd_sys w) (wd_todo w)" and reqs: "\<And>i. reqOK h f (wd_sys w) (wd_todo w) (wd_reqs w i)" by auto
  note ok = ranTo_sysOK[OF ran assms(2)]
  from next_step.hyps(2) show ?case
  proof cases
    case (startup a as)
    have "ranTo prog (doAct a (wd_sys w)) as"
      using ran startup(2) unfolding ranTo_def by (metis append.assoc append_Cons append_Nil foldl_Cons foldl_Nil foldl_append)
    with startup reqs show ?thesis by (auto intro: reqOK_startup)
  next
    case (load i b)
    with ran reqs reqs[of i] loads_reqOK(1)[OF ok] show ?thesis by (auto simp: setReq_def)
  next
    case (check i b)
    with ran reqs reqs[of i] loads_reqOK(2)[OF ok] show ?thesis by (auto simp: setReq_def)
  next
    case (channel i b)
    with ran reqs reqs[of i] ok show ?thesis by (auto simp: setReq_def reqOK_def sysOK_def)
  next
    case (wake i b ch)
    with ran reqs reqs[of i] show ?thesis by (auto simp: setReq_def reqOK_def)
  next
    case (arrive i)
    with ran reqs show ?thesis by (auto simp: setReq_def reqOK_def begun_def)
  next
    case (timeout i b ch)
    with ran reqs show ?thesis by (auto simp: setReq_def reqOK_def)
  next
    case (left i b ch)
    with ran reqs show ?thesis by (auto simp: setReq_def reqOK_def)
  qed
qed

text \<open>C11. The start-up gate, for every interleaving of a start-up (synchronous or in the background) with
  any number of requests: a request that arrived after the state was set to pending is handed to the
  pipeline only when both phases succeeded and the ready state has been stored, and a request is
  answered with the start-up error only when a phase failed.\<close>

theorem init_gate:
  assumes "reachable prog w" "prog = RunInitAsync hookErr sidecarErr \<or> prog = Init hookErr sidecarErr"
  shows "case wd_reqs w i of
      Handling late \<Rightarrow> late \<longrightarrow> succeeded hookErr sidecarErr (wd_todo w)
    | Answered g \<Rightarrow> g = StartFailed \<longrightarrow> hookErr \<or> sidecarErr
    | _ \<Rightarrow> True"
  using reachable_inv[OF assms] by (auto simp: reqOK_def split: reqPC.splits dest: spec[of _ i])

text \<open>A run in which a request arrives during a start-up, waits and is served when it is over.\<close>

definition demoWorld0 :: world where
  "demoWorld0 = \<lparr>wd_sys = newSys, wd_todo = Init False False, wd_reqs = (\<lambda>_. Absent)\<rparr>"

definition runAct :: "world \<Rightarrow> world" where
  "runAct w = (case wd_todo w of [] \<Rightarrow> w | a # as \<Rightarrow> w\<lparr>wd_sys := doAct a (wd_sys w), wd_todo := as\<rparr>)"

lemma reach_runAct: "reachable prog w \<Longrightarrow> reachable prog (runAct w)"
  by (cases "wd_todo w") (auto simp: runAct_def intro: reachable.next_step step.startup)

lemma reach_setReq: "reachable prog w \<Longrightarrow> step w (setReq i pc w) \<Longrightarrow> reachable prog (setReq i pc w)"
  by (rule reachable.next_step)

theorem init_gate_witness:
  "\<exists>w. reachable (Init False False) w \<and> wd_reqs w 7 = Handling True \<and>
     (case wd_reqs w 7 of
        Handling late \<Rightarrow> late \<longrightarrow> succeeded False False (wd_todo w)
      | Answered g \<Rightarrow> g = StartFailed \<longrightarrow> False \<or> False
      | _ \<Rightarrow> True)"
proof -
  define w1 where "w1 = setReq 7 (Arrived True) (runAct (runAct demoWorld0))"
  define w2 where "w2 = setReq 7 (Loaded True) w1"
  define w3 where "w3 = setReq 7 (Waiting True 1) w2"
  define w4 where "w4 = (runAct ^^ 4) w3"
  define w5 where "w5 = setReq 7 (Woken True) w4"
  define w6 where "w6 = setReq 7 (Handling True) w5"
  have "reachable (Init False False) demoWorld0" unfolding demoWorld0_def by (rule reachable.start)
  then have "reachable (Init False False) (runAct (runAct demoWorld0))" by (intro reach_runAct)
  moreover have "step (runAct (runAct demoWorld0)) w1" unfolding w1_def
    using step.arrive[of "runAct (runAct demoWorld0)" 7]
    by (simp add: begun_def runAct_def demoWorld0_def Init_def startInit_def)
  ultimately have r1: "reachable (Init False False) w1" by (rule reachable.next_step)
  note defs = w1_def w2_def w3_def w4_def w5_def w6_def setReq_def runAct_def demoWorld0_def Init_def startInit_def newSys_def
  have "step w1 w2" using step.load[of w1 7 True] by (simp add: defs firstLoad_def)
  then have r2: "reachable (Init False False) w2" by (rule reachable.next_step[OF r1])
  have "step w2 w3" using step.channel[of w2 7 True] by (simp add: defs)
  then have "reachable (Init False False) w3" by (rule reachable.next_step[OF r2])
  then have r4: "reachable (Init False False) w4" by (simp add: w4_def numeral_eq_Suc reach_runAct)
  have "step w4 w5" using step.wake[of w4 7 True 1] by (simp add: defs numeral_eq_Suc)
  then have r5: "reachable (Init False False) w5" by (rule reachable.next_step[OF r4])
  have "step w5 w6" using step.check[of w5 7 True] by (simp add: defs numeral_eq_Suc secondLoad_def)
  then have r6: "reachable (Init False False) w6" by (rule reachable.next_step[OF r5])
  have "wd_reqs w6 7 = Handling True" by (simp add: w6_def setReq_def)
  with r6 init_gate[OF r6, of False False 7] show ?thesis by (intro exI[of _ w6] conjI) auto
qed


end
