(* ===== verification/ParserAst.thy ===== *)
theory ParserAst
  imports Lexer GoText
begin

text \<open>
  The syntax tree of templates, \<^verbatim>\<open>internal/ast\<close> (\<^verbatim>\<open>pos.go\<close>, \<^verbatim>\<open>error.go\<close>, \<^verbatim>\<open>nodes.go\<close>,
  \<^verbatim>\<open>visitor.go\<close>), and the string helpers of the parser, \<^verbatim>\<open>internal/parser/helpers.go\<close>. Indices
  returned by the searches are in range of the slices they are used in, so slicing is
  \<^const>\<open>take\<close> and \<^const>\<open>drop\<close>.
\<close>

section \<open>Positions and errors\<close>

record Pos =
  pos_Offset :: nat
  pos_Line :: nat
  pos_Col :: nat

definition posString :: "Pos \<Rightarrow> string" where
  "posString p = decDigits (pos_Line p) @ '':'' @ decDigits (pos_Col p)"

definition IsValidPos :: "Pos \<Rightarrow> bool" where
  "IsValidPos p = (pos_Line p > 0 \<and> pos_Col p > 0)"

record ParseError =
  pe_Pos :: Pos
  pe_Message :: string
  pe_Hint :: string

definition peError :: "ParseError \<Rightarrow> string" where
  "peError e = posString (pe_Pos e) @ '': '' @ pe_Message e @
     (if pe_Hint e \<noteq> [] then '' (hint: '' @ pe_Hint e @ '')'' else [])"

definition errorsError :: "ParseError list \<Rightarrow> string" where
  "errorsError es = (case es of
      [] \<Rightarrow> []
    | [e] \<Rightarrow> peError e
    | _ \<Rightarrow> joinStr [CHR 0x0A] (map peError es))"

definition ErrorOrNil :: "ParseError list \<Rightarrow> ParseError list option" where
  "ErrorOrNil es = (if length es = 0 then None else Some es)"

section \<open>Nodes\<close>

datatype AttrKind =
    AttrStatic | AttrDynamic | AttrEventHandler | AttrBind | AttrUse | AttrClassDirective | AttrStyleDirective | AttrLet

definition attrKindString :: "AttrKind \<Rightarrow> string" where
  "attrKindString k = (case k of
      AttrStatic \<Rightarrow> ''Static'' | AttrDynamic \<Rightarrow> ''Dynamic'' | AttrEventHandler \<Rightarrow> ''EventHandler''
    | AttrBind \<Rightarrow> ''Bind'' | AttrUse \<Rightarrow> ''Use'' | AttrClassDirective \<Rightarrow> ''ClassDirective''
    | AttrStyleDirective \<Rightarrow> ''StyleDirective'' | AttrLet \<Rightarrow> ''Let'')"

text \<open>One constructor per node type, with the fields in their order in the source. Attribute values are
  nodes too: the value of an attribute is absent, or one of the three value nodes.\<close>

datatype Node =
    Fragment Pos "Node list"
  | Text Pos string
  | Element Pos string "Attribute list" "Node list" bool bool
  | StaticValue Pos string
  | DynamicValue Pos string
  | InterpolatedValue Pos "Node list"
  | Mustache Pos string
  | IfBlock Pos string "Node list" "ElifBranch list" "Node list"
  | EachBlock Pos string string string string "Node list" "Node list"
  | AwaitBlock Pos string "Node list" "Node list" string "Node list" string
  | KeyBlock Pos string "Node list"
  | SnippetBlock Pos string string "Node list"
  | RawHTML Pos string
  | Const Pos string
  | Render Pos string
  | Script Pos string bool string
  | Style Pos string
  | Comment Pos string
and Attribute = Attribute Pos string "Node option" string AttrKind
and ElifBranch = ElifBranch Pos string "Node list"

fun nodePos :: "Node \<Rightarrow> Pos" where
  "nodePos (Fragment p _) = p"
| "nodePos (Text p _) = p"
| "nodePos (Element p _ _ _ _ _) = p"
| "nodePos (StaticValue p _) = p"
| "nodePos (DynamicValue p _) = p"
| "nodePos (InterpolatedValue p _) = p"
| "nodePos (Mustache p _) = p"
| "nodePos (IfBlock p _ _ _ _) = p"
| "nodePos (EachBlock p _ _ _ _ _ _) = p"
| "nodePos (AwaitBlock p _ _ _ _ _ _) = p"
| "nodePos (KeyBlock p _ _) = p"
| "nodePos (SnippetBlock p _ _ _) = p"
| "nodePos (RawHTML p _) = p"
| "nodePos (Const p _) = p"
| "nodePos (Render p _) = p"
| "nodePos (Script p _ _ _) = p"
| "nodePos (Style p _) = p"
| "nodePos (Comment p _) = p"

section \<open>The visitor\<close>

text \<open>A visitor is a function of the node (\<^const>\<open>None\<close> for the closing call) and of a state; it
  returns the visitor for the children, or none to prune.\<close>

datatype 's visitor = Visitor (visit: "Node option \<Rightarrow> 's \<Rightarrow> 's visitor option \<times> 's")

definition walkAttribute :: "Attribute \<Rightarrow> Node list" where
  "walkAttribute a = (case a of Attribute _ _ val _ _ \<Rightarrow> (case val of None \<Rightarrow> [] | Some n \<Rightarrow> [n]))"

definition elifBody :: "ElifBranch \<Rightarrow> Node list" where
  "elifBody e = (case e of ElifBranch _ _ b \<Rightarrow> b)"

text \<open>The nodes that the switch of \<^verbatim>\<open>Walk\<close> descends into, in its order.\<close>

fun walkChildren :: "Node \<Rightarrow> Node list" where
  "walkChildren (Fragment _ cs) = cs"
| "walkChildren (Element _ _ as cs _ _) = concat (map walkAttribute as) @ cs"
| "walkChildren (InterpolatedValue _ ps) = ps"
| "walkChildren (IfBlock _ _ th els el) = th @ concat (map elifBody els) @ el"
| "walkChildren (EachBlock _ _ _ _ _ b e) = b @ e"
| "walkChildren (AwaitBlock _ _ p t _ c _) = p @ t @ c"
| "walkChildren (KeyBlock _ _ b) = b"
| "walkChildren (SnippetBlock _ _ _ b) = b"
| "walkChildren _ = []"

lemma walkAttribute_sizes: "size_list size (concat (map walkAttribute as)) \<le> size_list size as"
proof (induction as)
  case (Cons a as)
  then show ?case by (cases a) (auto simp: walkAttribute_def split: option.splits)
qed simp

lemma elifBody_sizes: "size_list size (concat (map elifBody es)) \<le> size_list size es"
proof (induction es)
  case (Cons e es)
  then show ?case by (cases e) (simp add: elifBody_def)
qed simp

lemma walkChildren_sizes: "size_list size (walkChildren n) \<le> size n"
proof (cases n)
  case (Element p nm as cs b c)
  then show ?thesis using walkAttribute_sizes[of as] by simp
next
  case (IfBlock p c th els el)
  then show ?thesis using elifBody_sizes[of els] by simp
qed simp_all

function (sequential) Walk :: "'s visitor \<Rightarrow> Node \<Rightarrow> 's \<Rightarrow> 's"
and walkList :: "'s visitor \<Rightarrow> Node list \<Rightarrow> 's \<Rightarrow> 's" where
  "Walk v n s = (case visit v (Some n) s of
      (None, s1) \<Rightarrow> s1
    | (Some w, s1) \<Rightarrow> snd (visit w None (walkList w (walkChildren n) s1)))"
| "walkList v [] s = s"
| "walkList v (c # cs) s = walkList v cs (Walk v c s)"
  by pat_completeness auto
termination
  by (relation "measure (\<lambda>x. case x of Inl (_, n, _) \<Rightarrow> 2 * size n + 1 | Inr (_, ns, _) \<Rightarrow> 2 * size_list size ns)")
    (auto simp: walkChildren_sizes less_Suc_eq_le)

text \<open>A visitor that never prunes sees the nodes in pre-order, each followed by the visits of its
  children and a closing call.\<close>

function (sequential) preorder :: "Node \<Rightarrow> Node option list"
and preorders :: "Node list \<Rightarrow> Node option list" where
  "preorder n = Some n # preorders (walkChildren n) @ [None]"
| "preorders [] = []"
| "preorders (c # cs) = preorder c @ preorders cs"
  by pat_completeness auto
termination
  by (relation "measure (\<lambda>x. case x of Inl n \<Rightarrow> 2 * size n + 1 | Inr ns \<Rightarrow> 2 * size_list size ns)")
    (auto simp: walkChildren_sizes less_Suc_eq_le)

lemma Walk_preorder:
  assumes "\<And>m s. visit v m s = (Some v, f m s)"
  shows "Walk v n s = fold f (preorder n) s" "walkList v ns s = fold f (preorders ns) s"
proof (induction n and ns arbitrary: s and s rule: preorder_preorders.induct)
  case (1 n)
  then show ?case by (subst Walk.simps) (simp add: assms)
qed simp_all

section \<open>Helpers of the parser\<close>

definition tokPos :: "Token \<Rightarrow> Pos" where
  "tokPos t = \<lparr>pos_Offset = tkOffset t, pos_Line = tkLine t, pos_Col = tkCol t\<rparr>"

definition describe :: "Token \<Rightarrow> string" where
  "describe t = (case tkKind t of
      TokenEOF \<Rightarrow> ''end of input''
    | TokenError \<Rightarrow> ''lexer error: '' @ tkValue t
    | TokenText \<Rightarrow> ''text''
    | TokenTagOpen \<Rightarrow> ''`<`''
    | TokenTagOpenClose \<Rightarrow> ''`</`''
    | TokenTagSelfClose \<Rightarrow> ''`/>`''
    | TokenTagClose \<Rightarrow> ''`>`''
    | TokenIdentifier \<Rightarrow> ''identifier `'' @ tkValue t @ ''`''
    | TokenAttrName \<Rightarrow> ''attribute `'' @ tkValue t @ ''`''
    | TokenAttrEquals \<Rightarrow> ''`=`''
    | TokenAttrValue \<Rightarrow> ''attribute value''
    | TokenMustacheOpen \<Rightarrow> ''`{`''
    | TokenMustacheClose \<Rightarrow> ''`}`''
    | TokenBlockOpen \<Rightarrow> ''`{'' @ tkValue t @ ''}`''
    | TokenBlockMid \<Rightarrow> ''`{'' @ tkValue t @ ''}`''
    | TokenBlockClose \<Rightarrow> ''`{'' @ tkValue t @ ''}`''
    | TokenAtTag \<Rightarrow> ''`{'' @ tkValue t @ ''}`''
    | TokenComment \<Rightarrow> ''comment''
    | TokenScriptOpen \<Rightarrow> ''`<script>`''
    | TokenScriptBody \<Rightarrow> ''script body''
    | TokenScriptClose \<Rightarrow> ''`</script>`''
    | TokenStyleOpen \<Rightarrow> ''`<style>`''
    | TokenStyleBody \<Rightarrow> ''style body''
    | TokenStyleClose \<Rightarrow> ''`</style>`'')"

definition isComponentName :: "string \<Rightarrow> bool" where
  "isComponentName name =
    (if name = [] then False
     else if hasPrefix name ''svelte:'' then False
     else if contains name ''.'' then True
     else inRange 0x41 0x5A (hd name))"

definition classifyAttribute :: "string \<Rightarrow> AttrKind \<times> string" where
  "classifyAttribute name = (case cutByte name CHR '':'' of (prefix, rest, ok) \<Rightarrow>
     if \<not> ok then (AttrStatic, [])
     else if prefix = ''on'' then (AttrEventHandler, rest)
     else if prefix = ''bind'' then (AttrBind, rest)
     else if prefix = ''use'' then (AttrUse, rest)
     else if prefix = ''class'' then (AttrClassDirective, rest)
     else if prefix = ''style'' then (AttrStyleDirective, rest)
     else if prefix = ''let'' then (AttrLet, rest)
     else (AttrStatic, []))"

definition blankByte :: "char \<Rightarrow> bool" where
  "blankByte c = (c = CHR '' '' \<or> c = CHR 0x09)"

definition splitDirective :: "string \<Rightarrow> string \<times> string" where
  "splitDirective body0 = (let body = trimLeft body0 ('' '' @ [CHR 0x09]) in
     (takeWhile (\<lambda>c. \<not> blankByte c) body, dropWhile (\<lambda>c. \<not> blankByte c) body))"

definition blockArgs :: "string \<Rightarrow> string \<Rightarrow> string" where
  "blockArgs value prefix = trimSpace (trimPrefix value prefix)"

text \<open>\<^verbatim>\<open>strings.LastIndexByte\<close>.\<close>

fun lastIndexByte :: "string \<Rightarrow> char \<Rightarrow> nat option" where
  "lastIndexByte [] c = None"
| "lastIndexByte (x # xs) c = (case lastIndexByte xs c of
      Some i \<Rightarrow> Some (Suc i)
    | None \<Rightarrow> if x = c then Some 0 else None)"

text \<open>The loop of \<^verbatim>\<open>indexWord\<close>; the only caller searches for a non-empty word, and the model answers
  none for the empty one, on which the loop of the source need not end.\<close>

function indexWordFrom :: "string \<Rightarrow> string \<Rightarrow> nat \<Rightarrow> nat option" where
  "indexWordFrom s word i =
    (if word = [] \<or> i \<ge> length s then None
     else (case indexStr (drop i s) word of
         None \<Rightarrow> None
       | Some j \<Rightarrow>
          (let idx = i + j;
               left = (idx = 0 \<or> isSpaceByte (s ! (idx - 1)));
               right = (idx + length word = length s \<or> isSpaceByte (s ! (idx + length word)))
           in if left \<and> right then Some idx else indexWordFrom s word (idx + length word))))"
  by pat_completeness auto
termination
  by (relation "measure (\<lambda>(s, w, i). length s - i)") (auto simp: Let_def intro: diff_less_mono2)

declare indexWordFrom.simps [simp del]

definition indexWord :: "string \<Rightarrow> string \<Rightarrow> nat option" where
  "indexWord s word = indexWordFrom s word 0"

definition splitKey :: "string \<Rightarrow> string \<times> string" where
  "splitKey args = (case lastIndexByte args CHR ''('' of
      Some i \<Rightarrow> if hasSuffix (trimSpace args) '')''
                then (trimSpace (take i args), trimSpace (trimSuffix (trimSpace (drop (i + 1) args)) '')''))
                else (args, [])
    | None \<Rightarrow> (args, []))"

definition splitEach :: "string \<Rightarrow> string \<times> string \<times> string \<times> string" where
  "splitEach args0 = (case splitKey args0 of (args, key) \<Rightarrow>
     (case indexWord args ''as'' of
        None \<Rightarrow> (trimSpace args, [], [], key)
      | Some asIdx \<Rightarrow>
         (let iter = trimSpace (take asIdx args); rest = trimSpace (drop (asIdx + 2) args) in
          (case indexByte rest CHR '','' of
             Some c \<Rightarrow> (iter, trimSpace (take c rest), trimSpace (drop (c + 1) rest), key)
           | None \<Rightarrow> (iter, rest, [], key)))))"

definition splitSnippet :: "string \<Rightarrow> string \<times> string" where
  "splitSnippet args0 = (let args = trimSpace args0 in
     (case indexByte args CHR ''('' of
        None \<Rightarrow> (args, [])
      | Some open \<Rightarrow>
         (let name = trimSpace (take open args); rest = drop (open + 1) args in
          (case lastIndexByte rest CHR '')'' of
             None \<Rightarrow> (name, trimSpace rest)
           | Some closeIdx \<Rightarrow> (name, trimSpace (take closeIdx rest))))))"

text \<open>\<^verbatim>\<open>strings.Fields\<close>: the maximal runs of non-space bytes; a space is a prefix that encodes a white
  space rune.\<close>

definition atSpace :: "string \<Rightarrow> bool" where
  "atSpace s = list_ex (\<lambda>p. p \<noteq> [] \<and> hasPrefix s p) spaceEncs"

fun fieldEnd :: "string \<Rightarrow> string \<times> string" where
  "fieldEnd [] = ([], [])"
| "fieldEnd (c # s) = (if atSpace (c # s) then ([], c # s) else (case fieldEnd s of (w, r) \<Rightarrow> (c # w, r)))"

lemma fieldEnd_length: "length (snd (fieldEnd s)) \<le> length s"
  by (induction s) (auto split: prod.splits)

lemma trimSpaceLeft_not_space: "\<not> atSpace (trimSpaceLeft s)"
proof (induction s rule: trimSpaceLeft.induct)
  case (1 s)
  show ?case
  proof (cases "find (\<lambda>p. p \<noteq> [] \<and> hasPrefix s p) spaceEncs")
    case None
    then have "trimSpaceLeft s = s" by (subst trimSpaceLeft.simps) simp
    with None show ?thesis by (auto simp: atSpace_def list_ex_iff find_None_iff)
  next
    case (Some p)
    then have "trimSpaceLeft s = trimSpaceLeft (drop (length p) s)" by (subst trimSpaceLeft.simps) simp
    with 1[OF Some] show ?thesis by simp
  qed
qed

lemma trimSpaceLeft_length: "length (trimSpaceLeft s) \<le> length s"
  by (metis trimSpaceLeft_suffix length_append le_add2)

lemma field_progress: "trimSpaceLeft s = c # r \<Longrightarrow> length (snd (fieldEnd (c # r))) < length s"
  using trimSpaceLeft_not_space[of s] fieldEnd_length[of r] trimSpaceLeft_length[of s]
  by (auto split: prod.splits)

function fields :: "string \<Rightarrow> string list" where
  "fields s = (case trimSpaceLeft s of
      [] \<Rightarrow> []
    | c # r \<Rightarrow> (case fieldEnd (c # r) of (w, rest) \<Rightarrow> w # fields rest))"
  by pat_completeness auto
termination
  by (relation "measure length") (simp, metis field_progress snd_conv in_measure)

declare fields.simps [simp del]

definition scriptInner :: "string \<Rightarrow> string" where
  "scriptInner openValue = trimSuffix (trimPrefix openValue ''<script'') ''>''"

definition extractScriptModule :: "string \<Rightarrow> bool" where
  "extractScriptModule openValue = list_ex (\<lambda>field. field = ''module'') (fields (scriptInner openValue))"

definition extractScriptLang :: "string \<Rightarrow> string" where
  "extractScriptLang openValue = (let inner = trimSpace (scriptInner openValue) in
     if inner = [] then []
     else (case indexStr inner ''lang'' of
         None \<Rightarrow> []
       | Some idx \<Rightarrow>
          (let rest = trimLeft (drop (idx + 4) inner) ('' '' @ [CHR 0x09]) in
           if \<not> hasPrefix rest ''='' then []
           else (let rest = trimLeft (drop 1 rest) ('' '' @ [CHR 0x09]) in
             (case rest of
                [] \<Rightarrow> []
              | q # r \<Rightarrow>
                 if q = CHR 0x22 \<or> q = CHR 0x27
                 then (case indexByte r q of None \<Rightarrow> [] | Some end \<Rightarrow> take end r)
                 else takeWhile (\<lambda>c. \<not> blankByte c) rest)))))"

definition isVoidElement :: "string \<Rightarrow> bool" where
  "isVoidElement name = (name \<in> set [''area'', ''base'', ''br'', ''col'', ''embed'', ''hr'', ''img'', ''input'',
     ''link'', ''meta'', ''param'', ''source'', ''track'', ''wbr''])"

text \<open>Stop functions.\<close>

definition stopEOF :: "Token \<Rightarrow> bool" where
  "stopEOF tok = (tkKind tok = TokenEOF)"

definition closeName :: "Token \<Rightarrow> string" where
  "closeName tok = fst (splitDirective (trimPrefix (tkValue tok) ''/''))"

definition blockBoundary :: "string \<Rightarrow> Token \<Rightarrow> bool" where
  "blockBoundary name tok = (case tkKind tok of
      TokenBlockMid \<Rightarrow> True
    | TokenBlockClose \<Rightarrow> closeName tok = name
    | _ \<Rightarrow> False)"

definition elementStop :: "string \<Rightarrow> Token \<Rightarrow> bool" where
  "elementStop name tok = (tkKind tok = TokenTagOpenClose)"

end
