(* ===== verification/Parser.thy ===== *)
theory Parser
  imports ParserAst
begin

text \<open>
  The recursive-descent template parser, \<^verbatim>\<open>internal/parser/parser.go\<close>. A production is a state
  transformer on the parser (lexer, lookahead buffer, errors); it returns a value or unwinds with
  the \<^verbatim>\<open>bailout\<close> panic, and the state is kept either way, as the panic keeps the mutated parser.
  The lexer can fail to make progress on malformed input, so the loops take fuel and
  \<^const>\<open>None\<close> is running out of it; productions that parse children take the children's parser
  as the argument \<open>kids\<close>, and \<open>parseChildren\<close> ties the knot.
\<close>

section \<open>State\<close>

record parser =
  pr_lex :: Lexer
  pr_buf :: "Token list"
  pr_errs :: "ParseError list"

definition newParser :: "string \<Rightarrow> parser" where
  "newParser src = \<lparr>pr_lex = NewLexer src, pr_buf = [], pr_errs = []\<rparr>"

datatype 'a outcome = Ret 'a | Bailout

type_synonym 'a parsing = "parser \<Rightarrow> ('a outcome \<times> parser) option"
type_synonym stopFn = "Token \<Rightarrow> bool"

definition retP :: "'a \<Rightarrow> 'a parsing" where
  "retP x p = Some (Ret x, p)"

definition bindP :: "'a parsing \<Rightarrow> ('a \<Rightarrow> 'b parsing) \<Rightarrow> 'b parsing" where
  "bindP m f p = (case m p of
      None \<Rightarrow> None
    | Some (Bailout, p') \<Rightarrow> Some (Bailout, p')
    | Some (Ret x, p') \<Rightarrow> f x p')"

definition peekTok :: "parser \<Rightarrow> Token \<times> parser" where
  "peekTok p = (case pr_buf p of
      [] \<Rightarrow> (case Next (pr_lex p) of (t, l) \<Rightarrow> (t, p\<lparr>pr_lex := l, pr_buf := [t]\<rparr>))
    | t # _ \<Rightarrow> (t, p))"

definition advanceTok :: "parser \<Rightarrow> Token \<times> parser" where
  "advanceTok p = (case peekTok p of (t, p1) \<Rightarrow>
     if tkKind t = TokenEOF then (t, p1) else (t, p1\<lparr>pr_buf := tl (pr_buf p1)\<rparr>))"

definition peekP :: "Token parsing" where
  "peekP p = (case peekTok p of (t, p1) \<Rightarrow> Some (Ret t, p1))"

definition advP :: "Token parsing" where
  "advP p = (case advanceTok p of (t, p1) \<Rightarrow> Some (Ret t, p1))"

definition errorWithHint :: "Token \<Rightarrow> string \<Rightarrow> string \<Rightarrow> unit parsing" where
  "errorWithHint tok msg hint p =
     Some (Ret (), p\<lparr>pr_errs := pr_errs p @ [\<lparr>pe_Pos = tokPos tok, pe_Message = msg, pe_Hint = hint\<rparr>]\<rparr>)"

definition errorAt :: "Token \<Rightarrow> string \<Rightarrow> unit parsing" where
  "errorAt tok msg = errorWithHint tok msg []"

definition bailP :: "'a parsing" where
  "bailP p = Some (Bailout, p)"

definition outOfFuel :: "'a parsing" where
  "outOfFuel p = None"

definition expect :: "TokenKind \<Rightarrow> string \<Rightarrow> Token parsing" where
  "expect kind what = bindP peekP (\<lambda>tok.
     if tkKind tok \<noteq> kind then bindP (errorAt tok (''expected '' @ what @ '', got '' @ describe tok)) (\<lambda>_. bailP)
     else advP)"

section \<open>Recovery\<close>

definition syncKinds :: "TokenKind list" where
  "syncKinds = [TokenEOF, TokenTagOpen, TokenTagOpenClose, TokenMustacheOpen, TokenBlockOpen, TokenBlockMid,
     TokenBlockClose, TokenAtTag, TokenComment, TokenScriptOpen, TokenStyleOpen]"

fun sync :: "nat \<Rightarrow> unit parsing" where
  "sync 0 = outOfFuel"
| "sync (Suc n) = bindP peekP (\<lambda>tok.
     if tkKind tok \<in> set syncKinds then retP () else bindP advP (\<lambda>_. sync n))"

fun skipUntilTagClose :: "nat \<Rightarrow> unit parsing" where
  "skipUntilTagClose 0 = outOfFuel"
| "skipUntilTagClose (Suc n) = bindP peekP (\<lambda>tok.
     if tkKind tok = TokenEOF then retP ()
     else if tkKind tok = TokenTagClose \<or> tkKind tok = TokenTagSelfClose then bindP advP (\<lambda>_. retP ())
     else bindP advP (\<lambda>_. skipUntilTagClose n))"

section \<open>Productions\<close>

definition parseText :: "Node parsing" where
  "parseText = bindP advP (\<lambda>tok. retP (Text (tokPos tok) (tkValue tok)))"

definition parseComment :: "Node parsing" where
  "parseComment = bindP advP (\<lambda>tok. retP (Comment (tokPos tok) (tkValue tok)))"

definition mustacheBody :: "Token \<Rightarrow> (Pos \<Rightarrow> string \<Rightarrow> Node) \<Rightarrow> Node parsing" where
  "mustacheBody open mk = bindP (expect TokenText ''expression'') (\<lambda>exprTok.
     bindP (expect TokenMustacheClose ''`}`'') (\<lambda>_. retP (mk (tokPos open) (trimSpace (tkValue exprTok)))))"

definition parseMustache :: "Node parsing" where
  "parseMustache = bindP advP (\<lambda>open. mustacheBody open Mustache)"

definition mkAttribute :: "Token \<Rightarrow> Node option \<Rightarrow> Attribute" where
  "mkAttribute nameTok v = (case classifyAttribute (tkValue nameTok) of
     (kind, modifier) \<Rightarrow> Attribute (tokPos nameTok) (tkValue nameTok) v modifier kind)"

definition attributeValue :: "Node parsing" where
  "attributeValue = bindP peekP (\<lambda>tok.
     if tkKind tok = TokenAttrValue then bindP advP (\<lambda>v. retP (StaticValue (tokPos v) (tkValue v)))
     else if tkKind tok = TokenMustacheOpen then bindP advP (\<lambda>open. mustacheBody open DynamicValue)
     else bindP (errorAt tok (''expected attribute value, got '' @ describe tok)) (\<lambda>_. bailP))"

definition parseAttribute :: "Attribute parsing" where
  "parseAttribute = bindP advP (\<lambda>nameTok. bindP peekP (\<lambda>tok.
     if tkKind tok \<noteq> TokenAttrEquals then retP (mkAttribute nameTok None)
     else bindP advP (\<lambda>_. bindP attributeValue (\<lambda>v. retP (mkAttribute nameTok (Some v))))))"

fun parseAttributes :: "nat \<Rightarrow> Attribute list parsing" where
  "parseAttributes 0 = outOfFuel"
| "parseAttributes (Suc n) = bindP peekP (\<lambda>tok.
     if tkKind tok \<noteq> TokenAttrName then retP []
     else bindP parseAttribute (\<lambda>a. bindP (parseAttributes n) (\<lambda>as. retP (a # as))))"

definition parseAtTag :: "Node option parsing" where
  "parseAtTag = bindP advP (\<lambda>tok.
     case splitDirective (trimPrefix (tkValue tok) ''@'') of (name, rest0) \<Rightarrow>
       let rest = trimSpace rest0 in
       if name = ''html'' then retP (Some (RawHTML (tokPos tok) rest))
       else if name = ''const'' then retP (Some (Const (tokPos tok) rest))
       else if name = ''render'' then retP (Some (Render (tokPos tok) rest))
       else bindP (errorAt tok (''unknown @-tag `@'' @ name @ ''`'')) (\<lambda>_. retP None))"

definition badModuleLang :: "string \<Rightarrow> bool" where
  "badModuleLang lang = (lang \<noteq> [] \<and> lang \<noteq> ''ts'' \<and> lang \<noteq> ''js'')"

definition badScriptLang :: "string \<Rightarrow> bool" where
  "badScriptLang lang = (lang \<noteq> [] \<and> lang \<noteq> ''go'' \<and> lang \<noteq> ''ts'' \<and> lang \<noteq> ''js'')"

definition quoted :: "string \<Rightarrow> string" where
  "quoted s = [CHR 0x22] @ s @ [CHR 0x22]"

definition langError :: "Token \<Rightarrow> bool \<Rightarrow> string \<Rightarrow> unit parsing" where
  "langError open module lang =
    (if module \<and> badModuleLang lang
     then errorWithHint open (''unsupported `<script module>` lang `'' @ lang @ ''`'')
       (''<script module> compiles to JS via Vite; drop `lang` or use lang='' @ quoted ''ts'')
     else if \<not> module \<and> badScriptLang lang
     then errorWithHint open (''unsupported script lang `'' @ lang @ ''`'')
       (''use lang='' @ quoted ''go'' @ '' for server-side Go, lang='' @ quoted ''ts'' @ ''/lang='' @ quoted ''js'' @ '' for client-side, or omit for default'')
     else retP ())"

definition optionalBody :: "TokenKind \<Rightarrow> string parsing" where
  "optionalBody kind = bindP peekP (\<lambda>tok.
     if tkKind tok = kind then bindP advP (\<lambda>_. retP (tkValue tok)) else retP [])"

definition parseScript :: "Node parsing" where
  "parseScript = bindP advP (\<lambda>open.
     let lang = extractScriptLang (tkValue open); module = extractScriptModule (tkValue open) in
     bindP (optionalBody TokenScriptBody) (\<lambda>body. bindP peekP (\<lambda>close.
       if tkKind close \<noteq> TokenScriptClose
       then bindP (errorAt close (''expected `</script>`, got '' @ describe close)) (\<lambda>_. retP (Script (tokPos open) lang module body))
       else bindP advP (\<lambda>_. bindP (langError open module lang) (\<lambda>_. retP (Script (tokPos open) lang module body))))))"

definition parseStyle :: "Node parsing" where
  "parseStyle = bindP advP (\<lambda>open. bindP (optionalBody TokenStyleBody) (\<lambda>body. bindP peekP (\<lambda>close.
     if tkKind close \<noteq> TokenStyleClose
     then bindP (errorAt close (''expected `</style>`, got '' @ describe close)) (\<lambda>_. retP (Style (tokPos open) body))
     else bindP advP (\<lambda>_. retP (Style (tokPos open) body)))))"

definition consumeClosingTag :: "nat \<Rightarrow> string \<Rightarrow> unit parsing" where
  "consumeClosingTag n name = bindP peekP (\<lambda>tok.
     if tkKind tok \<noteq> TokenTagOpenClose
     then errorAt tok (''expected `</'' @ name @ ''>` to close <'' @ name @ ''>, got '' @ describe tok)
     else bindP advP (\<lambda>_. bindP peekP (\<lambda>nameTok.
       if tkKind nameTok \<noteq> TokenIdentifier
       then bindP (errorAt nameTok (''expected tag name in closing tag, got '' @ describe nameTok)) (\<lambda>_. skipUntilTagClose n)
       else bindP (if tkValue nameTok \<noteq> name
                   then errorAt nameTok (''mismatched closing tag `</'' @ tkValue nameTok @ ''>` for `<'' @ name @ ''>`'')
                   else retP ()) (\<lambda>_.
         bindP advP (\<lambda>_. bindP peekP (\<lambda>end.
           if tkKind end = TokenTagClose then bindP advP (\<lambda>_. retP ())
           else bindP (errorAt end (''expected `>` to close `</'' @ name @ ''>`, got '' @ describe end)) (\<lambda>_. skipUntilTagClose n)))))))"

definition parseElement :: "nat \<Rightarrow> (stopFn \<Rightarrow> Node list parsing) \<Rightarrow> Node parsing" where
  "parseElement n kids = bindP advP (\<lambda>open. bindP (expect TokenIdentifier ''tag name'') (\<lambda>nameTok.
     let name = tkValue nameTok; comp = isComponentName name in
     bindP (parseAttributes n) (\<lambda>attrs. bindP peekP (\<lambda>tok.
       if tkKind tok = TokenTagSelfClose then bindP advP (\<lambda>_. retP (Element (tokPos open) name attrs [] True comp))
       else if tkKind tok = TokenTagClose then bindP advP (\<lambda>_.
         if isVoidElement name then retP (Element (tokPos open) name attrs [] False comp)
         else bindP (kids (elementStop name)) (\<lambda>children. bindP (consumeClosingTag n name) (\<lambda>_.
           retP (Element (tokPos open) name attrs children False comp))))
       else bindP (errorAt tok (''expected `>` or `/>` to close <'' @ name @ ''>, got '' @ describe tok)) (\<lambda>_. bailP)))))"

section \<open>Blocks\<close>

definition expectBlockClose :: "string \<Rightarrow> unit parsing" where
  "expectBlockClose name = bindP peekP (\<lambda>tok.
     if tkKind tok \<noteq> TokenBlockClose
     then bindP (errorAt tok (''expected `{/'' @ name @ ''}`, got '' @ describe tok)) (\<lambda>_. bailP)
     else if closeName tok \<noteq> name
     then bindP (errorAt tok (''expected `{/'' @ name @ ''}`, got `{/'' @ closeName tok @ ''}`'')) (\<lambda>_. bailP)
     else bindP advP (\<lambda>_. retP ()))"

text \<open>The name and the arguments of a middle tag, and the test for an else-if.\<close>

definition midParts :: "Token \<Rightarrow> string \<times> string" where
  "midParts mid = (case splitDirective (trimPrefix (tkValue mid) '':'') of (name, args) \<Rightarrow> (name, trimSpace args))"

definition elseIfRest :: "string \<Rightarrow> string option" where
  "elseIfRest args = (let rest = trimPrefix args ''if'' in
     if rest \<noteq> args \<and> (rest = [] \<or> blankByte (hd rest)) then Some rest else None)"

definition unlessErr :: "bool \<Rightarrow> Token \<Rightarrow> string \<Rightarrow> unit parsing" where
  "unlessErr ok tok msg = (if ok then retP () else errorAt tok msg)"

definition badMid :: "Token \<Rightarrow> string \<Rightarrow> unit parsing" where
  "badMid mid block = bindP (errorAt mid (''unexpected `{:'' @ fst (midParts mid) @ ''}` inside `{#'' @ block @ ''}`'')) (\<lambda>_.
     bindP advP (\<lambda>_. retP ()))"

fun ifMids :: "nat \<Rightarrow> (stopFn \<Rightarrow> Node list parsing) \<Rightarrow> (ElifBranch list \<times> Node list) parsing" where
  "ifMids 0 kids = outOfFuel"
| "ifMids (Suc n) kids = bindP peekP (\<lambda>mid.
     if tkKind mid \<noteq> TokenBlockMid then retP ([], [])
     else if fst (midParts mid) = ''else'' then
       (case elseIfRest (snd (midParts mid)) of
          Some rest \<Rightarrow> bindP advP (\<lambda>_.
            let cond = trimSpace rest in
            bindP (unlessErr (cond \<noteq> []) mid ''`{:else if}` requires a condition'') (\<lambda>_.
              bindP (kids (blockBoundary ''if'')) (\<lambda>body. bindP (ifMids n kids) (\<lambda>(elifs, els).
                retP (ElifBranch (tokPos mid) cond body # elifs, els)))))
        | None \<Rightarrow> bindP advP (\<lambda>_. bindP (kids (blockBoundary ''if'')) (\<lambda>els. retP ([], els))))
     else bindP (badMid mid ''if'') (\<lambda>_. ifMids n kids))"

definition parseIfBlock :: "nat \<Rightarrow> (stopFn \<Rightarrow> Node list parsing) \<Rightarrow> Node parsing" where
  "parseIfBlock n kids = bindP advP (\<lambda>open.
     let cond = blockArgs (tkValue open) ''#if'' in
     bindP (unlessErr (cond \<noteq> []) open ''`{#if}` requires a condition'') (\<lambda>_.
       bindP (kids (blockBoundary ''if'')) (\<lambda>thn. bindP (ifMids n kids) (\<lambda>(elifs, els).
         bindP (expectBlockClose ''if'') (\<lambda>_. retP (IfBlock (tokPos open) cond thn elifs els))))))"

definition eachElse :: "(stopFn \<Rightarrow> Node list parsing) \<Rightarrow> Node list parsing" where
  "eachElse kids = bindP peekP (\<lambda>mid.
     if tkKind mid \<noteq> TokenBlockMid then retP []
     else if fst (midParts mid) = ''else'' then bindP advP (\<lambda>_. kids (blockBoundary ''each''))
     else bindP (badMid mid ''each'') (\<lambda>_. retP []))"

definition parseEachBlock :: "(stopFn \<Rightarrow> Node list parsing) \<Rightarrow> Node parsing" where
  "parseEachBlock kids = bindP advP (\<lambda>open.
     case splitEach (blockArgs (tkValue open) ''#each'') of (iter, item, idx, key) \<Rightarrow>
     bindP (unlessErr (\<not> (iter = [] \<or> item = [])) open ''`{#each}` requires `iter as item`'') (\<lambda>_.
       bindP (kids (blockBoundary ''each'')) (\<lambda>body. bindP (eachElse kids) (\<lambda>els.
         bindP (expectBlockClose ''each'') (\<lambda>_. retP (EachBlock (tokPos open) iter item idx key body els))))))"

text \<open>The middle tags of an await block; a repeated one replaces the earlier branch.\<close>

fun awaitMids :: "nat \<Rightarrow> (stopFn \<Rightarrow> Node list parsing) \<Rightarrow> Node list \<times> string \<times> Node list \<times> string \<Rightarrow>
    (Node list \<times> string \<times> Node list \<times> string) parsing" where
  "awaitMids 0 kids acc = outOfFuel"
| "awaitMids (Suc n) kids acc = (case acc of (thn, thenVar, ctch, catchVar) \<Rightarrow> bindP peekP (\<lambda>mid.
     if tkKind mid \<noteq> TokenBlockMid then retP acc
     else if fst (midParts mid) = ''then'' then bindP advP (\<lambda>_. bindP (kids (blockBoundary ''await'')) (\<lambda>b.
       awaitMids n kids (b, snd (midParts mid), ctch, catchVar)))
     else if fst (midParts mid) = ''catch'' then bindP advP (\<lambda>_. bindP (kids (blockBoundary ''await'')) (\<lambda>b.
       awaitMids n kids (thn, thenVar, b, snd (midParts mid))))
     else bindP (badMid mid ''await'') (\<lambda>_. awaitMids n kids acc)))"

definition parseAwaitBlock :: "nat \<Rightarrow> (stopFn \<Rightarrow> Node list parsing) \<Rightarrow> Node parsing" where
  "parseAwaitBlock n kids = bindP advP (\<lambda>open.
     let expr = blockArgs (tkValue open) ''#await'' in
     bindP (unlessErr (expr \<noteq> []) open ''`{#await}` requires an expression'') (\<lambda>_.
       bindP (kids (blockBoundary ''await'')) (\<lambda>pending. bindP (awaitMids n kids ([], [], [], [])) (\<lambda>(thn, thenVar, ctch, catchVar).
         bindP (expectBlockClose ''await'') (\<lambda>_. retP (AwaitBlock (tokPos open) expr pending thn thenVar ctch catchVar))))))"

definition parseKeyBlock :: "(stopFn \<Rightarrow> Node list parsing) \<Rightarrow> Node parsing" where
  "parseKeyBlock kids = bindP advP (\<lambda>open.
     let key = blockArgs (tkValue open) ''#key'' in
     bindP (unlessErr (key \<noteq> []) open ''`{#key}` requires an expression'') (\<lambda>_.
       bindP (kids (blockBoundary ''key'')) (\<lambda>body. bindP (expectBlockClose ''key'') (\<lambda>_.
         retP (KeyBlock (tokPos open) key body)))))"

definition parseSnippetBlock :: "(stopFn \<Rightarrow> Node list parsing) \<Rightarrow> Node parsing" where
  "parseSnippetBlock kids = bindP advP (\<lambda>open.
     case splitSnippet (blockArgs (tkValue open) ''#snippet'') of (name, params) \<Rightarrow>
     bindP (unlessErr (name \<noteq> []) open ''`{#snippet}` requires a name'') (\<lambda>_.
       bindP (kids (blockBoundary ''snippet'')) (\<lambda>body. bindP (expectBlockClose ''snippet'') (\<lambda>_.
         retP (SnippetBlock (tokPos open) name params body)))))"

definition someP :: "Node parsing \<Rightarrow> Node option parsing" where
  "someP m = bindP m (\<lambda>n. retP (Some n))"

definition blockName :: "Token \<Rightarrow> string" where
  "blockName tok = fst (splitDirective (trimPrefix (tkValue tok) ''#''))"

definition parseBlock :: "nat \<Rightarrow> (stopFn \<Rightarrow> Node list parsing) \<Rightarrow> Node option parsing" where
  "parseBlock n kids = bindP peekP (\<lambda>tok.
     let name = blockName tok in
     if name = ''if'' then someP (parseIfBlock n kids)
     else if name = ''each'' then someP (parseEachBlock kids)
     else if name = ''await'' then someP (parseAwaitBlock n kids)
     else if name = ''key'' then someP (parseKeyBlock kids)
     else if name = ''snippet'' then someP (parseSnippetBlock kids)
     else bindP (errorAt tok (''unknown block `#'' @ name @ ''`'')) (\<lambda>_. bindP advP (\<lambda>_. retP None)))"

section \<open>Children\<close>

definition unexpected :: "Token \<Rightarrow> Node option parsing" where
  "unexpected tok = bindP (errorAt tok (''unexpected '' @ describe tok)) (\<lambda>_. bindP advP (\<lambda>_. retP None))"

text \<open>The switch of \<^verbatim>\<open>parseChild\<close> on the kind of the token.\<close>

definition dispatch :: "nat \<Rightarrow> (stopFn \<Rightarrow> Node list parsing) \<Rightarrow> Token \<Rightarrow> Node option parsing" where
  "dispatch n kids tok = (case tkKind tok of
        TokenError \<Rightarrow> bindP (errorAt tok (tkValue tok)) (\<lambda>_. bindP advP (\<lambda>_. bindP (sync n) (\<lambda>_. retP None)))
      | TokenText \<Rightarrow> someP parseText
      | TokenComment \<Rightarrow> someP parseComment
      | TokenTagOpen \<Rightarrow> someP (parseElement n kids)
      | TokenTagOpenClose \<Rightarrow> bindP (errorAt tok ''unexpected closing tag'') (\<lambda>_. bindP advP (\<lambda>_. bindP (skipUntilTagClose n) (\<lambda>_. retP None)))
      | TokenScriptOpen \<Rightarrow> someP parseScript
      | TokenStyleOpen \<Rightarrow> someP parseStyle
      | TokenMustacheOpen \<Rightarrow> someP parseMustache
      | TokenBlockOpen \<Rightarrow> parseBlock n kids
      | TokenAtTag \<Rightarrow> parseAtTag
      | _ \<Rightarrow> unexpected tok)"

definition parseChild :: "nat \<Rightarrow> (stopFn \<Rightarrow> Node list parsing) \<Rightarrow> stopFn \<Rightarrow> Node option parsing" where
  "parseChild n kids stop = bindP peekP (\<lambda>tok. if stop tok then retP None else dispatch n kids tok)"

text \<open>The deferred recovery: a bailout becomes no node, at the next opener.\<close>

definition parseChildSafe :: "nat \<Rightarrow> (stopFn \<Rightarrow> Node list parsing) \<Rightarrow> stopFn \<Rightarrow> Node option parsing" where
  "parseChildSafe n kids stop p = (case parseChild n kids stop p of
      Some (Bailout, p') \<Rightarrow> bindP (sync n) (\<lambda>_. retP None) p'
    | res \<Rightarrow> res)"

fun parseChildren :: "nat \<Rightarrow> stopFn \<Rightarrow> Node list parsing" where
  "parseChildren 0 stop = outOfFuel"
| "parseChildren (Suc n) stop = bindP peekP (\<lambda>tok.
     if tkKind tok = TokenEOF \<or> stop tok then retP []
     else bindP (parseChildSafe n (parseChildren n) stop) (\<lambda>node.
       bindP (parseChildren n stop) (\<lambda>rest. retP (case node of None \<Rightarrow> rest | Some nd \<Rightarrow> nd # rest))))"

definition parseFragment :: "nat \<Rightarrow> stopFn \<Rightarrow> Node parsing" where
  "parseFragment n stop = bindP peekP (\<lambda>first. bindP (parseChildren n stop) (\<lambda>cs. retP (Fragment (tokPos first) cs)))"

definition Parse :: "nat \<Rightarrow> string \<Rightarrow> (Node \<times> ParseError list) option" where
  "Parse n src = (case parseFragment n stopEOF (newParser src) of
      Some (Ret frag, p) \<Rightarrow> Some (frag, pr_errs p)
    | _ \<Rightarrow> None)"

end
