(* ===== verification/ParserGrammar.thy ===== *)
theory ParserGrammar
  imports Parser LexerProps
begin

text \<open>
  The grammar that the template parser accepts, as a derivation relation between syntax trees and token
  lists, and the calculus the parser is verified with: the cursor of a parser state, and a
  total-correctness triple for productions. \<open>parses s m c b G\<close> says that \<open>m\<close>, run from cursor \<open>c\<close>,
  returns with at most \<open>b\<close> tokens left, only adds errors, and (when \<open>s\<close> holds and it adds none)
  returns a value related by \<open>G\<close> to the tokens it consumed.
\<close>

section \<open>The grammar\<close>

inductive gAttr :: "Attribute \<Rightarrow> Token list \<Rightarrow> bool" where
  bare: "tkKind t = TokenAttrName \<Longrightarrow> gAttr (mkAttribute t None) [t]"
| static: "tkKind t = TokenAttrName \<Longrightarrow> tkKind e = TokenAttrEquals \<Longrightarrow> tkKind v = TokenAttrValue \<Longrightarrow>
    gAttr (mkAttribute t (Some (StaticValue (tokPos v) (tkValue v)))) [t, e, v]"
| dynamic: "tkKind t = TokenAttrName \<Longrightarrow> tkKind e = TokenAttrEquals \<Longrightarrow> tkKind m = TokenMustacheOpen \<Longrightarrow>
    tkKind x = TokenText \<Longrightarrow> tkKind c = TokenMustacheClose \<Longrightarrow>
    gAttr (mkAttribute t (Some (DynamicValue (tokPos m) (trimSpace (tkValue x))))) [t, e, m, x, c]"

inductive gAttrs :: "Attribute list \<Rightarrow> Token list \<Rightarrow> bool" where
  no_attrs: "gAttrs [] []"
| more_attrs: "gAttr a ts \<Longrightarrow> gAttrs as us \<Longrightarrow> gAttrs (a # as) (ts @ us)"

text \<open>The body of a script or a style: absent or one token.\<close>

inductive gBody :: "TokenKind \<Rightarrow> string \<Rightarrow> Token list \<Rightarrow> bool" where
  no_body: "gBody k [] []"
| a_body: "tkKind t = k \<Longrightarrow> gBody k (tkValue t) [t]"

definition langOK :: "bool \<Rightarrow> string \<Rightarrow> bool" where
  "langOK module lang = (if module then \<not> badModuleLang lang else \<not> badScriptLang lang)"

definition opensBlock :: "string \<Rightarrow> Token \<Rightarrow> bool" where
  "opensBlock name t = (tkKind t = TokenBlockOpen \<and> blockName t = name)"

definition closesBlock :: "string \<Rightarrow> Token \<Rightarrow> bool" where
  "closesBlock name t = (tkKind t = TokenBlockClose \<and> closeName t = name)"

definition midTag :: "string \<Rightarrow> Token \<Rightarrow> bool" where
  "midTag name t = (tkKind t = TokenBlockMid \<and> fst (midParts t) = name)"

inductive gNodes :: "Node list \<Rightarrow> Token list \<Rightarrow> bool"
  and gNode :: "Node \<Rightarrow> Token list \<Rightarrow> bool"
  and gIfMids :: "ElifBranch list \<Rightarrow> Node list \<Rightarrow> Token list \<Rightarrow> bool"
  and gAwaitMids :: "Node list \<times> string \<times> Node list \<times> string \<Rightarrow> Node list \<times> string \<times> Node list \<times> string \<Rightarrow> Token list \<Rightarrow> bool"
where
  no_nodes: "gNodes [] []"
| more_nodes: "gNode n ts \<Longrightarrow> gNodes ns us \<Longrightarrow> gNodes (n # ns) (ts @ us)"
| text_node: "tkKind t = TokenText \<Longrightarrow> gNode (Text (tokPos t) (tkValue t)) [t]"
| comment: "tkKind t = TokenComment \<Longrightarrow> gNode (Comment (tokPos t) (tkValue t)) [t]"
| mustache: "tkKind m = TokenMustacheOpen \<Longrightarrow> tkKind x = TokenText \<Longrightarrow> tkKind c = TokenMustacheClose \<Longrightarrow>
    gNode (Mustache (tokPos m) (trimSpace (tkValue x))) [m, x, c]"
| script: "tkKind t = TokenScriptOpen \<Longrightarrow> gBody TokenScriptBody body ts \<Longrightarrow> tkKind c = TokenScriptClose \<Longrightarrow>
    langOK (extractScriptModule (tkValue t)) (extractScriptLang (tkValue t)) \<Longrightarrow>
    gNode (Script (tokPos t) (extractScriptLang (tkValue t)) (extractScriptModule (tkValue t)) body) (t # ts @ [c])"
| style: "tkKind t = TokenStyleOpen \<Longrightarrow> gBody TokenStyleBody body ts \<Longrightarrow> tkKind c = TokenStyleClose \<Longrightarrow>
    gNode (Style (tokPos t) body) (t # ts @ [c])"
| at_tag: "tkKind t = TokenAtTag \<Longrightarrow> splitDirective (trimPrefix (tkValue t) ''@'') = (name, rest) \<Longrightarrow>
    (name, mk) \<in> set [(''html'', RawHTML), (''const'', Const), (''render'', Render)] \<Longrightarrow>
    gNode (mk (tokPos t) (trimSpace rest)) [t]"
| self_closed: "tkKind t = TokenTagOpen \<Longrightarrow> tkKind i = TokenIdentifier \<Longrightarrow> gAttrs as ts \<Longrightarrow> tkKind c = TokenTagSelfClose \<Longrightarrow>
    gNode (Element (tokPos t) (tkValue i) as [] True (isComponentName (tkValue i))) (t # i # ts @ [c])"
| void: "tkKind t = TokenTagOpen \<Longrightarrow> tkKind i = TokenIdentifier \<Longrightarrow> gAttrs as ts \<Longrightarrow> tkKind c = TokenTagClose \<Longrightarrow>
    isVoidElement (tkValue i) \<Longrightarrow>
    gNode (Element (tokPos t) (tkValue i) as [] False (isComponentName (tkValue i))) (t # i # ts @ [c])"
| element: "tkKind t = TokenTagOpen \<Longrightarrow> tkKind i = TokenIdentifier \<Longrightarrow> gAttrs as ts \<Longrightarrow> tkKind c = TokenTagClose \<Longrightarrow>
    \<not> isVoidElement (tkValue i) \<Longrightarrow> gNodes ns us \<Longrightarrow>
    tkKind e = TokenTagOpenClose \<Longrightarrow> tkKind j = TokenIdentifier \<Longrightarrow> tkValue j = tkValue i \<Longrightarrow> tkKind d = TokenTagClose \<Longrightarrow>
    gNode (Element (tokPos t) (tkValue i) as ns False (isComponentName (tkValue i))) (t # i # ts @ c # us @ [e, j, d])"
| if_block: "opensBlock ''if'' t \<Longrightarrow> blockArgs (tkValue t) ''#if'' \<noteq> [] \<Longrightarrow> gNodes ns us \<Longrightarrow> gIfMids es els vs \<Longrightarrow>
    closesBlock ''if'' c \<Longrightarrow> gNode (IfBlock (tokPos t) (blockArgs (tkValue t) ''#if'') ns es els) (t # us @ vs @ [c])"
| each_block: "opensBlock ''each'' t \<Longrightarrow> splitEach (blockArgs (tkValue t) ''#each'') = (iter, item, idx, key) \<Longrightarrow>
    iter \<noteq> [] \<Longrightarrow> item \<noteq> [] \<Longrightarrow> gNodes ns us \<Longrightarrow> closesBlock ''each'' c \<Longrightarrow>
    gNode (EachBlock (tokPos t) iter item idx key ns []) (t # us @ [c])"
| each_else: "opensBlock ''each'' t \<Longrightarrow> splitEach (blockArgs (tkValue t) ''#each'') = (iter, item, idx, key) \<Longrightarrow>
    iter \<noteq> [] \<Longrightarrow> item \<noteq> [] \<Longrightarrow> gNodes ns us \<Longrightarrow> midTag ''else'' m \<Longrightarrow> gNodes els vs \<Longrightarrow> closesBlock ''each'' c \<Longrightarrow>
    gNode (EachBlock (tokPos t) iter item idx key ns els) (t # us @ m # vs @ [c])"
| await_block: "opensBlock ''await'' t \<Longrightarrow> blockArgs (tkValue t) ''#await'' \<noteq> [] \<Longrightarrow> gNodes ns us \<Longrightarrow>
    gAwaitMids ([], [], [], []) (thn, thenVar, ctch, catchVar) vs \<Longrightarrow> closesBlock ''await'' c \<Longrightarrow>
    gNode (AwaitBlock (tokPos t) (blockArgs (tkValue t) ''#await'') ns thn thenVar ctch catchVar) (t # us @ vs @ [c])"
| key_block: "opensBlock ''key'' t \<Longrightarrow> blockArgs (tkValue t) ''#key'' \<noteq> [] \<Longrightarrow> gNodes ns us \<Longrightarrow> closesBlock ''key'' c \<Longrightarrow>
    gNode (KeyBlock (tokPos t) (blockArgs (tkValue t) ''#key'') ns) (t # us @ [c])"
| snippet_block: "opensBlock ''snippet'' t \<Longrightarrow> splitSnippet (blockArgs (tkValue t) ''#snippet'') = (name, params) \<Longrightarrow>
    name \<noteq> [] \<Longrightarrow> gNodes ns us \<Longrightarrow> closesBlock ''snippet'' c \<Longrightarrow>
    gNode (SnippetBlock (tokPos t) name params ns) (t # us @ [c])"
| if_done: "gIfMids [] [] []"
| if_elif: "midTag ''else'' m \<Longrightarrow> elseIfRest (snd (midParts m)) = Some rest \<Longrightarrow> trimSpace rest \<noteq> [] \<Longrightarrow> gNodes ns us \<Longrightarrow>
    gIfMids es els vs \<Longrightarrow> gIfMids (ElifBranch (tokPos m) (trimSpace rest) ns # es) els (m # us @ vs)"
| if_else: "midTag ''else'' m \<Longrightarrow> elseIfRest (snd (midParts m)) = None \<Longrightarrow> gNodes els us \<Longrightarrow> gIfMids [] els (m # us)"
| await_done: "gAwaitMids acc acc []"
| await_then: "midTag ''then'' m \<Longrightarrow> gNodes ns us \<Longrightarrow> gAwaitMids (ns, snd (midParts m), ctch, catchVar) res vs \<Longrightarrow>
    gAwaitMids (thn, thenVar, ctch, catchVar) res (m # us @ vs)"
| await_catch: "midTag ''catch'' m \<Longrightarrow> gNodes ns us \<Longrightarrow> gAwaitMids (thn, thenVar, ns, snd (midParts m)) res vs \<Longrightarrow>
    gAwaitMids (thn, thenVar, ctch, catchVar) res (m # us @ vs)"

section \<open>Cursors\<close>

text \<open>What a parser state stands on: the next token and the lexer behind it.\<close>

type_synonym cursor = "Token \<times> Lexer"

definition cur :: "parser \<Rightarrow> cursor" where
  "cur p = (case pr_buf p of [] \<Rightarrow> Next (pr_lex p) | t # _ \<Rightarrow> (t, pr_lex p))"

definition nxt :: "cursor \<Rightarrow> cursor" where
  "nxt c = Next (snd c)"

abbreviation kindAt :: "cursor \<Rightarrow> TokenKind" where
  "kindAt c \<equiv> tkKind (fst c)"

definition bufOK :: "parser \<Rightarrow> bool" where
  "bufOK p = (length (pr_buf p) \<le> 1)"

inductive eats :: "cursor \<Rightarrow> Token list \<Rightarrow> cursor \<Rightarrow> bool" where
  eats_none: "eats c [] c"
| eats_tok: "kindAt c \<noteq> TokenEOF \<Longrightarrow> eats (nxt c) ts c' \<Longrightarrow> eats c (fst c # ts) c'"

lemma eats_append: "eats c ts c' \<Longrightarrow> eats c' us c'' \<Longrightarrow> eats c (ts @ us) c''"
  by (induction rule: eats.induct) (auto intro: eats.intros)

lemma eats_Cons: "eats c (t # ts) c' \<longleftrightarrow> t = fst c \<and> tkKind t \<noteq> TokenEOF \<and> eats (nxt c) ts c'"
  by (auto elim: eats.cases intro: eats.intros)

lemma eats_Nil [simp]: "eats c [] c' \<longleftrightarrow> c' = c"
  by (auto elim: eats.cases intro: eats.intros)

lemma eats_split: "eats c (ts @ us) c'' \<longleftrightarrow> (\<exists>c'. eats c ts c' \<and> eats c' us c'')"
  by (induction ts arbitrary: c) (auto simp: eats_Cons)

text \<open>The lexer behind a cursor, and a bound on the tokens left.\<close>

definition lexOK :: "Lexer \<Rightarrow> bool" where
  "lexOK l = (posOK l \<and> modesOK l \<and> bangFree (lx_src l))"

definition curOK :: "cursor \<Rightarrow> bool" where
  "curOK c = lexOK (snd c)"

definition budget :: "cursor \<Rightarrow> nat" where
  "budget c = (if kindAt c = TokenEOF then 0 else Suc (weight (snd c)))"

lemma lexOK_Next: "lexOK l \<Longrightarrow> lexOK (snd (Next l))"
  using Next_src[of l] Next_modes[of l] by (simp add: lexOK_def)

lemma curOK_nxt: "curOK c \<Longrightarrow> curOK (nxt c)"
  by (simp add: curOK_def nxt_def lexOK_Next)

lemma budget_Next: "lexOK l \<Longrightarrow> budget (Next l) \<le> weight l"
  using Next_progress[of l] Next_eof_iff[of l] by (auto simp: budget_def lexOK_def bangFree_at Suc_le_eq)

lemma budget_nxt: "curOK c \<Longrightarrow> kindAt c \<noteq> TokenEOF \<Longrightarrow> budget (nxt c) < budget c"
  using budget_Next[of "snd c"] by (simp add: curOK_def nxt_def budget_def[of c] less_Suc_eq_le)

lemma peekTok_cur:
  "fst (peekTok p) = fst (cur p)" "cur (snd (peekTok p)) = cur p" "pr_errs (snd (peekTok p)) = pr_errs p"
  "bufOK p \<Longrightarrow> bufOK (snd (peekTok p))"
  by (auto simp: peekTok_def cur_def bufOK_def split: list.splits prod.splits)

lemma advanceTok_cur:
  assumes "bufOK p" "kindAt (cur p) \<noteq> TokenEOF"
  shows "fst (advanceTok p) = fst (cur p)" "cur (snd (advanceTok p)) = nxt (cur p)"
    "pr_errs (snd (advanceTok p)) = pr_errs p" "bufOK (snd (advanceTok p))"
  using assms
  by (auto simp: advanceTok_def peekTok_def cur_def nxt_def bufOK_def split: list.splits prod.splits)

section \<open>The triple\<close>

definition lands :: "bool \<Rightarrow> cursor \<Rightarrow> nat \<Rightarrow> ('a \<Rightarrow> Token list \<Rightarrow> bool) \<Rightarrow> ParseError list \<Rightarrow> ('a outcome \<times> parser) option \<Rightarrow> bool" where
  "lands s c b G errs res \<longleftrightarrow> (\<exists>r p' es. res = Some (r, p') \<and> bufOK p' \<and> curOK (cur p') \<and> budget (cur p') \<le> b \<and>
     pr_errs p' = errs @ es \<and> (s \<longrightarrow> es = [] \<longrightarrow> (\<exists>x ts. r = Ret x \<and> G x ts \<and> eats c ts (cur p'))))"

definition parses :: "bool \<Rightarrow> 'a parsing \<Rightarrow> cursor \<Rightarrow> nat \<Rightarrow> ('a \<Rightarrow> Token list \<Rightarrow> bool) \<Rightarrow> bool" where
  "parses s m c b G \<longleftrightarrow> (\<forall>p. cur p = c \<longrightarrow> bufOK p \<longrightarrow> lands s c b G (pr_errs p) (m p))"

lemma landsI:
  "res = Some (r, p') \<Longrightarrow> bufOK p' \<Longrightarrow> curOK (cur p') \<Longrightarrow> budget (cur p') \<le> b \<Longrightarrow> pr_errs p' = errs @ es \<Longrightarrow>
     (s \<and> es = [] \<longrightarrow> (\<exists>x ts. r = Ret x \<and> G x ts \<and> eats c ts (cur p'))) \<Longrightarrow> lands s c b G errs res"
  unfolding lands_def by blast

lemma landsE:
  assumes "lands s c b G errs res"
  obtains r p' es where "res = Some (r, p')" "bufOK p'" "curOK (cur p')" "budget (cur p') \<le> b" "pr_errs p' = errs @ es"
    "s \<and> es = [] \<longrightarrow> (\<exists>x ts. r = Ret x \<and> G x ts \<and> eats c ts (cur p'))"
  using assms unfolding lands_def by blast

lemma lands_weaken:
  "lands s c b G es r \<Longrightarrow> b \<le> b' \<Longrightarrow> (s' \<Longrightarrow> s) \<Longrightarrow> (\<And>x ts. s' \<Longrightarrow> G x ts \<Longrightarrow> G' x ts) \<Longrightarrow> lands s' c b' G' es r"
  unfolding lands_def by (metis le_trans)

lemma parses_weaken:
  "parses s m c b G \<Longrightarrow> b \<le> b' \<Longrightarrow> (s' \<Longrightarrow> s) \<Longrightarrow> (\<And>x ts. s' \<Longrightarrow> G x ts \<Longrightarrow> G' x ts) \<Longrightarrow> parses s' m c b' G'"
  unfolding parses_def by (metis lands_weaken)

lemma parses_ret: "curOK c \<Longrightarrow> budget c \<le> b \<Longrightarrow> (s \<Longrightarrow> G x []) \<Longrightarrow> parses s (retP x) c b G"
  by (auto simp: parses_def lands_def retP_def)

lemma parses_bail: "curOK c \<Longrightarrow> budget c \<le> b \<Longrightarrow> parses False bailP c b G"
  by (auto simp: parses_def lands_def bailP_def)

lemma parses_peek: "parses s (f (fst c)) c b G \<Longrightarrow> parses s (bindP peekP f) c b G"
  using peekTok_cur by (auto simp: parses_def bindP_def peekP_def split: prod.splits) (metis fst_conv snd_conv)

lemma lands_step:
  "lands s (nxt c) b (\<lambda>x ts. G x (fst c # ts)) es res \<Longrightarrow> kindAt c \<noteq> TokenEOF \<Longrightarrow> lands s c b G es res"
  unfolding lands_def by (metis eats_tok)

lemma parses_adv:
  assumes "kindAt c \<noteq> TokenEOF" "parses s (f (fst c)) (nxt c) b (\<lambda>x ts. G x (fst c # ts))"
  shows "parses s (bindP advP f) c b G"
  unfolding parses_def
proof (intro allI impI)
  fix p assume p: "cur p = c" "bufOK p"
  note q = advanceTok_cur[OF p(2), unfolded p(1), OF assms(1)]
  have "bindP advP f p = f (fst c) (snd (advanceTok p))"
    using q(1) by (auto simp: bindP_def advP_def split: prod.splits)
  moreover have "lands s (nxt c) b (\<lambda>x ts. G x (fst c # ts)) (pr_errs p) (f (fst c) (snd (advanceTok p)))"
    using assms(2) q unfolding parses_def by metis
  ultimately show "lands s c b G (pr_errs p) (bindP advP f p)" using lands_step assms(1) by metis
qed

lemma lands_error: "lands False c b G (es @ [e]) res \<Longrightarrow> lands s c b G es res"
  unfolding lands_def by fastforce

lemma parses_error:
  assumes "parses False (f ()) c b G"
  shows "parses s (bindP (errorAt tok msg) f) c b G" "parses s (bindP (errorWithHint tok msg hint) f) c b G"
proof -
  have "lands s c b G (pr_errs p) (f () (p\<lparr>pr_errs := pr_errs p @ [e]\<rparr>))" if "cur p = c" "bufOK p" for p e
  proof (rule lands_error)
    have "cur (p\<lparr>pr_errs := pr_errs p @ [e]\<rparr>) = c" "bufOK (p\<lparr>pr_errs := pr_errs p @ [e]\<rparr>)"
      using that by (auto simp: cur_def bufOK_def split: list.splits)
    with assms show "lands False c b G (pr_errs p @ [e]) (f () (p\<lparr>pr_errs := pr_errs p @ [e]\<rparr>))"
      unfolding parses_def by fastforce
  qed
  then show "parses s (bindP (errorAt tok msg) f) c b G" "parses s (bindP (errorWithHint tok msg hint) f) c b G"
    by (simp_all add: parses_def bindP_def errorAt_def errorWithHint_def)
qed

lemma parses_bind:
  assumes "parses s m c b1 G1"
    and "\<And>x c' s' ts. curOK c' \<Longrightarrow> budget c' \<le> b1 \<Longrightarrow> (s' \<Longrightarrow> s \<and> G1 x ts \<and> eats c ts c') \<Longrightarrow>
           parses s' (f x) c' b (\<lambda>y us. G y (ts @ us))" "b1 \<le> b"
  shows "parses s (bindP m f) c b G"
  unfolding parses_def
proof (intro allI impI)
  fix p assume p: "cur p = c" "bufOK p"
  with assms(1) have "lands s c b1 G1 (pr_errs p) (m p)" by (simp add: parses_def)
  then obtain r p' es where r: "m p = Some (r, p')" "bufOK p'" "curOK (cur p')" "budget (cur p') \<le> b1" "pr_errs p' = pr_errs p @ es"
      "s \<and> es = [] \<longrightarrow> (\<exists>x ts. r = Ret x \<and> G1 x ts \<and> eats c ts (cur p'))"
    by (rule landsE)
  show "lands s c b G (pr_errs p) (bindP m f p)"
  proof (cases r)
    case Bailout
    then have "bindP m f p = Some (Bailout, p')" using r(1) by (simp add: bindP_def)
    then show ?thesis using r(2-) assms(3) Bailout by (intro landsI[where es = es]) auto
  next
    case (Ret x)
    obtain ts where ts: "s \<and> es = [] \<longrightarrow> G1 x ts \<and> eats c ts (cur p')" using r(6) Ret by auto
    have "parses (s \<and> es = []) (f x) (cur p') b (\<lambda>y us. G y (ts @ us))"
      by (rule assms(2)[OF r(3,4)]) (use ts in simp)
    then have "lands (s \<and> es = []) (cur p') b (\<lambda>y us. G y (ts @ us)) (pr_errs p') (f x p')"
      using r(2) by (simp add: parses_def)
    then obtain r2 p2 es2 where r2: "f x p' = Some (r2, p2)" "bufOK p2" "curOK (cur p2)" "budget (cur p2) \<le> b"
        "pr_errs p2 = pr_errs p' @ es2" "(s \<and> es = []) \<and> es2 = [] \<longrightarrow> (\<exists>y us. r2 = Ret y \<and> G y (ts @ us) \<and> eats (cur p') us (cur p2))"
      by (rule landsE)
    show ?thesis
    proof (rule landsI)
      show "bindP m f p = Some (r2, p2)" using r(1) r2(1) Ret by (simp add: bindP_def)
      show "pr_errs p2 = pr_errs p @ (es @ es2)" using r(5) r2(5) by simp
      show "s \<and> es @ es2 = [] \<longrightarrow> (\<exists>y us. r2 = Ret y \<and> G y us \<and> eats c us (cur p2))"
        using r2(6) ts eats_append by fastforce
    qed (use r2 in simp_all)
  qed
qed

lemma parses_if: "(P \<Longrightarrow> parses s m c b G) \<Longrightarrow> (\<not> P \<Longrightarrow> parses s m' c b G) \<Longrightarrow> parses s (if P then m else m') c b G"
  by simp

lemma parses_expect:
  assumes "curOK c" "k \<noteq> TokenEOF"
  shows "parses s (expect k what) c (budget c) (\<lambda>t ts. ts = [t] \<and> tkKind t = k)"
proof -
  have adv: "parses s advP c (budget c) (\<lambda>t ts. ts = [t] \<and> tkKind t = k)" if "kindAt c = k"
  proof -
    have "parses s (bindP advP retP) c (budget c) (\<lambda>t ts. ts = [t] \<and> tkKind t = k)"
      using that assms budget_nxt[of c] by (intro parses_adv parses_ret) (auto simp: curOK_nxt)
    moreover have "bindP advP retP = advP" by (rule ext) (simp add: bindP_def advP_def retP_def split: prod.splits)
    ultimately show ?thesis by simp
  qed
  show ?thesis unfolding expect_def using assms
    by (intro parses_peek parses_if parses_error parses_bail adv) simp_all
qed

end
