(* ===== verification/ParserProps.thy ===== *)
theory ParserProps
  imports ParserGrammar
begin

text \<open>
  Correctness of the template parser: it always returns, and it reports no error exactly on the token
  lists of the grammar, with the tree of the derivation.
\<close>

section \<open>Productions without children\<close>

lemmas parses_steps = parses_peek parses_if parses_error parses_bail parses_ret

lemma budget_nxt_le: "curOK c \<Longrightarrow> kindAt c \<noteq> TokenEOF \<Longrightarrow> budget (nxt c) \<le> budget c - 1"
  using budget_nxt[of c] by simp

lemma parses_adv_ok:
  assumes "curOK c" "kindAt c \<noteq> TokenEOF"
    and "curOK (nxt c) \<Longrightarrow> budget (nxt c) \<le> budget c - 1 \<Longrightarrow> budget (nxt c) < budget c \<Longrightarrow>
      parses s (f (fst c)) (nxt c) b (\<lambda>x ts. G x (fst c # ts))"
  shows "parses s (bindP advP f) c b G"
  by (rule parses_adv) (use assms curOK_nxt budget_nxt_le budget_nxt in auto)

lemma parses_opt:
  "(x = None \<Longrightarrow> parses s m c b G) \<Longrightarrow> (\<And>y. x = Some y \<Longrightarrow> parses s (f y) c b G) \<Longrightarrow>
     parses s (case x of None \<Rightarrow> m | Some y \<Rightarrow> f y) c b G"
  by (cases x) auto

lemma parses_sync: "curOK c \<Longrightarrow> budget c < n \<Longrightarrow> parses False (sync n) c (budget c) G"
proof (induction n arbitrary: c G)
  case (Suc n c G)
  have "parses False (sync n) (nxt c) (budget c) G'" if "kindAt c \<notin> set syncKinds" for G'
    using that Suc.prems budget_nxt[of c] by (intro parses_weaken[OF Suc.IH]) (auto simp: syncKinds_def curOK_nxt)
  then show ?case
    using Suc.prems by (auto simp: syncKinds_def intro!: parses_peek parses_if parses_ret parses_adv_ok)
qed simp

lemma parses_skipUntilTagClose: "curOK c \<Longrightarrow> budget c < n \<Longrightarrow> parses False (skipUntilTagClose n) c (budget c) G"
proof (induction n arbitrary: c G)
  case (Suc n c G)
  have "parses False (skipUntilTagClose n) (nxt c) (budget c) G'" if "kindAt c \<noteq> TokenEOF" for G'
    using that Suc.prems budget_nxt[of c] by (intro parses_weaken[OF Suc.IH]) (auto simp: curOK_nxt)
  then show ?case
    using Suc.prems by (auto intro!: parses_peek parses_if parses_ret parses_adv_ok)
qed simp

lemma parses_mustacheBody:
  assumes "curOK c"
  shows "parses s (mustacheBody open mk) c (budget c)
    (\<lambda>x ts. \<exists>e d. ts = [e, d] \<and> tkKind e = TokenText \<and> tkKind d = TokenMustacheClose \<and> x = mk (tokPos open) (trimSpace (tkValue e)))"
  unfolding mustacheBody_def using assms
  by (intro parses_bind[OF parses_expect] parses_ret) auto

lemma parses_attributeValue:
  assumes "curOK c" "tkKind t = TokenAttrName" "tkKind e = TokenAttrEquals"
  shows "parses s attributeValue c (budget c) (\<lambda>v ts. gAttr (mkAttribute t (Some v)) (t # e # ts))"
  unfolding attributeValue_def using assms
  by (intro parses_steps parses_adv_ok parses_weaken[OF parses_mustacheBody]) (auto intro: gAttr.intros)

lemma parses_parseAttribute:
  assumes "curOK c" "kindAt c = TokenAttrName"
  shows "parses s parseAttribute c (budget c - 1) gAttr"
  unfolding parseAttribute_def using assms
  by (intro parses_steps parses_adv_ok parses_bind[OF parses_attributeValue]) (auto intro: gAttr.intros)

lemma parses_parseAttributes:
  "curOK c \<Longrightarrow> budget c < n \<Longrightarrow> parses s (parseAttributes n) c (budget c) gAttrs"
proof (induction n arbitrary: c s)
  case (Suc n c s)
  have "parses s (bindP parseAttribute (\<lambda>a. bindP (parseAttributes n) (\<lambda>as. retP (a # as)))) c (budget c) gAttrs"
    if "kindAt c = TokenAttrName"
  proof (rule parses_bind[OF parses_parseAttribute[OF Suc.prems(1) that]])
    fix a c' s' ts
    assume c': "curOK c'" "budget c' \<le> budget c - 1" "s' \<Longrightarrow> s \<and> gAttr a ts \<and> eats c ts c'"
    have "budget c > 0" using that by (simp add: budget_def)
    then have "budget c' < n" "budget c' \<le> budget c" using c'(2) Suc.prems(2) by simp_all
    then show "parses s' (bindP (parseAttributes n) (\<lambda>as. retP (a # as))) c' (budget c) (\<lambda>y us. gAttrs y (ts @ us))"
      using c' by (intro parses_bind[OF Suc.IH] parses_ret) (auto intro: gAttrs.intros)
  qed simp
  then show ?case using Suc.prems by (auto intro!: parses_peek parses_if parses_ret intro: gAttrs.intros)
qed simp

lemma parses_optionalBody:
  "curOK c \<Longrightarrow> k \<noteq> TokenEOF \<Longrightarrow> parses s (optionalBody k) c (budget c) (gBody k)"
  unfolding optionalBody_def
  by (intro parses_steps parses_adv_ok) (auto intro: gBody.intros)

lemma parses_langError:
  "curOK c \<Longrightarrow> parses s (langError t module lang) c (budget c) (\<lambda>_ ts. ts = [] \<and> langOK module lang)"
proof -
  assume c: "curOK c"
  have e: "errorWithHint t m h = bindP (errorWithHint t m h) retP" for m h
    by (rule ext) (simp add: bindP_def errorWithHint_def retP_def)
  show ?thesis unfolding langError_def using c
    by (subst (1 2) e, intro parses_steps) (auto simp: langOK_def)
qed

lemma parses_text:
  "curOK c \<Longrightarrow> kindAt c = TokenText \<Longrightarrow> parses s parseText c (budget c - 1) gNode"
  "curOK c \<Longrightarrow> kindAt c = TokenComment \<Longrightarrow> parses s parseComment c (budget c - 1) gNode"
  unfolding parseText_def parseComment_def
  by (intro parses_adv_ok parses_ret; auto intro: gNodes_gNode_gIfMids_gAwaitMids.intros)+

lemma parses_mustache:
  "curOK c \<Longrightarrow> kindAt c = TokenMustacheOpen \<Longrightarrow> parses s parseMustache c (budget c - 1) gNode"
  unfolding parseMustache_def
  by (intro parses_adv_ok parses_weaken[OF parses_mustacheBody]) (auto intro: gNodes_gNode_gIfMids_gAwaitMids.intros)

lemma parses_script:
  assumes "curOK c" "kindAt c = TokenScriptOpen"
  shows "parses s parseScript c (budget c - 1) gNode"
  unfolding parseScript_def Let_def using assms
  by (intro parses_adv_ok parses_bind[OF parses_optionalBody] parses_steps parses_bind[OF parses_langError])
    (auto intro: gNodes_gNode_gIfMids_gAwaitMids.script)

lemma parses_style:
  assumes "curOK c" "kindAt c = TokenStyleOpen"
  shows "parses s parseStyle c (budget c - 1) gNode"
  unfolding parseStyle_def using assms
  by (intro parses_adv_ok parses_bind[OF parses_optionalBody] parses_steps)
    (auto intro: gNodes_gNode_gIfMids_gAwaitMids.style)

lemma parses_errorAt: "curOK c \<Longrightarrow> budget c \<le> b \<Longrightarrow> parses s (errorAt t m) c b G"
proof -
  assume c: "curOK c" "budget c \<le> b"
  have e: "errorAt t m = bindP (errorAt t m) retP"
    by (rule ext) (simp add: bindP_def errorAt_def errorWithHint_def retP_def)
  show ?thesis using c by (subst e, intro parses_steps) simp_all
qed

lemma parses_unless:
  assumes "ok \<Longrightarrow> parses s (f ()) c b G" "\<not> ok \<Longrightarrow> parses False (f ()) c b G"
  shows "parses s (bindP (unlessErr ok t m) f) c b G"
proof (cases ok)
  case True
  then have "bindP (unlessErr ok t m) f = f ()" by (intro ext) (simp add: unlessErr_def bindP_def retP_def)
  then show ?thesis using assms(1) True by simp
next
  case False
  then show ?thesis using assms(2) by (simp add: unlessErr_def parses_error)
qed

lemma budget_pos: "kindAt c \<noteq> TokenEOF \<Longrightarrow> 0 < budget c"
  by (simp add: budget_def)

definition gOpt :: "Node option \<Rightarrow> Token list \<Rightarrow> bool" where
  "gOpt x ts \<longleftrightarrow> (\<exists>n. x = Some n \<and> gNode n ts)"

lemma parses_someP: "parses s m c b gNode \<Longrightarrow> parses s (someP m) c b gOpt"
  unfolding someP_def by (rule parses_bind) (auto intro!: parses_ret simp: gOpt_def)

lemma parses_atTag:
  assumes "curOK c" "kindAt c = TokenAtTag"
  shows "parses s parseAtTag c (budget c - 1) gOpt"
proof -
  obtain name rest where d: "splitDirective (trimPrefix (tkValue (fst c)) ''@'') = (name, rest)" by fastforce
  show ?thesis unfolding parseAtTag_def Let_def using assms
    by (intro parses_adv_ok)
      (auto simp: d gOpt_def intro!: parses_steps gNodes_gNode_gIfMids_gAwaitMids.at_tag[OF _ d])
qed

lemma parses_consumeClosingTag:
  assumes "curOK c" "budget c < n"
  shows "parses s (consumeClosingTag n name) c (budget c)
    (\<lambda>_ ts. \<exists>e j d. ts = [e, j, d] \<and> tkKind e = TokenTagOpenClose \<and> tkKind j = TokenIdentifier \<and> tkValue j = name \<and> tkKind d = TokenTagClose)"
proof -
  have u: "(if tkValue j \<noteq> name then errorAt j m else retP ()) = unlessErr (tkValue j = name) j m" for j m
    by (simp add: unlessErr_def)
  have skip: "parses False (skipUntilTagClose n) c' (budget c) G" if "curOK c'" "budget c' \<le> budget c" for c' G
    using that assms(2) by (intro parses_weaken[OF parses_skipUntilTagClose]) auto
  show ?thesis unfolding consumeClosingTag_def u using assms(1)
    by (intro parses_errorAt parses_steps parses_adv_ok parses_unless skip) auto
qed

lemma parses_expectBlockClose:
  assumes "curOK c"
  shows "parses s (expectBlockClose name) c (budget c) (\<lambda>_ ts. \<exists>d. ts = [d] \<and> closesBlock name d)"
  unfolding expectBlockClose_def using assms
  by (intro parses_steps parses_adv_ok) (auto simp: closesBlock_def)

lemma parses_badMid:
  assumes "curOK c" "kindAt c = TokenBlockMid"
  shows "parses s (badMid (fst c) block) c (budget c - 1) G"
  unfolding badMid_def using assms by (intro parses_steps parses_adv_ok) auto

lemma parses_recover:
  assumes "parses s m c b G" "\<And>c'. curOK c' \<Longrightarrow> budget c' \<le> b \<Longrightarrow> parses False h c' b G"
    and "\<And>p. m' p = (case m p of Some (Bailout, p') \<Rightarrow> h p' | res \<Rightarrow> res)"
  shows "parses s m' c b G"
  unfolding parses_def
proof (intro allI impI)
  fix p assume "cur p = c" "bufOK p"
  then have l: "lands s c b G (pr_errs p) (m p)" using assms(1) by (simp add: parses_def)
  then obtain r p' es where r: "m p = Some (r, p')" "bufOK p'" "curOK (cur p')" "budget (cur p') \<le> b" "pr_errs p' = pr_errs p @ es"
      "s \<and> es = [] \<longrightarrow> (\<exists>x ts. r = Ret x \<and> G x ts \<and> eats c ts (cur p'))"
    by (rule landsE)
  show "lands s c b G (pr_errs p) (m' p)"
  proof (cases r)
    case (Ret x)
    with l r(1) show ?thesis by (simp add: assms(3))
  next
    case Bailout
    then have "m' p = h p'" using r(1) by (simp add: assms(3))
    moreover have "lands False (cur p') b G (pr_errs p') (h p')" using assms(2) r(2-4) by (simp add: parses_def)
    ultimately show ?thesis using r(5,6) Bailout unfolding lands_def by fastforce
  qed
qed

section \<open>Productions with children\<close>

text \<open>What the productions rely on: the parser of children, run with enough fuel, returns, and without
  errors it has consumed a list of nodes of the grammar.\<close>

locale child_parser =
  fixes kids :: "stopFn \<Rightarrow> Node list parsing" and n :: nat
  assumes kids_parse: "curOK c \<Longrightarrow> budget c < n \<Longrightarrow> parses s (kids stop) c (budget c) gNodes"
begin

lemma fuel: "kindAt c \<noteq> TokenEOF \<Longrightarrow> budget c \<le> n \<Longrightarrow> budget c' \<le> budget c - 1 \<Longrightarrow> budget c' < n"
  using budget_pos[of c] by simp

lemma element:
  assumes "curOK c" "budget c \<le> n" "kindAt c = TokenTagOpen"
  shows "parses s (parseElement n kids) c (budget c - 1) gNode"
proof -
  have f: "budget c' < n" if "budget c' \<le> budget c - 1" for c' using fuel[OF _ assms(2) that] assms(3) by simp
  note k = kids_parse[OF _ f] parses_consumeClosingTag[OF _ f] parses_parseAttributes[OF _ f]
  have a: "curOK c' \<Longrightarrow> parses s (expect TokenIdentifier w) c' (budget c') (\<lambda>t ts. ts = [t] \<and> tkKind t = TokenIdentifier)" for c' s w
    by (rule parses_expect) simp_all
  show ?thesis unfolding parseElement_def Let_def using assms(1,3)
    by (intro parses_adv_ok parses_bind[OF a] parses_bind[OF k(3)] parses_steps parses_bind[OF k(1)] parses_bind[OF k(2)])
      (auto intro: gNodes_gNode_gIfMids_gAwaitMids.intros)
qed

lemma ifMids_parse:
  "curOK c \<Longrightarrow> budget c < k \<Longrightarrow> k \<le> n \<Longrightarrow> parses s (ifMids k kids) c (budget c) (\<lambda>(es, els) ts. gIfMids es els ts)"
proof (induction k arbitrary: c s)
  case (Suc k c s)
  have f: "budget c' < k" "budget c' < n" if "kindAt c \<noteq> TokenEOF" "budget c' \<le> budget c - 1" for c'
    using that budget_pos[of c] Suc.prems by simp_all
  have ih: "parses s (ifMids k kids) c' (budget c') (\<lambda>(es, els) ts. gIfMids es els ts)"
    if "curOK c'" "kindAt c \<noteq> TokenEOF" "budget c' \<le> budget c - 1" for c' s
    using that f Suc.prems by (intro Suc.IH) auto
  have bad: "parses s (bindP (badMid (fst c) ''if'') (\<lambda>_. ifMids k kids)) c (budget c) (\<lambda>(es, els) ts. gIfMids es els ts)"
    if "kindAt c = TokenBlockMid"
    using that Suc.prems(1) by (intro parses_bind[OF parses_badMid[where G = "\<lambda>_ _. False"]] parses_weaken[OF ih]) auto
  note k = kids_parse[OF _ f(2)]
  show ?case unfolding ifMids.simps Let_def using Suc.prems(1)
    by (intro parses_peek parses_if parses_opt parses_ret parses_adv_ok bad parses_unless parses_bind[OF k] parses_bind[OF ih])
      (auto simp: midTag_def intro!: parses_ret intro: gNodes_gNode_gIfMids_gAwaitMids.intros)
qed simp

lemma awaitMids_parse:
  "curOK c \<Longrightarrow> budget c < k \<Longrightarrow> k \<le> n \<Longrightarrow> parses s (awaitMids k kids acc) c (budget c) (gAwaitMids acc)"
proof (induction k arbitrary: c s acc)
  case (Suc k c s acc)
  have f: "budget c' < k" "budget c' < n" if "kindAt c \<noteq> TokenEOF" "budget c' \<le> budget c - 1" for c'
    using that budget_pos[of c] Suc.prems by simp_all
  have ih: "parses s (awaitMids k kids acc') c' (budget c) (gAwaitMids acc')"
    if "curOK c'" "kindAt c \<noteq> TokenEOF" "budget c' \<le> budget c - 1" for c' s acc'
    using that f Suc.prems by (intro parses_weaken[OF Suc.IH]) auto
  have bad: "parses s (bindP (badMid (fst c) ''await'') (\<lambda>_. awaitMids k kids acc)) c (budget c) (gAwaitMids acc)"
    if "kindAt c = TokenBlockMid"
    using that Suc.prems(1) by (intro parses_bind[OF parses_badMid[where G = "\<lambda>_ _. False"]] parses_weaken[OF ih]) auto
  note k = kids_parse[OF _ f(2)]
  obtain thn thenVar ctch catchVar where acc: "acc = (thn, thenVar, ctch, catchVar)" by (cases acc)
  show ?case unfolding awaitMids.simps acc prod.case using Suc.prems(1) bad[unfolded acc]
    by (intro parses_peek parses_if parses_ret parses_adv_ok parses_bind[OF k] parses_weaken[OF ih])
      (auto simp: midTag_def intro: gNodes_gNode_gIfMids_gAwaitMids.intros)
qed simp

lemma ifBlock:
  assumes "curOK c" "budget c \<le> n" "opensBlock ''if'' (fst c)"
  shows "parses s (parseIfBlock n kids) c (budget c - 1) gNode"
proof -
  have o: "kindAt c \<noteq> TokenEOF" using assms(3) by (simp add: opensBlock_def)
  note k = kids_parse[OF _ fuel[OF o assms(2)]] ifMids_parse[OF _ fuel[OF o assms(2)] order_refl]
  show ?thesis unfolding parseIfBlock_def Let_def using assms(1,3) o
    by (intro parses_adv_ok parses_unless parses_bind[OF k(1)] parses_bind[OF k(2)])
      (auto intro!: parses_bind[OF parses_expectBlockClose] parses_ret intro: gNodes_gNode_gIfMids_gAwaitMids.if_block)
qed

lemma awaitBlock:
  assumes "curOK c" "budget c \<le> n" "opensBlock ''await'' (fst c)"
  shows "parses s (parseAwaitBlock n kids) c (budget c - 1) gNode"
proof -
  have o: "kindAt c \<noteq> TokenEOF" using assms(3) by (simp add: opensBlock_def)
  note k = kids_parse[OF _ fuel[OF o assms(2)]] awaitMids_parse[OF _ fuel[OF o assms(2)] order_refl]
  show ?thesis unfolding parseAwaitBlock_def Let_def using assms(1,3) o
    by (intro parses_adv_ok parses_unless parses_bind[OF k(1)] parses_bind[OF k(2)])
      (auto intro!: parses_bind[OF parses_expectBlockClose] parses_ret intro: gNodes_gNode_gIfMids_gAwaitMids.await_block)
qed

lemma eachElse_parse:
  assumes "curOK c" "budget c < n"
  shows "parses s (eachElse kids) c (budget c) (\<lambda>els ts. els = [] \<and> ts = [] \<or> (\<exists>m us. ts = m # us \<and> midTag ''else'' m \<and> gNodes els us))"
proof -
  have k: "parses s (kids stop) (nxt c) (budget c) gNodes" if "kindAt c \<noteq> TokenEOF" for stop s
    using that assms budget_nxt[of c] by (intro parses_weaken[OF kids_parse]) (auto simp: curOK_nxt)
  show ?thesis unfolding eachElse_def using assms(1)
    by (intro parses_peek parses_if parses_ret parses_adv_ok parses_weaken[OF k] parses_bind[OF parses_badMid[where G = "\<lambda>_ _. False"]])
      (auto simp: midTag_def)
qed

lemma eachBlock:
  assumes "curOK c" "budget c \<le> n" "opensBlock ''each'' (fst c)"
  shows "parses s (parseEachBlock kids) c (budget c - 1) gNode"
proof -
  have o: "kindAt c \<noteq> TokenEOF" using assms(3) by (simp add: opensBlock_def)
  note k = kids_parse[OF _ fuel[OF o assms(2)]] eachElse_parse[OF _ fuel[OF o assms(2)]]
  obtain iter item idx key where e: "splitEach (blockArgs (tkValue (fst c)) ''#each'') = (iter, item, idx, key)"
    by (metis prod_cases4)
  show ?thesis unfolding parseEachBlock_def using assms(1,3) o
    by (intro parses_adv_ok; simp only: e prod.case; intro parses_unless parses_bind[OF k(1)] parses_bind[OF k(2)])
      (auto intro!: parses_bind[OF parses_expectBlockClose] parses_ret gNodes_gNode_gIfMids_gAwaitMids.each_block[OF assms(3) e]
        gNodes_gNode_gIfMids_gAwaitMids.each_else[OF assms(3) e])
qed

lemma keyBlock:
  assumes "curOK c" "budget c \<le> n" "opensBlock ''key'' (fst c)"
  shows "parses s (parseKeyBlock kids) c (budget c - 1) gNode"
proof -
  have o: "kindAt c \<noteq> TokenEOF" using assms(3) by (simp add: opensBlock_def)
  note k = kids_parse[OF _ fuel[OF o assms(2)]]
  show ?thesis unfolding parseKeyBlock_def Let_def using assms(1,3) o
    by (intro parses_adv_ok parses_unless parses_bind[OF k])
      (auto intro!: parses_bind[OF parses_expectBlockClose] parses_ret intro: gNodes_gNode_gIfMids_gAwaitMids.key_block)
qed

lemma snippetBlock:
  assumes "curOK c" "budget c \<le> n" "opensBlock ''snippet'' (fst c)"
  shows "parses s (parseSnippetBlock kids) c (budget c - 1) gNode"
proof -
  have o: "kindAt c \<noteq> TokenEOF" using assms(3) by (simp add: opensBlock_def)
  note k = kids_parse[OF _ fuel[OF o assms(2)]]
  obtain name params where e: "splitSnippet (blockArgs (tkValue (fst c)) ''#snippet'') = (name, params)" by fastforce
  show ?thesis unfolding parseSnippetBlock_def using assms(1,3) o
    by (intro parses_adv_ok; simp only: e prod.case; intro parses_unless parses_bind[OF k])
      (auto intro!: parses_bind[OF parses_expectBlockClose] parses_ret intro: gNodes_gNode_gIfMids_gAwaitMids.snippet_block[OF _ e])
qed

lemma block:
  assumes "curOK c" "budget c \<le> n" "kindAt c = TokenBlockOpen"
  shows "parses s (parseBlock n kids) c (budget c - 1) gOpt"
  unfolding parseBlock_def Let_def using assms
  by (intro parses_steps parses_someP ifBlock eachBlock awaitBlock keyBlock snippetBlock parses_adv_ok)
    (auto simp: opensBlock_def)

lemma child:
  assumes "curOK c" "budget c \<le> n" "kindAt c \<noteq> TokenEOF" "\<not> stop (fst c)"
  shows "parses s (parseChild n kids stop) c (budget c - 1) gOpt"
proof -
  have f: "budget c' < n" if "budget c' \<le> budget c - 1" for c' using fuel[OF assms(3,2) that] .
  have skips: "parses s (bindP (errorAt (fst c) m) (\<lambda>_. bindP advP (\<lambda>_. bindP (sync n) (\<lambda>_. retP None)))) c (budget c - 1) gOpt"
    "parses s (bindP (errorAt (fst c) m) (\<lambda>_. bindP advP (\<lambda>_. bindP (skipUntilTagClose n) (\<lambda>_. retP None)))) c (budget c - 1) gOpt" for m
    using assms(1,3) f
    by (intro parses_error parses_adv_ok parses_bind[OF parses_sync] parses_bind[OF parses_skipUntilTagClose]; auto intro!: parses_ret)+
  have un: "parses s (unexpected (fst c)) c (budget c - 1) gOpt"
    unfolding unexpected_def using assms(1,3) by (intro parses_steps parses_adv_ok) auto
  show ?thesis unfolding parseChild_def dispatch_def
    by (rule parses_peek, cases "kindAt c") (use assms un skips in
      \<open>simp_all del: One_nat_def add: parses_someP parses_text parses_mustache parses_script parses_style parses_atTag element block\<close>)
qed

lemma childSafe:
  assumes "curOK c" "budget c \<le> n" "kindAt c \<noteq> TokenEOF" "\<not> stop (fst c)"
  shows "parses s (parseChildSafe n kids stop) c (budget c - 1) gOpt"
proof (rule parses_recover[OF child[where stop = stop, OF assms], where h = "bindP (sync n) (\<lambda>_. retP None)"])
  fix c' assume c': "curOK c'" "budget c' \<le> budget c - 1"
  then show "parses False (bindP (sync n) (\<lambda>_. retP None)) c' (budget c - 1) gOpt"
    using fuel[OF assms(3,2)] by (intro parses_bind[OF parses_sync]) (auto intro!: parses_ret)
qed (simp add: parseChildSafe_def)

end

section \<open>The parser of children\<close>

lemma parseChildren_laws: "child_parser (parseChildren n) n"
proof (induction n)
  case 0
  show ?case by unfold_locales simp
next
  case (Suc n)
  show ?case
  proof
    fix c :: cursor and s :: bool and stop :: stopFn
    assume c: "curOK c" "budget c < Suc n"
    show "parses s (parseChildren (Suc n) stop) c (budget c) gNodes"
      unfolding parseChildren.simps
    proof (intro parses_peek parses_if)
      show "parses s (retP []) c (budget c) gNodes"
        using c by (intro parses_ret) (auto intro: gNodes_gNode_gIfMids_gAwaitMids.no_nodes)
      assume k: "\<not> (kindAt c = TokenEOF \<or> stop (fst c))"
      have f: "budget c' < n" if "budget c' \<le> budget c - 1" for c' using that k c(2) budget_pos[of c] by simp
      have ch: "parses s (parseChildSafe n (parseChildren n) stop) c (budget c - 1) gOpt"
        using c k by (intro child_parser.childSafe[OF Suc]) auto
      show "parses s (bindP (parseChildSafe n (parseChildren n) stop) (\<lambda>node. bindP (parseChildren n stop) (\<lambda>rest.
          retP (case node of None \<Rightarrow> rest | Some nd \<Rightarrow> nd # rest)))) c (budget c) gNodes"
        by (intro parses_bind[OF ch] parses_bind[OF child_parser.kids_parse[OF Suc _ f]])
          (auto simp: gOpt_def intro!: parses_ret gNodes_gNode_gIfMids_gAwaitMids.more_nodes)
    qed
  qed
qed

interpretation pc: child_parser "parseChildren n" n for n
  by (rule parseChildren_laws)

end
