(* ===== verification/ParserComplete.thy ===== *)
theory ParserComplete
  imports ParserProps
begin

text \<open>
  Completeness of the template parser: a derivable token list is parsed without errors to its tree.
\<close>

section \<open>Error-free runs\<close>

definition accepts :: "'a parsing \<Rightarrow> cursor \<Rightarrow> 'a \<Rightarrow> cursor \<Rightarrow> bool" where
  "accepts m c x c' \<longleftrightarrow> (\<forall>p. cur p = c \<longrightarrow> bufOK p \<longrightarrow>
     (\<exists>p'. m p = Some (Ret x, p') \<and> bufOK p' \<and> cur p' = c' \<and> pr_errs p' = pr_errs p))"

lemma acc_ret: "accepts (retP x) c x c"
  by (auto simp: accepts_def retP_def)

lemma acc_bind: "accepts m c x c1 \<Longrightarrow> accepts (f x) c1 y c2 \<Longrightarrow> accepts (bindP m f) c y c2"
  by (fastforce simp: accepts_def bindP_def)

lemma acc_peek0: "accepts peekP c (fst c) c"
  using peekTok_cur by (auto simp: accepts_def peekP_def split: prod.splits) (metis fst_conv snd_conv)+

lemma acc_adv0: "kindAt c \<noteq> TokenEOF \<Longrightarrow> accepts advP c (fst c) (nxt c)"
  using advanceTok_cur by (auto simp: accepts_def advP_def split: prod.splits) (metis fst_conv snd_conv)+

lemmas acc_peek = acc_bind[OF acc_peek0] and acc_adv = acc_bind[OF acc_adv0]

lemma acc_expect: "kindAt c = k \<Longrightarrow> k \<noteq> TokenEOF \<Longrightarrow> accepts (expect k w) c (fst c) (nxt c)"
  unfolding expect_def by (intro acc_peek) (simp add: acc_adv0)

lemma acc_unless: "ok \<Longrightarrow> accepts (f ()) c x c' \<Longrightarrow> accepts (bindP (unlessErr ok t m) f) c x c'"
  by (rule acc_bind[of _ _ "()"]) (simp_all add: unlessErr_def acc_ret)

lemma acc_someP: "accepts m c x c' \<Longrightarrow> accepts (someP m) c (Some x) c'"
  unfolding someP_def by (rule acc_bind) (assumption, rule acc_ret)

section \<open>Productions\<close>

lemma acc_mustacheBody:
  assumes "eats c [x, d] c'" "tkKind x = TokenText" "tkKind d = TokenMustacheClose"
  shows "accepts (mustacheBody open mk) c (mk (tokPos open) (trimSpace (tkValue x))) c'"
  unfolding mustacheBody_def using assms
  by (auto simp: eats_Cons intro!: acc_bind[OF acc_expect] acc_ret)

lemma acc_attribute:
  assumes "gAttr a ts" "eats c ts c'" "kindAt c' \<noteq> TokenAttrEquals"
  shows "accepts parseAttribute c a c'"
  using assms
proof cases
  case (bare t)
  with assms show ?thesis unfolding parseAttribute_def
    by (auto simp: eats_Cons intro!: acc_adv acc_peek acc_ret)
next
  case (static t e v)
  then have v: "accepts attributeValue (nxt (nxt c)) (StaticValue (tokPos v) (tkValue v)) c'"
    using assms(2) unfolding attributeValue_def by (auto simp: eats_Cons intro!: acc_peek acc_adv acc_ret)
  from static assms show ?thesis unfolding parseAttribute_def
    by (auto simp: eats_Cons intro!: acc_adv acc_peek acc_bind[OF v] acc_ret)
next
  case (dynamic t e m x d)
  then have "eats (nxt (nxt (nxt c))) [x, d] c'" "m = fst (nxt (nxt c))" using assms(2) by (auto simp: eats_Cons)
  then have v: "accepts attributeValue (nxt (nxt c)) (DynamicValue (tokPos m) (trimSpace (tkValue x))) c'"
    using dynamic unfolding attributeValue_def by (auto intro!: acc_peek acc_adv acc_mustacheBody)
  from dynamic assms show ?thesis unfolding parseAttribute_def
    by (auto simp: eats_Cons intro!: acc_adv acc_peek acc_bind[OF v] acc_ret)
qed

lemma gAttr_head: "gAttr a ts \<Longrightarrow> \<exists>t us. ts = t # us \<and> tkKind t = TokenAttrName"
  by (auto elim: gAttr.cases)

lemma acc_attributes:
  "gAttrs as ts \<Longrightarrow> eats c ts c' \<Longrightarrow> length ts < n \<Longrightarrow> kindAt c' \<noteq> TokenAttrEquals \<Longrightarrow> kindAt c' \<noteq> TokenAttrName \<Longrightarrow>
     accepts (parseAttributes n) c as c'"
proof (induction arbitrary: c n rule: gAttrs.induct)
  case no_attrs
  then show ?case by (cases n) (auto intro!: acc_peek acc_ret)
next
  case (more_attrs a ts as us)
  obtain t ts' where t: "ts = t # ts'" "tkKind t = TokenAttrName" using gAttr_head[OF more_attrs.hyps(1)] by blast
  obtain m where m: "n = Suc m" using more_attrs.prems(2) by (cases n) auto
  obtain c1 where c1: "eats c ts c1" "eats c1 us c'" using more_attrs.prems(1) by (auto simp: eats_split)
  have "kindAt c1 \<noteq> TokenAttrEquals"
    using more_attrs.hyps(2) c1(2) more_attrs.prems(3) by (cases rule: gAttrs.cases) (auto simp: eats_Cons dest!: gAttr_head)
  then have a: "accepts parseAttribute c a c1" using acc_attribute[OF more_attrs.hyps(1) c1(1)] by simp
  have r: "accepts (parseAttributes m) c1 as c'" using more_attrs.IH[OF c1(2)] more_attrs.prems m t by simp
  have "kindAt c = TokenAttrName" using c1(1) t by (auto simp: eats_Cons)
  then show ?case using m by (auto intro!: acc_peek acc_bind[OF a] acc_bind[OF r] acc_ret)
qed

lemma acc_optionalBody:
  "gBody k body ts \<Longrightarrow> eats c ts c' \<Longrightarrow> kindAt c' \<noteq> k \<Longrightarrow> accepts (optionalBody k) c body c'"
  unfolding optionalBody_def
  by (erule gBody.cases) (auto simp: eats_Cons intro!: acc_peek acc_adv acc_ret)

lemma acc_closingTag:
  assumes "eats c [e, j, d] c'" "tkKind e = TokenTagOpenClose" "tkKind j = TokenIdentifier" "tkValue j = name" "tkKind d = TokenTagClose"
  shows "accepts (consumeClosingTag n name) c () c'"
  unfolding consumeClosingTag_def using assms
  by (auto simp: eats_Cons intro!: acc_peek acc_adv acc_ret acc_bind[OF acc_ret])

lemma acc_blockClose: "eats c [d] c' \<Longrightarrow> closesBlock name d \<Longrightarrow> accepts (expectBlockClose name) c () c'"
  unfolding expectBlockClose_def by (auto simp: eats_Cons closesBlock_def intro!: acc_peek acc_adv acc_ret)


section \<open>Derivations\<close>

text \<open>Stop functions only stop at tokens that no node starts with.\<close>

definition stopOK :: "stopFn \<Rightarrow> bool" where
  "stopOK stop \<longleftrightarrow> (\<forall>t. stop t \<longrightarrow> tkKind t \<in> {TokenEOF, TokenBlockMid, TokenBlockClose, TokenTagOpenClose})"

lemma stopOK_all [simp]: "stopOK stopEOF" "stopOK (blockBoundary name)" "stopOK (elementStop name)"
  by (auto simp: stopOK_def stopEOF_def blockBoundary_def elementStop_def split: TokenKind.splits)

lemma gNode_head:
  "gNode n ts \<Longrightarrow> \<exists>t us. ts = t # us \<and> tkKind t \<notin> {TokenEOF, TokenBlockMid, TokenBlockClose, TokenTagOpenClose}"
  by (erule gNode.cases) (auto simp: opensBlock_def)

lemma mids_head:
  "gIfMids es els ts \<Longrightarrow> ts = [] \<or> tkKind (hd ts) = TokenBlockMid"
  "gAwaitMids acc res ts \<Longrightarrow> ts = [] \<or> tkKind (hd ts) = TokenBlockMid"
  by (erule gIfMids.cases gAwaitMids.cases; auto simp: midTag_def)+

text \<open>The token after the body of a block: a middle tag or the closing tag.\<close>

lemma boundary_stop:
  assumes "eats c ts c'" "ts = [] \<or> tkKind (hd ts) = TokenBlockMid" "closesBlock name (fst c')"
  shows "blockBoundary name (fst c)"
  using assms by (cases ts) (auto simp: blockBoundary_def closesBlock_def eats_Cons)

lemma acc_child:
  assumes "stopOK stop" "kindAt c \<notin> {TokenEOF, TokenBlockMid, TokenBlockClose, TokenTagOpenClose}"
    and "accepts (dispatch n kids (fst c)) c x c'"
  shows "accepts (parseChild n kids stop) c x c'"
proof -
  have "\<not> stop (fst c)" using assms(1,2) by (auto simp: stopOK_def)
  then show ?thesis unfolding parseChild_def using assms(3) by (intro acc_peek) simp
qed

lemma acc_block:
  assumes "stopOK stop" "opensBlock name (fst c)"
    and "(name, m) \<in> set [(''if'', parseIfBlock n kids), (''each'', parseEachBlock kids), (''await'', parseAwaitBlock n kids),
      (''key'', parseKeyBlock kids), (''snippet'', parseSnippetBlock kids)]"
    and "accepts m c nd c'"
  shows "accepts (parseChild n kids stop) c (Some nd) c'"
proof (rule acc_child[OF assms(1)])
  have "accepts (someP m) c (Some nd) c'" by (rule acc_someP[OF assms(4)])
  then show "accepts (dispatch n kids (fst c)) c (Some nd) c'"
    using assms(2,3) by (auto simp: dispatch_def opensBlock_def parseBlock_def Let_def intro!: acc_peek)
qed (use assms(2) in \<open>simp add: opensBlock_def\<close>)

lemma acc_element:
  assumes "stopOK stop" "eats c (t # i # ts) c1" "tkKind t = TokenTagOpen" "tkKind i = TokenIdentifier" "gAttrs as ts"
    and "length ts < n" "kindAt c1 \<in> {TokenTagSelfClose, TokenTagClose}"
    and "accepts (if kindAt c1 = TokenTagSelfClose then retP (Element (tokPos t) (tkValue i) as [] True (isComponentName (tkValue i)))
         else if isVoidElement (tkValue i) then retP (Element (tokPos t) (tkValue i) as [] False (isComponentName (tkValue i)))
         else bindP (kids (elementStop (tkValue i))) (\<lambda>children. bindP (consumeClosingTag n (tkValue i)) (\<lambda>_.
           retP (Element (tokPos t) (tkValue i) as children False (isComponentName (tkValue i)))))) (nxt c1) nd c'"
  shows "accepts (parseChild n kids stop) c (Some nd) c'"
proof (rule acc_child[OF assms(1)])
  have e: "t = fst c" "i = fst (nxt c)" "eats (nxt (nxt c)) ts c1" using assms(2) by (auto simp: eats_Cons)
  have a: "accepts (parseAttributes n) (nxt (nxt c)) as c1" using assms by (intro acc_attributes[OF assms(5) e(3)]) auto
  have "accepts (parseElement n kids) c nd c'"
    unfolding parseElement_def Let_def using assms(3,4,7,8) e
    by (auto intro!: acc_adv acc_bind[OF acc_expect] acc_bind[OF a] acc_peek split: if_splits)
  then show "accepts (dispatch n kids (fst c)) c (Some nd) c'"
    using assms(3) e(1) by (auto simp: dispatch_def intro: acc_someP)
qed (use assms(2,3) in \<open>auto simp: eats_Cons\<close>)

lemma acc_leaf:
  "stopOK stop \<Longrightarrow> eats c [t] c' \<Longrightarrow> tkKind t = TokenText \<Longrightarrow> accepts (parseChild n kids stop) c (Some (Text (tokPos t) (tkValue t))) c'"
  "stopOK stop \<Longrightarrow> eats c [t] c' \<Longrightarrow> tkKind t = TokenComment \<Longrightarrow> accepts (parseChild n kids stop) c (Some (Comment (tokPos t) (tkValue t))) c'"
  "stopOK stop \<Longrightarrow> eats c [t, x, d] c' \<Longrightarrow> tkKind t = TokenMustacheOpen \<Longrightarrow> tkKind x = TokenText \<Longrightarrow> tkKind d = TokenMustacheClose \<Longrightarrow>
     accepts (parseChild n kids stop) c (Some (Mustache (tokPos t) (trimSpace (tkValue x)))) c'"
  "stopOK stop \<Longrightarrow> eats c [t] c' \<Longrightarrow> tkKind t = TokenAtTag \<Longrightarrow> splitDirective (trimPrefix (tkValue t) ''@'') = (''html'', rest) \<Longrightarrow>
     accepts (parseChild n kids stop) c (Some (RawHTML (tokPos t) (trimSpace rest))) c'"
  "stopOK stop \<Longrightarrow> eats c [t] c' \<Longrightarrow> tkKind t = TokenAtTag \<Longrightarrow> splitDirective (trimPrefix (tkValue t) ''@'') = (''const'', rest) \<Longrightarrow>
     accepts (parseChild n kids stop) c (Some (Const (tokPos t) (trimSpace rest))) c'"
  "stopOK stop \<Longrightarrow> eats c [t] c' \<Longrightarrow> tkKind t = TokenAtTag \<Longrightarrow> splitDirective (trimPrefix (tkValue t) ''@'') = (''render'', rest) \<Longrightarrow>
     accepts (parseChild n kids stop) c (Some (Render (tokPos t) (trimSpace rest))) c'"
  by (rule acc_child; auto simp: dispatch_def parseText_def parseComment_def parseMustache_def parseAtTag_def eats_Cons Let_def
      intro!: acc_someP acc_adv acc_mustacheBody acc_ret)+

lemma acc_script:
  assumes "stopOK stop" "eats c (t # ts @ [d]) c'" "tkKind t = TokenScriptOpen" "gBody TokenScriptBody body ts" "tkKind d = TokenScriptClose"
    "langOK (extractScriptModule (tkValue t)) (extractScriptLang (tkValue t))"
  shows "accepts (parseChild n kids stop) c
    (Some (Script (tokPos t) (extractScriptLang (tkValue t)) (extractScriptModule (tkValue t)) body)) c'"
proof -
  from assms(2) obtain c1 where c1: "t = fst c" "eats (nxt c) ts c1" "d = fst c1" "nxt c1 = c'" by (auto simp: eats_Cons eats_split)
  have b: "accepts (optionalBody TokenScriptBody) (nxt c) body c1" using assms c1 by (intro acc_optionalBody[OF _ c1(2)]) auto
  have l: "langError t (extractScriptModule (tkValue t)) (extractScriptLang (tkValue t)) = retP ()"
    using assms(6) by (auto simp: langError_def langOK_def)
  show ?thesis using assms c1 l
    by (intro acc_child) (auto simp: dispatch_def parseScript_def Let_def intro!: acc_someP acc_adv acc_bind[OF b] acc_peek acc_bind[OF acc_ret] acc_ret)
qed

lemma acc_style:
  assumes "stopOK stop" "eats c (t # ts @ [d]) c'" "tkKind t = TokenStyleOpen" "gBody TokenStyleBody body ts" "tkKind d = TokenStyleClose"
  shows "accepts (parseChild n kids stop) c (Some (Style (tokPos t) body)) c'"
proof -
  from assms(2) obtain c1 where c1: "t = fst c" "eats (nxt c) ts c1" "d = fst c1" "nxt c1 = c'" by (auto simp: eats_Cons eats_split)
  have b: "accepts (optionalBody TokenStyleBody) (nxt c) body c1" using assms c1 by (intro acc_optionalBody[OF _ c1(2)]) auto
  show ?thesis using assms c1
    by (intro acc_child) (auto simp: dispatch_def parseStyle_def intro!: acc_someP acc_adv acc_bind[OF b] acc_peek acc_ret)
qed

section \<open>Productions with children\<close>

text \<open>What the productions rely on: the parser of children accepts every derivable list that is shorter
  than its fuel and is followed by a token it stops at.\<close>

locale child_acceptor =
  fixes kids :: "stopFn \<Rightarrow> Node list parsing" and n :: nat
  assumes kids_accept: "gNodes ns ts \<Longrightarrow> eats c ts c' \<Longrightarrow> length ts < n \<Longrightarrow> stopOK stop \<Longrightarrow>
    kindAt c' = TokenEOF \<or> stop (fst c') \<Longrightarrow> accepts (kids stop) c ns c'"
begin

lemma body:
  assumes "gNodes ns us" "eats c us c1" "length us < n" "eats c1 vs c2" "vs = [] \<or> tkKind (hd vs) = TokenBlockMid"
    and "closesBlock name (fst c2)"
  shows "accepts (kids (blockBoundary name)) c ns c1"
  using kids_accept[OF assms(1-3)] boundary_stop[OF assms(4-6)] by simp

lemma last_body:
  "gNodes ns us \<Longrightarrow> eats c us c1 \<Longrightarrow> length us < n \<Longrightarrow> closesBlock name (fst c1) \<Longrightarrow> accepts (kids (blockBoundary name)) c ns c1"
  using body[OF _ _ _ eats_none] by simp

lemma ifMids_accept:
  "gIfMids es els ts \<Longrightarrow> eats c ts c' \<Longrightarrow> length ts < k \<Longrightarrow> length ts < n \<Longrightarrow> closesBlock ''if'' (fst c') \<Longrightarrow>
     accepts (ifMids k kids) c (es, els) c'"
proof (induction k arbitrary: es ts c)
  case (Suc k es ts c)
  from Suc.prems(1) show ?case
  proof cases
    case if_done
    then show ?thesis using Suc.prems by (auto simp: closesBlock_def intro!: acc_peek acc_ret)
  next
    case (if_elif m rest ns us es' vs)
    with Suc.prems(2) obtain c1 where c1: "m = fst c" "eats (nxt c) us c1" "eats c1 vs c'" by (auto simp: eats_Cons eats_split)
    have b: "accepts (kids (blockBoundary ''if'')) (nxt c) ns c1"
      using if_elif Suc.prems by (intro body[OF _ c1(2) _ c1(3) mids_head(1)]) auto
    have r: "accepts (ifMids k kids) c1 (es', els) c'" using if_elif Suc.prems by (intro Suc.IH[OF _ c1(3)]) auto
    show ?thesis using if_elif c1(1)
      by (auto simp: midTag_def Let_def intro!: acc_peek acc_adv acc_unless acc_bind[OF b] acc_bind[OF r] acc_ret)
  next
    case (if_else m us)
    with Suc.prems(2) have c1: "m = fst c" "eats (nxt c) us c'" by (auto simp: eats_Cons)
    have b: "accepts (kids (blockBoundary ''if'')) (nxt c) els c'" using if_else Suc.prems by (intro last_body[OF _ c1(2)]) auto
    show ?thesis using if_else c1(1) by (auto simp: midTag_def intro!: acc_peek acc_adv acc_bind[OF b] acc_ret)
  qed
qed simp

lemma awaitMids_accept:
  "gAwaitMids acc res ts \<Longrightarrow> eats c ts c' \<Longrightarrow> length ts < k \<Longrightarrow> length ts < n \<Longrightarrow> closesBlock ''await'' (fst c') \<Longrightarrow>
     accepts (awaitMids k kids acc) c res c'"
proof (induction k arbitrary: acc ts c)
  case (Suc k acc ts c)
  have branch: "\<exists>c1. accepts (kids (blockBoundary ''await'')) (nxt c) ns c1 \<and> accepts (awaitMids k kids acc') c1 res c'"
    if "ts = m # us @ vs" "gNodes ns us" "gAwaitMids acc' res vs" for m us vs ns acc'
  proof -
    note h = that
    obtain c1 where c1: "eats (nxt c) us c1" "eats c1 vs c'" using h(1) Suc.prems(2) by (auto simp: eats_Cons eats_split)
    show ?thesis using h Suc.prems by (intro exI[of _ c1] conjI body[OF h(2) c1(1) _ c1(2) mids_head(2)] Suc.IH[OF _ c1(2)]) auto
  qed
  have hd: "hd ts = fst c" if "ts \<noteq> []" using that Suc.prems(2) by (cases ts) (auto simp: eats_Cons)
  from Suc.prems(1) show ?case
  proof cases
    case await_done
    then show ?thesis using Suc.prems by (cases acc) (auto simp: closesBlock_def intro!: acc_peek acc_ret)
  next
    case (await_then m ns us ctch catchVar vs thn thenVar)
    then obtain c1 where "accepts (kids (blockBoundary ''await'')) (nxt c) ns c1"
        "accepts (awaitMids k kids (ns, snd (midParts m), ctch, catchVar)) c1 res c'" using branch by blast
    with await_then hd show ?thesis by (auto simp: midTag_def intro!: acc_peek acc_adv intro: acc_bind)
  next
    case (await_catch m ns us thn thenVar vs ctch catchVar)
    then obtain c1 where "accepts (kids (blockBoundary ''await'')) (nxt c) ns c1"
        "accepts (awaitMids k kids (thn, thenVar, ns, snd (midParts m))) c1 res c'" using branch by blast
    with await_catch hd show ?thesis by (auto simp: midTag_def intro!: acc_peek acc_adv intro: acc_bind)
  qed
qed simp

lemma if_block_accept:
  assumes "opensBlock ''if'' t" "blockArgs (tkValue t) ''#if'' \<noteq> []" "gNodes ns us" "gIfMids es els vs" "closesBlock ''if'' d"
    and "eats c (t # us @ vs @ [d]) c'" "length us + length vs < n" "stopOK stop"
  shows "accepts (parseChild n kids stop) c (Some (IfBlock (tokPos t) (blockArgs (tkValue t) ''#if'') ns es els)) c'"
proof -
  from assms(6) obtain c1 c2 where c1: "t = fst c" "tkKind t \<noteq> TokenEOF" "eats (nxt c) us c1" "eats c1 vs c2" "eats c2 [d] c'"
    by (auto simp: eats_Cons eats_split)
  have d: "closesBlock ''if'' (fst c2)" using assms(5) c1(5) by (simp add: eats_Cons)
  have k: "accepts (kids (blockBoundary ''if'')) (nxt c) ns c1"
    using assms by (intro body[OF _ c1(3) _ c1(4) mids_head(1) d]) auto
  have m: "accepts (ifMids n kids) c1 (es, els) c2" using assms d by (intro ifMids_accept[OF _ c1(4)]) auto
  have "accepts (parseIfBlock n kids) c (IfBlock (tokPos t) (blockArgs (tkValue t) ''#if'') ns es els) c'"
    unfolding parseIfBlock_def Let_def using assms(2) c1(1,2)
    by (auto intro!: acc_adv acc_unless acc_bind[OF k] acc_bind[OF m] acc_bind[OF acc_blockClose[OF c1(5) assms(5)]] acc_ret)
  then show ?thesis by (rule acc_block[OF assms(8) assms(1)[unfolded c1(1)], rotated]) simp
qed

lemma await_block_accept:
  assumes "opensBlock ''await'' t" "blockArgs (tkValue t) ''#await'' \<noteq> []" "gNodes ns us"
    "gAwaitMids ([], [], [], []) (thn, thenVar, ctch, catchVar) vs" "closesBlock ''await'' d"
    and "eats c (t # us @ vs @ [d]) c'" "length us + length vs < n" "stopOK stop"
  shows "accepts (parseChild n kids stop) c (Some (AwaitBlock (tokPos t) (blockArgs (tkValue t) ''#await'') ns thn thenVar ctch catchVar)) c'"
proof -
  from assms(6) obtain c1 c2 where c1: "t = fst c" "tkKind t \<noteq> TokenEOF" "eats (nxt c) us c1" "eats c1 vs c2" "eats c2 [d] c'"
    by (auto simp: eats_Cons eats_split)
  have d: "closesBlock ''await'' (fst c2)" using assms(5) c1(5) by (simp add: eats_Cons)
  have k: "accepts (kids (blockBoundary ''await'')) (nxt c) ns c1"
    using assms by (intro body[OF _ c1(3) _ c1(4) mids_head(2) d]) auto
  have m: "accepts (awaitMids n kids ([], [], [], [])) c1 (thn, thenVar, ctch, catchVar) c2"
    using assms d by (intro awaitMids_accept[OF _ c1(4)]) auto
  have "accepts (parseAwaitBlock n kids) c (AwaitBlock (tokPos t) (blockArgs (tkValue t) ''#await'') ns thn thenVar ctch catchVar) c'"
    unfolding parseAwaitBlock_def Let_def using assms(2) c1(1,2)
    by (auto intro!: acc_adv acc_unless acc_bind[OF k] acc_bind[OF m] acc_bind[OF acc_blockClose[OF c1(5) assms(5)]] acc_ret)
  then show ?thesis by (rule acc_block[OF assms(8) assms(1)[unfolded c1(1)], rotated]) simp
qed

text \<open>A block of one body, whatever production parses it.\<close>

lemma single_body:
  assumes "eats c (t # us @ [d]) c'" "gNodes ns us" "closesBlock name d" "length us < n"
  obtains c1 where "t = fst c" "tkKind t \<noteq> TokenEOF" "accepts (kids (blockBoundary name)) (nxt c) ns c1"
    "accepts (expectBlockClose name) c1 () c'" "kindAt c1 = TokenBlockClose"
proof -
  from assms(1) obtain c1 where c1: "t = fst c" "tkKind t \<noteq> TokenEOF" "eats (nxt c) us c1" "eats c1 [d] c'"
    by (auto simp: eats_Cons eats_split)
  have d: "closesBlock name (fst c1)" using assms(3) c1(4) by (simp add: eats_Cons)
  show ?thesis
    using that[OF c1(1,2) last_body[OF assms(2) c1(3) assms(4) d] acc_blockClose[OF c1(4) assms(3)]] d by (simp add: closesBlock_def)
qed

lemma key_block_accept:
  assumes "opensBlock ''key'' t" "blockArgs (tkValue t) ''#key'' \<noteq> []" "gNodes ns us" "closesBlock ''key'' d"
    and "eats c (t # us @ [d]) c'" "length us < n" "stopOK stop"
  shows "accepts (parseChild n kids stop) c (Some (KeyBlock (tokPos t) (blockArgs (tkValue t) ''#key'') ns)) c'"
proof -
  obtain c1 where c1: "t = fst c" "tkKind t \<noteq> TokenEOF" "accepts (kids (blockBoundary ''key'')) (nxt c) ns c1"
      "accepts (expectBlockClose ''key'') c1 () c'" by (rule single_body[OF assms(5,3,4,6)])
  have "accepts (parseKeyBlock kids) c (KeyBlock (tokPos t) (blockArgs (tkValue t) ''#key'') ns) c'"
    unfolding parseKeyBlock_def Let_def using assms(2) c1(1,2)
    by (auto intro!: acc_adv acc_unless acc_bind[OF c1(3)] acc_bind[OF c1(4)] acc_ret)
  then show ?thesis by (rule acc_block[OF assms(7) assms(1)[unfolded c1(1)], rotated]) simp
qed

lemma snippet_block_accept:
  assumes "opensBlock ''snippet'' t" "splitSnippet (blockArgs (tkValue t) ''#snippet'') = (name, params)" "name \<noteq> []"
    "gNodes ns us" "closesBlock ''snippet'' d"
    and "eats c (t # us @ [d]) c'" "length us < n" "stopOK stop"
  shows "accepts (parseChild n kids stop) c (Some (SnippetBlock (tokPos t) name params ns)) c'"
proof -
  obtain c1 where c1: "t = fst c" "tkKind t \<noteq> TokenEOF" "accepts (kids (blockBoundary ''snippet'')) (nxt c) ns c1"
      "accepts (expectBlockClose ''snippet'') c1 () c'" by (rule single_body[OF assms(6,4,5,7)])
  have "accepts (parseSnippetBlock kids) c (SnippetBlock (tokPos t) name params ns) c'"
    unfolding parseSnippetBlock_def using assms(2,3) c1(1,2)
    by (auto intro!: acc_adv acc_unless acc_bind[OF c1(3)] acc_bind[OF c1(4)] acc_ret)
  then show ?thesis by (rule acc_block[OF assms(8) assms(1)[unfolded c1(1)], rotated]) simp
qed

lemma each_block_accept:
  assumes "opensBlock ''each'' t" "splitEach (blockArgs (tkValue t) ''#each'') = (iter, item, idx, key)" "iter \<noteq> []" "item \<noteq> []"
    "gNodes ns us" "closesBlock ''each'' d" and "eats c (t # us @ [d]) c'" "length us < n" "stopOK stop"
  shows "accepts (parseChild n kids stop) c (Some (EachBlock (tokPos t) iter item idx key ns [])) c'"
proof -
  obtain c1 where c1: "t = fst c" "tkKind t \<noteq> TokenEOF" "accepts (kids (blockBoundary ''each'')) (nxt c) ns c1"
      "accepts (expectBlockClose ''each'') c1 () c'" "kindAt c1 = TokenBlockClose" by (rule single_body[OF assms(7,5,6,8)])
  have e: "accepts (eachElse kids) c1 [] c1" unfolding eachElse_def using c1(5) by (auto intro!: acc_peek acc_ret)
  have "accepts (parseEachBlock kids) c (EachBlock (tokPos t) iter item idx key ns []) c'"
    unfolding parseEachBlock_def using assms(2-4) c1(1,2)
    by (auto intro!: acc_adv acc_unless acc_bind[OF c1(3)] acc_bind[OF e] acc_bind[OF c1(4)] acc_ret)
  then show ?thesis by (rule acc_block[OF assms(9) assms(1)[unfolded c1(1)], rotated]) simp
qed

lemma each_else_accept:
  assumes "opensBlock ''each'' t" "splitEach (blockArgs (tkValue t) ''#each'') = (iter, item, idx, key)" "iter \<noteq> []" "item \<noteq> []"
    "gNodes ns us" "midTag ''else'' m" "gNodes els vs" "closesBlock ''each'' d"
    and "eats c (t # us @ m # vs @ [d]) c'" "length us + length vs < n" "stopOK stop"
  shows "accepts (parseChild n kids stop) c (Some (EachBlock (tokPos t) iter item idx key ns els)) c'"
proof -
  from assms(9) have t: "t = fst c" "tkKind t \<noteq> TokenEOF" "eats (nxt c) (us @ (m # vs @ [d])) c'" unfolding eats_Cons by blast+
  from t(3) obtain c1 where c1: "eats (nxt c) us c1" "eats c1 (m # vs @ [d]) c'" unfolding eats_split[of _ us] by blast
  obtain c2 where c2: "m = fst c1" "tkKind m \<noteq> TokenEOF" "accepts (kids (blockBoundary ''each'')) (nxt c1) els c2"
      "accepts (expectBlockClose ''each'') c2 () c'" using assms(10) by (auto intro: single_body[OF c1(2) assms(7,8)])
  have k: "accepts (kids (blockBoundary ''each'')) (nxt c) ns c1"
    using assms(6,10) c2(1) by (intro kids_accept[OF assms(5) c1(1)]) (auto simp: midTag_def blockBoundary_def)
  have e: "accepts (eachElse kids) c1 els c2" unfolding eachElse_def using assms(6) c2 by (auto simp: midTag_def intro!: acc_peek acc_adv)
  have "accepts (parseEachBlock kids) c (EachBlock (tokPos t) iter item idx key ns els) c'"
    unfolding parseEachBlock_def using assms(2-4) t(1,2)
    by (auto intro!: acc_adv acc_unless acc_bind[OF k] acc_bind[OF e] acc_bind[OF c2(4)] acc_ret)
  then show ?thesis by (rule acc_block[OF assms(11) assms(1)[unfolded t(1)], rotated]) simp
qed

lemma element_accept:
  assumes "tkKind t = TokenTagOpen" "tkKind i = TokenIdentifier" "gAttrs as ts" "tkKind d = TokenTagClose" "\<not> isVoidElement (tkValue i)"
    "gNodes ns us" "tkKind e = TokenTagOpenClose" "tkKind j = TokenIdentifier" "tkValue j = tkValue i" "tkKind f = TokenTagClose"
    and "eats c (t # i # ts @ d # us @ [e, j, f]) c'" "length ts + length us < n" "stopOK stop"
  shows "accepts (parseChild n kids stop) c (Some (Element (tokPos t) (tkValue i) as ns False (isComponentName (tkValue i)))) c'"
proof -
  from assms(11) obtain c1 c2 where c1: "eats c (t # i # ts) c1" "d = fst c1" "eats (nxt c1) us c2" "eats c2 [e, j, f] c'"
    by (auto simp: eats_Cons eats_split)
  have "elementStop (tkValue i) (fst c2)" using assms(7) c1(4) by (simp add: elementStop_def eats_Cons)
  then have k: "accepts (kids (elementStop (tkValue i))) (nxt c1) ns c2"
    using assms(12) by (intro kids_accept[OF assms(6) c1(3)]) auto
  have z: "accepts (consumeClosingTag n (tkValue i)) c2 () c'" using assms by (intro acc_closingTag[OF c1(4)]) auto
  show ?thesis using assms c1(2)
    by (intro acc_element[OF _ c1(1)]) (auto intro: acc_bind[OF k] acc_bind[OF z] acc_ret)
qed

lemma child_accept:
  assumes "gNode nd ts" "eats c ts c'" "length ts \<le> n" "stopOK stop"
  shows "accepts (parseChild n kids stop) c (Some nd) c'"
  using assms(1)
proof cases
  case (script t body us d)
  then show ?thesis using acc_script[OF assms(4)] assms(2) by simp
next
  case (style t body us d)
  then show ?thesis using acc_style[OF assms(4)] assms(2) by simp
next
  case (self_closed t i as us d)
  then obtain c1 where c1: "eats c (t # i # us) c1" "d = fst c1" "nxt c1 = c'" using assms(2) by (auto simp: eats_Cons eats_split)
  show ?thesis using self_closed c1 assms(3,4) by (intro acc_element[OF _ c1(1)]) (auto intro: acc_ret)
next
  case (void t i as us d)
  then obtain c1 where c1: "eats c (t # i # us) c1" "d = fst c1" "nxt c1 = c'" using assms(2) by (auto simp: eats_Cons eats_split)
  show ?thesis using void c1 assms(3,4) by (intro acc_element[OF _ c1(1)]) (auto intro: acc_ret)
qed (use assms(2-4) in \<open>auto simp: acc_leaf intro: element_accept if_block_accept each_block_accept each_else_accept
    await_block_accept key_block_accept snippet_block_accept\<close>)

end

section \<open>The parser of children\<close>

lemma parseChildren_accepts: "child_acceptor (parseChildren n) n"
proof (induction n)
  case 0
  show ?case by unfold_locales simp
next
  case (Suc n)
  show ?case
  proof
    fix ns ts and c c' :: cursor and stop :: stopFn
    assume a: "gNodes ns ts" "eats c ts c'" "length ts < Suc n" "stopOK stop" "kindAt c' = TokenEOF \<or> stop (fst c')"
    from a(1) show "accepts (parseChildren (Suc n) stop) c ns c'"
    proof cases
      case no_nodes
      then show ?thesis using a by (auto intro!: acc_peek acc_ret)
    next
      case (more_nodes nd us nds vs)
      obtain t us' where t: "us = t # us'" "tkKind t \<notin> {TokenEOF, TokenBlockMid, TokenBlockClose, TokenTagOpenClose}"
        using gNode_head[OF more_nodes(3)] by blast
      obtain c1 where c1: "eats c us c1" "eats c1 vs c'" using a(2) more_nodes by (auto simp: eats_split)
      have "accepts (parseChild n (parseChildren n) stop) c (Some nd) c1"
        using child_acceptor.child_accept[OF Suc more_nodes(3) c1(1) _ a(4)] a(3) more_nodes by simp
      then have ch: "accepts (parseChildSafe n (parseChildren n) stop) c (Some nd) c1"
        unfolding accepts_def parseChildSafe_def by fastforce
      have r: "accepts (parseChildren n stop) c1 nds c'"
        using child_acceptor.kids_accept[OF Suc more_nodes(4) c1(2)] a more_nodes t by simp
      have "kindAt c \<noteq> TokenEOF" "\<not> stop (fst c)" using c1(1) t a(4) by (auto simp: eats_Cons stopOK_def)
      then show ?thesis using more_nodes by (auto intro!: acc_peek acc_bind[OF ch] acc_bind[OF r] acc_ret)
    qed
  qed
qed

interpretation pa: child_acceptor "parseChildren n" n for n
  by (rule parseChildren_accepts)

section \<open>Templates\<close>

lemma lexRun_eats:
  "lexRun k l = Some ts \<Longrightarrow> \<exists>us c'. ts = us @ [fst c'] \<and> kindAt c' = TokenEOF \<and> eats (Next l) us c'"
proof (induction k arbitrary: l ts)
  case (Suc k)
  obtain t l' where nx: "Next l = (t, l')" by fastforce
  show ?case
  proof (cases "tkKind t = TokenEOF")
    case True
    then show ?thesis using Suc.prems nx by (intro exI[of _ "[]"] exI[of _ "(t, l')"]) simp
  next
    case False
    then obtain ts' where ts: "ts = t # ts'" "lexRun k l' = Some ts'" using Suc.prems nx by auto
    from Suc.IH[OF ts(2)] obtain us c' where u: "ts' = us @ [fst c']" "kindAt c' = TokenEOF" "eats (Next l') us c'" by blast
    then show ?thesis using False nx ts(1) by (intro exI[of _ "t # us"] exI[of _ c']) (simp add: eats_Cons nxt_def)
  qed
qed simp

lemma eats_eof_unique: "eats c us c1 \<Longrightarrow> kindAt c1 = TokenEOF \<Longrightarrow> eats c vs c2 \<Longrightarrow> kindAt c2 = TokenEOF \<Longrightarrow> vs = us \<and> c2 = c1"
proof (induction arbitrary: vs rule: eats.induct)
  case (eats_none c)
  then show ?case by (cases vs) (auto simp: eats_Cons)
next
  case (eats_tok c ts c')
  then show ?case by (cases vs) (auto simp: eats_Cons)
qed

lemma bindP_Ret:
  "bindP m f p = Some (Ret y, p') \<longleftrightarrow> (\<exists>x p1. m p = Some (Ret x, p1) \<and> f x p1 = Some (Ret y, p'))"
  by (auto simp: bindP_def split: option.splits prod.splits outcome.splits)

lemma parseChildren_end:
  "parseChildren n stop p = Some (Ret ns, p') \<Longrightarrow> kindAt (cur p') = TokenEOF \<or> stop (fst (cur p'))"
proof (induction n arbitrary: p ns)
  case (Suc n)
  let ?t = "fst (peekTok p)" and ?q = "snd (peekTok p)"
  show ?case
  proof (cases "tkKind ?t = TokenEOF \<or> stop ?t")
    case True
    then have "p' = ?q" using Suc.prems by (auto simp: bindP_Ret peekP_def retP_def split: prod.splits)
    with True show ?thesis by (simp add: peekTok_cur)
  next
    case False
    then obtain p1 rest where "parseChildren n stop p1 = Some (Ret rest, p')"
      using Suc.prems by (auto simp: bindP_Ret peekP_def retP_def split: prod.splits)
    then show ?thesis by (rule Suc.IH)
  qed
qed (simp add: outOfFuel_def)

lemma sync_no_bail: "sync n p \<noteq> Some (Bailout, p')"
proof (induction n arbitrary: p)
  case (Suc n)
  then show ?case by (auto simp: bindP_def peekP_def advP_def retP_def split: option.splits prod.splits outcome.splits)
qed (simp add: outOfFuel_def)

lemma parseChildren_no_bail: "parseChildren n stop p \<noteq> Some (Bailout, p')"
proof (induction n arbitrary: p)
  case (Suc n)
  have "parseChildSafe n (parseChildren n) stop q \<noteq> Some (Bailout, p')" for q
    using sync_no_bail by (auto simp: parseChildSafe_def bindP_def retP_def split: option.splits prod.splits outcome.splits)
  with Suc show ?case
    by (auto simp: bindP_def peekP_def retP_def split: option.splits prod.splits outcome.splits)
qed (simp add: outOfFuel_def)

lemma cur_newParser [simp]: "cur (newParser src) = Next (NewLexer src)" "bufOK (newParser src)" "pr_errs (newParser src) = []"
  by (simp_all add: cur_def newParser_def bufOK_def)

lemma start_ok:
  assumes "bangFree src" shows "curOK (Next (NewLexer src))" "budget (Next (NewLexer src)) < 2 * length src + 2"
proof -
  have l: "lexOK (NewLexer src)" using assms by (simp add: lexOK_def)
  then show "curOK (Next (NewLexer src))" by (simp add: curOK_def lexOK_Next)
  have "weight (NewLexer src) \<le> 2 * length src + 1" by (simp add: weight_def rank_def NewLexer_def)
  with budget_Next[OF l] show "budget (Next (NewLexer src)) < 2 * length src + 2" by simp
qed

text \<open>The parser returns: on a template in which every \<^verbatim>\<open><!\<close> opens a comment, fuel above twice its
  length is enough.\<close>

lemma Parse_parses:
  assumes "bangFree src" "2 * length src + 2 \<le> n"
  obtains cs p' where "parseChildren n stopEOF (snd (peekTok (newParser src))) = Some (Ret cs, p')"
    "Parse n src = Some (Fragment (tokPos (fst (Next (NewLexer src)))) cs, pr_errs p')"
    "pr_errs p' = [] \<longrightarrow> (\<exists>us. gNodes cs us \<and> eats (Next (NewLexer src)) us (cur p'))"
proof -
  let ?q = "snd (peekTok (newParser src))" and ?c = "Next (NewLexer src)"
  have q: "cur ?q = ?c" "bufOK ?q" "pr_errs ?q = []" by (simp_all add: peekTok_cur)
  have "parses True (parseChildren n stopEOF) ?c (budget ?c) gNodes"
    using start_ok[OF assms(1)] assms(2) by (intro pc.kids_parse) auto
  then have "lands True ?c (budget ?c) gNodes [] (parseChildren n stopEOF ?q)" using q by (metis parses_def)
  then obtain r p' es where r: "parseChildren n stopEOF ?q = Some (r, p')" "pr_errs p' = [] @ es"
      "True \<and> es = [] \<longrightarrow> (\<exists>x ts. r = Ret x \<and> gNodes x ts \<and> eats ?c ts (cur p'))"
    by (rule landsE)
  obtain cs where cs: "r = Ret cs" using parseChildren_no_bail r(1) by (cases r) auto
  have "parseFragment n stopEOF (newParser src) = Some (Ret (Fragment (tokPos (fst ?c)) cs), p')"
    using r(1) cs peekTok_cur(1)[of "newParser src"]
    by (auto simp: parseFragment_def bindP_def peekP_def retP_def split: prod.splits)
  then show ?thesis using that r cs by (auto simp: Parse_def)
qed

lemma lexRun_length: "lexRun k l = Some ts \<Longrightarrow> length ts \<le> k"
  by (induction k arbitrary: l ts) (auto split: prod.splits if_splits)

lemma eats_head: "eats c us c' \<Longrightarrow> hd (us @ [fst c']) = fst c"
  by (cases us) (auto simp: eats_Cons)

lemma template_tokens:
  assumes "bangFree src"
  obtains us c' where "lexRun (2 * length src + 2) (NewLexer src) = Some (us @ [fst c'])" "kindAt c' = TokenEOF"
    "eats (Next (NewLexer src)) us c'" "length us < 2 * length src + 2"
proof -
  have "weight (NewLexer src) < 2 * length src + 2" by (simp add: weight_def rank_def NewLexer_def)
  then obtain ts where ts: "lexRun (2 * length src + 2) (NewLexer src) = Some ts"
    using lexRun_total[OF NewLexer_ok(1,2)] assms by fastforce
  from lexRun_eats[OF ts] lexRun_length[OF ts] ts that show ?thesis by fastforce
qed

text \<open>C23. \<^const>\<open>Parse\<close> returns on every template in which each \<^verbatim>\<open><!\<close> opens a comment, however malformed it is
  otherwise: fuel above twice the length is enough for all its loops and recursive calls.\<close>

theorem Parse_returns:
  assumes "bangFree src" "2 * length src + 2 \<le> n"
  shows "\<exists>pos ns errs. Parse n src = Some (Fragment pos ns, errs)"
  using Parse_parses[OF assms] by metis

theorem Parse_returns_witness:
  "\<exists>pos ns errs. Parse 50 ''<p {/if}<b></p>{:else'' = Some (Fragment pos ns, errs)"
  by (rule Parse_returns) code_simp+

text \<open>C22. \<^const>\<open>Parse\<close> accepts the grammar and computes its trees: it reports no error and returns a tree
  exactly when the tokens of the template, up to the end-of-file token, are derivable from the tree.\<close>

theorem Parse_accepts_grammar:
  assumes "bangFree src" "2 * length src + 2 \<le> n"
  shows "Parse n src = Some (Fragment pos ns, []) \<longleftrightarrow>
    (\<exists>us e. lexRun (2 * length src + 2) (NewLexer src) = Some (us @ [e]) \<and> pos = tokPos (hd (us @ [e])) \<and> gNodes ns us)"
proof -
  let ?c = "Next (NewLexer src)"
  obtain us c' where t: "lexRun (2 * length src + 2) (NewLexer src) = Some (us @ [fst c'])" "kindAt c' = TokenEOF"
      "eats ?c us c'" "length us < 2 * length src + 2" by (rule template_tokens[OF assms(1)])
  obtain cs p' where p: "parseChildren n stopEOF (snd (peekTok (newParser src))) = Some (Ret cs, p')"
      "Parse n src = Some (Fragment (tokPos (fst ?c)) cs, pr_errs p')"
      "pr_errs p' = [] \<longrightarrow> (\<exists>vs. gNodes cs vs \<and> eats ?c vs (cur p'))" by (rule Parse_parses[OF assms])
  have "kindAt (cur p') = TokenEOF" using parseChildren_end[OF p(1)] by (auto simp: stopEOF_def)
  then have sound: "gNodes cs us" if "pr_errs p' = []" using p(3) that eats_eof_unique[OF t(3,2)] by blast
  have complete: "cs = ns \<and> pr_errs p' = []" if "gNodes ns us"
  proof -
    have "accepts (parseChildren n stopEOF) ?c ns c'"
      using t(2,4) assms(2) by (intro pa.kids_accept[OF that t(3)]) auto
    then show ?thesis using p(1) peekTok_cur[of "newParser src"] unfolding accepts_def by fastforce
  qed
  show ?thesis using p(2) t(1) sound complete eats_head[OF t(3)] by fastforce
qed

theorem Parse_accepts_grammar_witness:
  "\<exists>pos ns us e. Parse 60 ''<p a={x}>hi</p>{#if y}z{/if}'' = Some (Fragment pos ns, []) \<and> length ns = 2 \<and>
     lexRun (2 * length ''<p a={x}>hi</p>{#if y}z{/if}'' + 2) (NewLexer ''<p a={x}>hi</p>{#if y}z{/if}'') = Some (us @ [e]) \<and> gNodes ns us"
proof -
  let ?src = "''<p a={x}>hi</p>{#if y}z{/if}''"
  have src: "bangFree ?src" "2 * length ?src + 2 \<le> 60" by code_simp+
  have "map_option (\<lambda>(f, errs). (length (walkChildren f), errs)) (Parse 60 ?src) = Some (2, [])" by code_simp
  moreover obtain pos ns errs where "Parse 60 ?src = Some (Fragment pos ns, errs)" using Parse_parses[OF src] by metis
  ultimately have p: "Parse 60 ?src = Some (Fragment pos ns, [])" "length ns = 2" by simp_all
  from Parse_accepts_grammar[OF src, of pos ns] p show ?thesis by blast
qed

text \<open>A second \<^verbatim>\<open>{:then}\<close> replaces the first one: the text \<open>b\<close> is in no node, and no error is reported.\<close>

lemma await_branch_dropped:
  "(case Parse 100 ''{#await p}a{:then x}b{:then y}c{/await}'' of
      Some (Fragment _ [AwaitBlock _ _ [Text _ a] [Text _ c] v [] w], []) \<Rightarrow> a = ''a'' \<and> c = ''c'' \<and> v = ''y'' \<and> w = []
    | _ \<Rightarrow> False)"
  by code_simp

end
