(* ===== verification/GoCodec.thy ===== *)
theory GoCodec
  imports GoText
begin

text \<open>
  The encodings of the Go standard library that the session cookies and the render cache use:
  \<^verbatim>\<open>encoding/hex\<close>, \<^verbatim>\<open>strconv.FormatUint\<close>/\<^verbatim>\<open>ParseUint\<close> in base ten and
  \<^verbatim>\<open>strings.LastIndex\<close>, each with its round trip.
\<close>

section \<open>Hexadecimal text\<close>

definition hexDigitLow :: "nat \<Rightarrow> char" where
  "hexDigitLow n = (if n < 10 then char_of (48 + n) else char_of (87 + n))"

definition hexPair :: "char \<Rightarrow> string" where
  "hexPair c = [hexDigitLow (byteVal c div 16), hexDigitLow (byteVal c mod 16)]"

text \<open>\<^verbatim>\<open>hex.EncodeToString\<close>.\<close>

definition hexEncode :: "string \<Rightarrow> string" where
  "hexEncode s = concat (map hexPair s)"

text \<open>\<^verbatim>\<open>hex.DecodeString\<close>: digits of either case, an even number of them.\<close>

fun hexDecode :: "string \<Rightarrow> string option" where
  "hexDecode [] = Some []"
| "hexDecode [c] = None"
| "hexDecode (a # b # s) =
    (if isHexByte a \<and> isHexByte b
     then map_option (Cons (char_of (16 * unhex a + unhex b))) (hexDecode s) else None)"

lemma hexDigitLow_inv:
  assumes "n < 16" shows "isHexByte (hexDigitLow n)" "unhex (hexDigitLow n) = n"
proof -
  have "list_all (\<lambda>n. isHexByte (hexDigitLow n) \<and> unhex (hexDigitLow n) = n) [0..<16]"
    by (simp add: upt_rec hexDigitLow_def isHexByte_def unhex_def inRange_def byteVal_def)
  with assms have "isHexByte (hexDigitLow n) \<and> unhex (hexDigitLow n) = n" by (simp add: list_all_iff)
  then show "isHexByte (hexDigitLow n)" "unhex (hexDigitLow n) = n" by blast+
qed

lemma hexEncode_Nil [simp]: "hexEncode [] = []"
  by (simp add: hexEncode_def)

lemma hexEncode_Cons: "hexEncode (c # s) =
  hexDigitLow (byteVal c div 16) # hexDigitLow (byteVal c mod 16) # hexEncode s"
  by (simp add: hexEncode_def hexPair_def)

lemma hexDecode_hexEncode [simp]: "hexDecode (hexEncode s) = Some s"
proof (induction s)
  case (Cons c s)
  have "byteVal c div 16 < 16" "byteVal c mod 16 < 16" using byteVal_less[of c] by auto
  moreover have "16 * (byteVal c div 16) + byteVal c mod 16 = byteVal c" by simp
  ultimately show ?case using Cons by (simp add: hexEncode_Cons hexDigitLow_inv)
qed simp

lemma hexEncode_length [simp]: "length (hexEncode s) = 2 * length s"
  by (induction s) (simp_all add: hexEncode_Cons)

lemma hexEncode_inj: "hexEncode s = hexEncode t \<longleftrightarrow> s = t"
  by (metis hexDecode_hexEncode option.inject)

lemma hexEncode_chars: "list_all isHexByte (hexEncode s)"
proof (induction s)
  case (Cons c s)
  have "byteVal c div 16 < 16" "byteVal c mod 16 < 16" using byteVal_less[of c] by auto
  then show ?case using Cons by (simp add: hexEncode_Cons hexDigitLow_inv(1))
qed simp

section \<open>Decimal numbers\<close>

text \<open>\<^verbatim>\<open>strconv.ParseUint(s, 10, bits)\<close>; every error is \<^const>\<open>None\<close>.\<close>

definition parseUint :: "nat \<Rightarrow> string \<Rightarrow> nat option" where
  "parseUint bits s = (if s = [] \<or> \<not> list_all isDigitByte s then None
     else let n = decVal s in if n < 2 ^ bits then Some n else None)"

lemma decVal_snoc: "decVal (s @ [c]) = 10 * decVal s + digitVal c"
  by (simp add: decVal_def)

lemma decVal_decDigits [simp]: "decVal (decDigits n) = n"
proof (induction n rule: decDigits.induct)
  case (1 n)
  have d: "m < 10 \<Longrightarrow> digitVal (char_of (48 + m :: nat)) = m" for m
    by (simp add: digitVal_def byteVal_char_of)
  show ?case
  proof (cases "n < 10")
    case True
    then show ?thesis using d[of n] by (simp add: decVal_def decDigits.simps[of n])
  next
    case False
    then show ?thesis using 1 d[of "n mod 10"] by (simp add: decVal_snoc decDigits.simps[of n])
  qed
qed

lemma parseUint_decDigits: "n < 2 ^ bits \<Longrightarrow> parseUint bits (decDigits n) = Some n"
  unfolding parseUint_def Let_def decVal_decDigits using decDigits_digits[of n] by (simp only: if_True if_False) simp

lemma atoi_formatInt: "0 \<le> n \<Longrightarrow> n < 2 ^ 63 \<Longrightarrow> atoi (formatInt n) = Some n"
proof -
  assume n: "0 \<le> n" "n < 2 ^ 63"
  obtain c s where ds: "decDigits (nat n) = c # s" using decDigits_digits(2) by (cases "decDigits (nat n)") auto
  then have "isDigitByte c" using decDigits_digits(1)[of "nat n"] by simp
  then have c: "c \<noteq> CHR ''-''" "c \<noteq> CHR ''+''" by (auto simp: go_defs)
  have "formatInt n = c # s" using n ds by (simp add: formatInt_def)
  moreover have "int (decVal (c # s)) = n" using n decVal_decDigits[of "nat n"] unfolding ds by simp
  moreover have "list_all isDigitByte (c # s)" using decDigits_digits(1)[of "nat n"] unfolding ds .
  ultimately show ?thesis using n c by (simp add: atoi_def Let_def)
qed

lemma decDigits_chars: "c \<in> set (decDigits n) \<Longrightarrow> isDigitByte c"
  using decDigits_digits(1)[of n] by (simp add: list_all_iff)

lemma decDigits_inj: "decDigits m = decDigits n \<longleftrightarrow> m = n"
  by (metis decVal_decDigits)

section \<open>The last occurrence of a substring\<close>

definition lastIndexStr :: "string \<Rightarrow> string \<Rightarrow> nat option" where
  "lastIndexStr s p = (case filter (\<lambda>i. hasPrefix (drop i s) p) [0..<Suc (length s)] of
      [] \<Rightarrow> None | i # is \<Rightarrow> Some (last (i # is)))"

lemma lastIndexStr_Some:
  assumes "i \<le> length s" "hasPrefix (drop i s) p" "\<And>j. i < j \<Longrightarrow> j \<le> length s \<Longrightarrow> \<not> hasPrefix (drop j s) p"
  shows "lastIndexStr s p = Some i"
proof -
  have "[0..<Suc (length s)] = [0..<i] @ i # [Suc i..<Suc (length s)]"
    using assms(1) upt_conv_Cons[of i "Suc (length s)"] upt_add_eq_append[of 0 i "Suc (length s) - i"] by simp
  moreover have "filter (\<lambda>j. hasPrefix (drop j s) p) [Suc i..<Suc (length s)] = []"
    unfolding filter_empty_conv using assms(3) by (simp del: upt_Suc)
  ultimately have "filter (\<lambda>j. hasPrefix (drop j s) p) [0..<Suc (length s)]
      = filter (\<lambda>j. hasPrefix (drop j s) p) [0..<i] @ [i]"
    using assms(2) by simp
  then show ?thesis unfolding lastIndexStr_def by (auto split: list.split dest: arg_cong[where f = last])
qed

lemma lastIndexStr_None:
  "lastIndexStr s p = None \<longleftrightarrow> (\<forall>i \<le> length s. \<not> hasPrefix (drop i s) p)"
proof -
  have "lastIndexStr s p = None \<longleftrightarrow> filter (\<lambda>i. hasPrefix (drop i s) p) [0..<Suc (length s)] = []"
    unfolding lastIndexStr_def by (simp split: list.split del: upt_Suc)
  then show ?thesis by (auto simp: filter_empty_conv less_Suc_eq_le simp del: upt_Suc)
qed

end
