(* ===== verification/Simulation.thy ===== *)
theory Simulation
  imports Main
begin

text \<open>
  Sequences of operations on a state, and the functional simulation of an abstract component by a
  concrete one: the interface the refinement proofs of the stores and caches share.
\<close>

text \<open>The results of a sequence of operations.\<close>

fun runOps :: "('o \<Rightarrow> 's \<Rightarrow> 'r \<times> 's) \<Rightarrow> 'o list \<Rightarrow> 's \<Rightarrow> 'r list" where
  "runOps step [] s = []"
| "runOps step (op # ops) s = (let (r, s') = step op s in r # runOps step ops s')"

text \<open>Every operation of the sequence meets its precondition in the state it is called in.\<close>

fun fitsAll :: "('o \<Rightarrow> 's \<Rightarrow> 'r \<times> 's) \<Rightarrow> ('o \<Rightarrow> 's \<Rightarrow> bool) \<Rightarrow> 'o list \<Rightarrow> 's \<Rightarrow> bool" where
  "fitsAll step fits [] s = True"
| "fitsAll step fits (op # ops) s = (fits op s \<and> fitsAll step fits ops (snd (step op s)))"

lemma fitsAll_True [simp]: "fitsAll step (\<lambda>_ _. True) ops s"
  by (induction ops arbitrary: s) auto

locale simulation =
  fixes cstep :: "'o \<Rightarrow> 's \<Rightarrow> 'r \<times> 's"
    and astep :: "'o \<Rightarrow> 't \<Rightarrow> 'q \<times> 't"
    and view :: "'r \<Rightarrow> 'q"
    and abs :: "'s \<Rightarrow> 't"
    and inv :: "'s \<Rightarrow> bool"
    and fits :: "'o \<Rightarrow> 's \<Rightarrow> bool"
  assumes keeps: "inv s \<Longrightarrow> fits op s \<Longrightarrow> inv (snd (cstep op s))"
    and sim: "inv s \<Longrightarrow> fits op s \<Longrightarrow> astep op (abs s) = (view (fst (cstep op s)), abs (snd (cstep op s)))"
begin

lemma run: "inv s \<Longrightarrow> fitsAll cstep fits ops s \<Longrightarrow> map view (runOps cstep ops s) = runOps astep ops (abs s)"
proof (induction ops arbitrary: s)
  case (Cons op ops)
  then show ?case using keeps[of s op] sim[of s op] by (simp add: case_prod_beta)
qed simp

lemma results:
  assumes "\<And>op s. inv s \<Longrightarrow> fits op s \<Longrightarrow> P (fst (cstep op s))"
  shows "inv s \<Longrightarrow> fitsAll cstep fits ops s \<Longrightarrow> list_all P (runOps cstep ops s)"
proof (induction ops arbitrary: s)
  case (Cons op ops)
  then show ?case using keeps[of s op] assms[of s op] by (simp add: case_prod_beta)
qed simp

end

end
