(* ===== verification/Fallback.thy ===== *)
theory Fallback
  imports GoCodec Simulation
begin

text \<open>
  The request-time fallback renderer, \<^verbatim>\<open>runtime/svelte/fallback\<close>: the bounded cache of rendered
  pages (\<^verbatim>\<open>cache.go\<close>), the client of the rendering process (\<^verbatim>\<open>client.go\<close>), the registry of
  the routes it renders (\<^verbatim>\<open>registry.go\<close>) and the marker stripper (\<^verbatim>\<open>strip.go\<close>).

  The elements of \<^verbatim>\<open>container/list\<close> are addresses into the heap \<open>lc_els\<close>; the list itself is the
  sequence of the addresses from front to back. The clock is an argument of the operations that read
  it. The JSON encoder, SHA-256, the HTTP transport and the JSON decoder are parameters.
\<close>

section \<open>The cache\<close>

record cacheEntry =
  ce_body :: string
  ce_head :: string
  ce_expires :: int

record listValue =
  lv_key :: string
  lv_entry :: cacheEntry

record lruCache =
  lc_capacity :: int
  lc_ttl :: int
  lc_items :: "string \<rightharpoonup> nat"
  lc_order :: "nat list"
  lc_els :: "nat \<Rightarrow> listValue"
  lc_next :: nat

definition zeroEntry :: cacheEntry where
  "zeroEntry = \<lparr>ce_body = [], ce_head = [], ce_expires = 0\<rparr>"

definition newLRUCache :: "int \<Rightarrow> int \<Rightarrow> lruCache" where
  "newLRUCache capacity ttl = \<lparr>lc_capacity = (if capacity \<le> 0 then 1 else capacity), lc_ttl = ttl,
     lc_items = Map.empty, lc_order = [], lc_els = (\<lambda>_. \<lparr>lv_key = [], lv_entry = zeroEntry\<rparr>), lc_next = 0\<rparr>"

text \<open>\<^verbatim>\<open>Remove\<close>, \<^verbatim>\<open>MoveToFront\<close> and \<^verbatim>\<open>PushFront\<close> of \<^verbatim>\<open>container/list\<close>.\<close>

definition listRemove :: "nat \<Rightarrow> lruCache \<Rightarrow> lruCache" where
  "listRemove el c = c\<lparr>lc_order := remove1 el (lc_order c)\<rparr>"

definition moveToFront :: "nat \<Rightarrow> lruCache \<Rightarrow> lruCache" where
  "moveToFront el c = (if el \<in> set (lc_order c) then c\<lparr>lc_order := el # remove1 el (lc_order c)\<rparr> else c)"

definition pushFront :: "listValue \<Rightarrow> lruCache \<Rightarrow> nat \<times> lruCache" where
  "pushFront v c = (lc_next c, c\<lparr>lc_order := lc_next c # lc_order c, lc_els := (lc_els c)(lc_next c := v),
     lc_next := Suc (lc_next c)\<rparr>)"

definition lruGet :: "int \<Rightarrow> string \<Rightarrow> lruCache \<Rightarrow> cacheEntry option \<times> lruCache" where
  "lruGet now key c = (case lc_items c key of
      None \<Rightarrow> (None, c)
    | Some el \<Rightarrow>
        (let v = lc_els c el in
         if 0 < lc_ttl c \<and> ce_expires (lv_entry v) < now
         then (None, (listRemove el c)\<lparr>lc_items := (lc_items c)(key := None)\<rparr>)
         else (Some (lv_entry v), moveToFront el c)))"

text \<open>The eviction loop of \<^verbatim>\<open>Put\<close>: every round removes the back of the list.\<close>

lemma remove1_last: "xs \<noteq> [] \<Longrightarrow> length (remove1 (last xs) xs) < length xs"
  by (simp add: length_remove1)

function evictLoop :: "lruCache \<Rightarrow> lruCache" where
  "evictLoop c =
    (if lc_capacity c \<le> int (length (lc_order c)) then
       (case lc_order c of
          [] \<Rightarrow> c
        | _ # _ \<Rightarrow>
            (let oldest = last (lc_order c);
                 ov = lc_els c oldest
             in evictLoop ((listRemove oldest c)\<lparr>lc_items := (lc_items c)(lv_key ov := None)\<rparr>)))
     else c)"
  by auto

termination
proof (relation "measure (\<lambda>c. length (lc_order c))")
  show "wf (measure (\<lambda>c. length (lc_order c)))" by simp
  show "(listRemove x c\<lparr>lc_items := (lc_items c)(lv_key xa := None)\<rparr>, c) \<in> measure (\<lambda>c. length (lc_order c))"
    if "lc_order c = a # as" "x = last (lc_order c)" for c a as x xa
    using remove1_last[of "lc_order c"] that by (simp add: listRemove_def)
qed

declare evictLoop.simps [simp del]

definition lruPut :: "int \<Rightarrow> string \<Rightarrow> cacheEntry \<Rightarrow> lruCache \<Rightarrow> lruCache" where
  "lruPut now key entry c =
    (let entry = (if 0 < lc_ttl c then entry\<lparr>ce_expires := now + lc_ttl c\<rparr> else entry)
     in case lc_items c key of
       Some el \<Rightarrow> moveToFront el (c\<lparr>lc_els := (lc_els c)(el := (lc_els c el)\<lparr>lv_entry := entry\<rparr>)\<rparr>)
     | None \<Rightarrow>
         (let c = evictLoop c;
              (el, c) = pushFront \<lparr>lv_key = key, lv_entry = entry\<rparr> c
          in c\<lparr>lc_items := (lc_items c)(key \<mapsto> el)\<rparr>))"

definition lruLen :: "lruCache \<Rightarrow> nat" where
  "lruLen c = length (lc_order c)"

section \<open>The client\<close>

record 'd RenderRequest =
  rr_Route :: string
  rr_Source :: string
  rr_Data :: 'd

record RenderResponse =
  rp_Body :: string
  rp_Head :: string

record Client =
  cl_endpoint :: string
  cl_cache :: lruCache

definition second :: int where
  "second = 1000000000"

text \<open>\<^verbatim>\<open>NewClient\<close>; the HTTP client is a parameter of the calls below.\<close>

definition NewClient :: "string \<Rightarrow> int \<Rightarrow> int \<Rightarrow> Client" where
  "NewClient endpoint cacheSize ttl =
    (let capacity = (if cacheSize = 0 then 1000 else cacheSize);
         ttl = (if ttl = 0 then 60 * second else ttl)
     in \<lparr>cl_endpoint = endpoint, cl_cache = newLRUCache capacity ttl\<rparr>)"

text \<open>What one call finds around it: the encoder of the request body, the check of the URL, the
  answer of the transport (an error, or status and body) and the decoder of the body.\<close>

record 'd Sidecar =
  sc_marshal :: "'d RenderRequest \<Rightarrow> string \<Rightarrow> (string, string) result"
  sc_request :: "string \<Rightarrow> (string, unit) result"
  sc_do :: "string \<Rightarrow> string \<Rightarrow> (string, int \<times> string) result"
  sc_decode :: "string \<Rightarrow> (string, string \<times> string) result"

definition wrappedErr :: "string \<Rightarrow> string \<Rightarrow> string" where
  "wrappedErr op err = op @ '': '' @ err"

definition callSidecar :: "'d Sidecar \<Rightarrow> string \<Rightarrow> 'd RenderRequest \<Rightarrow> string \<Rightarrow> (string, RenderResponse) result" where
  "callSidecar sc endpoint req dataBytes =
    (case sc_marshal sc req dataBytes of
       Inl e \<Rightarrow> Inl (wrappedErr ''fallback: marshal request'' e)
     | Inr body \<Rightarrow> (case sc_request sc (endpoint @ ''/render'') of
         Inl e \<Rightarrow> Inl (wrappedErr ''fallback: build request'' e)
       | Inr _ \<Rightarrow> (case sc_do sc (endpoint @ ''/render'') body of
           Inl e \<Rightarrow> Inl (wrappedErr (''fallback: sidecar call '' @ rr_Route req) e)
         | Inr (status, text) \<Rightarrow>
             if status \<noteq> 200
             then Inl (''fallback: sidecar status '' @ formatInt status @ '' for '' @ rr_Route req @ '': ''
                        @ trimSpace (take 8192 text))
             else (case sc_decode sc text of
                 Inl e \<Rightarrow> Inl (wrappedErr ''fallback: decode sidecar response'' e)
               | Inr (b, h) \<Rightarrow> Inr \<lparr>rp_Body = b, rp_Head = h\<rparr>))))"

definition cacheKey :: "(string \<Rightarrow> string) \<Rightarrow> string \<Rightarrow> string \<Rightarrow> string" where
  "cacheKey sha256 route data = route @ ''|'' @ hexEncode (sha256 data)"

text \<open>An encoder that fails returns no bytes.\<close>

definition renderUncached :: "'d Sidecar \<Rightarrow> Client \<Rightarrow> 'd RenderRequest \<Rightarrow> (string, RenderResponse) result" where
  "renderUncached sc c req = callSidecar sc (cl_endpoint c) req []"

definition Render :: "('d \<Rightarrow> string option) \<Rightarrow> (string \<Rightarrow> string) \<Rightarrow> int \<Rightarrow> 'd Sidecar \<Rightarrow> 'd RenderRequest \<Rightarrow> Client
    \<Rightarrow> (string, RenderResponse) result \<times> Client" where
  "Render marshal sha256 now sc req c = (case marshal (rr_Data req) of
      None \<Rightarrow> (renderUncached sc c req, c)
    | Some dataBytes \<Rightarrow>
        (let key = cacheKey sha256 (rr_Route req) dataBytes;
             (hit, cache) = lruGet now key (cl_cache c);
             c = c\<lparr>cl_cache := cache\<rparr>
         in case hit of
           Some entry \<Rightarrow> (Inr \<lparr>rp_Body = ce_body entry, rp_Head = ce_head entry\<rparr>, c)
         | None \<Rightarrow> (case callSidecar sc (cl_endpoint c) req dataBytes of
               Inl e \<Rightarrow> (Inl e, c)
             | Inr resp \<Rightarrow> (Inr resp, c\<lparr>cl_cache := lruPut now key
                 \<lparr>ce_body = rp_Body resp, ce_head = rp_Head resp, ce_expires = 0\<rparr> (cl_cache c)\<rparr>))))"

definition Stats :: "Client \<Rightarrow> nat" where
  "Stats c = lruLen (cl_cache c)"

section \<open>The registry\<close>

record Registry =
  rg_routes :: "string gomap"
  rg_client :: "Client option"

definition defaultRegistry :: Registry where
  "defaultRegistry = \<lparr>rg_routes = [], rg_client = None\<rparr>"

definition Register :: "string \<Rightarrow> string \<Rightarrow> Registry \<Rightarrow> Registry" where
  "Register pattern source r = r\<lparr>rg_routes := setKey pattern source (rg_routes r)\<rparr>"

definition Configure :: "Client \<Rightarrow> Registry \<Rightarrow> Registry" where
  "Configure client r = r\<lparr>rg_client := Some client\<rparr>"

definition registryRoutes :: "Registry \<Rightarrow> string gomap" where
  "registryRoutes r = foldl (\<lambda>out (k, v). setKey k v out) [] (rg_routes r)"

definition HasRoutes :: "Registry \<Rightarrow> bool" where
  "HasRoutes r = (length (rg_routes r) > 0)"

definition registryRender :: "('d \<Rightarrow> string option) \<Rightarrow> (string \<Rightarrow> string) \<Rightarrow> int \<Rightarrow> 'd Sidecar \<Rightarrow> string \<Rightarrow> 'd \<Rightarrow> Registry
    \<Rightarrow> (string, RenderResponse) result \<times> Registry" where
  "registryRender marshal sha256 now sc route data r = (case map_of (rg_routes r) route of
      None \<Rightarrow> (Inl (''fallback: route not registered: '' @ route), r)
    | Some source \<Rightarrow> (case rg_client r of
          None \<Rightarrow> (Inl ''fallback: registry not configured (sidecar not started)'', r)
        | Some client \<Rightarrow>
            (let (res, client) = Render marshal sha256 now sc
                   \<lparr>rr_Route = route, rr_Source = source, rr_Data = data\<rparr> client
             in (res, r\<lparr>rg_client := Some client\<rparr>))))"

definition Reset :: "Registry \<Rightarrow> Registry" where
  "Reset r = r\<lparr>rg_routes := [], rg_client := None\<rparr>"

section \<open>The markers around a fragment\<close>

definition fragmentOpen :: string where
  "fragmentOpen = ''<!--[-->''"

definition fragmentClose :: string where
  "fragmentClose = ''<!--]-->''"

definition fragmentSpaces :: string where
  "fragmentSpaces = [CHR '' '', CHR 0x09, CHR 0x0D, CHR 0x0A]"

definition StripFragmentMarkers :: "string \<Rightarrow> string" where
  "StripFragmentMarkers body =
    (let trimmedLeft = trimLeft body fragmentSpaces in
     if \<not> hasPrefix trimmedLeft fragmentOpen then body
     else
       (let leftPad = take (length body - length trimmedLeft) body;
            rest = drop (length fragmentOpen) trimmedLeft;
            trimmedRight = trimRight rest fragmentSpaces
        in if \<not> hasSuffix trimmedRight fragmentClose then body
           else
             (let rightPad = drop (length trimmedRight) rest;
                  inner = take (length trimmedRight - length fragmentClose) trimmedRight
              in leftPad @ inner @ rightPad)))"

section \<open>The cache refines a recency list\<close>

text \<open>The abstract cache: the entries from the most to the least recently used one.\<close>

type_synonym recency = "(string \<times> cacheEntry) list"

definition specGet :: "int \<Rightarrow> int \<Rightarrow> string \<Rightarrow> recency \<Rightarrow> cacheEntry option \<times> recency" where
  "specGet ttl now key l = (case map_of l key of
      None \<Rightarrow> (None, l)
    | Some e \<Rightarrow> if 0 < ttl \<and> ce_expires e < now then (None, delKey key l)
                else (Some e, (key, e) # delKey key l))"

definition stamped :: "int \<Rightarrow> int \<Rightarrow> cacheEntry \<Rightarrow> cacheEntry" where
  "stamped ttl now e = (if 0 < ttl then e\<lparr>ce_expires := now + ttl\<rparr> else e)"

definition specPut :: "nat \<Rightarrow> int \<Rightarrow> int \<Rightarrow> string \<Rightarrow> cacheEntry \<Rightarrow> recency \<Rightarrow> recency" where
  "specPut cap ttl now key e l = (key, stamped ttl now e) #
     (if key \<in> fst ` set l then delKey key l else take (cap - 1) l)"

text \<open>What the heap of elements and the map stand for, and when they agree.\<close>

definition keyAt :: "lruCache \<Rightarrow> nat \<Rightarrow> string" where
  "keyAt c el = lv_key (lc_els c el)"

definition absLRU :: "lruCache \<Rightarrow> recency" where
  "absLRU c = map (\<lambda>el. (keyAt c el, lv_entry (lc_els c el))) (lc_order c)"

definition lruInv :: "lruCache \<Rightarrow> bool" where
  "lruInv c \<longleftrightarrow> 1 \<le> lc_capacity c \<and> int (length (lc_order c)) \<le> lc_capacity c
     \<and> distinct (map (keyAt c) (lc_order c))
     \<and> lc_items c = map_of (map (\<lambda>el. (keyAt c el, el)) (lc_order c))
     \<and> (\<forall>el \<in> set (lc_order c). el < lc_next c)"


lemma filter_remove1: "distinct (map f xs) \<Longrightarrow> x \<in> set xs \<Longrightarrow> filter (\<lambda>y. f y \<noteq> f x) xs = remove1 x xs"
proof (induction xs)
  case (Cons a xs)
  show ?case
  proof (cases "a = x")
    case True
    then have "filter (\<lambda>y. f y \<noteq> f x) xs = xs" using Cons.prems by (auto simp: filter_id_conv rev_image_eqI)
    then show ?thesis using True by simp
  next
    case False
    then show ?thesis using Cons by auto
  qed
qed simp

lemma delKey_map: "delKey k (map (\<lambda>x. (f x, g x)) xs) = map (\<lambda>x. (f x, g x)) (filter (\<lambda>x. f x \<noteq> k) xs)"
  unfolding delKey_def by (induction xs) auto

lemma map_of_keyed: "map_of (map (\<lambda>x. (f x, g x)) xs) k = Some v \<Longrightarrow> \<exists>x \<in> set xs. f x = k \<and> v = g x"
  by (induction xs) (auto split: if_splits)

lemma map_of_keyed_in: "distinct (map f xs) \<Longrightarrow> x \<in> set xs \<Longrightarrow> map_of (map (\<lambda>x. (f x, g x)) xs) (f x) = Some (g x)"
  by (induction xs) (auto simp: image_iff)

lemma map_of_keyed_None: "map_of (map (\<lambda>x. (f x, g x)) xs) k = None \<longleftrightarrow> k \<notin> f ` set xs"
  by (induction xs) auto

text \<open>An element the map knows is in the list under its own key.\<close>

lemma lruInv_item:
  assumes "lruInv c"
  shows "lc_items c k = Some el \<Longrightarrow> el \<in> set (lc_order c) \<and> keyAt c el = k
      \<and> map_of (absLRU c) k = Some (lv_entry (lc_els c el))"
    and "lc_items c k = None \<Longrightarrow> map_of (absLRU c) k = None \<and> k \<notin> keyAt c ` set (lc_order c)"
proof -
  have d: "distinct (map (keyAt c) (lc_order c))"
    and it: "lc_items c = map_of (map (\<lambda>el. (keyAt c el, el)) (lc_order c))"
    using assms by (simp_all add: lruInv_def)
  show "el \<in> set (lc_order c) \<and> keyAt c el = k \<and> map_of (absLRU c) k = Some (lv_entry (lc_els c el))"
    if "lc_items c k = Some el"
    using map_of_keyed[OF that[unfolded it]] map_of_keyed_in[OF d] unfolding absLRU_def by auto
  show "map_of (absLRU c) k = None \<and> k \<notin> keyAt c ` set (lc_order c)" if "lc_items c k = None"
    using that unfolding it absLRU_def map_of_keyed_None by simp
qed

text \<open>Reordering or dropping elements keeps the invariant when the map forgets the dropped keys.\<close>

lemma lruInv_sub:
  assumes "lruInv c" "set o' \<subseteq> set (lc_order c)" "distinct (map (keyAt c) o')" "length o' \<le> length (lc_order c)"
    "items = map_of (map (\<lambda>el. (keyAt c el, el)) o')"
  shows "lruInv (c\<lparr>lc_order := o', lc_items := items\<rparr>)"
proof -
  have k: "keyAt (c\<lparr>lc_order := o', lc_items := items\<rparr>) = keyAt c" by (rule ext) (simp add: keyAt_def)
  show ?thesis using assms unfolding lruInv_def k by auto
qed

lemma map_of_dropped:
  fixes f :: "'a \<Rightarrow> string"
  assumes "distinct (map f xs)" "x \<in> set xs"
  shows "map_of (map (\<lambda>x. (f x, x)) (remove1 x xs)) = (map_of (map (\<lambda>x. (f x, x)) xs))(f x := None)"
  using delKey_lookup[of "f x" "map (\<lambda>x. (f x, x)) xs"] unfolding delKey_map filter_remove1[OF assms] .

lemma map_of_fronted:
  fixes f :: "'a \<Rightarrow> string"
  assumes "distinct (map f xs)" "x \<in> set xs"
  shows "map_of (map (\<lambda>x. (f x, x)) (x # remove1 x xs)) = map_of (map (\<lambda>x. (f x, x)) xs)"
proof -
  have "map_of (map (\<lambda>x. (f x, x)) xs) (f x) = Some x" by (rule map_of_keyed_in[OF assms])
  then show ?thesis using map_of_dropped[OF assms] by (simp add: fun_eq_iff)
qed

lemma distinct_fronted:
  "distinct (map f xs) \<Longrightarrow> x \<in> set xs \<Longrightarrow> distinct (map f (x # remove1 x xs))"
  using filter_remove1[of f xs x] by (auto simp: distinct_map inj_on_def)

lemma distinct_dropped: "distinct (map f xs) \<Longrightarrow> distinct (map f (remove1 x xs))"
  by (auto simp: distinct_map inj_on_def dest: notin_set_remove1 set_remove1_subset[THEN subsetD])


lemma lruGet_refines:
  assumes "lruInv c"
  shows "lruInv (snd (lruGet now k c))"
    "(fst (lruGet now k c), absLRU (snd (lruGet now k c))) = specGet (lc_ttl c) now k (absLRU c)"
    "lc_ttl (snd (lruGet now k c)) = lc_ttl c" "lc_capacity (snd (lruGet now k c)) = lc_capacity c"
proof -
  have d: "distinct (map (keyAt c) (lc_order c))"
    and it: "lc_items c = map_of (map (\<lambda>el. (keyAt c el, el)) (lc_order c))"
    using assms by (simp_all add: lruInv_def)
  have "lruInv (snd (lruGet now k c))
    \<and> (fst (lruGet now k c), absLRU (snd (lruGet now k c))) = specGet (lc_ttl c) now k (absLRU c)
    \<and> lc_ttl (snd (lruGet now k c)) = lc_ttl c \<and> lc_capacity (snd (lruGet now k c)) = lc_capacity c"
  proof (cases "lc_items c k")
    case None
    then show ?thesis using assms lruInv_item(2)[OF assms None] by (simp add: lruGet_def specGet_def)
  next
    case (Some el)
    note el = lruInv_item(1)[OF assms Some]
    let ?drop = "remove1 el (lc_order c)"
    let ?e = "lv_entry (lc_els c el)"
    have del: "delKey k (absLRU c) = map (\<lambda>el. (keyAt c el, lv_entry (lc_els c el))) ?drop"
      using el filter_remove1[OF d, of el] unfolding absLRU_def delKey_map by simp
    have dropped: "lruInv (c\<lparr>lc_order := ?drop, lc_items := (lc_items c)(k := None)\<rparr>)"
      using el map_of_dropped[OF d, of el]
      by (intro lruInv_sub assms) (auto simp: it length_remove1 distinct_dropped[OF d] dest: notin_set_remove1 set_remove1_subset[THEN subsetD])
    have fronted: "lruInv (c\<lparr>lc_order := el # ?drop, lc_items := lc_items c\<rparr>)"
      using el map_of_fronted[OF d, of el] distinct_fronted[OF d, of el] length_pos_if_in_set[of el "lc_order c"]
      by (intro lruInv_sub assms) (auto simp: it length_remove1 dest: set_remove1_subset[THEN subsetD])
    have abs': "absLRU (c\<lparr>lc_order := os, lc_items := m\<rparr>) = map (\<lambda>el. (keyAt c el, lv_entry (lc_els c el))) os"
      for os m by (simp add: absLRU_def keyAt_def)
    show ?thesis
      using el dropped fronted del abs' abs'[where m = "lc_items c"] Some
      by (simp add: lruGet_def specGet_def Let_def listRemove_def moveToFront_def)
  qed
  then show "lruInv (snd (lruGet now k c))"
    "(fst (lruGet now k c), absLRU (snd (lruGet now k c))) = specGet (lc_ttl c) now k (absLRU c)"
    "lc_ttl (snd (lruGet now k c)) = lc_ttl c" "lc_capacity (snd (lruGet now k c)) = lc_capacity c"
    by blast+
qed


lemma remove1_last_butlast: "distinct xs \<Longrightarrow> xs \<noteq> [] \<Longrightarrow> remove1 (last xs) xs = butlast xs"
  by (induction xs) auto

lemma evictLoop_step:
  assumes "lc_capacity c \<le> int (length (lc_order c))" "lc_order c \<noteq> []"
  shows "evictLoop c = evictLoop (c\<lparr>lc_order := remove1 (last (lc_order c)) (lc_order c),
    lc_items := (lc_items c)(keyAt c (last (lc_order c)) := None)\<rparr>)"
proof -
  obtain a as where "lc_order c = a # as" using assms(2) by (cases "lc_order c") auto
  then show ?thesis using assms(1)
    by (subst evictLoop.simps) (simp add: Let_def listRemove_def keyAt_def del: last.simps remove1.simps)
qed

lemma evictLoop_room:
  assumes "lruInv c"
  defines "kept \<equiv> take (nat (lc_capacity c) - 1) (lc_order c)"
  shows "evictLoop c = c\<lparr>lc_order := kept, lc_items := map_of (map (\<lambda>el. (keyAt c el, el)) kept)\<rparr>"
proof (cases "lc_capacity c \<le> int (length (lc_order c))")
  case False
  then have "kept = lc_order c" unfolding kept_def by simp
  then show ?thesis using False assms(1) by (subst evictLoop.simps) (simp add: lruInv_def)
next
  case True
  let ?os = "lc_order c"
  have d: "distinct (map (keyAt c) ?os)"
    and it: "lc_items c = map_of (map (\<lambda>el. (keyAt c el, el)) ?os)"
    and full: "lc_capacity c = int (length ?os)" and ne: "?os \<noteq> []"
    using assms(1) True by (auto simp: lruInv_def)
  have kept: "remove1 (last ?os) ?os = kept"
    unfolding kept_def full using remove1_last_butlast[OF distinct_map[THEN iffD1, THEN conjunct1, OF d] ne] by (simp add: butlast_conv_take)
  have items: "(lc_items c)(keyAt c (last ?os) := None) = map_of (map (\<lambda>el. (keyAt c el, el)) kept)"
    unfolding it kept[symmetric] by (rule map_of_dropped[OF d last_in_set[OF ne], symmetric])
  have "length kept < length ?os" unfolding kept_def full using ne by simp
  then have stop: "evictLoop (c\<lparr>lc_order := kept, lc_items := m\<rparr>) = c\<lparr>lc_order := kept, lc_items := m\<rparr>" for m
    by (subst evictLoop.simps) (simp add: full)
  show ?thesis unfolding evictLoop_step[OF True ne] kept items by (rule stop)
qed

lemma lruInv_push:
  fixes e :: cacheEntry
  assumes "lruInv c" "int (length kept) < lc_capacity c" "set kept \<subseteq> set (lc_order c)"
    "distinct (map (keyAt c) kept)" "key \<notin> keyAt c ` set kept"
  defines "c' \<equiv> c\<lparr>lc_order := lc_next c # kept, lc_els := (lc_els c)(lc_next c := \<lparr>lv_key = key, lv_entry = e\<rparr>),
      lc_next := Suc (lc_next c), lc_items := (map_of (map (\<lambda>el. (keyAt c el, el)) kept))(key \<mapsto> lc_next c)\<rparr>"
  shows "lruInv c'" "absLRU c' = (key, e) # map (\<lambda>el. (keyAt c el, lv_entry (lc_els c el))) kept"
proof -
  have old: "el < lc_next c" if "el \<in> set kept" for el using assms(1,3) that by (auto simp: lruInv_def)
  have kept: "keyAt c' el = keyAt c el \<and> lc_els c' el = lc_els c el" if "el \<in> set kept" for el
    using old[OF that] by (simp add: c'_def keyAt_def)
  have fresh: "keyAt c' (lc_next c) = key" by (simp add: c'_def keyAt_def)
  have m: "map (keyAt c') kept = map (keyAt c) kept"
    "map (\<lambda>el. (keyAt c' el, el)) kept = map (\<lambda>el. (keyAt c el, el)) kept"
    "map (\<lambda>el. (keyAt c' el, lv_entry (lc_els c' el))) kept = map (\<lambda>el. (keyAt c el, lv_entry (lc_els c el))) kept"
    using kept by auto
  have o': "lc_order c' = lc_next c # kept" "lc_capacity c' = lc_capacity c" "lc_next c' = Suc (lc_next c)"
    "lc_items c' = (map_of (map (\<lambda>el. (keyAt c el, el)) kept))(key \<mapsto> lc_next c)"
    "lv_entry (lc_els c' (lc_next c)) = e"
    by (simp_all add: c'_def)
  show "lruInv c'" using assms(1,2,4,5) old unfolding lruInv_def o' list.map fresh m
    by (auto simp: less_Suc_eq)
  show "absLRU c' = (key, e) # map (\<lambda>el. (keyAt c el, lv_entry (lc_els c el))) kept"
    unfolding absLRU_def o'(1) list.map fresh m o'(5) ..
qed

lemma lruPut_refines:
  assumes "lruInv c"
  shows "lruInv (lruPut now k e c)"
    "absLRU (lruPut now k e c) = specPut (nat (lc_capacity c)) (lc_ttl c) now k e (absLRU c)"
    "lc_ttl (lruPut now k e c) = lc_ttl c" "lc_capacity (lruPut now k e c) = lc_capacity c"
proof -
  let ?e = "stamped (lc_ttl c) now e"
  have d: "distinct (map (keyAt c) (lc_order c))"
    and it: "lc_items c = map_of (map (\<lambda>el. (keyAt c el, el)) (lc_order c))"
    using assms by (simp_all add: lruInv_def)
  have keys: "fst ` set (absLRU c) = keyAt c ` set (lc_order c)" by (force simp: absLRU_def)
  have "lruInv (lruPut now k e c)
    \<and> absLRU (lruPut now k e c) = specPut (nat (lc_capacity c)) (lc_ttl c) now k e (absLRU c)
    \<and> lc_ttl (lruPut now k e c) = lc_ttl c \<and> lc_capacity (lruPut now k e c) = lc_capacity c"
  proof (cases "lc_items c k")
    case (Some el)
    note el = lruInv_item(1)[OF assms Some]
    let ?c = "c\<lparr>lc_els := (lc_els c)(el := (lc_els c el)\<lparr>lv_entry := ?e\<rparr>)\<rparr>"
    let ?drop = "remove1 el (lc_order c)"
    have k: "keyAt ?c = keyAt c" by (rule ext) (simp add: keyAt_def)
    have inv: "lruInv ?c" using assms unfolding lruInv_def k by simp
    have put: "lruPut now k e c = ?c\<lparr>lc_order := el # ?drop, lc_items := lc_items ?c\<rparr>"
      using Some el by (simp add: lruPut_def Let_def moveToFront_def stamped_def)
    have "el \<notin> set ?drop" using d el by (simp add: distinct_map)
    then have drop: "map (\<lambda>x. (keyAt c x, lv_entry (lc_els ?c x))) ?drop
        = map (\<lambda>x. (keyAt c x, lv_entry (lc_els c x))) ?drop" by auto
    have "delKey k (absLRU c) = map (\<lambda>el. (keyAt c el, lv_entry (lc_els c el))) ?drop"
      using el filter_remove1[OF d, of el] unfolding absLRU_def delKey_map by simp
    moreover have "absLRU (lruPut now k e c) = (k, ?e) # map (\<lambda>x. (keyAt c x, lv_entry (lc_els ?c x))) ?drop"
      using el unfolding put by (simp add: absLRU_def keyAt_def)
    moreover have "lruInv (lruPut now k e c)"
      unfolding put
      using el map_of_fronted[OF d, of el] distinct_fronted[OF d, of el] length_pos_if_in_set[of el "lc_order c"]
      by (intro lruInv_sub inv) (auto simp: k it length_remove1 dest: set_remove1_subset[THEN subsetD])
    ultimately show ?thesis using el keys drop by (auto simp: specPut_def put)
  next
    case None
    note no = lruInv_item(2)[OF assms None, THEN conjunct2]
    let ?kept = "take (nat (lc_capacity c) - 1) (lc_order c)"
    have put: "lruPut now k e c = c\<lparr>lc_order := lc_next c # ?kept,
        lc_els := (lc_els c)(lc_next c := \<lparr>lv_key = k, lv_entry = ?e\<rparr>), lc_next := Suc (lc_next c),
        lc_items := (map_of (map (\<lambda>el. (keyAt c el, el)) ?kept))(k \<mapsto> lc_next c)\<rparr>"
      using None by (simp add: lruPut_def Let_def stamped_def evictLoop_room[OF assms] pushFront_def)
    have "lruInv (lruPut now k e c)"
      "absLRU (lruPut now k e c) = (k, ?e) # map (\<lambda>el. (keyAt c el, lv_entry (lc_els c el))) ?kept"
      unfolding put
      by (rule lruInv_push[OF assms];
          use assms no d in \<open>auto simp: lruInv_def take_map[symmetric] dest: in_set_takeD\<close>)+
    then show ?thesis using no keys by (auto simp: specPut_def put absLRU_def take_map)
  qed
  then show "lruInv (lruPut now k e c)"
    "absLRU (lruPut now k e c) = specPut (nat (lc_capacity c)) (lc_ttl c) now k e (absLRU c)"
    "lc_ttl (lruPut now k e c) = lc_ttl c" "lc_capacity (lruPut now k e c) = lc_capacity c"
    by blast+
qed

datatype cacheOp = OpGet string | OpPut string cacheEntry | OpLen

datatype cacheRes = ResEntry "cacheEntry option" | ResDone | ResLen nat

fun lruStep :: "int \<times> cacheOp \<Rightarrow> lruCache \<Rightarrow> cacheRes \<times> lruCache" where
  "lruStep (now, OpGet k) c = (let (r, c) = lruGet now k c in (ResEntry r, c))"
| "lruStep (now, OpPut k e) c = (ResDone, lruPut now k e c)"
| "lruStep (now, OpLen) c = (ResLen (lruLen c), c)"

fun specStep :: "nat \<Rightarrow> int \<Rightarrow> int \<times> cacheOp \<Rightarrow> recency \<Rightarrow> cacheRes \<times> recency" where
  "specStep cap ttl (now, OpGet k) l = (let (r, l) = specGet ttl now k l in (ResEntry r, l))"
| "specStep cap ttl (now, OpPut k e) l = (ResDone, specPut cap ttl now k e l)"
| "specStep cap ttl (now, OpLen) l = (ResLen (length l), l)"

definition lenWithin :: "nat \<Rightarrow> cacheRes \<Rightarrow> bool" where
  "lenWithin cap r = (case r of ResLen n \<Rightarrow> n \<le> cap | _ \<Rightarrow> True)"

text \<open>The abstract state is the capacity, the lifetime and the recency list.\<close>

fun boundedStep :: "int \<times> cacheOp \<Rightarrow> nat \<times> int \<times> recency \<Rightarrow> cacheRes \<times> nat \<times> int \<times> recency" where
  "boundedStep op (cap, ttl, l) = (let (r, l') = specStep cap ttl op l in (r, cap, ttl, l'))"

definition absCache :: "lruCache \<Rightarrow> nat \<times> int \<times> recency" where
  "absCache c = (nat (lc_capacity c), lc_ttl c, absLRU c)"

interpretation lru: simulation lruStep boundedStep id absCache lruInv "\<lambda>_ _. True"
proof
  fix c :: lruCache and op :: "int \<times> cacheOp"
  assume inv: "lruInv c"
  obtain now o' where op: "op = (now, o')" by force
  show "lruInv (snd (lruStep op c))"
    unfolding op by (cases o') (simp_all add: lruGet_refines(1)[OF inv] lruPut_refines(1)[OF inv] inv case_prod_beta)
  show "boundedStep op (absCache c) = (id (fst (lruStep op c)), absCache (snd (lruStep op c)))"
  proof (cases o')
    case (OpGet k)
    then show ?thesis
      using lruGet_refines(2)[OF inv, of now k, symmetric] lruGet_refines(3,4)[OF inv, of now k]
      unfolding op absCache_def by (simp add: case_prod_beta)
  next
    case (OpPut k e)
    then show ?thesis using lruPut_refines[OF inv] unfolding op absCache_def by simp
  next
    case OpLen
    then show ?thesis unfolding op absCache_def by (simp add: lruLen_def absLRU_def)
  qed
qed

lemma boundedStep_run: "runOps boundedStep ops (cap, ttl, l) = runOps (specStep cap ttl) ops l"
  by (induction ops arbitrary: l) (simp_all add: case_prod_beta)

text \<open>The capacity never changes.\<close>

lemma lruLen_bound:
  assumes "lruInv c" "lc_capacity c = cap"
  shows "lenWithin (nat cap) (fst (lruStep op c))" "lc_capacity (snd (lruStep op c)) = cap"
  using assms lruGet_refines(4)[OF assms(1)] lruPut_refines(4)[OF assms(1)]
  by (cases op; cases "snd op"; force simp: lenWithin_def lruLen_def lruInv_def case_prod_beta)+

lemma lruRun_bound: "lruInv c \<Longrightarrow> lc_capacity c = cap \<Longrightarrow> list_all (lenWithin (nat cap)) (runOps lruStep ops c)"
proof (induction ops arbitrary: c)
  case (Cons op ops)
  then show ?case using lruLen_bound[OF Cons.prems] lru.keeps[OF Cons.prems(1)] by (simp add: case_prod_beta)
qed simp

lemma newLRUCache_inv:
  "lruInv (newLRUCache cap ttl)" "absLRU (newLRUCache cap ttl) = []"
  "lc_ttl (newLRUCache cap ttl) = ttl" "lc_capacity (newLRUCache cap ttl) = max 1 cap"
  by (auto simp: lruInv_def newLRUCache_def absLRU_def)

text \<open>C31. The cache of rendered pages behaves like a recency list under every sequence of lookups,
  insertions and size queries at any times: a hit moves its entry to the front, an expired entry is
  dropped when it is looked up, an insertion into a full cache drops the entry at the back. The hash
  map and the linked list never disagree, and no size query ever answers more than the capacity (one
  when the configured capacity is not positive).\<close>

theorem lru_refines_recency:
  "runOps lruStep ops (newLRUCache capacity ttl) = runOps (specStep (nat (max 1 capacity)) ttl) ops []
   \<and> list_all (lenWithin (nat (max 1 capacity))) (runOps lruStep ops (newLRUCache capacity ttl))"
  using lru.run[OF newLRUCache_inv(1)[of capacity ttl], of ops] lruRun_bound[OF newLRUCache_inv(1,4)[of capacity ttl], of ops]
  by (simp add: absCache_def newLRUCache_inv boundedStep_run)

section \<open>What the client relies on\<close>

text \<open>The contract of a cache of timed entries, and what follows for a client that stores only what
  it fetched: a hit is a page fetched under the same key not longer than the lifetime ago.\<close>

locale timed_cache =
  fixes get :: "int \<Rightarrow> string \<Rightarrow> 'c \<Rightarrow> cacheEntry option \<times> 'c"
    and put :: "int \<Rightarrow> string \<Rightarrow> cacheEntry \<Rightarrow> 'c \<Rightarrow> 'c"
    and holds :: "'c \<Rightarrow> string \<Rightarrow> cacheEntry option"
    and life :: "'c \<Rightarrow> int"
    and ok :: "'c \<Rightarrow> bool"
  assumes get_ok: "ok c \<Longrightarrow> ok (snd (get now k c))"
    and put_ok: "ok c \<Longrightarrow> ok (put now k e c)"
    and get_life: "ok c \<Longrightarrow> life (snd (get now k c)) = life c"
    and put_life: "ok c \<Longrightarrow> life (put now k e c) = life c"
    and get_hit: "ok c \<Longrightarrow> fst (get now k c) = Some e \<Longrightarrow>
      holds c k = Some e \<and> (0 < life c \<longrightarrow> now \<le> ce_expires e)"
    and get_keeps: "ok c \<Longrightarrow> holds (snd (get now k c)) k' = Some e \<Longrightarrow> holds c k' = Some e"
    and put_keeps: "ok c \<Longrightarrow> holds (put now k e c) k' = Some e' \<Longrightarrow>
      (k' = k \<and> e' = stamped (life c) now e) \<or> holds c k' = Some e'"
begin

text \<open>Every entry was fetched: the history lists time, key, body and head of the fetches.\<close>

definition fetched :: "(int \<times> string \<times> string \<times> string) set \<Rightarrow> 'c \<Rightarrow> bool" where
  "fetched h c \<longleftrightarrow> (\<forall>k e. holds c k = Some e \<longrightarrow>
     (\<exists>t. (t, k, ce_body e, ce_head e) \<in> h \<and> (0 < life c \<longrightarrow> ce_expires e = t + life c)))"

lemma fetched_get: "ok c \<Longrightarrow> fetched h c \<Longrightarrow> fetched h (snd (get now k c))"
  unfolding fetched_def using get_keeps get_life by fastforce

lemma fetched_put:
  "ok c \<Longrightarrow> fetched h c \<Longrightarrow> (now, k, ce_body e, ce_head e) \<in> h' \<Longrightarrow> h \<subseteq> h' \<Longrightarrow> fetched h' (put now k e c)"
  unfolding fetched_def using put_keeps put_life by (fastforce simp: stamped_def)

lemma fetched_hit:
  assumes "ok c" "fetched h c" "fst (get now k c) = Some e"
  shows "\<exists>t. (t, k, ce_body e, ce_head e) \<in> h \<and> (0 < life c \<longrightarrow> now \<le> t + life c)"
  using get_hit[OF assms(1,3)] assms(2) unfolding fetched_def by fastforce

lemma fetched_mono: "fetched h c \<Longrightarrow> h \<subseteq> h' \<Longrightarrow> fetched h' c"
  unfolding fetched_def by blast

end

definition lruHolds :: "lruCache \<Rightarrow> string \<Rightarrow> cacheEntry option" where
  "lruHolds c = map_of (absLRU c)"

lemma map_of_take: "map_of (take n l) k = Some v \<Longrightarrow> map_of l k = Some v"
  by (induction l arbitrary: n) (auto simp: take_Cons' split: if_splits)

interpretation lc: timed_cache lruGet lruPut lruHolds lc_ttl lruInv
proof
  fix c :: lruCache and now k e k' e'
  assume inv: "lruInv c"
  note g = lruGet_refines[OF inv] and p = lruPut_refines[OF inv]
  show "lruInv (snd (lruGet now k c))" "lc_ttl (snd (lruGet now k c)) = lc_ttl c" by (rule g(1), rule g(3))
  show "lruInv (lruPut now k e c)" "lc_ttl (lruPut now k e c) = lc_ttl c" by (rule p(1), rule p(3))
  have fs: "fst (lruGet now k c) = fst (specGet (lc_ttl c) now k (absLRU c))"
    "absLRU (snd (lruGet now k c)) = snd (specGet (lc_ttl c) now k (absLRU c))"
    using g(2)[of now k] by (metis fst_conv, metis snd_conv)
  show "fst (lruGet now k c) = Some e \<Longrightarrow> lruHolds c k = Some e \<and> (0 < lc_ttl c \<longrightarrow> now \<le> ce_expires e)"
    unfolding fs lruHolds_def by (auto simp: specGet_def split: option.splits if_splits)
  show "lruHolds (snd (lruGet now k c)) k' = Some e \<Longrightarrow> lruHolds c k' = Some e"
    unfolding fs lruHolds_def by (auto simp: specGet_def delKey_lookup split: option.splits if_splits)
  show "lruHolds (lruPut now k e c) k' = Some e' \<Longrightarrow>
      (k' = k \<and> e' = stamped (lc_ttl c) now e) \<or> lruHolds c k' = Some e'"
    unfolding p(2) lruHolds_def by (auto simp: specPut_def delKey_lookup split: if_splits dest: map_of_take)
qed

text \<open>A history of render calls: the time, the surroundings and the request of each.\<close>

type_synonym 'd renderEvent = "int \<times> 'd Sidecar \<times> 'd RenderRequest"

fun renderStep :: "('d \<Rightarrow> string option) \<Rightarrow> (string \<Rightarrow> string) \<Rightarrow> 'd renderEvent \<Rightarrow> Client
    \<Rightarrow> (string, RenderResponse) result \<times> Client" where
  "renderStep marshal sha256 (now, sc, req) c = Render marshal sha256 now sc req c"

text \<open>The sidecar itself answered \<open>resp\<close> to the event.\<close>

fun answered :: "('d \<Rightarrow> string option) \<Rightarrow> string \<Rightarrow> 'd renderEvent \<Rightarrow> RenderResponse \<Rightarrow> bool" where
  "answered marshal endpoint (now, sc, req) resp \<longleftrightarrow> callSidecar sc endpoint req
     (case marshal (rr_Data req) of None \<Rightarrow> [] | Some b \<Rightarrow> b) = Inr resp"

text \<open>Two events ask for the same page: one route, and data with one digest.\<close>

fun samePage :: "('d \<Rightarrow> string option) \<Rightarrow> (string \<Rightarrow> string) \<Rightarrow> 'd renderEvent \<Rightarrow> 'd renderEvent \<Rightarrow> bool" where
  "samePage marshal sha256 (_, _, r1) (_, _, r2) \<longleftrightarrow> rr_Route r1 = rr_Route r2
     \<and> (case (marshal (rr_Data r1), marshal (rr_Data r2)) of
          (Some b1, Some b2) \<Rightarrow> sha256 b1 = sha256 b2 | _ \<Rightarrow> False)"

lemma cacheKey_inj:
  assumes "\<And>d. length (sha256 d) = 32" "cacheKey sha256 r1 d1 = cacheKey sha256 r2 d2"
  shows "r1 = r2 \<and> sha256 d1 = sha256 d2"
proof -
  have "length (hexEncode (sha256 d1)) = length (hexEncode (sha256 d2))" using assms(1) by simp
  then show ?thesis using assms(2) unfolding cacheKey_def by (auto simp: hexEncode_inj)
qed

text \<open>The fetches of a history of events.\<close>

definition fetches :: "('d \<Rightarrow> string option) \<Rightarrow> (string \<Rightarrow> string) \<Rightarrow> string \<Rightarrow> 'd renderEvent list
    \<Rightarrow> (int \<times> string \<times> string \<times> string) set" where
  "fetches marshal sha256 endpoint evs = {(t, k, b, h). \<exists>sc req d. (t, sc, req) \<in> set evs \<and> marshal (rr_Data req) = Some d
     \<and> k = cacheKey sha256 (rr_Route req) d
     \<and> callSidecar sc endpoint req d = Inr \<lparr>rp_Body = b, rp_Head = h\<rparr>}"

lemma fetches_mono: "set evs \<subseteq> set evs' \<Longrightarrow> fetches m s e evs \<subseteq> fetches m s e evs'"
  unfolding fetches_def by blast

text \<open>One call keeps the connection of the cache with the history, and its answer comes from the
  sidecar in this call or from an earlier fetch that is still alive.\<close>

lemma Render_step:
  fixes c :: Client and now :: int and sc :: "'d Sidecar" and req :: "'d RenderRequest"
    and m :: "'d \<Rightarrow> string option" and s :: "string \<Rightarrow> string"
  assumes inv: "lruInv (cl_cache c)" and hist: "lc.fetched (fetches m s (cl_endpoint c) evs) (cl_cache c)"
  defines "c' \<equiv> snd (Render m s now sc req c)"
  shows "lruInv (cl_cache c') \<and> cl_endpoint c' = cl_endpoint c \<and> lc_ttl (cl_cache c') = lc_ttl (cl_cache c)
     \<and> lc.fetched (fetches m s (cl_endpoint c) (evs @ [(now, sc, req)])) (cl_cache c')"
    and "fst (Render m s now sc req c) = Inr resp \<Longrightarrow> answered m (cl_endpoint c) (now, sc, req) resp
     \<or> (\<exists>d t. m (rr_Data req) = Some d
          \<and> (t, cacheKey s (rr_Route req) d, rp_Body resp, rp_Head resp) \<in> fetches m s (cl_endpoint c) evs
          \<and> (0 < lc_ttl (cl_cache c) \<longrightarrow> now \<le> t + lc_ttl (cl_cache c)))"
proof -
  let ?h = "fetches m s (cl_endpoint c) evs" and ?h' = "fetches m s (cl_endpoint c) (evs @ [(now, sc, req)])"
  have sub: "?h \<subseteq> ?h'" by (rule fetches_mono) auto
  have old: "lc.fetched ?h' (cl_cache c)" by (rule lc.fetched_mono[OF hist sub])
  have both: "(lruInv (cl_cache c') \<and> cl_endpoint c' = cl_endpoint c \<and> lc_ttl (cl_cache c') = lc_ttl (cl_cache c)
     \<and> lc.fetched ?h' (cl_cache c'))
    \<and> (fst (Render m s now sc req c) = Inr resp \<longrightarrow> answered m (cl_endpoint c) (now, sc, req) resp
     \<or> (\<exists>d t. m (rr_Data req) = Some d
          \<and> (t, cacheKey s (rr_Route req) d, rp_Body resp, rp_Head resp) \<in> ?h
          \<and> (0 < lc_ttl (cl_cache c) \<longrightarrow> now \<le> t + lc_ttl (cl_cache c))))" for resp
  proof (cases "m (rr_Data req)")
    case None
    then show ?thesis using inv old by (simp add: c'_def Render_def renderUncached_def)
  next
    case (Some d)
    let ?k = "cacheKey s (rr_Route req) d"
    obtain hit cache where get: "lruGet now ?k (cl_cache c) = (hit, cache)" by force
    note cache = lc.get_ok[OF inv, of now ?k] lc.get_life[OF inv, of now ?k] lc.fetched_get[OF inv old, of now ?k]
    show ?thesis
    proof (cases hit)
      case (Some e)
      then show ?thesis
        using lc.fetched_hit[OF inv hist, of now ?k e] get cache \<open>m (rr_Data req) = Some d\<close>
        by (auto simp: c'_def Render_def Let_def)
    next
      case None
      show ?thesis
      proof (cases "callSidecar sc (cl_endpoint c) req d")
        case (Inl e)
        then show ?thesis using None get cache Some by (simp add: c'_def Render_def Let_def)
      next
        case (Inr r)
        let ?e = "\<lparr>ce_body = rp_Body r, ce_head = rp_Head r, ce_expires = 0\<rparr>"
        have "(now, ?k, ce_body ?e, ce_head ?e) \<in> ?h'"
          using Inr Some unfolding fetches_def
          by (intro CollectI case_prodI exI[of _ sc] exI[of _ req] exI[of _ d]) simp
        then have "lc.fetched ?h' (lruPut now ?k ?e cache)"
          using lc.fetched_put[of cache ?h' now ?k ?e ?h'] cache get by simp
        then show ?thesis
          using Inr None get cache Some lc.put_ok[of cache now ?k ?e] lc.put_life[of cache now ?k ?e]
          by (simp add: c'_def Render_def Let_def)
      qed
    qed
  qed
  from both show "lruInv (cl_cache c') \<and> cl_endpoint c' = cl_endpoint c \<and> lc_ttl (cl_cache c') = lc_ttl (cl_cache c)
     \<and> lc.fetched ?h' (cl_cache c')" by blast
  from both show "fst (Render m s now sc req c) = Inr resp \<Longrightarrow> answered m (cl_endpoint c) (now, sc, req) resp
     \<or> (\<exists>d t. m (rr_Data req) = Some d
          \<and> (t, cacheKey s (rr_Route req) d, rp_Body resp, rp_Head resp) \<in> ?h
          \<and> (0 < lc_ttl (cl_cache c) \<longrightarrow> now \<le> t + lc_ttl (cl_cache c)))" by blast
qed

definition justified :: "('d \<Rightarrow> string option) \<Rightarrow> (string \<Rightarrow> string) \<Rightarrow> string \<Rightarrow> int \<Rightarrow> 'd renderEvent list \<Rightarrow> nat
    \<Rightarrow> RenderResponse \<Rightarrow> bool" where
  "justified marshal sha256 endpoint ttl evs i resp \<longleftrightarrow> answered marshal endpoint (evs ! i) resp
     \<or> (\<exists>j < i. samePage marshal sha256 (evs ! i) (evs ! j) \<and> answered marshal endpoint (evs ! j) resp
           \<and> (ttl \<le> 0 \<or> fst (evs ! i) \<le> fst (evs ! j) + ttl))"

lemma fetch_justifies:
  assumes sha: "\<And>d. length (s d) = 32" and ev: "evs ! i = (now, sc, req)" "i < length evs"
    and d: "m (rr_Data req) = Some d"
    and f: "(t, cacheKey s (rr_Route req) d, rp_Body resp, rp_Head resp) \<in> fetches m s endpoint (take i evs)"
    and alive: "0 < ttl \<longrightarrow> now \<le> t + ttl"
  shows "justified m s endpoint ttl evs i resp"
proof -
  obtain sc' req' d' where e': "(t, sc', req') \<in> set (take i evs)" "m (rr_Data req') = Some d'"
    and k: "cacheKey s (rr_Route req) d = cacheKey s (rr_Route req') d'"
    and r: "callSidecar sc' endpoint req' d' = Inr resp"
    using f unfolding fetches_def by auto
  then obtain j where j: "j < i" "evs ! j = (t, sc', req')" using ev(2) by (auto simp: in_set_conv_nth)
  have "samePage m s (evs ! i) (evs ! j)" using cacheKey_inj[OF sha k] ev(1) j(2) d e'(2) by simp
  moreover have "answered m endpoint (evs ! j) resp" using j(2) r e'(2) by simp
  ultimately show ?thesis using j alive ev(1) unfolding justified_def by fastforce
qed

lemma renders_justified:
  assumes sha: "\<And>d. length (s d) = 32"
  shows "lruInv (cl_cache c) \<Longrightarrow> lc.fetched (fetches m s (cl_endpoint c) pre) (cl_cache c) \<Longrightarrow> i < length evs \<Longrightarrow>
    runOps (renderStep m s) evs c ! i = Inr resp \<Longrightarrow>
    justified m s (cl_endpoint c) (lc_ttl (cl_cache c)) (pre @ evs) (length pre + i) resp"
proof (induction evs arbitrary: c pre i)
  case (Cons ev evs)
  obtain now sc req where ev: "ev = (now, sc, req)" by (cases ev)
  note step = Render_step[OF Cons.prems(1,2), of now sc req]
  show ?case
  proof (cases i)
    case 0
    then have "fst (Render m s now sc req c) = Inr resp"
      using Cons.prems(4) by (simp add: ev case_prod_beta)
    then consider "answered m (cl_endpoint c) (now, sc, req) resp"
      | d t where "m (rr_Data req) = Some d"
          "(t, cacheKey s (rr_Route req) d, rp_Body resp, rp_Head resp) \<in> fetches m s (cl_endpoint c) pre"
          "0 < lc_ttl (cl_cache c) \<longrightarrow> now \<le> t + lc_ttl (cl_cache c)"
      using step(2) by blast
    then show ?thesis
    proof cases
      case 1
      then show ?thesis unfolding justified_def 0 ev by simp
    next
      case 2
      show ?thesis
        by (rule fetch_justifies[where now = now and sc = sc and req = req and d = d and t = t, OF sha])
          (use 2 0 in \<open>auto simp: ev\<close>)
    qed
  next
    case (Suc i')
    then show ?thesis
      using Cons.IH[of "snd (Render m s now sc req c)" "pre @ [ev]" i'] Cons.prems(3,4) step(1)
      by (simp add: ev case_prod_beta)
  qed
qed simp

lemma NewClient_fields:
  "lruInv (cl_cache (NewClient endpoint cacheSize ttl))" "cl_endpoint (NewClient endpoint cacheSize ttl) = endpoint"
  "lc_ttl (cl_cache (NewClient endpoint cacheSize ttl)) = (if ttl = 0 then 60 * second else ttl)"
  "lc.fetched h (cl_cache (NewClient endpoint cacheSize ttl))"
  by (simp_all add: NewClient_def newLRUCache_inv lc.fetched_def lruHolds_def)

text \<open>C32. Whatever a client answers in a history of render calls comes from the sidecar: it is what
  the sidecar returns in this very call, or what it returned in an earlier call for the same route and
  data with the same SHA-256 digest, and then that call is not longer ago than the lifetime of the
  entries (a minute when none is configured, no limit when it is negative). Errors are never
  remembered. The hypothesis is that a digest has 32 bytes.\<close>

theorem Render_justified:
  assumes "\<And>d. length (sha256 d) = 32" "i < length evs"
    "runOps (renderStep marshal sha256) evs (NewClient endpoint cacheSize ttl) ! i = Inr resp"
  shows "justified marshal sha256 endpoint (if ttl = 0 then 60 * second else ttl) evs i resp"
  using renders_justified[OF assms(1) NewClient_fields(1) NewClient_fields(4) assms(2,3), where pre = "[]"]
  by (simp add: NewClient_fields)

text \<open>A sidecar that counts its answers in the body, asked twice within the minute and once after.\<close>

definition demoSidecar :: "string \<Rightarrow> string Sidecar" where
  "demoSidecar body = \<lparr>sc_marshal = (\<lambda>r d. Inr d), sc_request = (\<lambda>u. Inr ()), sc_do = (\<lambda>u b. Inr (200, body)),
     sc_decode = (\<lambda>b. Inr (b, []))\<rparr>"

definition demoDigest :: "string \<Rightarrow> string" where
  "demoDigest d = take 32 (d @ replicate 32 CHR ''0'')"

definition demoEvents :: "string renderEvent list" where
  "demoEvents = [(0, demoSidecar ''one'', \<lparr>rr_Route = ''/p'', rr_Source = ''s'', rr_Data = ''d''\<rparr>),
     (second, demoSidecar ''two'', \<lparr>rr_Route = ''/p'', rr_Source = ''s'', rr_Data = ''d''\<rparr>),
     (61 * second, demoSidecar ''three'', \<lparr>rr_Route = ''/p'', rr_Source = ''s'', rr_Data = ''d''\<rparr>)]"

lemma demoDigest_length: "length (demoDigest d) = 32"
  by (simp add: demoDigest_def)

lemma demo_renders: "runOps (renderStep Some demoDigest) demoEvents (NewClient ''http://h'' 2 0)
   = [Inr \<lparr>rp_Body = ''one'', rp_Head = []\<rparr>, Inr \<lparr>rp_Body = ''one'', rp_Head = []\<rparr>,
      Inr \<lparr>rp_Body = ''three'', rp_Head = []\<rparr>]"
  by (simp add: demoEvents_def demoSidecar_def second_def Render_def lruGet_def lruPut_def newLRUCache_def
      NewClient_def callSidecar_def pushFront_def evictLoop.simps listRemove_def moveToFront_def Let_def)

theorem Render_justified_witness:
  "justified Some demoDigest ''http://h'' (60 * second) demoEvents 1 \<lparr>rp_Body = ''one'', rp_Head = []\<rparr>"
  using Render_justified[where ?sha256.0 = demoDigest and evs = demoEvents and i = 1 and marshal = Some and endpoint = "''http://h''"
    and cacheSize = 2 and ttl = 0 and resp = "\<lparr>rp_Body = ''one'', rp_Head = []\<rparr>", OF demoDigest_length]
  by (simp add: demo_renders) (simp add: demoEvents_def)

section \<open>Stripping the markers\<close>

text \<open>A body that is a marked fragment between white space loses exactly the two markers.\<close>

lemma StripFragmentMarkers_wrapped:
  assumes "set lp \<subseteq> set fragmentSpaces" "set rp \<subseteq> set fragmentSpaces"
  shows "StripFragmentMarkers (lp @ fragmentOpen @ inner @ fragmentClose @ rp) = lp @ inner @ rp"
proof -
  let ?t = "fragmentOpen @ inner @ fragmentClose @ rp"
  have l: "trimLeft (lp @ ?t) fragmentSpaces = ?t"
    using assms(1) by (simp add: trimLeft_def dropWhile_append fragmentOpen_def fragmentSpaces_def subset_iff)
  have r: "trimRight (inner @ fragmentClose @ rp) fragmentSpaces = inner @ fragmentClose"
    using assms(2) by (simp add: trimRight_def dropWhile_append fragmentClose_def fragmentSpaces_def subset_iff)
  show ?thesis unfolding StripFragmentMarkers_def Let_def l by (simp add: r)
qed

end
