(* ===== verification/MemoryStore.thy ===== *)
theory MemoryStore
  imports GoText Simulation
begin

text \<open>
  The in-memory store of the authentication package: the records of \<^verbatim>\<open>auth/identity.go\<close>, the
  storage interface of \<^verbatim>\<open>auth/storage.go\<close> as an abstract specification, and the store of
  \<^verbatim>\<open>auth/storage/memory/memory.go\<close> that implements it with an index from emails to user ids.

  Records are copied on the way in and out, so the maps hold values. Every operation runs under the
  store's lock and is one step; the clock is an argument. A Go map is an association list in its
  iteration order. The dereference of a missing user is the result \<open>Panicked\<close>.
\<close>

section \<open>Records\<close>

record User =
  us_ID :: string
  us_Email :: string
  us_EmailVerified :: bool
  us_Name :: string
  us_Image :: string
  us_CreatedAt :: int
  us_UpdatedAt :: int

record Account =
  ac_ID :: string
  ac_UserID :: string
  ac_Provider :: string
  ac_ProviderAccountID :: string
  ac_AccessToken :: string
  ac_RefreshToken :: string
  ac_ExpiresAt :: "int option"
  ac_CreatedAt :: int
  ac_UpdatedAt :: int

record AuthSession =
  as_ID :: string
  as_UserID :: string
  as_Token :: string
  as_ExpiresAt :: int
  as_FreshUntil :: int
  as_IPAddress :: string
  as_UserAgent :: string
  as_CreatedAt :: int
  as_UpdatedAt :: int

record Verification =
  vf_ID :: string
  vf_UserID :: string
  vf_Kind :: string
  vf_Token :: string
  vf_ExpiresAt :: int
  vf_CreatedAt :: int

datatype AuthErr = ErrNotFound | ErrConflict | ErrSessionExpired

datatype storeOp =
    CreateUser User | UserByID string | UserByEmail string | UpdateUser User | DeleteUser string
  | CreateSession AuthSession | SessionByToken string | RefreshSession string int
  | RevokeSession string | RevokeAllSessions string
  | CreateAccount Account | AccountsByUser string | LinkAccount Account | UnlinkAccount string
  | CreateVerification Verification | VerificationByCode string | ConsumeVerification string

text \<open>What a call returns; the accounts come in a collection of type \<open>'l\<close>.\<close>

datatype 'l storeRes =
    Done | GotUser User | GotSession AuthSession | GotAccounts 'l | GotVerification Verification
  | Failed AuthErr | Panicked

section \<open>The store\<close>

record Store =
  st_users :: "User gomap"
  st_usersByEmail :: "string gomap"
  st_sessions :: "AuthSession gomap"
  st_accounts :: "Account gomap"
  st_verifications :: "Verification gomap"

definition memNew :: Store where
  "memNew = \<lparr>st_users = [], st_usersByEmail = [], st_sessions = [], st_accounts = [], st_verifications = []\<rparr>"

definition memCreateUser :: "User \<Rightarrow> Store \<Rightarrow> Account list storeRes \<times> Store" where
  "memCreateUser u s =
    (if map_of (st_usersByEmail s) (us_Email u) \<noteq> None then (Failed ErrConflict, s)
     else (Done, s\<lparr>st_users := setKey (us_ID u) u (st_users s),
                  st_usersByEmail := setKey (us_Email u) (us_ID u) (st_usersByEmail s)\<rparr>))"

definition memUserByID :: "string \<Rightarrow> Store \<Rightarrow> Account list storeRes" where
  "memUserByID uid s = (case map_of (st_users s) uid of None \<Rightarrow> Failed ErrNotFound | Some u \<Rightarrow> GotUser u)"

definition memUserByEmail :: "string \<Rightarrow> Store \<Rightarrow> Account list storeRes" where
  "memUserByEmail email s = (case map_of (st_usersByEmail s) email of
      None \<Rightarrow> Failed ErrNotFound
    | Some uid \<Rightarrow> (case map_of (st_users s) uid of None \<Rightarrow> Panicked | Some u \<Rightarrow> GotUser u))"

definition memUpdateUser :: "User \<Rightarrow> Store \<Rightarrow> Account list storeRes \<times> Store" where
  "memUpdateUser u s = (case map_of (st_users s) (us_ID u) of
      None \<Rightarrow> (Failed ErrNotFound, s)
    | Some existing \<Rightarrow>
        (let byEmail = (if us_Email existing \<noteq> us_Email u
               then setKey (us_Email u) (us_ID u) (delKey (us_Email existing) (st_usersByEmail s))
               else st_usersByEmail s)
         in (Done, s\<lparr>st_usersByEmail := byEmail, st_users := setKey (us_ID u) u (st_users s)\<rparr>)))"

text \<open>The loops that delete while they range over a map visit every entry once.\<close>

definition deleteWhere :: "('v \<Rightarrow> bool) \<Rightarrow> 'v gomap \<Rightarrow> 'v gomap" where
  "deleteWhere p m = foldl (\<lambda>m' (k, v). if p v then delKey k m' else m') m m"

definition memDeleteUser :: "string \<Rightarrow> Store \<Rightarrow> Account list storeRes \<times> Store" where
  "memDeleteUser uid s = (case map_of (st_users s) uid of
      None \<Rightarrow> (Failed ErrNotFound, s)
    | Some u \<Rightarrow> (Done, s\<lparr>st_usersByEmail := delKey (us_Email u) (st_usersByEmail s),
        st_users := delKey uid (st_users s),
        st_sessions := deleteWhere (\<lambda>x. as_UserID x = uid) (st_sessions s),
        st_accounts := deleteWhere (\<lambda>x. ac_UserID x = uid) (st_accounts s),
        st_verifications := deleteWhere (\<lambda>x. vf_UserID x = uid) (st_verifications s)\<rparr>))"

definition memCreateSession :: "AuthSession \<Rightarrow> Store \<Rightarrow> Store" where
  "memCreateSession x s = s\<lparr>st_sessions := setKey (as_Token x) x (st_sessions s)\<rparr>"

definition memSessionByToken :: "int \<Rightarrow> string \<Rightarrow> Store \<Rightarrow> Account list storeRes" where
  "memSessionByToken now token s = (case map_of (st_sessions s) token of
      None \<Rightarrow> Failed ErrNotFound
    | Some x \<Rightarrow> if as_ExpiresAt x < now then Failed ErrSessionExpired else GotSession x)"

definition memRefreshSession :: "int \<Rightarrow> string \<Rightarrow> int \<Rightarrow> Store \<Rightarrow> Account list storeRes \<times> Store" where
  "memRefreshSession now token newExpiry s = (case map_of (st_sessions s) token of
      None \<Rightarrow> (Failed ErrNotFound, s)
    | Some x \<Rightarrow> (Done, s\<lparr>st_sessions := setKey token (x\<lparr>as_ExpiresAt := newExpiry, as_UpdatedAt := now\<rparr>) (st_sessions s)\<rparr>))"

definition memRevokeSession :: "string \<Rightarrow> Store \<Rightarrow> Store" where
  "memRevokeSession token s = s\<lparr>st_sessions := delKey token (st_sessions s)\<rparr>"

definition memRevokeAllSessions :: "string \<Rightarrow> Store \<Rightarrow> Store" where
  "memRevokeAllSessions userID s = s\<lparr>st_sessions := deleteWhere (\<lambda>x. as_UserID x = userID) (st_sessions s)\<rparr>"

definition memCreateAccount :: "Account \<Rightarrow> Store \<Rightarrow> Store" where
  "memCreateAccount a s = s\<lparr>st_accounts := setKey (ac_ID a) a (st_accounts s)\<rparr>"

definition memAccountsByUser :: "string \<Rightarrow> Store \<Rightarrow> Account list" where
  "memAccountsByUser userID s =
    foldl (\<lambda>out (_, a). if ac_UserID a = userID then out @ [a] else out) [] (st_accounts s)"

definition memLinkAccount :: "Account \<Rightarrow> Store \<Rightarrow> Store" where
  "memLinkAccount a s = memCreateAccount a s"

definition memUnlinkAccount :: "string \<Rightarrow> Store \<Rightarrow> Account list storeRes \<times> Store" where
  "memUnlinkAccount accountID s =
    (if map_of (st_accounts s) accountID = None then (Failed ErrNotFound, s)
     else (Done, s\<lparr>st_accounts := delKey accountID (st_accounts s)\<rparr>))"

definition memCreateVerification :: "Verification \<Rightarrow> Store \<Rightarrow> Store" where
  "memCreateVerification v s = s\<lparr>st_verifications := setKey (vf_Token v) v (st_verifications s)\<rparr>"

definition memVerificationByCode :: "string \<Rightarrow> Store \<Rightarrow> Account list storeRes" where
  "memVerificationByCode code s = (case map_of (st_verifications s) code of
      None \<Rightarrow> Failed ErrNotFound | Some v \<Rightarrow> GotVerification v)"

definition memConsumeVerification :: "string \<Rightarrow> Store \<Rightarrow> Account list storeRes \<times> Store" where
  "memConsumeVerification code s =
    (if map_of (st_verifications s) code = None then (Failed ErrNotFound, s)
     else (Done, s\<lparr>st_verifications := delKey code (st_verifications s)\<rparr>))"

text \<open>The method set of the interface on the store, at a time.\<close>

fun memStep :: "int \<times> storeOp \<Rightarrow> Store \<Rightarrow> Account list storeRes \<times> Store" where
  "memStep (now, CreateUser u) s = memCreateUser u s"
| "memStep (now, UserByID uid) s = (memUserByID uid s, s)"
| "memStep (now, UserByEmail e) s = (memUserByEmail e s, s)"
| "memStep (now, UpdateUser u) s = memUpdateUser u s"
| "memStep (now, DeleteUser uid) s = memDeleteUser uid s"
| "memStep (now, CreateSession x) s = (Done, memCreateSession x s)"
| "memStep (now, SessionByToken t) s = (memSessionByToken now t s, s)"
| "memStep (now, RefreshSession t x) s = memRefreshSession now t x s"
| "memStep (now, RevokeSession t) s = (Done, memRevokeSession t s)"
| "memStep (now, RevokeAllSessions uid) s = (Done, memRevokeAllSessions uid s)"
| "memStep (now, CreateAccount a) s = (Done, memCreateAccount a s)"
| "memStep (now, AccountsByUser uid) s = (GotAccounts (memAccountsByUser uid s), s)"
| "memStep (now, LinkAccount a) s = (Done, memLinkAccount a s)"
| "memStep (now, UnlinkAccount uid) s = memUnlinkAccount uid s"
| "memStep (now, CreateVerification v) s = (Done, memCreateVerification v s)"
| "memStep (now, VerificationByCode code) s = (memVerificationByCode code s, s)"
| "memStep (now, ConsumeVerification code) s = memConsumeVerification code s"

section \<open>The contract of the interface\<close>

text \<open>The abstract store has no index: it is the users, sessions, accounts and verifications by
  their keys, and an email finds the user that carries it.\<close>

record Contract =
  ct_users :: "string \<rightharpoonup> User"
  ct_sessions :: "string \<rightharpoonup> AuthSession"
  ct_accounts :: "string \<rightharpoonup> Account"
  ct_verifications :: "string \<rightharpoonup> Verification"

definition emptyContract :: Contract where
  "emptyContract = \<lparr>ct_users = Map.empty, ct_sessions = Map.empty, ct_accounts = Map.empty, ct_verifications = Map.empty\<rparr>"

definition carries :: "string \<Rightarrow> Contract \<Rightarrow> User set" where
  "carries email s = {u \<in> ran (ct_users s). us_Email u = email}"

definition without :: "('v \<Rightarrow> bool) \<Rightarrow> ('k \<rightharpoonup> 'v) \<Rightarrow> ('k \<rightharpoonup> 'v)" where
  "without p m k = (case m k of None \<Rightarrow> None | Some v \<Rightarrow> if p v then None else Some v)"

definition found :: "('v \<Rightarrow> 'l storeRes) \<Rightarrow> 'v option \<Rightarrow> 'l storeRes" where
  "found got v = (case v of None \<Rightarrow> Failed ErrNotFound | Some x \<Rightarrow> got x)"

fun contractStep :: "int \<times> storeOp \<Rightarrow> Contract \<Rightarrow> Account set storeRes \<times> Contract" where
  "contractStep (now, CreateUser u) s = (if carries (us_Email u) s \<noteq> {} then (Failed ErrConflict, s)
     else (Done, s\<lparr>ct_users := (ct_users s)(us_ID u \<mapsto> u)\<rparr>))"
| "contractStep (now, UserByID uid) s = (found GotUser (ct_users s uid), s)"
| "contractStep (now, UserByEmail e) s =
     ((if carries e s = {} then Failed ErrNotFound else GotUser (the_elem (carries e s))), s)"
| "contractStep (now, UpdateUser u) s = (if ct_users s (us_ID u) = None then (Failed ErrNotFound, s)
     else (Done, s\<lparr>ct_users := (ct_users s)(us_ID u \<mapsto> u)\<rparr>))"
| "contractStep (now, DeleteUser uid) s = (if ct_users s uid = None then (Failed ErrNotFound, s)
     else (Done, s\<lparr>ct_users := (ct_users s)(uid := None),
            ct_sessions := without (\<lambda>x. as_UserID x = uid) (ct_sessions s),
            ct_accounts := without (\<lambda>x. ac_UserID x = uid) (ct_accounts s),
            ct_verifications := without (\<lambda>x. vf_UserID x = uid) (ct_verifications s)\<rparr>))"
| "contractStep (now, CreateSession x) s = (Done, s\<lparr>ct_sessions := (ct_sessions s)(as_Token x \<mapsto> x)\<rparr>)"
| "contractStep (now, SessionByToken t) s =
     (found (\<lambda>x. if as_ExpiresAt x < now then Failed ErrSessionExpired else GotSession x) (ct_sessions s t), s)"
| "contractStep (now, RefreshSession t x) s = (case ct_sessions s t of None \<Rightarrow> (Failed ErrNotFound, s)
     | Some y \<Rightarrow> (Done, s\<lparr>ct_sessions := (ct_sessions s)(t \<mapsto> y\<lparr>as_ExpiresAt := x, as_UpdatedAt := now\<rparr>)\<rparr>))"
| "contractStep (now, RevokeSession t) s = (Done, s\<lparr>ct_sessions := (ct_sessions s)(t := None)\<rparr>)"
| "contractStep (now, RevokeAllSessions uid) s =
     (Done, s\<lparr>ct_sessions := without (\<lambda>x. as_UserID x = uid) (ct_sessions s)\<rparr>)"
| "contractStep (now, CreateAccount a) s = (Done, s\<lparr>ct_accounts := (ct_accounts s)(ac_ID a \<mapsto> a)\<rparr>)"
| "contractStep (now, AccountsByUser uid) s = (GotAccounts {a \<in> ran (ct_accounts s). ac_UserID a = uid}, s)"
| "contractStep (now, LinkAccount a) s = (Done, s\<lparr>ct_accounts := (ct_accounts s)(ac_ID a \<mapsto> a)\<rparr>)"
| "contractStep (now, UnlinkAccount uid) s = (if ct_accounts s uid = None then (Failed ErrNotFound, s)
     else (Done, s\<lparr>ct_accounts := (ct_accounts s)(uid := None)\<rparr>))"
| "contractStep (now, CreateVerification v) s =
     (Done, s\<lparr>ct_verifications := (ct_verifications s)(vf_Token v \<mapsto> v)\<rparr>)"
| "contractStep (now, VerificationByCode code) s = (found GotVerification (ct_verifications s code), s)"
| "contractStep (now, ConsumeVerification code) s = (if ct_verifications s code = None then (Failed ErrNotFound, s)
     else (Done, s\<lparr>ct_verifications := (ct_verifications s)(code := None)\<rparr>))"

section \<open>The store implements the contract\<close>

definition absStore :: "Store \<Rightarrow> Contract" where
  "absStore s = \<lparr>ct_users = map_of (st_users s), ct_sessions = map_of (st_sessions s),
     ct_accounts = map_of (st_accounts s), ct_verifications = map_of (st_verifications s)\<rparr>"

text \<open>Users are filed under their ids, and the index holds exactly the emails they carry.\<close>

definition indexOK :: "(string \<rightharpoonup> User) \<Rightarrow> (string \<rightharpoonup> string) \<Rightarrow> bool" where
  "indexOK us ix \<longleftrightarrow> (\<forall>i u. us i = Some u \<longrightarrow> us_ID u = i)
     \<and> (\<forall>e i. ix e = Some i \<longleftrightarrow> (\<exists>u. us i = Some u \<and> us_Email u = e))"

definition memInv :: "Store \<Rightarrow> bool" where
  "memInv s \<longleftrightarrow> mapOK (st_users s) \<and> mapOK (st_sessions s) \<and> mapOK (st_accounts s) \<and> mapOK (st_verifications s)
     \<and> indexOK (map_of (st_users s)) (map_of (st_usersByEmail s))"

lemma indexOK_create:
  assumes "indexOK us ix" "ix (us_Email u) = None" "us (us_ID u) = None"
  shows "indexOK (us(us_ID u \<mapsto> u)) (ix(us_Email u \<mapsto> us_ID u))"
  using assms unfolding indexOK_def by (auto; metis option.distinct(1) option.inject)

lemma indexOK_update:
  assumes "indexOK us ix" "us (us_ID u) = Some v" "us_Email v = us_Email u"
  shows "indexOK (us(us_ID u \<mapsto> u)) ix"
  using assms unfolding indexOK_def by auto

lemma indexOK_move:
  assumes "indexOK us ix" "us (us_ID u) = Some v" "us_Email v \<noteq> us_Email u"
    "\<And>i w. us i = Some w \<Longrightarrow> i = us_ID u \<or> us_Email w \<noteq> us_Email u"
  shows "indexOK (us(us_ID u \<mapsto> u)) (ix(us_Email v := None, us_Email u \<mapsto> us_ID u))"
proof -
  have ids: "\<And>i u. us i = Some u \<Longrightarrow> us_ID u = i"
    and ix: "\<And>e i. ix e = Some i \<longleftrightarrow> (\<exists>u. us i = Some u \<and> us_Email u = e)"
    using assms(1) by (simp_all add: indexOK_def)
  have own: "ix (us_Email v) = Some (us_ID u)" using ix assms(2) by blast
  have "(ix(us_Email v := None, us_Email u \<mapsto> us_ID u)) e = Some i
      \<longleftrightarrow> (\<exists>w. (us(us_ID u \<mapsto> u)) i = Some w \<and> us_Email w = e)" for e i
  proof (cases "i = us_ID u")
    case True
    then show ?thesis using ix[of e "us_ID u"] assms(2) by auto
  next
    case False
    then show ?thesis using ix[of e i] own assms(4)[of i] by auto
  qed
  then show ?thesis using ids unfolding indexOK_def by simp
qed

lemma indexOK_delete:
  assumes "indexOK us ix" "us i = Some u"
  shows "indexOK (us(i := None)) (ix(us_Email u := None))"
proof -
  have ix: "\<And>e j. ix e = Some j \<longleftrightarrow> (\<exists>u. us j = Some u \<and> us_Email u = e)"
    using assms(1) by (simp add: indexOK_def)
  have own: "ix (us_Email u) = Some i" using ix assms(2) by blast
  have "(ix(us_Email u := None)) e = Some j \<longleftrightarrow> (\<exists>w. (us(i := None)) j = Some w \<and> us_Email w = e)" for e j
    using ix[of e j] own assms(2) by auto
  then show ?thesis using assms(1) unfolding indexOK_def by simp
qed

text \<open>What the callers have to see to: a new user comes with a new id (unless its email is refused
  anyway), and an update does not move a user to an email that another user carries.\<close>

fun callFits :: "int \<times> storeOp \<Rightarrow> Store \<Rightarrow> bool" where
  "callFits (now, CreateUser u) s \<longleftrightarrow> map_of (st_users s) (us_ID u) = None \<or> us_Email u \<in> fst ` set (st_usersByEmail s)"
| "callFits (now, UpdateUser u) s \<longleftrightarrow> list_all (\<lambda>(i, v). i = us_ID u \<or> us_Email v \<noteq> us_Email u) (st_users s)"
| "callFits _ s \<longleftrightarrow> True"

lemma deleteWhere_filter: "mapOK m \<Longrightarrow> deleteWhere p m = filter (\<lambda>(k, v). \<not> p v) m"
proof -
  assume ok: "mapOK m"
  have gen: "foldl (\<lambda>m' (k, v). if p v then delKey k m' else m') m' l
      = filter (\<lambda>(k, v). k \<notin> fst ` {x \<in> set l. p (snd x)}) m'" for l m'
  proof (induction l arbitrary: m')
    case (Cons x l)
    obtain k v where x: "x = (k, v)" by force
    have "fst ` {y \<in> set (x # l). p (snd y)} = (if p v then {k} else {}) \<union> fst ` {y \<in> set l. p (snd y)}"
      unfolding x by force
    then show ?case using Cons unfolding x by (auto simp: delKey_def intro!: filter_cong)
  qed auto
  show ?thesis unfolding deleteWhere_def gen
  proof (rule filter_cong[OF refl])
    fix x assume x: "x \<in> set m"
    have "v = v'" if "(k, v) \<in> set m" "(k, v') \<in> set m" for k v v'
      using ok that unfolding mapOK_def by (metis map_of_eq_Some_iff option.inject)
    then show "(case x of (k, v) \<Rightarrow> k \<notin> fst ` {x \<in> set m. p (snd x)}) = (case x of (k, v) \<Rightarrow> \<not> p v)"
      using x by (cases x) (force simp: image_iff)
  qed
qed

lemma without_filter: "distinct (map fst m) \<Longrightarrow> map_of (filter (\<lambda>(k, v). \<not> p v) m) = without p (map_of m)"
proof (induction m)
  case (Cons x m)
  then have "map_of m (fst x) = None" by (simp add: map_of_eq_None_iff)
  then show ?case using Cons by (cases x) (auto simp: without_def fun_eq_iff)
qed (simp add: without_def fun_eq_iff)

lemma deleteWhere_lookup: "mapOK m \<Longrightarrow> map_of (deleteWhere p m) = without p (map_of m)"
  by (simp add: deleteWhere_filter without_filter mapOK_def)

lemma mapOK_deleteWhere: "mapOK m \<Longrightarrow> mapOK (deleteWhere p m)"
  by (simp add: deleteWhere_filter mapOK_def distinct_map_filter)

lemmas store_maps = setKey_lookup delKey_lookup mapOK_setKey mapOK_delKey deleteWhere_lookup mapOK_deleteWhere

lemma memAccountsByUser_filter: "memAccountsByUser uid s = filter (\<lambda>a. ac_UserID a = uid) (map snd (st_accounts s))"
proof -
  have "foldl (\<lambda>out (_, a). if ac_UserID a = uid then out @ [a] else out) out m
      = out @ filter (\<lambda>a. ac_UserID a = uid) (map snd m)" for out and m :: "Account gomap"
    by (induction m arbitrary: out) auto
  then show ?thesis by (simp add: memAccountsByUser_def)
qed

lemma ran_gomap: "mapOK m \<Longrightarrow> ran (map_of m) = snd ` set m"
  unfolding mapOK_def by (rule ran_distinct)

text \<open>Under the invariant the index and the users say the same of an email.\<close>

lemma carries_iff: "u \<in> carries e (absStore s) \<longleftrightarrow> us_Email u = e \<and> (\<exists>i. map_of (st_users s) i = Some u)"
  by (auto simp: carries_def absStore_def ran_def)

lemma memInv_carries:
  assumes "memInv s"
  shows "map_of (st_usersByEmail s) e = None \<Longrightarrow> carries e (absStore s) = {}"
    and "map_of (st_usersByEmail s) e = Some i \<Longrightarrow>
      \<exists>u. map_of (st_users s) i = Some u \<and> carries e (absStore s) = {u}"
proof -
  have idx: "map_of (st_usersByEmail s) e = Some i \<longleftrightarrow> (\<exists>u. map_of (st_users s) i = Some u \<and> us_Email u = e)" for e i
    using assms by (simp only: memInv_def indexOK_def)
  show "carries e (absStore s) = {}" if "map_of (st_usersByEmail s) e = None"
  proof (rule equals0I)
    fix u assume "u \<in> carries e (absStore s)"
    then obtain i where "map_of (st_usersByEmail s) e = Some i" unfolding carries_iff idx by blast
    then show False using that by simp
  qed
  show "\<exists>u. map_of (st_users s) i = Some u \<and> carries e (absStore s) = {u}" if h: "map_of (st_usersByEmail s) e = Some i"
  proof -
    obtain u where u: "map_of (st_users s) i = Some u" "us_Email u = e" using h unfolding idx by blast
    have "v = u" if c: "v \<in> carries e (absStore s)" for v
    proof -
      obtain j where j: "map_of (st_users s) j = Some v" "us_Email v = e" using c unfolding carries_iff by blast
      then have "map_of (st_usersByEmail s) e = Some j" unfolding idx by blast
      then show ?thesis using h j(1) u(1) by simp
    qed
    moreover have "u \<in> carries e (absStore s)" using u unfolding carries_iff by blast
    ultimately have "carries e (absStore s) = {u}" by blast
    then show ?thesis using u(1) by blast
  qed
qed

lemma memInv_users:
  assumes "memInv s" "callFits (now, op) s"
  shows "op = CreateUser u \<Longrightarrow> memInv (snd (memCreateUser u s))"
    and "op = UpdateUser u \<Longrightarrow> memInv (snd (memUpdateUser u s))"
    and "memInv (snd (memDeleteUser uid s))"
proof -
  note maps = store_maps and inv = assms(1)[unfolded memInv_def]
  show "memInv (snd (memCreateUser u s))" if "op = CreateUser u"
    using inv assms(2) that
    by (auto simp: memCreateUser_def memInv_def maps map_of_eq_None_iff intro: indexOK_create)
  show "memInv (snd (memUpdateUser u s))" if "op = UpdateUser u"
  proof (cases "map_of (st_users s) (us_ID u)")
    case None
    then show ?thesis using assms(1) by (simp add: memUpdateUser_def)
  next
    case (Some v)
    have "i = us_ID u \<or> us_Email w \<noteq> us_Email u" if "map_of (st_users s) i = Some w" for i w
      using assms(2) \<open>op = UpdateUser u\<close> map_of_SomeD[OF that] by (auto simp: list_all_iff)
    then show ?thesis
      using Some inv indexOK_move[of "map_of (st_users s)" "map_of (st_usersByEmail s)" u v]
        indexOK_update[of "map_of (st_users s)" "map_of (st_usersByEmail s)" u v]
      by (simp add: memUpdateUser_def memInv_def maps)
  qed
  show "memInv (snd (memDeleteUser uid s))"
    using inv by (auto simp: memDeleteUser_def memInv_def maps indexOK_delete split: option.split)
qed

lemma memInv_keeps:
  assumes inv: "memInv s" and fit: "callFits op s"
  shows "memInv (snd (memStep op s))"
proof -
  obtain now o' where op: "op = (now, o')" by force
  note users = memInv_users[OF inv fit[unfolded op]]
  show ?thesis
  proof (cases o')
    case (RefreshSession t x)
    then show ?thesis using inv by (simp add: op memRefreshSession_def memInv_def store_maps split: option.split)
  qed (use users inv in \<open>simp_all add: op memInv_def store_maps memCreateSession_def
      memRevokeSession_def memRevokeAllSessions_def memCreateAccount_def memLinkAccount_def
      memUnlinkAccount_def memCreateVerification_def memConsumeVerification_def\<close>)
qed


interpretation mem: simulation memStep contractStep "map_storeRes set" absStore memInv callFits
proof
  fix s :: Store and op :: "int \<times> storeOp"
  assume inv: "memInv s" and fit: "callFits op s"
  show "memInv (snd (memStep op s))" by (rule memInv_keeps[OF inv fit])
  have ok: "mapOK (st_sessions s)" "mapOK (st_accounts s)" "mapOK (st_verifications s)"
    using inv by (simp_all add: memInv_def)
  obtain now o' where op: "op = (now, o')" by force
  show "contractStep op (absStore s) = (map_storeRes set (fst (memStep op s)), absStore (snd (memStep op s)))"
  proof (cases o')
    case (CreateUser u)
    then show ?thesis using memInv_carries[OF inv, of "us_Email u"]
      by (cases "map_of (st_usersByEmail s) (us_Email u)")
        (auto simp: op memCreateUser_def absStore_def store_maps)
  next
    case (UserByEmail e)
    then show ?thesis using memInv_carries[OF inv, of e]
      by (cases "map_of (st_usersByEmail s) e") (auto simp: op memUserByEmail_def)
  next
    case (AccountsByUser i)
    then show ?thesis by (simp add: op memAccountsByUser_filter absStore_def ran_gomap[OF ok(2)] Collect_conj_eq)
  qed (simp_all add: op absStore_def store_maps ok found_def memUserByID_def memUpdateUser_def memDeleteUser_def
      memCreateSession_def memSessionByToken_def memRefreshSession_def memRevokeSession_def memRevokeAllSessions_def
      memCreateAccount_def memLinkAccount_def memUnlinkAccount_def memCreateVerification_def
      memVerificationByCode_def memConsumeVerification_def split: option.split)
qed

text \<open>C33. For every sequence of storage calls that meets the two obligations of the callers (a user is
  created under an id that is not in use, and an update does not take the email of another user), the
  in-memory store returns what the storage interface promises, call by call: conflicts exactly for
  emails that some user carries, lookups by email through the index find that user, deleting a user
  takes its sessions, accounts and verifications along, and no call panics.\<close>

theorem memory_implements_contract:
  assumes "fitsAll memStep callFits calls memNew"
  shows "map (map_storeRes set) (runOps memStep calls memNew) = runOps contractStep calls emptyContract"
proof -
  have "memInv memNew" "absStore memNew = emptyContract"
    by (simp_all add: memInv_def memNew_def mapOK_def indexOK_def absStore_def emptyContract_def)
  then show ?thesis using mem.run[OF _ assms] by simp
qed

definition demoUser :: "string \<Rightarrow> string \<Rightarrow> User" where
  "demoUser i e = \<lparr>us_ID = i, us_Email = e, us_EmailVerified = False, us_Name = [], us_Image = [],
     us_CreatedAt = 0, us_UpdatedAt = 0\<rparr>"

definition demoSession :: "string \<Rightarrow> string \<Rightarrow> int \<Rightarrow> AuthSession" where
  "demoSession i t x = \<lparr>as_ID = t, as_UserID = i, as_Token = t, as_ExpiresAt = x, as_FreshUntil = x,
     as_IPAddress = [], as_UserAgent = [], as_CreatedAt = 0, as_UpdatedAt = 0\<rparr>"

definition demoCalls :: "(int \<times> storeOp) list" where
  "demoCalls = [(0, CreateUser (demoUser ''1'' ''a'')), (0, CreateUser (demoUser ''2'' ''a'')),
     (0, CreateSession (demoSession ''1'' ''t'' 5)), (1, SessionByToken ''t''),
     (1, UpdateUser (demoUser ''1'' ''b'')), (2, UserByEmail ''b''), (2, UserByEmail ''a''),
     (3, DeleteUser ''1''), (4, SessionByToken ''t''), (4, UserByEmail ''b'')]"

lemma demo_calls: "fitsAll memStep callFits demoCalls memNew"
  "runOps memStep demoCalls memNew = [Done, Failed ErrConflict, Done, GotSession (demoSession ''1'' ''t'' 5), Done,
     GotUser (demoUser ''1'' ''b''), Failed ErrNotFound, Done, Failed ErrNotFound, Failed ErrNotFound]"
  by (simp_all add: demoCalls_def memNew_def memCreateUser_def memCreateSession_def memSessionByToken_def
      memUpdateUser_def memUserByEmail_def memDeleteUser_def deleteWhere_def delKey_def demoUser_def demoSession_def)

theorem memory_implements_contract_witness:
  "runOps contractStep demoCalls emptyContract = [Done, Failed ErrConflict, Done, GotSession (demoSession ''1'' ''t'' 5), Done,
     GotUser (demoUser ''1'' ''b''), Failed ErrNotFound, Done, Failed ErrNotFound, Failed ErrNotFound]"
  using memory_implements_contract[OF demo_calls(1)] by (simp add: demo_calls(2))

section \<open>Without the obligations\<close>

text \<open>Creating a second user under an id in use leaves the index pointing at it from the first
  email; after the user is deleted the next lookup by that email dereferences a missing user.\<close>

lemma duplicate_id_panics:
  "runOps memStep [(0, CreateUser (demoUser ''1'' ''a'')), (0, CreateUser (demoUser ''1'' ''b'')),
     (0, UserByEmail ''a''), (0, DeleteUser ''1''), (0, UserByEmail ''a'')] memNew
   = [Done, Done, GotUser (demoUser ''1'' ''b''), Done, Panicked]"
  by (simp add: memNew_def memCreateUser_def memUserByEmail_def memDeleteUser_def deleteWhere_def delKey_def demoUser_def)

text \<open>An update may take the email of another user: the lookup by that email then finds the taker,
  and when the taker moves on the email of the other user is no longer known, so a third user can
  register with it.\<close>

lemma update_takes_email:
  "runOps memStep [(0, CreateUser (demoUser ''1'' ''a'')), (0, CreateUser (demoUser ''2'' ''b'')),
     (0, UpdateUser (demoUser ''2'' ''a'')), (0, UserByEmail ''a''), (0, UpdateUser (demoUser ''2'' ''c'')),
     (0, UserByEmail ''a''), (0, CreateUser (demoUser ''3'' ''a''))] memNew
   = [Done, Done, Done, GotUser (demoUser ''2'' ''a''), Done, Failed ErrNotFound, Done]"
  by (simp add: memNew_def memCreateUser_def memUserByEmail_def memUpdateUser_def delKey_def demoUser_def)

end
