(* ===== verification/CookieSession.thy ===== *)
theory CookieSession
  imports GoCodec KitHttp "HOL-Library.Word"
begin

text \<open>
  Encrypted sessions in cookies: \<^verbatim>\<open>cookiesession/internal/crypto/crypto.go\<close> (the wire format and key
  rotation), \<^verbatim>\<open>crypto.go\<close> (the codec), \<^verbatim>\<open>codec.go\<close> (payloads and chunks) and
  \<^verbatim>\<open>session.go\<close> (the session object).

  AES-256-GCM is a parameter: sealing and opening under a key and a nonce. The key size is checked
  before the cipher is made, so the errors of \<^verbatim>\<open>aes.NewCipher\<close> and \<^verbatim>\<open>cipher.NewGCM\<close> do not
  arise. The random nonce of an encryption is an argument, \<^const>\<open>None\<close> when reading it fails. The
  JSON encoder and decoder of the payload are parameters, and so is \<^verbatim>\<open>int(d.Seconds())\<close>.
\<close>

section \<open>Secrets and the wire format\<close>

record Secret =
  sk_ID :: "32 word"
  sk_Key :: string

datatype SessErr =
    ErrKeyLength | ErrNoSecrets | ErrDecryptFailed | ErrSecretNotFound | ErrHex | ErrRand | ErrInvalidID
  | ErrMarshal string | ErrUnmarshal string | ErrNoCookie | ErrChunkMeta

record AEAD =
  ae_Seal :: "string \<Rightarrow> string \<Rightarrow> string \<Rightarrow> string"
  ae_Open :: "string \<Rightarrow> string \<Rightarrow> string \<Rightarrow> string option"

definition keySize :: nat where "keySize = 32"
definition nonceSize :: nat where "nonceSize = 12"

text \<open>\<^verbatim>\<open>gcm.Overhead()\<close>.\<close>

definition gcmOverhead :: nat where "gcmOverhead = 16"

definition Validate :: "Secret list \<Rightarrow> SessErr option" where
  "Validate ss = (if ss = [] then Some ErrNoSecrets
     else if list_ex (\<lambda>sec. length (sk_Key sec) \<noteq> keySize) ss then Some ErrKeyLength else None)"

definition gcmEncrypt :: "AEAD \<Rightarrow> string option \<Rightarrow> string \<Rightarrow> string \<Rightarrow> (SessErr, string) result" where
  "gcmEncrypt ae rand key plaintext =
    (if length key \<noteq> keySize then Inl ErrKeyLength
     else case rand of
       None \<Rightarrow> Inl ErrRand
     | Some nonce \<Rightarrow> Inr (hexEncode (nonce @ ae_Seal ae key nonce plaintext)))"

definition gcmDecrypt :: "AEAD \<Rightarrow> string \<Rightarrow> string \<Rightarrow> (SessErr, string) result" where
  "gcmDecrypt ae key encoded =
    (if length key \<noteq> keySize then Inl ErrKeyLength
     else case hexDecode encoded of
       None \<Rightarrow> Inl ErrHex
     | Some raw \<Rightarrow>
         if length raw < nonceSize + gcmOverhead then Inl ErrDecryptFailed
         else (case ae_Open ae key (take nonceSize raw) (drop nonceSize raw) of
             None \<Rightarrow> Inl ErrDecryptFailed
           | Some plain \<Rightarrow> Inr plain))"

definition Encode :: "AEAD \<Rightarrow> string option \<Rightarrow> Secret list \<Rightarrow> string \<Rightarrow> (SessErr, string \<times> 32 word) result" where
  "Encode ae rand ss plaintext = (case Validate ss of
      Some e \<Rightarrow> Inl e
    | None \<Rightarrow>
        (let head = hd ss in
         case gcmEncrypt ae rand (sk_Key head) plaintext of
           Inl e \<Rightarrow> Inl e
         | Inr encoded \<Rightarrow> Inr (encoded, sk_ID head)))"

text \<open>The loop over the secrets stops at the first one with the id, at index \<open>i\<close>.\<close>

fun decodeLoop :: "AEAD \<Rightarrow> string \<Rightarrow> 32 word \<Rightarrow> nat \<Rightarrow> Secret list \<Rightarrow> (SessErr, string \<times> bool) result" where
  "decodeLoop ae encoded n i [] = Inl ErrSecretNotFound"
| "decodeLoop ae encoded n i (sec # ss) =
    (if sk_ID sec = n then
       (case gcmDecrypt ae (sk_Key sec) encoded of Inl e \<Rightarrow> Inl e | Inr plain \<Rightarrow> Inr (plain, i = 0))
     else decodeLoop ae encoded n (Suc i) ss)"

definition Decode :: "AEAD \<Rightarrow> Secret list \<Rightarrow> string \<Rightarrow> 32 word \<Rightarrow> (SessErr, string \<times> bool) result" where
  "Decode ae ss encoded n = (case Validate ss of
      Some e \<Rightarrow> Inl e | None \<Rightarrow> decodeLoop ae encoded n 0 ss)"

definition idPrefix :: string where "idPrefix = ''&id=''"

definition JoinID :: "string \<Rightarrow> 32 word \<Rightarrow> string" where
  "JoinID encoded n = encoded @ idPrefix @ decDigits (unat n)"

definition SplitID :: "string \<Rightarrow> (SessErr, string \<times> 32 word) result" where
  "SplitID cookie = (case lastIndexStr cookie idPrefix of
      None \<Rightarrow> Inr (cookie, 0)
    | Some idx \<Rightarrow> (case parseUint 32 (drop (idx + length idPrefix) cookie) of
          None \<Rightarrow> Inl ErrInvalidID
        | Some n \<Rightarrow> Inr (take idx cookie, of_nat n)))"

section \<open>The codec\<close>

definition NewCodec :: "Secret list \<Rightarrow> (SessErr, Secret list) result" where
  "NewCodec secrets = (let cs = map (\<lambda>s. \<lparr>sk_ID = sk_ID s, sk_Key = sk_Key s\<rparr>) secrets in
     case Validate cs of Some e \<Rightarrow> Inl e | None \<Rightarrow> Inr cs)"

definition codecEncrypt :: "AEAD \<Rightarrow> string option \<Rightarrow> Secret list \<Rightarrow> string \<Rightarrow> (SessErr, string) result" where
  "codecEncrypt ae rand ss plaintext = (case Encode ae rand ss plaintext of
      Inl e \<Rightarrow> Inl e | Inr (encoded, n) \<Rightarrow> Inr (JoinID encoded n))"

definition codecDecrypt :: "AEAD \<Rightarrow> Secret list \<Rightarrow> string \<Rightarrow> (SessErr, string) result" where
  "codecDecrypt ae ss cookie = (case SplitID cookie of
      Inl e \<Rightarrow> Inl e
    | Inr (encoded, n) \<Rightarrow> (case Decode ae ss encoded n of Inl e \<Rightarrow> Inl e | Inr (plain, _) \<Rightarrow> Inr plain))"

record 'd payload =
  pl_Data :: 'd
  pl_Expires :: "int option"

record 'd json =
  js_Marshal :: "'d payload \<Rightarrow> (string, string) result"
  js_Unmarshal :: "string \<Rightarrow> (string, 'd payload) result"

definition encodePayload :: "'d json \<Rightarrow> AEAD \<Rightarrow> string option \<Rightarrow> Secret list \<Rightarrow> 'd payload \<Rightarrow> (SessErr, string) result" where
  "encodePayload js ae rand ss p = (case js_Marshal js p of
      Inl e \<Rightarrow> Inl (ErrMarshal e) | Inr raw \<Rightarrow> codecEncrypt ae rand ss raw)"

definition decodePayload :: "'d json \<Rightarrow> AEAD \<Rightarrow> Secret list \<Rightarrow> string \<Rightarrow> (SessErr, 'd payload) result" where
  "decodePayload js ae ss wire = (case codecDecrypt ae ss wire of
      Inl e \<Rightarrow> Inl e
    | Inr raw \<Rightarrow> (case js_Unmarshal js raw of Inl e \<Rightarrow> Inl (ErrUnmarshal e) | Inr p \<Rightarrow> Inr p))"

section \<open>Chunks\<close>

definition maxChunkBytes :: nat where "maxChunkBytes = 4000"

function chunkLoop :: "string \<Rightarrow> string list" where
  "chunkLoop wire = (if wire = [] then [] else
     let n = (if maxChunkBytes > length wire then length wire else maxChunkBytes)
     in take n wire # chunkLoop (drop n wire))"
  by auto

termination
  by (relation "measure length") (auto simp: maxChunkBytes_def)

declare chunkLoop.simps [simp del]

definition splitChunks :: "string \<Rightarrow> string list" where
  "splitChunks wire = (if length wire \<le> maxChunkBytes then [wire] else chunkLoop wire)"

definition joinChunks :: "string list \<Rightarrow> string" where
  "joinChunks chunks = joinStr [] chunks"

definition chunkName :: "string \<Rightarrow> nat \<Rightarrow> string" where
  "chunkName base i = base @ ''.'' @ formatInt (int i)"

definition metaName :: "string \<Rightarrow> string" where
  "metaName base = base @ ''.meta''"

definition encodeChunkMeta :: "nat \<Rightarrow> string" where
  "encodeChunkMeta chunkCount = formatInt (int chunkCount)"

definition decodeChunkMeta :: "string \<Rightarrow> (SessErr, nat) result" where
  "decodeChunkMeta meta = (case atoi (trimSpace meta) of
      None \<Rightarrow> Inl ErrChunkMeta
    | Some n \<Rightarrow> if n < 1 then Inl ErrChunkMeta else Inr (nat n))"

section \<open>Sessions\<close>

record SessOptions =
  so_Name :: string
  so_MaxAge :: int
  so_Path :: string
  so_Domain :: string
  so_Secure :: "bool option"
  so_SameSite :: SameSite

definition soPath :: "SessOptions \<Rightarrow> string" where
  "soPath o' = (if so_Path o' = [] then ''/'' else so_Path o')"

definition soSameSite :: "SessOptions \<Rightarrow> SameSite" where
  "soSameSite o' = (if so_SameSite o' = SameSiteUnset then SameSiteLaxMode else so_SameSite o')"

definition soSecure :: "SessOptions \<Rightarrow> Request option \<Rightarrow> bool" where
  "soSecure o' r = (case so_Secure o' of
      Some b \<Rightarrow> b | None \<Rightarrow> (case r of None \<Rightarrow> False | Some rq \<Rightarrow> rq_TLS rq))"

text \<open>The surroundings of a session: the parameters above and the codec's secrets.\<close>

record 'd SessEnv =
  en_json :: "'d json"
  en_aead :: AEAD
  en_secs :: "int \<Rightarrow> int"

text \<open>The response is the list of cookies handed to \<^verbatim>\<open>http.SetCookie\<close>, \<^const>\<open>None\<close> for a nil
  writer.\<close>

record 'd Session =
  se_codec :: "Secret list"
  se_opts :: SessOptions
  se_r :: "Request option"
  se_w :: "Cookie list option"
  se_p :: "'d payload"
  se_dirty :: bool
  se_destroyed :: bool

text \<open>\<^verbatim>\<open>r.Cookie\<close>: the first cookie of the name.\<close>

definition reqCookie :: "Request \<Rightarrow> string \<Rightarrow> string option" where
  "reqCookie r name = map_of (rq_Cookies r) name"

fun readChunks :: "Request \<Rightarrow> string \<Rightarrow> nat \<Rightarrow> nat \<Rightarrow> (SessErr, string list) result" where
  "readChunks r name i 0 = Inr []"
| "readChunks r name i (Suc n) = (case reqCookie r (chunkName name i) of
      None \<Rightarrow> Inl ErrNoCookie
    | Some v \<Rightarrow> (case readChunks r name (Suc i) n of Inl e \<Rightarrow> Inl e | Inr parts \<Rightarrow> Inr (v # parts)))"

definition readChunked :: "Request \<Rightarrow> string \<Rightarrow> (SessErr, string) result" where
  "readChunked r name = (case reqCookie r (metaName name) of
      None \<Rightarrow> Inl ErrNoCookie
    | Some meta \<Rightarrow> (case decodeChunkMeta meta of
          Inl e \<Rightarrow> Inl e
        | Inr n \<Rightarrow> (case readChunks r name 0 n of Inl e \<Rightarrow> Inl e | Inr parts \<Rightarrow> Inr (joinChunks parts))))"

definition readWire :: "'d Session \<Rightarrow> (SessErr, string) result" where
  "readWire s = (case se_r s of
      None \<Rightarrow> Inl ErrNoCookie
    | Some r \<Rightarrow> (case reqCookie r (so_Name (se_opts s)) of
          None \<Rightarrow> readChunked r (so_Name (se_opts s))
        | Some v \<Rightarrow> if v \<noteq> [] then Inr v else readChunked r (so_Name (se_opts s))))"

definition readPrevChunkCount :: "'d Session \<Rightarrow> nat" where
  "readPrevChunkCount s = (case se_r s of
      None \<Rightarrow> 0
    | Some r \<Rightarrow> (case reqCookie r (metaName (so_Name (se_opts s))) of
          None \<Rightarrow> 0
        | Some meta \<Rightarrow> (case decodeChunkMeta meta of Inl _ \<Rightarrow> 0 | Inr n \<Rightarrow> n)))"

definition NewSession :: "'d SessEnv \<Rightarrow> 'd \<Rightarrow> int \<Rightarrow> Request option \<Rightarrow> Cookie list option \<Rightarrow> Secret list \<Rightarrow> SessOptions
    \<Rightarrow> 'd Session \<times> SessErr option" where
  "NewSession env zero now r w codec opts =
    (let s = \<lparr>se_codec = codec, se_opts = opts, se_r = r, se_w = w, se_p = \<lparr>pl_Data = zero, pl_Expires = None\<rparr>,
              se_dirty = False, se_destroyed = False\<rparr>
     in case readWire s of
       Inl _ \<Rightarrow> (s, None)
     | Inr wire \<Rightarrow> (case decodePayload (en_json env) (en_aead env) codec wire of
           Inl e \<Rightarrow> (s, Some e)
         | Inr p \<Rightarrow>
             (case pl_Expires p of
                None \<Rightarrow> (s\<lparr>se_p := p\<rparr>, None)
              | Some x \<Rightarrow> if x < now then (s\<lparr>se_dirty := True, se_destroyed := True\<rparr>, None)
                         else (s\<lparr>se_p := p\<rparr>, None))))"

definition setCookie :: "'d SessEnv \<Rightarrow> int \<Rightarrow> string \<Rightarrow> string \<Rightarrow> 'd Session \<Rightarrow> 'd Session" where
  "setCookie env now name v s = (case se_w s of
      None \<Rightarrow> s
    | Some out \<Rightarrow>
        (let opts = se_opts s;
             ck = \<lparr>ck_Name = name, ck_Value = v, ck_Path = soPath opts, ck_Domain = so_Domain opts,
                   ck_MaxAge = 0, ck_Expires = None, ck_Secure = soSecure opts (se_r s), ck_HttpOnly = True,
                   ck_SameSite = soSameSite opts\<rparr>;
             ck = (if 0 < so_MaxAge opts
                   then ck\<lparr>ck_MaxAge := en_secs env (so_MaxAge opts), ck_Expires := Some (now + so_MaxAge opts)\<rparr>
                   else ck)
         in s\<lparr>se_w := Some (out @ [ck])\<rparr>))"

definition deleteCookie :: "string \<Rightarrow> 'd Session \<Rightarrow> 'd Session" where
  "deleteCookie name s = (case se_w s of
      None \<Rightarrow> s
    | Some out \<Rightarrow> s\<lparr>se_w := Some (out @ [\<lparr>ck_Name = name, ck_Value = [], ck_Path = soPath (se_opts s),
        ck_Domain = so_Domain (se_opts s), ck_MaxAge = -1, ck_Expires = Some 0, ck_Secure = False,
        ck_HttpOnly = False, ck_SameSite = SameSiteUnset\<rparr>])\<rparr>)"

definition deleteAllCookies :: "'d Session \<Rightarrow> 'd Session" where
  "deleteAllCookies s = (case se_w s of
      None \<Rightarrow> s
    | Some _ \<Rightarrow>
        (let name = so_Name (se_opts s);
             s = deleteCookie name s;
             prevCount = readPrevChunkCount s
         in if 0 < prevCount
            then foldl (\<lambda>s i. deleteCookie (chunkName name i) s) (deleteCookie (metaName name) s) [0..<prevCount]
            else s))"

definition flush :: "'d SessEnv \<Rightarrow> int \<Rightarrow> string option \<Rightarrow> 'd Session \<Rightarrow> 'd Session \<times> SessErr option" where
  "flush env now rand s = (case se_w s of
      None \<Rightarrow> (s, None)
    | Some _ \<Rightarrow> (case encodePayload (en_json env) (en_aead env) rand (se_codec s) (se_p s) of
          Inl e \<Rightarrow> (s, Some e)
        | Inr wire \<Rightarrow>
            (let name = so_Name (se_opts s);
                 chunks = splitChunks wire;
                 prevCount = readPrevChunkCount s
             in if length chunks = 1 then
                  (let s = foldl (\<lambda>s i. deleteCookie (chunkName name i) s) s [0..<prevCount];
                       s = (if 0 < prevCount then deleteCookie (metaName name) s else s)
                   in (setCookie env now name (hd chunks) s, None))
                else
                  (let s = (case se_r s of
                         None \<Rightarrow> s
                       | Some r \<Rightarrow> (case reqCookie r name of
                             None \<Rightarrow> s
                           | Some v \<Rightarrow> if v \<noteq> [] then deleteCookie name s else s));
                       s = foldl (\<lambda>s i. deleteCookie (chunkName name i) s) s [length chunks..<prevCount];
                       s = setCookie env now (metaName name) (encodeChunkMeta (length chunks)) s
                   in (foldl (\<lambda>s (i, c). setCookie env now (chunkName name i) c s) s (enumerate 0 chunks), None)))))"

definition touched :: "int \<Rightarrow> 'd Session \<Rightarrow> 'd payload" where
  "touched now s = (if 0 < so_MaxAge (se_opts s) then (se_p s)\<lparr>pl_Expires := Some (now + so_MaxAge (se_opts s))\<rparr>
     else se_p s)"

definition sessSet :: "'d SessEnv \<Rightarrow> int \<Rightarrow> string option \<Rightarrow> 'd \<Rightarrow> 'd Session \<Rightarrow> 'd Session \<times> SessErr option" where
  "sessSet env now rand v s =
    (let s = s\<lparr>se_p := (se_p s)\<lparr>pl_Data := v\<rparr>\<rparr>
     in flush env now rand (s\<lparr>se_p := touched now s, se_dirty := True, se_destroyed := False\<rparr>))"

definition sessUpdate :: "'d SessEnv \<Rightarrow> int \<Rightarrow> string option \<Rightarrow> ('d \<Rightarrow> 'd) \<Rightarrow> 'd Session \<Rightarrow> 'd Session \<times> SessErr option" where
  "sessUpdate env now rand fn s =
    (let s = s\<lparr>se_p := (se_p s)\<lparr>pl_Data := fn (pl_Data (se_p s))\<rparr>\<rparr>
     in flush env now rand (s\<lparr>se_p := touched now s, se_dirty := True, se_destroyed := False\<rparr>))"

definition sessRefresh :: "'d SessEnv \<Rightarrow> int \<Rightarrow> string option \<Rightarrow> int list \<Rightarrow> 'd Session \<Rightarrow> 'd Session \<times> SessErr option" where
  "sessRefresh env now rand d s =
    (let dur = (case d of x # _ \<Rightarrow> if 0 < x then x else so_MaxAge (se_opts s) | [] \<Rightarrow> so_MaxAge (se_opts s));
         s = (if 0 < dur then s\<lparr>se_p := (se_p s)\<lparr>pl_Expires := Some (now + dur)\<rparr>\<rparr> else s)
     in flush env now rand (s\<lparr>se_dirty := True\<rparr>))"

definition sessDestroy :: "'d \<Rightarrow> 'd Session \<Rightarrow> 'd Session" where
  "sessDestroy zero s = deleteAllCookies
     (s\<lparr>se_p := \<lparr>pl_Data = zero, pl_Expires = None\<rparr>, se_dirty := True, se_destroyed := True\<rparr>)"

definition sessData :: "'d Session \<Rightarrow> 'd" where "sessData s = pl_Data (se_p s)"
definition sessExpires :: "'d Session \<Rightarrow> int option" where "sessExpires s = pl_Expires (se_p s)"
definition NeedsSync :: "'d Session \<Rightarrow> bool" where "NeedsSync s = se_dirty s"
definition IsDirty :: "'d Session \<Rightarrow> bool" where "IsDirty s = NeedsSync s"

section \<open>The browser\<close>

text \<open>\<^verbatim>\<open>net/http\<close> prints a cookie only when its name is a token, and it drops the bytes of a value
  that a cookie value must not have.\<close>

definition tokenByte :: "char \<Rightarrow> bool" where
  "tokenByte c = (inRange 97 122 c \<or> inRange 65 90 c \<or> inRange 48 57 c \<or> c \<in> set ''!#$%&*+-.^_|~'' \<or> c = CHR 0x60 \<or> c = CHR 0x27)"

definition isToken :: "string \<Rightarrow> bool" where
  "isToken s = (s \<noteq> [] \<and> list_all tokenByte s)"

definition cookieValueByte :: "char \<Rightarrow> bool" where
  "cookieValueByte c = (inRange 0x20 0x7E c \<and> c \<noteq> CHR 0x22 \<and> c \<noteq> CHR '';'' \<and> c \<noteq> CHR 0x5C)"

text \<open>The cookies a browser holds for the site after a response; a negative \<^verbatim>\<open>Max-Age\<close> deletes.\<close>

definition takeCookie :: "Cookie \<Rightarrow> (string \<rightharpoonup> string) \<Rightarrow> (string \<rightharpoonup> string)" where
  "takeCookie ck jar = (if \<not> isToken (ck_Name ck) then jar
     else if ck_MaxAge ck < 0 then jar(ck_Name ck := None)
     else jar(ck_Name ck \<mapsto> filter cookieValueByte (ck_Value ck)))"

definition jarAfter :: "Cookie list \<Rightarrow> (string \<rightharpoonup> string) \<Rightarrow> (string \<rightharpoonup> string)" where
  "jarAfter cks jar = foldl (\<lambda>jar ck. takeCookie ck jar) jar cks"

end
