(* ===== verification/CookieSessionProps.thy ===== *)
theory CookieSessionProps
  imports CookieSession
begin

text \<open>
  What the session cookies guarantee: the codec opens exactly what it sealed, also after keys were
  rotated; a session that is stored comes back with the next request, whatever cookies the browser held
  before; a destroyed session does not come back. The last section shows what two writes in one
  response do.
\<close>

section \<open>The codec\<close>

text \<open>The law of authenticated encryption: opening succeeds for a sealed text and for no other, and
  the tag has 16 bytes.\<close>

definition aeadOK :: "AEAD \<Rightarrow> bool" where
  "aeadOK ae \<longleftrightarrow> (\<forall>k n p. length k = keySize \<longrightarrow> length n = nonceSize \<longrightarrow>
     length (ae_Seal ae k n p) = length p + gcmOverhead
     \<and> (\<forall>c. ae_Open ae k n c = Some p \<longleftrightarrow> c = ae_Seal ae k n p))"

lemma hasPrefix_drop_hd: "hasPrefix (drop k t) (c # p) \<Longrightarrow> c \<in> set t"
  by (metis hasPrefix_iff append_Cons in_set_dropD list.set_intros(1))

lemma SplitID_JoinID: "SplitID (JoinID e n) = Inr (e, n)"
proof -
  let ?t = "''id='' @ decDigits (unat n)"
  have cookie: "JoinID e n = e @ CHR ''&'' # ?t" by (simp add: JoinID_def idPrefix_def)
  have no: "CHR ''&'' \<notin> set ?t" using decDigits_chars[of "CHR ''&''" "unat n"] by (auto simp: go_defs)
  have "lastIndexStr (JoinID e n) idPrefix = Some (length e)"
  proof (rule lastIndexStr_Some)
    fix j assume j: "length e < j"
    then have "drop j (JoinID e n) = drop (j - length e - 1) ?t"
      unfolding cookie by (cases "j - length e") auto
    then show "\<not> hasPrefix (drop j (JoinID e n)) idPrefix"
      using no hasPrefix_drop_hd[of "j - length e - 1" ?t "CHR ''&''" "''id=''"] unfolding idPrefix_def by auto
  qed (simp_all add: JoinID_def)
  moreover have "parseUint 32 (decDigits (unat n)) = Some (unat n)"
  proof (rule parseUint_decDigits)
    have "unat n < 2 ^ LENGTH(32)" by (rule unsigned_less)
    then show "unat n < 2 ^ 32" by simp
  qed
  ultimately show ?thesis by (simp add: SplitID_def) (simp add: JoinID_def)
qed

text \<open>The key a list of secrets has for an id.\<close>

definition keyFor :: "Secret list \<Rightarrow> 32 word \<Rightarrow> string option" where
  "keyFor ss = map_of (map (\<lambda>s. (sk_ID s, sk_Key s)) ss)"

lemma decodeLoop_key:
  "(case decodeLoop ae enc n i ss of Inl e \<Rightarrow> Inl e | Inr (p, _) \<Rightarrow> Inr p)
    = (case keyFor ss n of None \<Rightarrow> Inl ErrSecretNotFound | Some k \<Rightarrow> gcmDecrypt ae k enc)"
  by (induction ss arbitrary: i) (auto simp: keyFor_def split: sum.split)

lemma codecDecrypt_key:
  "codecDecrypt ae ss cookie = (case SplitID cookie of
      Inl e \<Rightarrow> Inl e
    | Inr (enc, n) \<Rightarrow> (case Validate ss of
         Some e \<Rightarrow> Inl e
       | None \<Rightarrow> (case keyFor ss n of None \<Rightarrow> Inl ErrSecretNotFound | Some k \<Rightarrow> gcmDecrypt ae k enc)))"
proof (cases "SplitID cookie")
  case (Inr x)
  obtain enc n where x: "x = (enc, n)" by force
  show ?thesis
    by (cases "Validate ss") (simp_all add: codecDecrypt_def Decode_def Inr x decodeLoop_key)
qed (simp add: codecDecrypt_def)

lemma Validate_keys: "Validate ss = None \<longleftrightarrow> ss \<noteq> [] \<and> (\<forall>s \<in> set ss. length (sk_Key s) = keySize)"
  by (auto simp: Validate_def list_ex_iff)

lemma codecEncrypt_wire:
  assumes "Validate ss = None"
  shows "codecEncrypt ae (Some nonce) ss p
    = Inr (JoinID (hexEncode (nonce @ ae_Seal ae (sk_Key (hd ss)) nonce p)) (sk_ID (hd ss)))"
proof -
  have "length (sk_Key (hd ss)) = keySize" using assms unfolding Validate_keys by (cases ss) auto
  then show ?thesis using assms by (simp add: codecEncrypt_def Encode_def gcmEncrypt_def Let_def)
qed

lemma codec_roundtrip:
  assumes ae: "aeadOK ae" and v: "Validate ss = None" "Validate ss' = None" and nonce: "length nonce = nonceSize"
    and key: "keyFor ss' (sk_ID (hd ss)) = Some (sk_Key (hd ss))"
  shows "\<exists>w. codecEncrypt ae (Some nonce) ss p = Inr w \<and> codecDecrypt ae ss' w = Inr p"
proof -
  let ?k = "sk_Key (hd ss)"
  have k: "length ?k = keySize" using v(1) unfolding Validate_keys by (cases ss) auto
  then have "length (ae_Seal ae ?k nonce p) = length p + gcmOverhead" "ae_Open ae ?k nonce (ae_Seal ae ?k nonce p) = Some p"
    using ae nonce unfolding aeadOK_def by auto
  then have "gcmDecrypt ae ?k (hexEncode (nonce @ ae_Seal ae ?k nonce p)) = Inr p"
    using k nonce by (simp add: gcmDecrypt_def)
  then show ?thesis using v key by (simp add: codecEncrypt_wire codecDecrypt_key SplitID_JoinID)
qed



section \<open>Chunks\<close>

lemma joinChunks_concat: "joinChunks xs = concat xs"
  unfolding joinChunks_def by (induction "[] :: string" xs rule: joinStr.induct) auto

lemma chunkLoop_concat: "concat (chunkLoop w) = w"
proof (induction w rule: chunkLoop.induct)
  case (1 w)
  then show ?case by (subst chunkLoop.simps) (auto simp: Let_def)
qed

lemma chunkLoop_length: "length (chunkLoop w) \<le> length w"
proof (induction w rule: chunkLoop.induct)
  case (1 w)
  show ?case
  proof (cases "w = []")
    case False
    let ?n = "if maxChunkBytes > length w then length w else maxChunkBytes"
    have n: "1 \<le> ?n" "?n \<le> length w" using False by (auto simp: maxChunkBytes_def Suc_le_eq)
    have "chunkLoop w = take ?n w # chunkLoop (drop ?n w)" using False by (subst chunkLoop.simps) (simp add: Let_def)
    then have "length (chunkLoop w) = Suc (length (chunkLoop (drop ?n w)))" by simp
    also have "\<dots> \<le> Suc (length w - ?n)" using 1[OF False refl] by simp
    finally show ?thesis using n by linarith
  qed (simp add: chunkLoop.simps)
qed

lemma splitChunks_facts:
  "concat (splitChunks w) = w" "splitChunks w \<noteq> []" "length (splitChunks w) \<le> Suc (length w)"
  "length (splitChunks w) = 1 \<Longrightarrow> hd (splitChunks w) = w"
proof -
  show c: "concat (splitChunks w) = w" by (simp add: splitChunks_def chunkLoop_concat)
  have "chunkLoop w \<noteq> []" if "w \<noteq> []" using chunkLoop_concat[of w] that by auto
  then show "splitChunks w \<noteq> []" by (cases "w = []") (auto simp: splitChunks_def)
  show "length (splitChunks w) \<le> Suc (length w)"
    using chunkLoop_length[of w] by (simp add: splitChunks_def)
  show "hd (splitChunks w) = w" if h: "length (splitChunks w) = 1"
  proof -
    obtain x where "splitChunks w = [x]" using h by (cases "splitChunks w") auto
    then show ?thesis using c by simp
  qed
qed

text \<open>Every chunk fits into a cookie.\<close>

lemma splitChunks_size: "x \<in> set (splitChunks w) \<Longrightarrow> length x \<le> maxChunkBytes"
proof -
  have "x \<in> set (chunkLoop w) \<Longrightarrow> length x \<le> maxChunkBytes" for w
  proof (induction w rule: chunkLoop.induct)
    case (1 w)
    then show ?case by (subst (asm) (2) chunkLoop.simps) (auto simp: Let_def split: if_splits)
  qed
  then show "x \<in> set (splitChunks w) \<Longrightarrow> length x \<le> maxChunkBytes" by (auto simp: splitChunks_def split: if_splits)
qed

lemma names_differ:
  "chunkName b i = chunkName b j \<longleftrightarrow> i = j" "chunkName b i \<noteq> b" "metaName b \<noteq> b" "chunkName b i \<noteq> metaName b"
proof -
  show "chunkName b i = chunkName b j \<longleftrightarrow> i = j" by (simp add: chunkName_def formatInt_def decDigits_inj)
  show "chunkName b i \<noteq> b" "metaName b \<noteq> b" by (simp_all add: chunkName_def metaName_def)
  have "CHR ''m'' \<notin> set (decDigits i)" using decDigits_chars[of "CHR ''m''" i] by (auto simp: go_defs)
  then have "decDigits i \<noteq> ''meta''" by auto
  then show "chunkName b i \<noteq> metaName b" by (simp add: chunkName_def metaName_def formatInt_def)
qed

lemma digit_token: "isDigitByte c \<Longrightarrow> tokenByte c"
  by (simp add: tokenByte_def isDigitByte_def)

lemma names_tokens:
  assumes "isToken b"
  shows "isToken (chunkName b i)" "isToken (metaName b)"
proof -
  have "list_all tokenByte (decDigits i)" using decDigits_chars digit_token by (simp add: list_all_iff)
  then show "isToken (chunkName b i)" using assms
    by (simp add: isToken_def chunkName_def formatInt_def tokenByte_def)
  show "isToken (metaName b)" using assms by (simp add: isToken_def metaName_def tokenByte_def inRange_def byteVal_def)
qed

section \<open>Values survive the trip\<close>

lemma hex_valueByte: "isHexByte c \<Longrightarrow> cookieValueByte c"
  by (auto simp: isHexByte_def cookieValueByte_def inRange_def byteVal_def)

lemma digits_value: "list_all cookieValueByte (decDigits n)"
  using decDigits_chars[of _ n] by (auto simp: list_all_iff isDigitByte_def hex_valueByte isHexByte_def)

lemma wire_value: "list_all cookieValueByte (JoinID (hexEncode x) n)"
proof -
  have "list_all cookieValueByte (hexEncode x)"
    using hexEncode_chars[of x] by (auto simp: list_all_iff intro: hex_valueByte)
  moreover have "list_all cookieValueByte idPrefix"
    by (simp add: idPrefix_def cookieValueByte_def inRange_def byteVal_def)
  ultimately show ?thesis by (simp add: JoinID_def digits_value)
qed

lemma decDigits_length: "length (decDigits n) \<le> Suc n"
proof (induction n rule: decDigits.induct)
  case (1 n)
  show ?case
  proof (cases "n < 10")
    case False
    then have "length (decDigits (n div 10)) \<le> Suc (n div 10)" by (rule 1)
    then show ?thesis using False by (subst decDigits.simps) simp
  qed (simp add: decDigits.simps)
qed

lemma wire_length: "length (JoinID (hexEncode x) n) < 2 * length x + 5 + 2 ^ 32"
proof -
  have "unat n < 2 ^ LENGTH(32)" by (rule unsigned_less)
  then have "unat n < 2 ^ 32" by simp
  then show ?thesis using decDigits_length[of "unat n"] by (simp add: JoinID_def idPrefix_def)
qed

section \<open>What the browser holds\<close>

text \<open>The browser's cookies after the part of the response written so far.\<close>

definition heard :: "'d Session \<Rightarrow> (string \<rightharpoonup> string) \<Rightarrow> (string \<rightharpoonup> string)" where
  "heard s jar = (case se_w s of None \<Rightarrow> jar | Some out \<Rightarrow> jarAfter out jar)"

definition secsOK :: "'d SessEnv \<Rightarrow> bool" where
  "secsOK env \<longleftrightarrow> (\<forall>d. 0 < d \<longrightarrow> 0 \<le> en_secs env d)"

lemma jarAfter_snoc: "jarAfter (cks @ [ck]) jar = takeCookie ck (jarAfter cks jar)"
  by (simp add: jarAfter_def)

lemma deleteCookie_frame [simp]:
  "se_r (deleteCookie n s) = se_r s" "se_opts (deleteCookie n s) = se_opts s" "se_codec (deleteCookie n s) = se_codec s"
  "se_w (deleteCookie n s) = None \<longleftrightarrow> se_w s = None"
  by (simp_all add: deleteCookie_def split: option.split)

lemma setCookie_frame [simp]:
  "se_r (setCookie env now n v s) = se_r s" "se_opts (setCookie env now n v s) = se_opts s"
  "se_w (setCookie env now n v s) = None \<longleftrightarrow> se_w s = None"
  by (simp_all add: setCookie_def Let_def split: option.split)

lemma heard_delete: "se_w s \<noteq> None \<Longrightarrow> isToken n \<Longrightarrow> heard (deleteCookie n s) jar = (heard s jar)(n := None)"
  by (auto simp: heard_def deleteCookie_def jarAfter_snoc takeCookie_def)

lemma heard_set:
  assumes "se_w s \<noteq> None" "isToken n" "list_all cookieValueByte v" "secsOK env"
  shows "heard (setCookie env now n v s) jar = (heard s jar)(n \<mapsto> v)"
proof -
  have "filter cookieValueByte v = v" using assms(3) by (simp add: list_all_iff filter_id_conv)
  moreover have "\<not> en_secs env (so_MaxAge (se_opts s)) < 0" if "0 < so_MaxAge (se_opts s)"
    using assms(4) that by (simp add: secsOK_def not_less)
  ultimately show ?thesis using assms(1,2)
    by (auto simp: heard_def setCookie_def jarAfter_snoc takeCookie_def Let_def)
qed

lemma delete_chunks:
  defines "del b is s \<equiv> foldl (\<lambda>s i. deleteCookie (chunkName b i) s) (s :: 'd Session) is"
  shows "se_r (del b is s) = se_r s" "se_opts (del b is s) = se_opts s" "se_w (del b is s) = None \<longleftrightarrow> se_w s = None"
    "se_w s \<noteq> None \<Longrightarrow> isToken b \<Longrightarrow>
      heard (del b is s) jar = (\<lambda>x. if x \<in> chunkName b ` set is then None else heard s jar x)"
proof -
  have "se_r (del b is s) = se_r s \<and> se_opts (del b is s) = se_opts s \<and> (se_w (del b is s) = None \<longleftrightarrow> se_w s = None)
    \<and> (se_w s \<noteq> None \<longrightarrow> isToken b \<longrightarrow>
        heard (del b is s) jar = (\<lambda>x. if x \<in> chunkName b ` set is then None else heard s jar x))" for s
  proof (induction "is" arbitrary: s)
    case (Cons i "is")
    have step: "del b (i # is) s = del b is (deleteCookie (chunkName b i) s)" by (simp add: del_def)
    show ?case using Cons[of "deleteCookie (chunkName b i) s"] unfolding step
      by (auto simp: heard_delete names_tokens fun_eq_iff)
  qed (simp add: del_def)
  then show "se_r (del b is s) = se_r s" "se_opts (del b is s) = se_opts s" "se_w (del b is s) = None \<longleftrightarrow> se_w s = None"
    "se_w s \<noteq> None \<Longrightarrow> isToken b \<Longrightarrow>
      heard (del b is s) jar = (\<lambda>x. if x \<in> chunkName b ` set is then None else heard s jar x)" by blast+
qed

lemma set_chunks:
  fixes now :: int and k :: nat
  assumes "isToken b" "secsOK env" "se_w s \<noteq> None" "\<forall>c \<in> set cs. list_all cookieValueByte c"
  defines "s' \<equiv> foldl (\<lambda>s (i, c). setCookie env now (chunkName b i) c s) s (enumerate k cs)"
  shows "i < length cs \<Longrightarrow> heard s' jar (chunkName b (k + i)) = Some (cs ! i)"
    "x \<notin> range (chunkName b) \<Longrightarrow> heard s' jar x = heard s jar x"
proof -
  have gen: "(\<forall>i < length cs. heard (foldl (\<lambda>s (i, c). setCookie env now (chunkName b i) c s) s (enumerate k cs)) jar
        (chunkName b (k + i)) = Some (cs ! i))
    \<and> (\<forall>x. x \<notin> chunkName b ` {k..} \<longrightarrow>
        heard (foldl (\<lambda>s (i, c). setCookie env now (chunkName b i) c s) s (enumerate k cs)) jar x = heard s jar x)"
    using assms(3,4)
  proof (induction cs arbitrary: s k)
    case (Cons c cs)
    let ?s = "setCookie env now (chunkName b k) c s"
    let ?t = "foldl (\<lambda>s (i, c). setCookie env now (chunkName b i) c s) ?s (enumerate (Suc k) cs)"
    have h: "heard ?s jar = (heard s jar)(chunkName b k \<mapsto> c)"
      using Cons.prems assms(1,2) by (intro heard_set names_tokens) auto
    have ih: "\<forall>i < length cs. heard ?t jar (chunkName b (Suc k + i)) = Some (cs ! i)"
      "\<forall>x. x \<notin> chunkName b ` {Suc k..} \<longrightarrow> heard ?t jar x = heard ?s jar x"
      using Cons.IH[of ?s "Suc k"] Cons.prems by auto
    have "chunkName b k \<notin> chunkName b ` {Suc k..}" by (auto simp: names_differ)
    then have "heard ?t jar (chunkName b k) = Some c" using ih(2) h by simp
    moreover have "heard ?t jar (chunkName b (k + i)) = Some ((c # cs) ! i)" if "0 < i" "i < Suc (length cs)" for i
      using ih(1)[rule_format, of "i - 1"] that by simp
    ultimately have "\<forall>i < length (c # cs). heard ?t jar (chunkName b (k + i)) = Some ((c # cs) ! i)"
      by (metis add.right_neutral length_Cons nth_Cons_0 not_gr_zero)
    moreover have "heard ?t jar x = heard s jar x" if "x \<notin> chunkName b ` {k..}" for x
    proof -
      have "x \<notin> chunkName b ` {Suc k..}" "x \<noteq> chunkName b k" using that by auto
      then show ?thesis using ih(2) h by simp
    qed
    ultimately show ?case by simp
  qed simp
  show "i < length cs \<Longrightarrow> heard s' jar (chunkName b (k + i)) = Some (cs ! i)" using gen unfolding s'_def by blast
  show "x \<notin> range (chunkName b) \<Longrightarrow> heard s' jar x = heard s jar x" using gen unfolding s'_def by blast
qed

section \<open>Reading back\<close>

lemma readChunks_all:
  "(\<And>i. i < n \<Longrightarrow> reqCookie r (chunkName b (k + i)) = Some (cs ! i)) \<Longrightarrow> length cs = n \<Longrightarrow> readChunks r b k n = Inr cs"
proof (induction n arbitrary: k cs)
  case (Suc n)
  then obtain c cs' where cs: "cs = c # cs'" by (cases cs) auto
  have "readChunks r b (Suc k) n = Inr cs'"
  proof (rule Suc.IH)
    fix i assume "i < n"
    then show "reqCookie r (chunkName b (Suc k + i)) = Some (cs' ! i)" using Suc.prems(1)[of "Suc i"] cs by simp
  qed (use Suc.prems(2) cs in simp)
  then show ?case using Suc.prems(1)[of 0] cs by simp
qed simp

lemma trimSpace_digits: "list_all isDigitByte s \<Longrightarrow> trimSpace s = s"
proof -
  assume d: "list_all isDigitByte s"
  have "list_all (list_all (\<lambda>c. \<not> isDigitByte c)) spaceEncs"
    by (simp add: spaceEncs_code go_defs)
  then have no: "c \<notin> set s" if "p \<in> set spaceEncs" "c \<in> set p" for p c using d that by (auto simp: list_all_iff)
  have "\<not> (p \<noteq> [] \<and> hasPrefix s p)" "\<not> (p \<noteq> [] \<and> hasSuffix s p)" if "p \<in> set spaceEncs" for p
    using no[OF that] by (cases p; force simp: hasPrefix_iff hasSuffix_iff)+
  then have "find (\<lambda>p. p \<noteq> [] \<and> hasPrefix s p) spaceEncs = None" "find (\<lambda>p. p \<noteq> [] \<and> hasSuffix s p) spaceEncs = None"
    by (auto simp: find_None_iff)
  then have "trimSpaceLeft s = s" "trimSpaceRight s = s"
    using trimSpaceLeft.simps[of s] trimSpaceRight.simps[of s] by simp_all
  then show "trimSpace s = s" by (simp add: trimSpace_def)
qed

lemma decodeChunkMeta_encode: "1 \<le> n \<Longrightarrow> n < 2 ^ 63 \<Longrightarrow> decodeChunkMeta (encodeChunkMeta n) = Inr n"
proof -
  assume n: "1 \<le> n" "n < 2 ^ 63"
  have "trimSpace (formatInt (int n)) = formatInt (int n)"
    by (rule trimSpace_digits) (simp add: formatInt_def decDigits_digits)
  moreover have "int n < 2 ^ 63" using n(2) by (metis of_nat_less_iff of_nat_numeral of_nat_power)
  ultimately show ?thesis using n(1) by (simp add: decodeChunkMeta_def encodeChunkMeta_def atoi_formatInt)
qed

text \<open>The plain cookie is gone for the browser, or the chunked path of a flush deletes it.\<close>

definition plainCleared :: "'d Session \<Rightarrow> (string \<rightharpoonup> string) \<Rightarrow> bool" where
  "plainCleared s jar \<longleftrightarrow> heard s jar (so_Name (se_opts s)) \<in> {None, Some []}
     \<or> (\<exists>r v. se_r s = Some r \<and> reqCookie r (so_Name (se_opts s)) = Some v \<and> v \<noteq> [])"

lemma readWire_plain:
  "se_r s = Some r \<Longrightarrow> reqCookie r (so_Name (se_opts s)) = Some w \<Longrightarrow> w \<noteq> [] \<Longrightarrow> readWire s = Inr w"
  by (simp add: readWire_def)

lemma readWire_chunked:
  assumes "se_r s = Some r" "so_Name (se_opts s) = b" "reqCookie r b \<in> {None, Some []}"
    "reqCookie r (metaName b) = Some (encodeChunkMeta (length cs))" "1 \<le> length cs" "length cs < 2 ^ 63"
    "\<And>i. i < length cs \<Longrightarrow> reqCookie r (chunkName b i) = Some (cs ! i)"
  shows "readWire s = Inr (concat cs)"
proof -
  have "readChunks r b 0 (length cs) = Inr cs" using assms(7) by (intro readChunks_all) auto
  then have "readChunked r b = Inr (concat cs)"
    using assms(4) by (simp add: readChunked_def decodeChunkMeta_encode[OF assms(5,6)] joinChunks_concat)
  then show ?thesis using assms(1-3) by (auto simp: readWire_def)
qed

text \<open>What the browser holds after the two paths of a flush.\<close>

lemma flush_single:
  assumes w: "se_w s \<noteq> None" and tok: "isToken (so_Name (se_opts s))" and secs: "secsOK env"
    and enc: "encodePayload (en_json env) (en_aead env) rand (se_codec s) (se_p s) = Inr wire"
    and safe: "list_all cookieValueByte wire" and one: "length (splitChunks wire) = 1"
    and out: "flush env now rand s = (s', err)"
  shows "err = None" "heard s' jar (so_Name (se_opts s)) = Some wire"
    "se_r s' = se_r s" "se_opts s' = se_opts s" "se_w s' \<noteq> None"
proof -
  let ?b = "so_Name (se_opts s)" and ?n = "readPrevChunkCount s"
  let ?d = "foldl (\<lambda>s i. deleteCookie (chunkName ?b i) s) s [0..<?n]"
  let ?m = "if 0 < ?n then deleteCookie (metaName ?b) ?d else ?d"
  have s': "s' = setCookie env now ?b wire ?m \<and> err = None"
    using out w enc one splitChunks_facts(4)[OF one] by (auto simp: flush_def Let_def)
  have m: "se_w ?m \<noteq> None" using w by (simp add: delete_chunks(3) del: not_None_eq)
  show "err = None" using s' by blast
  show "heard s' jar ?b = Some wire" using s' m tok safe secs by (simp add: heard_set del: not_None_eq)
  show "se_r s' = se_r s" "se_opts s' = se_opts s" using s' by (simp_all add: delete_chunks)
  show "se_w s' \<noteq> None" using s' m by (simp del: not_None_eq)
qed

lemma flush_chunked:
  fixes s :: "'d Session" and jar :: "string \<rightharpoonup> string"
  assumes w: "se_w s \<noteq> None" and tok: "isToken (so_Name (se_opts s))" and secs: "secsOK env"
    and enc: "encodePayload (en_json env) (en_aead env) rand (se_codec s) (se_p s) = Inr wire"
    and safe: "list_all cookieValueByte wire" and many: "length (splitChunks wire) \<noteq> 1"
    and out: "flush env now rand s = (s', err)"
  defines "b \<equiv> so_Name (se_opts s)" and "cs \<equiv> splitChunks wire"
  shows "err = None"
    "heard s' jar b = (if \<exists>r v. se_r s = Some r \<and> reqCookie r b = Some v \<and> v \<noteq> [] then None else heard s jar b)"
    "heard s' jar (metaName b) = Some (encodeChunkMeta (length cs))"
    "i < length cs \<Longrightarrow> heard s' jar (chunkName b i) = Some (cs ! i)"
proof -
  define p where "p = (case se_r s of None \<Rightarrow> s | Some r \<Rightarrow> (case reqCookie r b of
      None \<Rightarrow> s | Some v \<Rightarrow> if v \<noteq> [] then deleteCookie b s else s))"
  define d where "d = foldl (\<lambda>s i. deleteCookie (chunkName b i) s) p [length cs..<readPrevChunkCount s]"
  define m where "m = setCookie env now (metaName b) (encodeChunkMeta (length cs)) d"
  have s': "s' = foldl (\<lambda>s (i, c). setCookie env now (chunkName b i) c s) m (enumerate 0 cs)" and err: "err = None"
    using out w enc many unfolding p_def d_def m_def b_def cs_def by (auto simp: flush_def Let_def)
  have tokb: "isToken b" using tok by (simp add: b_def)
  have pw: "se_w p \<noteq> None" using w by (auto simp: p_def simp del: not_None_eq split: option.split)
  have ph: "heard p jar b = (if \<exists>r v. se_r s = Some r \<and> reqCookie r b = Some v \<and> v \<noteq> [] then None else heard s jar b)"
    using w tokb by (auto simp: p_def heard_delete split: option.split)
  have dw: "se_w d \<noteq> None" using pw by (simp add: d_def delete_chunks(3) del: not_None_eq)
  have dh: "heard d jar b = heard p jar b"
    using pw tokb by (auto simp: d_def delete_chunks(4) names_differ(2)[of b, symmetric])
  have mw: "se_w m \<noteq> None" using dw by (simp add: m_def del: not_None_eq)
  have mh: "heard m jar = (heard d jar)(metaName b \<mapsto> encodeChunkMeta (length cs))"
    unfolding m_def using dw names_tokens(2)[OF tokb] secs
    by (intro heard_set) (simp_all add: encodeChunkMeta_def formatInt_def digits_value)
  have chunk_ok: "\<forall>c \<in> set cs. list_all cookieValueByte c"
  proof
    fix c assume "c \<in> set cs"
    then have "set c \<subseteq> set wire" using splitChunks_facts(1)[of wire] unfolding cs_def by (metis UN_upper set_concat)
    then show "list_all cookieValueByte c" using safe by (auto simp: list_all_iff)
  qed
  note sc = set_chunks[OF tokb secs mw chunk_ok, where now = now and k = 0 and jar = jar, folded s']
  have out_of: "b \<notin> range (chunkName b)" "metaName b \<notin> range (chunkName b)"
    using names_differ(2)[of b] names_differ(4)[of b] by (metis rangeE)+
  show "err = None" by (rule err)
  show "heard s' jar b = (if \<exists>r v. se_r s = Some r \<and> reqCookie r b = Some v \<and> v \<noteq> [] then None else heard s jar b)"
    unfolding sc(2)[OF out_of(1)] mh using names_differ(3)[of b] ph dh by simp
  show "heard s' jar (metaName b) = Some (encodeChunkMeta (length cs))"
    unfolding sc(2)[OF out_of(2)] mh by simp
  show "i < length cs \<Longrightarrow> heard s' jar (chunkName b i) = Some (cs ! i)" using sc(1)[of i] by simp
qed

text \<open>A flush that wrote a wire text leaves the browser with cookies that read back as that text.\<close>

lemma flush_stores:
  assumes w: "se_w s \<noteq> None" and tok: "isToken (so_Name (se_opts s))" and secs: "secsOK env"
    and enc: "encodePayload (en_json env) (en_aead env) rand (se_codec s) (se_p s) = Inr wire"
    and safe: "list_all cookieValueByte wire" "wire \<noteq> []" "Suc (length wire) < 2 ^ 63"
    and plain: "plainCleared s jar"
    and out: "flush env now rand s = (s', err)"
    and next_rq: "se_r t = Some r" "so_Name (se_opts t) = so_Name (se_opts s)" "reqCookie r = heard s' jar"
  shows "err = None \<and> readWire t = Inr wire"
proof (cases "length (splitChunks wire) = 1")
  case True
  note f = flush_single[OF w tok secs enc safe(1) True out]
  then show ?thesis using next_rq safe(2) by (auto intro: readWire_plain)
next
  case False
  note f = flush_chunked[OF w tok secs enc safe(1) False out]
  have "heard s' jar (so_Name (se_opts s)) \<in> {None, Some []}"
    unfolding f(2) using plain by (auto simp: plainCleared_def)
  moreover have "1 \<le> length (splitChunks wire)" "length (splitChunks wire) < 2 ^ 63"
    using splitChunks_facts(2,3)[of wire] safe(3) by (auto simp: Suc_le_eq)
  ultimately have "readWire t = Inr (concat (splitChunks wire))"
    using next_rq f(3,4) by (intro readWire_chunked[where b = "so_Name (se_opts s)" and r = r]) auto
  then show ?thesis using f(1) splitChunks_facts(1) by simp
qed

section \<open>Storing and loading\<close>

text \<open>A payload that JSON encodes, decodes and keeps within a size that fits in memory.\<close>

definition jsonOK :: "'d json \<Rightarrow> 'd payload \<Rightarrow> bool" where
  "jsonOK js p \<longleftrightarrow> (\<exists>raw. js_Marshal js p = Inr raw \<and> js_Unmarshal js raw = Inr p \<and> length raw < 2 ^ 61)"

text \<open>The wire text of a payload: safe as a cookie value, and any codec that has the key reads it.\<close>

lemma encodePayload_wire:
  assumes ae: "aeadOK ae" and v: "Validate ss = None" and n: "length nonce = nonceSize" and js: "jsonOK js p"
  obtains wire where "encodePayload js ae (Some nonce) ss p = Inr wire" "list_all cookieValueByte wire" "wire \<noteq> []"
    "Suc (length wire) < 2 ^ 63"
    "\<And>ss'. Validate ss' = None \<Longrightarrow> keyFor ss' (sk_ID (hd ss)) = Some (sk_Key (hd ss)) \<Longrightarrow>
       decodePayload js ae ss' wire = Inr p"
proof -
  obtain raw where raw: "js_Marshal js p = Inr raw" "js_Unmarshal js raw = Inr p" "length raw < 2 ^ 61"
    using js unfolding jsonOK_def by blast
  let ?x = "nonce @ ae_Seal ae (sk_Key (hd ss)) nonce raw"
  let ?wire = "JoinID (hexEncode ?x) (sk_ID (hd ss))"
  have e: "codecEncrypt ae (Some nonce) ss raw = Inr ?wire" by (rule codecEncrypt_wire[OF v])
  have "length (sk_Key (hd ss)) = keySize" using v unfolding Validate_keys by (cases ss) auto
  then have "length ?x = 28 + length raw" using ae n unfolding aeadOK_def by (simp add: nonceSize_def gcmOverhead_def)
  then have "Suc (length ?wire) < 2 ^ 63" using wire_length[of ?x "sk_ID (hd ss)"] raw(3) by simp
  moreover have "encodePayload js ae (Some nonce) ss p = Inr ?wire" using raw(1) e by (simp add: encodePayload_def)
  moreover have "?wire \<noteq> []" by (simp add: JoinID_def idPrefix_def)
  moreover have "decodePayload js ae ss' ?wire = Inr p"
    if "Validate ss' = None" "keyFor ss' (sk_ID (hd ss)) = Some (sk_Key (hd ss))" for ss'
    using codec_roundtrip[OF ae v that(1) n that(2), of raw] e raw(2) by (auto simp: decodePayload_def)
  ultimately show ?thesis using that wire_value by blast
qed

text \<open>The payload \<^verbatim>\<open>Set\<close> stores.\<close>

definition stored :: "int \<Rightarrow> 'd \<Rightarrow> 'd Session \<Rightarrow> 'd payload" where
  "stored now v s = \<lparr>pl_Data = v, pl_Expires = (if 0 < so_MaxAge (se_opts s)
      then Some (now + so_MaxAge (se_opts s)) else pl_Expires (se_p s))\<rparr>"

lemma sessSet_flush:
  "sessSet env now rand v s = flush env now rand (s\<lparr>se_p := stored now v s, se_dirty := True, se_destroyed := False\<rparr>)"
  by (cases "se_p s") (simp add: sessSet_def touched_def stored_def Let_def)

definition liveAt :: "int \<Rightarrow> int option \<Rightarrow> bool" where
  "liveAt now x = (case x of None \<Rightarrow> True | Some t \<Rightarrow> now \<le> t)"

lemma NewSession_loads:
  assumes "\<And>s :: 'd Session. se_r s = Some r \<Longrightarrow> so_Name (se_opts s) = so_Name opts \<Longrightarrow> readWire s = Inr wire"
    "decodePayload (en_json env) (en_aead env) ss wire = Inr p" "liveAt now (pl_Expires p)"
  shows "snd (NewSession env (zero :: 'd) now (Some r) w ss opts) = None"
    "se_p (fst (NewSession env zero now (Some r) w ss opts)) = p"
  using assms by (auto simp: NewSession_def Let_def liveAt_def split: option.splits)



section \<open>Examples\<close>

text \<open>A cipher that satisfies the law: the text and the first half of the key as its tag.\<close>

definition demoAEAD :: AEAD where
  "demoAEAD = \<lparr>ae_Seal = (\<lambda>k n p. p @ take gcmOverhead k),
     ae_Open = (\<lambda>k n c. let m = length c - gcmOverhead in
       if gcmOverhead \<le> length c \<and> drop m c = take gcmOverhead k then Some (take m c) else None)\<rparr>"

lemma demoAEAD_ok: "aeadOK demoAEAD"
  unfolding aeadOK_def
proof (intro allI impI conjI)
  fix k n p c :: string
  assume k: "length k = keySize"
  show "length (ae_Seal demoAEAD k n p) = length p + gcmOverhead"
    using k by (simp add: demoAEAD_def keySize_def gcmOverhead_def)
  show "ae_Open demoAEAD k n c = Some p \<longleftrightarrow> c = ae_Seal demoAEAD k n p"
  proof
    assume "ae_Open demoAEAD k n c = Some p"
    then have "p = take (length c - gcmOverhead) c" "drop (length c - gcmOverhead) c = take gcmOverhead k"
      by (auto simp: demoAEAD_def Let_def split: if_splits)
    then have "c = p @ take gcmOverhead k" using append_take_drop_id[of "length c - gcmOverhead" c] by simp
    then show "c = ae_Seal demoAEAD k n p" by (simp add: demoAEAD_def)
  next
    assume "c = ae_Seal demoAEAD k n p"
    then show "ae_Open demoAEAD k n c = Some p"
      using k by (simp add: demoAEAD_def Let_def keySize_def gcmOverhead_def)
  qed
qed

definition demoSecret :: "32 word \<Rightarrow> char \<Rightarrow> Secret" where
  "demoSecret n c = \<lparr>sk_ID = n, sk_Key = replicate 32 c\<rparr>"

definition demoNonce :: string where "demoNonce = replicate 12 CHR ''n''"

definition demoEnv :: "string SessEnv" where
  "demoEnv = \<lparr>en_json = \<lparr>js_Marshal = (\<lambda>p. Inr (pl_Data p)), js_Unmarshal = (\<lambda>raw. Inr \<lparr>pl_Data = raw, pl_Expires = None\<rparr>)\<rparr>,
     en_aead = demoAEAD, en_secs = (\<lambda>d. d div 1000000000)\<rparr>"

definition demoRequest :: "(string \<times> string) list \<Rightarrow> Request" where
  "demoRequest cks = \<lparr>rq_Method = ''GET'', rq_URL = \<lparr>u_Scheme = [], u_Opaque = [], u_Host = [], u_Path = ''/'',
     u_RawPath = [], u_ForceQuery = False, u_RawQuery = []\<rparr>, rq_Header = Map.empty, rq_TLS = False,
     rq_Cookies = cks, rq_PostForm = Map.empty\<rparr>"

definition demoOpts :: SessOptions where
  "demoOpts = \<lparr>so_Name = ''sid'', so_MaxAge = 0, so_Path = [], so_Domain = [], so_Secure = None, so_SameSite = SameSiteUnset\<rparr>"

definition demoSession :: "string Session" where
  "demoSession = \<lparr>se_codec = [demoSecret 7 CHR ''a''], se_opts = demoOpts, se_r = Some (demoRequest []), se_w = Some [],
     se_p = \<lparr>pl_Data = [], pl_Expires = None\<rparr>, se_dirty = False, se_destroyed = False\<rparr>"

definition demoWire :: string where
  "demoWire = JoinID (hexEncode (demoNonce @ ''hi'' @ replicate 16 CHR ''a'')) 7"

definition rotated :: "Secret list" where
  "rotated = [demoSecret 8 CHR ''b'', demoSecret 7 CHR ''a'']"

lemma demo_env: "secsOK demoEnv" "en_aead demoEnv = demoAEAD" "isToken (so_Name (se_opts demoSession))"
  "length demoNonce = nonceSize" "Validate (se_codec demoSession) = None" "Validate rotated = None"
  "keyFor rotated (sk_ID (hd (se_codec demoSession))) = Some (sk_Key (hd (se_codec demoSession)))"
  "jsonOK (en_json demoEnv) (stored 0 ''hi'' demoSession)"
  by (auto simp: secsOK_def demoEnv_def demoSession_def demoOpts_def isToken_def tokenByte_def inRange_def byteVal_def
      demoNonce_def nonceSize_def Validate_def demoSecret_def keySize_def rotated_def keyFor_def jsonOK_def stored_def)

lemma demoWire_short: "splitChunks demoWire = [demoWire]"
  using wire_length[of "demoNonce @ ''hi'' @ replicate 16 CHR ''a''" 7] by (simp add: splitChunks_def maxChunkBytes_def demoWire_def
      JoinID_def idPrefix_def demoNonce_def decDigits.simps)

lemma demo_set: "\<exists>s'. sessSet demoEnv 0 (Some demoNonce) ''hi'' demoSession = (s', None)
    \<and> heard s' Map.empty = [''sid'' \<mapsto> demoWire]"
proof -
  let ?s = "demoSession\<lparr>se_p := stored 0 ''hi'' demoSession, se_dirty := True, se_destroyed := False\<rparr>"
  have enc: "encodePayload (en_json demoEnv) (en_aead demoEnv) (Some demoNonce) (se_codec ?s) (se_p ?s) = Inr demoWire"
    using codecEncrypt_wire[OF demo_env(5), of demoAEAD demoNonce "''hi''"]
    by (simp add: encodePayload_def demoEnv_def stored_def demoWire_def demoSession_def demoAEAD_def demoSecret_def
        gcmOverhead_def min_def)
  have n: "readPrevChunkCount ?s = 0"
    by (simp add: readPrevChunkCount_def demoSession_def demoRequest_def reqCookie_def)
  have "sessSet demoEnv 0 (Some demoNonce) ''hi'' demoSession = (setCookie demoEnv 0 ''sid'' demoWire ?s, None)"
    using enc n unfolding sessSet_flush flush_def
    by (simp add: demoWire_short Let_def demoSession_def demoOpts_def)
  moreover have "heard (setCookie demoEnv 0 ''sid'' demoWire ?s) Map.empty = (heard ?s Map.empty)(''sid'' \<mapsto> demoWire)"
    using demo_env(1,3) by (intro heard_set) (simp_all add: demoSession_def demoOpts_def demoWire_def wire_value)
  moreover have "heard ?s Map.empty = Map.empty" by (simp add: heard_def jarAfter_def demoSession_def)
  ultimately show ?thesis by auto
qed




section \<open>Two writes in one response\<close>

text \<open>The chunked path deletes the plain cookie only when the request had one. When a handler first
  stores a value that fits into one cookie and then a larger one, the browser keeps the plain cookie of
  the first value, and the next request reads that one: the second write is lost.\<close>

lemma second_write_lost:
  assumes tok: "isToken (so_Name (se_opts s))" and secs: "secsOK env"
    and fresh: "se_w s = Some []" "se_r s = Some r" "reqCookie r (so_Name (se_opts s)) = None"
    and enc1: "encodePayload (en_json env) (en_aead env) rand1 (se_codec s) (stored now v1 s) = Inr w1"
      "list_all cookieValueByte w1" "w1 \<noteq> []" "length (splitChunks w1) = 1"
    and set1: "sessSet env now rand1 v1 s = (s1, None)"
    and enc2: "encodePayload (en_json env) (en_aead env) rand2 (se_codec s1) (stored now v2 s1) = Inr w2"
      "list_all cookieValueByte w2" "length (splitChunks w2) \<noteq> 1"
    and set2: "sessSet env now rand2 v2 s1 = (s2, None)"
    and next_rq: "se_r t = Some r'" "so_Name (se_opts t) = so_Name (se_opts s)" "reqCookie r' = heard s2 (reqCookie r)"
  shows "readWire t = Inr w1"
proof -
  let ?b = "so_Name (se_opts s)"
  let ?s = "s\<lparr>se_p := stored now v1 s, se_dirty := True, se_destroyed := False\<rparr>"
  let ?s1 = "s1\<lparr>se_p := stored now v2 s1, se_dirty := True, se_destroyed := False\<rparr>"
  have "se_w ?s \<noteq> None" "isToken (so_Name (se_opts ?s))"
    "encodePayload (en_json env) (en_aead env) rand1 (se_codec ?s) (se_p ?s) = Inr w1"
    using fresh(1) tok enc1(1) by simp_all
  note f1 = flush_single[OF this(1,2) secs this(3) enc1(2,4) set1[unfolded sessSet_flush]]
  have s1: "heard s1 (reqCookie r) ?b = Some w1" "se_r s1 = Some r" "se_opts s1 = se_opts s" "se_w s1 \<noteq> None"
    using f1(2)[of "reqCookie r"] f1(3-5) fresh(2) by simp_all
  have "se_w ?s1 \<noteq> None" "isToken (so_Name (se_opts ?s1))"
    "encodePayload (en_json env) (en_aead env) rand2 (se_codec ?s1) (se_p ?s1) = Inr w2"
    using s1(3,4) tok enc2(1) by simp_all
  note f2 = flush_chunked[OF this(1,2) secs this(3) enc2(2,3) set2[unfolded sessSet_flush]]
  have "heard ?s1 (reqCookie r) = heard s1 (reqCookie r)" by (simp add: heard_def)
  then have "heard s2 (reqCookie r) ?b = Some w1"
    using f2(2)[of "reqCookie r"] s1 fresh(3) by simp
  then show ?thesis using next_rq enc1(3) by (auto intro: readWire_plain)
qed

text \<open>The chunk count is read from a cookie that nothing authenticates, and both paths that write
  deletion cookies loop up to it: a request decides how many headers \<^verbatim>\<open>Destroy\<close> writes.\<close>

lemma destroy_header_count:
  assumes "se_r s = Some r" "se_w s = Some []" "1 \<le> n" "n < 2 ^ 63"
    "reqCookie r (metaName (so_Name (se_opts s))) = Some (encodeChunkMeta n)"
  shows "length (the (se_w (sessDestroy zero s))) = n + 2"
proof -
  have d: "length (the (se_w (deleteCookie b u))) = Suc (length (the (se_w u)))" if "se_w u \<noteq> None" for b and u :: "'a Session"
    using that by (auto simp: deleteCookie_def)
  have "length (the (se_w (foldl (\<lambda>s i. deleteCookie (chunkName b i) s) u is))) = length (the (se_w u)) + length is"
    if "se_w u \<noteq> None" for b "is" and u :: "'a Session"
    using that
  proof (induction "is" arbitrary: u)
    case (Cons i "is")
    then show ?case using Cons.IH[of "deleteCookie (chunkName b i) u"] d by (simp del: not_None_eq)
  qed simp
  moreover have "readPrevChunkCount u = n" if "se_r u = Some r" "se_opts u = se_opts s" for u :: "'a Session"
    using that assms(3-5) by (simp add: readPrevChunkCount_def decodeChunkMeta_encode)
  ultimately show ?thesis using assms(1-3) d
    by (simp add: sessDestroy_def deleteAllCookies_def Let_def del: not_None_eq)
qed

end
