(* ===== verification/RouteScan.thy ===== *)
theory RouteScan
  imports Segments KitOptions ParserAst Params
begin

text \<open>
  Route discovery, \<^verbatim>\<open>internal/routescan\<close>: the walk over the routes directory (\<^verbatim>\<open>scan.go\<close>), the
  discovery of parameter matchers (\<^verbatim>\<open>paramsdisc.go\<close>), the fallback annotation
  (\<^verbatim>\<open>ssr_fallback.go\<close>), diagnostics (\<^verbatim>\<open>errors.go\<close>), and the part of
  \<^verbatim>\<open>internal/codegen/build.go\<close> that decides which diagnostics stop a build.

  A directory is a tree value: its entries in the order \<^verbatim>\<open>os.ReadDir\<close> returns them, and whether
  it can be listed; a file has its content unless it cannot be read. A directory under the routes
  directory is the list of names that leads to it, so \<^verbatim>\<open>filepath.Rel\<close> cannot fail and
  \<^verbatim>\<open>filepath.Dir\<close> drops the last name. The texts of system errors, the quoting verb and the Go
  parser are parameters. The slice expressions of the name parsers do not panic (theory
  \<open>Segments\<close>); where one would, the definitions here take the empty result.
\<close>

section \<open>Diagnostics\<close>

record Diagnostic =
  dg_Path :: string
  dg_Pos :: Pos
  dg_Message :: string
  dg_Hint :: string

definition zeroPos :: Pos where
  "zeroPos = \<lparr>pos_Offset = 0, pos_Line = 0, pos_Col = 0\<rparr>"

definition diagString :: "Diagnostic \<Rightarrow> string" where
  "diagString d = dg_Path d @ (if IsValidPos (dg_Pos d) then '':'' @ posString (dg_Pos d) else [])
     @ '': '' @ dg_Message d @ (if dg_Hint d \<noteq> [] then '' (hint: '' @ dg_Hint d @ '')'' else [])"

definition diag :: "string \<Rightarrow> string \<Rightarrow> string \<Rightarrow> Diagnostic" where
  "diag path msg hint = \<lparr>dg_Path = path, dg_Pos = zeroPos, dg_Message = msg, dg_Hint = hint\<rparr>"

definition diagLess :: "Diagnostic \<Rightarrow> Diagnostic \<Rightarrow> bool" where
  "diagLess a b =
    (if dg_Path a \<noteq> dg_Path b then dg_Path a < dg_Path b
     else if pos_Line (dg_Pos a) \<noteq> pos_Line (dg_Pos b) then pos_Line (dg_Pos a) < pos_Line (dg_Pos b)
     else if pos_Col (dg_Pos a) \<noteq> pos_Col (dg_Pos b) then pos_Col (dg_Pos a) < pos_Col (dg_Pos b)
     else dg_Message a < dg_Message b)"

text \<open>Diagnostics that tie under the order have equal messages.\<close>

definition sortDiagnostics :: "Diagnostic list \<Rightarrow> Diagnostic list" where
  "sortDiagnostics ds = sliceStable diagLess ds"

section \<open>The world of a scan\<close>

datatype fsTree = FsFile "string option" | FsDir bool "(string \<times> fsTree) list"

record scanWorld =
  sw_U :: unicode_tables
  sw_quote :: "string \<Rightarrow> string"
  sw_ioErr :: "string \<Rightarrow> string"

type_synonym dirPath = "string list"

definition pathOf :: "string \<Rightarrow> dirPath \<Rightarrow> string" where
  "pathOf root p = root @ concat (map (\<lambda>n. CHR ''/'' # n) p)"

fun fsLookup :: "fsTree \<Rightarrow> dirPath \<Rightarrow> fsTree option" where
  "fsLookup t [] = Some t"
| "fsLookup (FsFile c) (n # p) = None"
| "fsLookup (FsDir ok es) (n # p) = (case map_of es n of None \<Rightarrow> None | Some t \<Rightarrow> fsLookup t p)"

text \<open>The texts of the errors of \<^verbatim>\<open>segments.go\<close>.\<close>

fun nameErrText :: "scanWorld \<Rightarrow> nameError \<Rightarrow> string" where
  "nameErrText w EmptyParameterName = ''empty parameter name''"
| "nameErrText w (InvalidParameterName n) = ''invalid parameter name '' @ sw_quote w n @ '': not a Go identifier''"
| "nameErrText w (KeywordParameterName n) = ''invalid parameter name '' @ sw_quote w n @ '': Go keyword''"
| "nameErrText w (InvalidMatcherName n) = ''invalid matcher name '' @ sw_quote w n @ '': not a Go identifier''"

fun segErrText :: "scanWorld \<Rightarrow> segError \<Rightarrow> string" where
  "segErrText w EmptySegmentName = ''empty segment name''"
| "segErrText w ErrGroup = ''routescan: group segment''"
| "segErrText w (UnbalancedGroup n) = ''unbalanced group brackets in '' @ sw_quote w n"
| "segErrText w (EmptyGroupName n) = ''empty group name in '' @ sw_quote w n"
| "segErrText w (InvalidGroupName n) = ''invalid group name '' @ sw_quote w n @ '': not a Go identifier''"
| "segErrText w (InvalidStatic n) = ''invalid characters in static segment '' @ sw_quote w n"
| "segErrText w (UnbalancedOptional n) = ''unbalanced optional brackets in '' @ sw_quote w n"
| "segErrText w (NestedBrackets n) = ''nested brackets in '' @ sw_quote w n"
| "segErrText w (UnbalancedBrackets n) = ''unbalanced brackets in '' @ sw_quote w n"
| "segErrText w (BadOptional n e) = ''optional segment '' @ sw_quote w n @ '': '' @ nameErrText w e"
| "segErrText w (BadRest n e) = ''rest segment '' @ sw_quote w n @ '': '' @ nameErrText w e"
| "segErrText w (BadParam n e) = ''param segment '' @ sw_quote w n @ '': '' @ nameErrText w e"
| "segErrText w SlicePanic = []"

section \<open>Special files\<close>

definition specialFiles :: "string list" where
  "specialFiles = [''_page.svelte'', ''_layout.svelte'', ''_error.svelte'', ''_page.server.go'',
     ''_layout.server.go'', ''_server.go'']"

record dirInfo =
  di_path :: dirPath
  di_files :: "string list"
  di_hasReset :: bool
  di_resetTarget :: string

definition isDirNode :: "fsTree \<Rightarrow> bool" where
  "isDirNode t = (case t of FsFile _ \<Rightarrow> False | FsDir _ _ \<Rightarrow> True)"

text \<open>The loop of \<^verbatim>\<open>readSpecialFiles\<close> over the entries.\<close>

fun specialLoop :: "scanWorld \<Rightarrow> (string \<times> fsTree) list \<Rightarrow> string list \<times> bool \<times> string \<Rightarrow> string list \<times> bool \<times> string" where
  "specialLoop w [] acc = acc"
| "specialLoop w ((name, t) # es) (files, hasReset, target) =
    (if isDirNode t then specialLoop w es (files, hasReset, target)
     else if name \<in> set specialFiles then specialLoop w es (List.insert name files, hasReset, target)
     else (case ParseResetFilename (sw_U w) name of
         Some (Some (base, tgt)) \<Rightarrow> specialLoop w es (List.insert (base @ ''.svelte'') files, True, tgt)
       | _ \<Rightarrow> specialLoop w es (files, hasReset, target)))"

definition readSpecialFiles :: "scanWorld \<Rightarrow> string \<Rightarrow> bool \<Rightarrow> (string \<times> fsTree) list \<Rightarrow> (string, string list \<times> bool \<times> string) result" where
  "readSpecialFiles w dir listable es =
    (if \<not> listable then Inl (''read '' @ dir @ '': '' @ sw_ioErr w dir) else Inr (specialLoop w es ([], False, [])))"

section \<open>The walk\<close>

text \<open>The callback of \<^verbatim>\<open>WalkDir\<close> on a file.\<close>

definition walkFile :: "string \<Rightarrow> string \<Rightarrow> Diagnostic list" where
  "walkFile path name =
    (if hasSuffix name ''_test.go'' \<or> hasSuffix name ''_test.svelte'' \<or> hasSuffix name ''.spec.svelte'' then []
     else if name = ''hooks.server.go''
     then [diag path ''hooks.server.go must live outside src/routes/'' ''move it to src/hooks.server.go'']
     else [])"

definition skipDir :: "dirPath \<Rightarrow> bool" where
  "skipDir p = (p \<noteq> [] \<and> (hasPrefix (last p) ''.'' \<or> last p = ''testdata'' \<or> last p = ''__tests__''))"

type_synonym walkState = "dirInfo list \<times> Diagnostic list"

fun walkTree :: "scanWorld \<Rightarrow> string \<Rightarrow> dirPath \<Rightarrow> fsTree \<Rightarrow> walkState \<Rightarrow> (string, walkState) result"
  and walkEntries :: "scanWorld \<Rightarrow> string \<Rightarrow> dirPath \<Rightarrow> (string \<times> fsTree) list \<Rightarrow> walkState \<Rightarrow> (string, walkState) result" where
  "walkTree w root p (FsFile c) (dirs, ds) =
     Inr (dirs, ds @ walkFile (pathOf root p) (if p = [] then root else last p))"
| "walkTree w root p (FsDir listable es) (dirs, ds) =
    (if skipDir p then Inr (dirs, ds)
     else (case readSpecialFiles w (pathOf root p) listable es of
         Inl e \<Rightarrow> Inl e
       | Inr (files, hasReset, target) \<Rightarrow>
           walkEntries w root p es
             (if files \<noteq> []
              then dirs @ [\<lparr>di_path = p, di_files = files, di_hasReset = hasReset, di_resetTarget = target\<rparr>]
              else dirs, ds)))"
| "walkEntries w root p [] st = Inr st"
| "walkEntries w root p ((n, t) # es) st =
    (case walkTree w root (p @ [n]) t st of Inl e \<Rightarrow> Inl e | Inr st' \<Rightarrow> walkEntries w root p es st')"

section \<open>Layouts and error boundaries\<close>

function buildLayoutChain :: "dirPath list \<Rightarrow> dirPath \<Rightarrow> dirPath list \<Rightarrow> dirPath list" where
  "buildLayoutChain withLayout cur chain =
    (let chain' = (if cur \<in> set withLayout then cur # chain else chain)
     in if cur = [] then chain' else buildLayoutChain withLayout (butlast cur) chain')"
  by auto
termination
  by (relation "measure (\<lambda>(_, cur, _). length cur)") auto

function nearestErrorDir :: "dirPath list \<Rightarrow> dirPath \<Rightarrow> dirPath option" where
  "nearestErrorDir withError cur =
    (if cur \<in> set withError then Some cur
     else if cur = [] then None else nearestErrorDir withError (butlast cur))"
  by auto
termination
  by (relation "measure (\<lambda>(_, cur). length cur)") auto

declare buildLayoutChain.simps [simp del] nearestErrorDir.simps [simp del]

definition isAncestor :: "string \<Rightarrow> string \<Rightarrow> bool" where
  "isAncestor a b =
    (if a = b then False
     else let prefix = (if \<not> hasSuffix a ''/'' then a @ ''/'' else a) in hasPrefix b prefix)"

definition layoutsAtOrAbove :: "string list \<Rightarrow> string \<Rightarrow> nat" where
  "layoutsAtOrAbove chain boundaryDir =
    foldl (\<lambda>n layoutDir. if layoutDir = boundaryDir \<or> isAncestor layoutDir boundaryDir then n + 1 else n) 0 chain"

text \<open>The loop of \<^verbatim>\<open>truncateChainForReset\<close>, from the end of the chain; the answer is the index.\<close>

fun resetIndex :: "string \<Rightarrow> dirPath list \<Rightarrow> nat \<Rightarrow> nat option" where
  "resetIndex target chain 0 = None"
| "resetIndex target chain (Suc i) =
    (if chain ! i \<noteq> [] \<and> last (chain ! i) = target then Some i else resetIndex target chain i)"

definition truncateChainForReset :: "scanWorld \<Rightarrow> dirPath list \<Rightarrow> string \<Rightarrow> dirPath list \<times> string option" where
  "truncateChainForReset w chain target =
    (if target = [] then ([], None)
     else if chain = [] then ([], Some (''layout reset '' @ sw_quote w target @ '' has no ancestor layout to truncate at''))
     else (case resetIndex target chain (length chain) of
         Some i \<Rightarrow> (drop i chain, None)
       | None \<Rightarrow> (chain, Some (''layout reset '' @ sw_quote w target @ '' does not match any ancestor group of this route''))))"

section \<open>Package paths\<close>

definition pkgPart :: "string \<Rightarrow> Segment \<Rightarrow> bool \<Rightarrow> string" where
  "pkgPart raw seg isGroup = (case encodePackageName raw seg isGroup of Some p \<Rightarrow> p | None \<Rightarrow> [])"

definition zeroSegment :: Segment where
  "zeroSegment = mkSegment SegmentStatic [] [] []"

fun layoutParts :: "scanWorld \<Rightarrow> dirPath \<Rightarrow> (string, string list) result" where
  "layoutParts w [] = Inr []"
| "layoutParts w (raw # p) = (case ParseSegment (sw_U w) raw of
      Inl e \<Rightarrow> if e = ErrGroup
        then (case layoutParts w p of Inl e \<Rightarrow> Inl e | Inr ps \<Rightarrow> Inr (pkgPart raw zeroSegment True # ps))
        else Inl (segErrText w e)
    | Inr seg \<Rightarrow> (case layoutParts w p of Inl e \<Rightarrow> Inl e | Inr ps \<Rightarrow> Inr (pkgPart raw seg False # ps)))"

definition encodeLayoutPackagePath :: "scanWorld \<Rightarrow> dirPath \<Rightarrow> (string, string) result" where
  "encodeLayoutPackagePath w dir =
    (if dir = [] then Inr ''.gen/routes''
     else (case layoutParts w dir of Inl e \<Rightarrow> Inl e | Inr parts \<Rightarrow> Inr (''.gen/routes/'' @ joinStr ''/'' parts)))"

section \<open>The fallback annotation\<close>

definition ssrFallbackMarker :: string where
  "ssrFallbackMarker = ''sveltego:ssr-fallback''"

definition markerSpaces :: string where
  "markerSpaces = [CHR '' '', CHR 0x09, CHR 0x0A, CHR 0x0D]"

definition trimMarker :: "string \<Rightarrow> string" where
  "trimMarker s = trimRight (trimLeft s markerSpaces) markerSpaces"

function hasSSRFallbackMarker :: "string \<Rightarrow> bool" where
  "hasSSRFallbackMarker src = (case indexStr src ''<!--'' of
      None \<Rightarrow> False
    | Some i \<Rightarrow>
        (let rest = drop (i + 4) src in
         case indexStr rest ''-->'' of
           None \<Rightarrow> False
         | Some j \<Rightarrow> if trimMarker (take j rest) = ssrFallbackMarker then True
                     else hasSSRFallbackMarker (drop (j + 3) rest)))"
  by pat_completeness auto

termination
proof (relation "measure length")
  fix src i rest j
  assume h: "indexStr src ''<!--'' = Some i" "rest = drop (i + 4) src"
  then have "src \<noteq> []" by auto
  then show "(drop (j + 3) rest, src) \<in> measure length" using h(2) by simp
qed simp

declare hasSSRFallbackMarker.simps [simp del]

definition detectSSRFallbackAnnotation :: "scanWorld \<Rightarrow> string \<Rightarrow> fsTree option \<Rightarrow> (string, bool) result" where
  "detectSSRFallbackAnnotation w path t = (case t of
      Some (FsFile (Some src)) \<Rightarrow> Inr (hasSSRFallbackMarker src)
    | _ \<Rightarrow> Inl (''read '' @ path @ '': '' @ sw_ioErr w path))"

section \<open>Routes\<close>

record RouteInfo = ScannedRoute +
  sr_Segments :: "Segment list"
  sr_PackageName :: string
  sr_PackagePath :: string
  sr_LayoutPackagePaths :: "string list"
  sr_HasLayout :: bool
  sr_HasError :: bool
  sr_HasLayoutServer :: bool
  sr_ErrorBoundaryDir :: string
  sr_ErrorBoundaryPackagePath :: string
  sr_ErrorBoundaryLayoutDepth :: nat
  sr_SSRFallback :: bool

text \<open>The loop of \<^verbatim>\<open>buildRoute\<close> over the names of a directory.\<close>

fun segLoop :: "scanWorld \<Rightarrow> string \<Rightarrow> dirPath \<Rightarrow> Segment list \<times> string list \<times> Diagnostic list" where
  "segLoop w dir [] = ([], [], [])"
| "segLoop w dir (raw # p) =
    (let (segs, parts, ds) = segLoop w dir p in
     case ParseSegment (sw_U w) raw of
       Inl e \<Rightarrow> if e = ErrGroup then (segs, pkgPart raw zeroSegment True # parts, ds)
                else (segs, parts, diag dir (segErrText w e) [] # ds)
     | Inr seg \<Rightarrow> (seg # segs, pkgPart raw seg False # parts, ds))"

text \<open>The loop over the layout chain: package paths, server files and diagnostics.\<close>

fun chainLoop :: "scanWorld \<Rightarrow> fsTree \<Rightarrow> string \<Rightarrow> dirPath list \<Rightarrow> string list \<times> string list \<times> Diagnostic list" where
  "chainLoop w t root [] = ([], [], [])"
| "chainLoop w t root (c # chain) =
    (let (pkgs, servers, ds) = chainLoop w t root chain in
     case encodeLayoutPackagePath w c of
       Inl e \<Rightarrow> (pkgs, servers, diag (pathOf root c) e [] # ds)
     | Inr pkg \<Rightarrow>
         (let serverPath = c @ [''_layout.server.go'']
          in (pkg # pkgs, (if fsLookup t serverPath \<noteq> None then pathOf root serverPath else []) # servers, ds)))"

definition hasFile :: "string list \<Rightarrow> string \<Rightarrow> bool" where
  "hasFile files name = (name \<in> set files)"

definition buildRoute :: "scanWorld \<Rightarrow> fsTree \<Rightarrow> string \<Rightarrow> dirPath list \<Rightarrow> dirPath list \<Rightarrow> dirInfo \<Rightarrow> RouteInfo \<times> Diagnostic list" where
  "buildRoute w t root withLayout withError di =
    (let rel = di_path di;
         dir = pathOf root rel;
         files = di_files di;
         (segments, packageParts, ds1) = segLoop w dir rel;
         pattern = BuildPattern segments;
         packageName = (if packageParts \<noteq> [] then last packageParts else ''routes'');
         packagePath = (if packageParts \<noteq> [] then ''.gen/routes/'' @ joinStr ''/'' packageParts else ''.gen/routes'');
         full = buildLayoutChain withLayout rel [];
         (chain, truncErr) = (if di_hasReset di then truncateChainForReset w full (di_resetTarget di) else (full, None));
         ds2 = (case truncErr of None \<Rightarrow> [] | Some e \<Rightarrow> [diag dir e []]);
         (chainPkgs, chainServers, ds3) = chainLoop w t root chain;
         hasPage = hasFile files ''_page.svelte'';
         pagePath = rel @ [''_page.svelte''];
         (ssrFallback, ds4) = (if hasPage
            then (case detectSSRFallbackAnnotation w (pathOf root pagePath) (fsLookup t pagePath) of
                Inl e \<Rightarrow> (False, [diag dir e []]) | Inr b \<Rightarrow> (b, []))
            else (False, []));
         (bDir, bPkg, bDepth, ds5) = (case nearestErrorDir withError rel of
            None \<Rightarrow> ([], [], 0, [])
          | Some b \<Rightarrow> (case encodeLayoutPackagePath w b of
                Inl e \<Rightarrow> ([], [], 0, [diag (pathOf root b) e []])
              | Inr pkg \<Rightarrow> (pathOf root b, pkg, layoutsAtOrAbove (map (pathOf root) chain) (pathOf root b), [])))
     in (\<lparr>sr_Pattern = pattern, sr_Dir = dir, sr_LayoutChain = map (pathOf root) chain,
          sr_LayoutServerFiles = chainServers, sr_HasPageServer = hasFile files ''_page.server.go'',
          sr_HasServer = hasFile files ''_server.go'', sr_HasPage = hasPage, sr_HasReset = di_hasReset di,
          sr_ResetTarget = di_resetTarget di, sr_Segments = segments, sr_PackageName = packageName,
          sr_PackagePath = packagePath, sr_LayoutPackagePaths = chainPkgs,
          sr_HasLayout = hasFile files ''_layout.svelte'', sr_HasError = hasFile files ''_error.svelte'',
          sr_HasLayoutServer = hasFile files ''_layout.server.go'', sr_ErrorBoundaryDir = bDir,
          sr_ErrorBoundaryPackagePath = bPkg, sr_ErrorBoundaryLayoutDepth = bDepth, sr_SSRFallback = ssrFallback\<rparr>,
         ds1 @ ds2 @ ds3 @ ds4 @ ds5))"

definition validateRouteFiles :: "scanWorld \<Rightarrow> RouteInfo \<Rightarrow> Diagnostic list" where
  "validateRouteFiles w r =
    (if sr_HasPage r \<and> sr_HasServer r
     then [diag (sr_Dir r) (''route '' @ sw_quote w (sr_Pattern r) @ '' may not have both _page.svelte and _server.go'')
            ''use either a page or an API endpoint'']
     else [])
    @ (if sr_HasPageServer r \<and> \<not> sr_HasPage r \<and> \<not> sr_HasServer r
       then [diag (sr_Dir r) (''orphan _page.server.go: route '' @ sw_quote w (sr_Pattern r)
               @ '' has no _page.svelte or _server.go'') []]
       else [])"

fun buildRoutes :: "scanWorld \<Rightarrow> fsTree \<Rightarrow> string \<Rightarrow> dirPath list \<Rightarrow> dirPath list \<Rightarrow> dirInfo list \<Rightarrow> RouteInfo list \<times> Diagnostic list" where
  "buildRoutes w t root withLayout withError [] = ([], [])"
| "buildRoutes w t root withLayout withError (di # dis) =
    (let (r, ds) = buildRoute w t root withLayout withError di;
         (rs, ds') = buildRoutes w t root withLayout withError dis
     in (r # rs, ds @ validateRouteFiles w r @ ds'))"

text \<open>The routes directory: \<^const>\<open>None\<close> when it does not exist.\<close>

definition walkRoutes :: "scanWorld \<Rightarrow> string \<Rightarrow> fsTree option \<Rightarrow> (string, RouteInfo list \<times> Diagnostic list) result" where
  "walkRoutes w root rt = (case rt of
      None \<Rightarrow> Inl (''routescan: stat '' @ root @ '': '' @ sw_ioErr w root)
    | Some (FsFile _) \<Rightarrow> Inl (''routescan: '' @ root @ '' is not a directory'')
    | Some (FsDir listable es) \<Rightarrow> (case walkTree w root [] (FsDir listable es) ([], []) of
          Inl e \<Rightarrow> Inl (''routescan: walk '' @ root @ '': '' @ e)
        | Inr (dirs, ds) \<Rightarrow>
            (let withLayout = map di_path (filter (\<lambda>di. hasFile (di_files di) ''_layout.svelte'') dirs);
                 withError = map di_path (filter (\<lambda>di. hasFile (di_files di) ''_error.svelte'') dirs);
                 (routes, ds') = buildRoutes w (FsDir listable es) root withLayout withError dirs
             in Inr (routes, ds @ ds'))))"

section \<open>Conflicts and matchers\<close>

definition shapeOf :: "Segment \<Rightarrow> string" where
  "shapeOf s = CHR ''/'' # (case seg_kind s of
      SegmentStatic \<Rightarrow> seg_value s
    | SegmentParam \<Rightarrow> ''[*]'' @ (if seg_matcher s \<noteq> [] then ''='' @ seg_matcher s else [])
    | SegmentOptional \<Rightarrow> ''[[*]]'' @ (if seg_matcher s \<noteq> [] then ''='' @ seg_matcher s else [])
    | SegmentRest \<Rightarrow> ''[...*]'' @ (if seg_matcher s \<noteq> [] then ''='' @ seg_matcher s else []))"

definition patternShape :: "Segment list \<Rightarrow> string" where
  "patternShape segments = (let b = concat (map shapeOf segments) in if b = [] then ''/'' else b)"

definition routable :: "RouteInfo \<Rightarrow> bool" where
  "routable r = (sr_HasPage r \<or> sr_HasServer r \<or> sr_HasReset r)"

text \<open>The entries of a shape are pattern and directory.\<close>

definition byShape :: "RouteInfo list \<Rightarrow> (string \<times> string) list gomap" where
  "byShape routes = foldl (\<lambda>m r. if \<not> routable r then m
     else (let shape = patternShape (sr_Segments r);
               old = (case map_of m shape of None \<Rightarrow> [] | Some es \<Rightarrow> es)
           in setKey shape (old @ [(sr_Pattern r, sr_Dir r)]) m)) [] routes"

definition shapeDiags :: "scanWorld \<Rightarrow> (string \<times> string) list \<Rightarrow> Diagnostic list" where
  "shapeDiags w entries =
    (if length entries \<le> 1 then []
     else (let es = sliceStable (\<lambda>a b. snd a < snd b) entries
           in map (\<lambda>e. diag (snd e) (''route conflict: '' @ sw_quote w (fst (hd es)) @ '' and ''
                @ sw_quote w (fst e) @ '' both match the same URLs'') []) (tl es)))"

definition detectPatternConflicts :: "scanWorld \<Rightarrow> RouteInfo list \<Rightarrow> Diagnostic list" where
  "detectPatternConflicts w routes = concat (map (\<lambda>(_, entries). shapeDiags w entries) (byShape routes))"

record DiscoveredMatcher =
  dm_Name :: string
  dm_Path :: string
  dm_PackageName :: string

definition builtinMatchers :: "string list" where
  "builtinMatchers = [''int'', ''uuid'', ''slug'']"

definition unknownMatcher :: "scanWorld \<Rightarrow> string list \<Rightarrow> RouteInfo \<Rightarrow> Segment \<Rightarrow> Diagnostic list" where
  "unknownMatcher w known r seg =
    (if seg_matcher seg = [] \<or> seg_matcher seg \<in> set known then []
     else [diag (sr_Dir r) (''route '' @ sw_quote w (sr_Pattern r) @ '' references unknown matcher ''
             @ sw_quote w (seg_matcher seg) @ '' on parameter '' @ sw_quote w (seg_name seg))
           (''add src/params/'' @ seg_matcher seg @ ''/'' @ seg_matcher seg
             @ ''.go with `func Match(s string) bool` or use a built-in (int, uuid, slug)'')])"

definition validateMatcherRefs :: "scanWorld \<Rightarrow> RouteInfo list \<Rightarrow> DiscoveredMatcher list \<Rightarrow> Diagnostic list" where
  "validateMatcherRefs w routes matchers =
    (let known = builtinMatchers @ map dm_Name matchers
     in concat (map (\<lambda>r. concat (map (unknownMatcher w known r) (sr_Segments r))) routes))"

section \<open>Matcher discovery\<close>

text \<open>What the scan looks at in a parsed Go file.\<close>

datatype goExpr = GoIdent string | GoExpr

record goField =
  gf_Names :: nat
  gf_Type :: goExpr

datatype goDecl = FuncDecl bool "string option" "(goField list option \<times> goField list option) option" | OtherDecl

record goFile =
  gl_Name :: "string option"
  gl_Decls :: "goDecl list"

definition isIdentExpr :: "goExpr \<Rightarrow> string \<Rightarrow> bool" where
  "isIdentExpr e name = (case e of GoIdent n \<Rightarrow> n = name | GoExpr \<Rightarrow> False)"

definition isFunc :: "string \<Rightarrow> goDecl \<Rightarrow> bool" where
  "isFunc name d = (case d of FuncDecl recv n _ \<Rightarrow> \<not> recv \<and> n = Some name | OtherDecl \<Rightarrow> False)"

definition findFunc :: "goFile \<Rightarrow> string \<Rightarrow> goDecl option" where
  "findFunc file name = find (isFunc name) (gl_Decls file)"

definition hasMatchSignature :: "goDecl \<Rightarrow> bool" where
  "hasMatchSignature d = (case d of
      FuncDecl _ _ (Some (Some ps, Some rs)) \<Rightarrow>
        length ps = 1 \<and> length rs = 1 \<and> gf_Names (hd ps) = 1 \<and> isIdentExpr (gf_Type (hd ps)) ''string''
        \<and> gf_Names (hd rs) = 0 \<and> isIdentExpr (gf_Type (hd rs)) ''bool''
    | _ \<Rightarrow> False)"

definition packageNameOrEmpty :: "goFile \<Rightarrow> string" where
  "packageNameOrEmpty file = (case gl_Name file of None \<Rightarrow> [] | Some n \<Rightarrow> n)"

definition discoverMatcherDir :: "scanWorld \<Rightarrow> (string \<Rightarrow> (string, goFile) result) \<Rightarrow> string \<Rightarrow> string \<Rightarrow> fsTree
    \<Rightarrow> DiscoveredMatcher option \<times> Diagnostic list" where
  "discoverMatcherDir w parse dir name t =
    (let path = dir @ ''/'' @ name @ ''.go''; q = sw_quote w name in
     case fsLookup t [name @ ''.go''] of
       Some (FsFile _) \<Rightarrow> (case parse path of
           Inl e \<Rightarrow> (None, [diag path (''cannot parse matcher file: '' @ e) []])
         | Inr file \<Rightarrow>
             if gl_Name file \<noteq> Some name
             then (None, [diag path (''matcher '' @ q @ '' has package '' @ sw_quote w (packageNameOrEmpty file)
                     @ ''; want package '' @ name) (''rename the package clause to `package '' @ name @ ''`'')])
             else (case findFunc file ''Match'' of
                 None \<Rightarrow> (None, [diag path (''matcher '' @ q @ '' is missing func Match(s string) bool'')
                     ''add `func Match(s string) bool { ... }` so the router can invoke this matcher''])
               | Some fn \<Rightarrow>
                   if \<not> hasMatchSignature fn
                   then (None, [diag path (''matcher '' @ q @ '' has wrong signature for Match'')
                           ''expected `func Match(s string) bool`''])
                   else (Some \<lparr>dm_Name = name, dm_Path = path, dm_PackageName = name\<rparr>, [])))
     | _ \<Rightarrow> (None, [diag dir (''matcher subdirectory '' @ q @ '' is missing '' @ name @ ''.go'')
               (''create src/params/'' @ name @ ''/'' @ name @ ''.go with `package '' @ name
                 @ ''` and `func Match(s string) bool`'')]))"

fun matcherLoop :: "scanWorld \<Rightarrow> (string \<Rightarrow> (string, goFile) result) \<Rightarrow> string \<Rightarrow> (string \<times> fsTree) list
    \<Rightarrow> DiscoveredMatcher list \<times> Diagnostic list" where
  "matcherLoop w parse dir [] = ([], [])"
| "matcherLoop w parse dir ((n, t) # es) =
    (let (ms, ds) = matcherLoop w parse dir es in
     if \<not> isDirNode t then
       (if hasSuffix n ''.go'' \<and> \<not> hasSuffix n ''_test.go''
        then (let name = trimSuffix n ''.go'' in
          (ms, diag (dir @ ''/'' @ n) (''matcher '' @ sw_quote w name @ '' must live at src/params/'' @ name @ ''/'' @ name
             @ ''.go (one matcher per subdirectory)'') ''move the file into a subdirectory named after the matcher'' # ds))
        else (ms, ds))
     else if hasPrefix n ''.'' \<or> hasPrefix n ''_'' then (ms, ds)
     else (let (m, ds') = discoverMatcherDir w parse (dir @ ''/'' @ n) n t
           in ((case m of None \<Rightarrow> ms | Some x \<Rightarrow> x # ms), ds' @ ds)))"

definition matcherLess :: "DiscoveredMatcher \<Rightarrow> DiscoveredMatcher \<Rightarrow> bool" where
  "matcherLess a b = (dm_Name a < dm_Name b)"

definition discoverMatchers :: "scanWorld \<Rightarrow> (string \<Rightarrow> (string, goFile) result) \<Rightarrow> string \<Rightarrow> fsTree option
    \<Rightarrow> DiscoveredMatcher list \<times> Diagnostic list" where
  "discoverMatchers w parse dir t =
    (if dir = [] then ([], [])
     else (case t of
         None \<Rightarrow> ([], [])
       | Some (FsDir True es) \<Rightarrow> (let (ms, ds) = matcherLoop w parse dir es in (sliceStable matcherLess ms, ds))
       | Some _ \<Rightarrow> ([], [diag dir (''cannot read params directory: '' @ sw_ioErr w dir) []])))"

section \<open>The scan\<close>

definition routeLess :: "RouteInfo \<Rightarrow> RouteInfo \<Rightarrow> bool" where
  "routeLess a b = (if sr_Pattern a \<noteq> sr_Pattern b then sr_Pattern a < sr_Pattern b else sr_Dir a < sr_Dir b)"

definition sortRoutes :: "RouteInfo list \<Rightarrow> RouteInfo list" where
  "sortRoutes rs = sliceStable routeLess rs"

record ScanInput =
  si_RoutesDir :: string
  si_ParamsDir :: string

record ScanResult =
  sc_Routes :: "RouteInfo list"
  sc_Matchers :: "DiscoveredMatcher list"
  sc_Diagnostics :: "Diagnostic list"

definition Scan :: "scanWorld \<Rightarrow> (string \<Rightarrow> (string, goFile) result) \<Rightarrow> ScanInput \<Rightarrow> fsTree option \<Rightarrow> fsTree option
    \<Rightarrow> (string, ScanResult) result" where
  "Scan w parse input routesTree paramsTree =
    (if si_RoutesDir input = [] then Inl ''routescan: RoutesDir is required''
     else
       (let (matchers, ds1) = discoverMatchers w parse (si_ParamsDir input) paramsTree in
        case walkRoutes w (si_RoutesDir input) routesTree of
          Inl e \<Rightarrow> Inl e
        | Inr (routes, ds2) \<Rightarrow>
            (let ds3 = validateMatcherRefs w routes matchers;
                 ds4 = detectPatternConflicts w routes
             in Inr \<lparr>sc_Routes = sortRoutes routes, sc_Matchers = sliceStable matcherLess matchers,
                     sc_Diagnostics = sortDiagnostics (ds1 @ ds2 @ ds3 @ ds4)\<rparr>)))"

section \<open>What stops a build\<close>

definition isFatalDiagnostic :: "Diagnostic \<Rightarrow> bool" where
  "isFatalDiagnostic d = (let msg = dg_Message d in
     contains msg ''route conflict'' \<or> contains msg ''orphan _page.server.go'' \<or> contains msg ''unknown matcher''
     \<or> contains msg ''may not have both _page.svelte and _server.go'')"

definition splitDiagnostics :: "Diagnostic list \<Rightarrow> Diagnostic list \<times> Diagnostic list" where
  "splitDiagnostics ds = foldl (\<lambda>(fatal, warnings) d.
     if isFatalDiagnostic d then (fatal @ [d], warnings) else (fatal, warnings @ [d])) ([], []) ds"

end
