(* ===== verification/RouteScanProps.thy ===== *)
theory RouteScanProps
  imports RouteScan RouterProps "HOL-Library.Sublist"
begin

text \<open>
  What route discovery guarantees: the layout chain of every route is the sequence of its ancestors that
  have a layout, cut at the reset target; the error boundary is the nearest ancestor with an error page and
  its depth counts the layouts at or above it; and a scan without fatal diagnostics yields routes from which
  the router builds a tree with all its matchers. The last section shows two cases in which a problem is
  only a warning.
\<close>

section \<open>Ancestors\<close>

definition ancestry :: "dirPath \<Rightarrow> dirPath list" where
  "ancestry p = map (\<lambda>n. take n p) [0..<Suc (length p)]"

lemma ancestry_Nil: "ancestry [] = [[]]"
  by (simp add: ancestry_def)

lemma ancestry_snoc: "p \<noteq> [] \<Longrightarrow> ancestry p = ancestry (butlast p) @ [p]"
proof -
  assume "p \<noteq> []"
  then have l: "length p = Suc (length (butlast p))" by simp
  have "take n p = take n (butlast p)" if "n \<le> length p - 1" for n
    using that by (simp add: butlast_conv_take)
  then have "map (\<lambda>n. take n p) [0..<Suc (length (butlast p))] = ancestry (butlast p)"
    unfolding ancestry_def by (intro map_cong refl) (auto simp del: upt_Suc)
  then show ?thesis unfolding ancestry_def l by (simp add: l[symmetric] del: length_butlast)
qed

lemma set_ancestry: "q \<in> set (ancestry p) \<longleftrightarrow> prefix q p"
proof -
  have "q \<in> set (ancestry p) \<longleftrightarrow> (\<exists>n \<le> length p. q = take n p)"
    unfolding ancestry_def by (auto simp: less_Suc_eq_le simp del: upt_Suc)
  also have "\<dots> \<longleftrightarrow> prefix q p"
    by (metis append_eq_conv_conj prefix_def prefix_length_le take_is_prefix)
  finally show ?thesis .
qed

lemma buildLayoutChain_ref: "buildLayoutChain L cur chain = filter (\<lambda>p. p \<in> set L) (ancestry cur) @ chain"
proof (induction "length cur" arbitrary: cur chain)
  case 0
  then show ?case by (subst buildLayoutChain.simps) (simp add: ancestry_Nil Let_def)
next
  case (Suc n)
  then have ne: "cur \<noteq> []" and l: "n = length (butlast cur)" by auto
  show ?case using Suc.hyps(1)[OF l] ne by (subst buildLayoutChain.simps) (simp add: Let_def ancestry_snoc)
qed

lemma nearestErrorDir_ref:
  "nearestErrorDir E cur = (let es = filter (\<lambda>p. p \<in> set E) (ancestry cur) in if es = [] then None else Some (last es))"
proof (induction "length cur" arbitrary: cur)
  case 0
  then show ?case by (subst nearestErrorDir.simps) (simp add: ancestry_Nil Let_def)
next
  case (Suc n)
  then have ne: "cur \<noteq> []" and l: "n = length (butlast cur)" by auto
  show ?case using Suc.hyps(1)[OF l] ne by (subst nearestErrorDir.simps) (auto simp: Let_def ancestry_snoc)
qed

text \<open>The reset cuts in front of the last layout whose directory has the name of the target.\<close>

lemma resetIndex_ref:
  "resetIndex target chain n = Some i \<Longrightarrow> i < n \<and> chain ! i \<noteq> [] \<and> last (chain ! i) = target
     \<and> (\<forall>j. i < j \<longrightarrow> j < n \<longrightarrow> \<not> (chain ! j \<noteq> [] \<and> last (chain ! j) = target))"
  "resetIndex target chain n = None \<Longrightarrow> \<forall>j < n. \<not> (chain ! j \<noteq> [] \<and> last (chain ! j) = target)"
  by (induction n) (auto split: if_splits simp: less_Suc_eq)

section \<open>Paths as text\<close>

definition nameOK :: "string \<Rightarrow> bool" where
  "nameOK n \<longleftrightarrow> n \<noteq> [] \<and> CHR ''/'' \<notin> set n"

definition rootOK :: "string \<Rightarrow> bool" where
  "rootOK root \<longleftrightarrow> root \<noteq> [] \<and> last root \<noteq> CHR ''/''"

lemma slashed_prefix:
  assumes "list_all nameOK a" "list_all nameOK b"
  shows "hasPrefix (concat (map (\<lambda>n. CHR ''/'' # n) b)) (concat (map (\<lambda>n. CHR ''/'' # n) a) @ ''/'') \<longleftrightarrow> strict_prefix a b"
  using assms
proof (induction a arbitrary: b)
  case Nil
  then show ?case by (cases b) (auto simp: strict_prefix_def)
next
  case (Cons x a)
  show ?case
  proof (cases b)
    case Nil
    then show ?thesis by (simp add: strict_prefix_def)
  next
    case (Cons y b')
    have sep: "\<exists>r'. s @ concat (map (\<lambda>n. CHR ''/'' # n) p) = s @ r' \<and> (r' = [] \<or> hd r' = CHR ''/'')" for s :: string and p
      by (cases p) auto
    have heads: "x = y" if h: "hasPrefix (y @ r) (x @ CHR ''/'' # q)" "r = [] \<or> hd r = CHR ''/''" "nameOK x" "nameOK y" for r q
    proof -
      obtain t where t: "y @ r = x @ CHR ''/'' # q @ t" using h(1) by (auto simp: hasPrefix_iff)
      have "takeWhile (\<lambda>c. c \<noteq> CHR ''/'') (x @ CHR ''/'' # q @ t) = x"
        using h(3) by (simp add: nameOK_def takeWhile_append)
      moreover have "takeWhile (\<lambda>c. c \<noteq> CHR ''/'') (y @ r) = y"
        using h(2,4) by (cases r) (auto simp: nameOK_def takeWhile_append takeWhile_eq_all_conv)
      ultimately show ?thesis using t by simp
    qed
    let ?r = "concat (map (\<lambda>n. CHR ''/'' # n) b')" and ?q = "concat (map (\<lambda>n. CHR ''/'' # n) a) @ ''/''"
    have q: "\<exists>q'. ?q = CHR ''/'' # q'" by (cases a) auto
    have r: "?r = [] \<or> hd ?r = CHR ''/''" by (cases b') auto
    have xy: "nameOK x" "nameOK y" using Cons.prems \<open>b = y # b'\<close> by simp_all
    obtain q' where q': "?q = CHR ''/'' # q'" using q by blast
    have "x = y" if "hasPrefix (y @ ?r) (x @ ?q)"
      using heads[OF _ r xy, of q'] that unfolding q' .
    moreover have "hasPrefix (x @ ?r) (x @ ?q) \<longleftrightarrow> hasPrefix ?r ?q" by (simp add: hasPrefix_iff)
    ultimately have "hasPrefix (y @ ?r) (x @ ?q) \<longleftrightarrow> x = y \<and> hasPrefix ?r ?q" by blast
    then show ?thesis using Cons.IH[of b'] Cons.prems \<open>b = y # b'\<close> by (auto simp: strict_prefix_def)
  qed
qed

lemma isAncestor_paths:
  assumes "rootOK root" "list_all nameOK a" "list_all nameOK b"
  shows "isAncestor (pathOf root a) (pathOf root b) \<longleftrightarrow> strict_prefix a b"
proof -
  have "\<not> hasSuffix (pathOf root a) ''/''"
  proof (cases a rule: rev_cases)
    case Nil
    then show ?thesis using assms(1) by (simp add: pathOf_def rootOK_def hasSuffix_snoc)
  next
    case (snoc p n)
    then have "nameOK n" using assms(2) by simp
    then have "last (pathOf root a) = last n" by (simp add: pathOf_def snoc nameOK_def)
    moreover have "last n \<noteq> CHR ''/''" using \<open>nameOK n\<close> last_in_set[of n] unfolding nameOK_def by metis
    ultimately show ?thesis by (simp add: hasSuffix_snoc)
  qed
  moreover have "hasPrefix (pathOf root b) (pathOf root a @ ''/'') \<longleftrightarrow> strict_prefix a b"
    using slashed_prefix[OF assms(2,3)] by (simp add: pathOf_def hasPrefix_iff)
  moreover have "pathOf root a = pathOf root b \<Longrightarrow> \<not> strict_prefix a b"
    using calculation(2) by (auto simp: hasPrefix_iff)
  ultimately show ?thesis by (auto simp: isAncestor_def Let_def)
qed

lemma pathOf_inj:
  assumes "list_all nameOK a" "list_all nameOK b"
  shows "pathOf root a = pathOf root b \<longleftrightarrow> a = b"
proof -
  have "concat (map (\<lambda>n. CHR ''/'' # n) a) = concat (map (\<lambda>n. CHR ''/'' # n) b) \<Longrightarrow> a = b"
    using assms
  proof (induction a arbitrary: b)
    case Nil
    then show ?case by (cases b) auto
  next
    case (Cons x a)
    then obtain y b' where b: "b = y # b'" by (cases b) auto
    have eq: "x @ concat (map (\<lambda>n. CHR ''/'' # n) a) = y @ concat (map (\<lambda>n. CHR ''/'' # n) b')" using Cons.prems(1) b by simp
    have tw: "takeWhile (\<lambda>c. c \<noteq> CHR ''/'') (z @ concat (map (\<lambda>n. CHR ''/'' # n) p)) = z" if "nameOK z" for z p
      using that by (cases p) (auto simp: nameOK_def takeWhile_append takeWhile_eq_all_conv)
    have "x = y" using eq tw[of x a] tw[of y b'] Cons.prems b by simp
    then show ?case using Cons.IH[of b'] eq Cons.prems b by simp
  qed
  then show ?thesis by (auto simp: pathOf_def)
qed

section \<open>What the walk collects\<close>

text \<open>The names of a directory are distinct and hold no separator.\<close>

fun fsOK :: "fsTree \<Rightarrow> bool" and fsOKs :: "(string \<times> fsTree) list \<Rightarrow> bool" where
  "fsOK (FsFile c) = True"
| "fsOK (FsDir l es) = (distinct (map fst es) \<and> fsOKs es)"
| "fsOKs [] = True"
| "fsOKs ((n, t) # es) = (nameOK n \<and> fsOK t \<and> fsOKs es)"

definition visible :: "dirPath \<Rightarrow> bool" where
  "visible q = list_all (\<lambda>n. \<not> (hasPrefix n ''.'' \<or> n = ''testdata'' \<or> n = ''__tests__'')) q"

definition specialsAt :: "scanWorld \<Rightarrow> fsTree \<Rightarrow> dirPath \<Rightarrow> string list \<times> bool \<times> string" where
  "specialsAt w t q = (case fsLookup t q of Some (FsDir _ es) \<Rightarrow> specialLoop w es ([], False, []) | _ \<Rightarrow> ([], False, []))"

definition infoAt :: "scanWorld \<Rightarrow> fsTree \<Rightarrow> dirPath \<Rightarrow> dirPath \<Rightarrow> dirInfo" where
  "infoAt w t p q = (let (files, hasReset, target) = specialsAt w t q
     in \<lparr>di_path = p @ q, di_files = files, di_hasReset = hasReset, di_resetTarget = target\<rparr>)"

definition owned :: "scanWorld \<Rightarrow> fsTree \<Rightarrow> dirPath set" where
  "owned w t = {q. visible q \<and> fst (specialsAt w t q) \<noteq> []}"

lemma fsOKs_lookup: "fsOKs es \<Longrightarrow> map_of es n = Some t \<Longrightarrow> nameOK n \<and> fsOK t"
  by (induction es) (auto split: if_splits)

lemma fsOK_path: "fsOK t \<Longrightarrow> fsLookup t q \<noteq> None \<Longrightarrow> list_all nameOK q"
proof (induction t q rule: fsLookup.induct)
  case (3 ok es n p)
  then show ?case by (auto split: option.splits dest: fsOKs_lookup)
qed auto

lemma infoAt_file [simp]: "specialsAt w (FsFile c) q = ([], False, [])"
  by (cases q) (auto simp: specialsAt_def)

lemma owned_dir:
  "owned w (FsDir l es) = (if fst (specialLoop w es ([], False, [])) \<noteq> [] then {[]} else {}) \<union>
     {n # q | n q t. map_of es n = Some t \<and> visible [n] \<and> q \<in> owned w t}" (is "?l = ?r")
proof (rule set_eqI)
  fix q
  show "q \<in> ?l \<longleftrightarrow> q \<in> ?r"
    by (cases q) (auto simp: owned_def specialsAt_def visible_def split: option.splits)
qed

lemma infoAt_Cons: "map_of es n = Some t \<Longrightarrow> infoAt w (FsDir l es) p (n # q) = infoAt w t (p @ [n]) q"
  by (simp add: infoAt_def specialsAt_def)

lemma skipDir_snoc: "skipDir (p @ [n]) \<longleftrightarrow> \<not> visible [n]"
  by (simp add: skipDir_def visible_def)

definition childInfos :: "scanWorld \<Rightarrow> dirPath \<Rightarrow> (string \<times> fsTree) list \<Rightarrow> dirInfo set" where
  "childInfos w p es = (\<Union>(n, t) \<in> set es. if visible [n] then infoAt w t (p @ [n]) ` owned w t else {})"

lemma childInfos_simps:
  "childInfos w p [] = {}"
  "childInfos w p ((n, t) # es) = (if visible [n] then infoAt w t (p @ [n]) ` owned w t else {}) \<union> childInfos w p es"
  by (simp_all add: childInfos_def)

lemma infoAt_children:
  assumes "distinct (map fst es)"
  shows "infoAt w (FsDir l es) p ` {n # q | n q t. map_of es n = Some t \<and> visible [n] \<and> q \<in> owned w t} = childInfos w p es"
    (is "?a = ?b")
proof
  show "?a \<subseteq> ?b"
  proof
    fix x assume "x \<in> ?a"
    then obtain n q t where h: "map_of es n = Some t" "visible [n]" "q \<in> owned w t" "x = infoAt w (FsDir l es) p (n # q)" by auto
    then have "x = infoAt w t (p @ [n]) q" by (simp add: infoAt_Cons)
    moreover have "(n, t) \<in> set es" using h(1) by (rule map_of_SomeD)
    ultimately show "x \<in> ?b" using h(2,3) unfolding childInfos_def by fastforce
  qed
  show "?b \<subseteq> ?a"
  proof
    fix x assume "x \<in> ?b"
    then obtain n t q where h: "(n, t) \<in> set es" "visible [n]" "q \<in> owned w t" "x = infoAt w t (p @ [n]) q"
      unfolding childInfos_def by (auto split: if_splits)
    then have "map_of es n = Some t" using assms by simp
    then have "x = infoAt w (FsDir l es) p (n # q)" using h(4) by (simp add: infoAt_Cons)
    moreover have "n # q \<in> {n # q | n q t. map_of es n = Some t \<and> visible [n] \<and> q \<in> owned w t}"
      using h \<open>map_of es n = Some t\<close> by blast
    ultimately show "x \<in> ?a" by blast
  qed
qed

lemma infoAt_dir:
  assumes "distinct (map fst es)" "specialLoop w es ([], False, []) = (files, hr, tg)"
  shows "infoAt w (FsDir l es) p ` owned w (FsDir l es) =
    (if files \<noteq> [] then {\<lparr>di_path = p, di_files = files, di_hasReset = hr, di_resetTarget = tg\<rparr>} else {}) \<union> childInfos w p es"
proof -
  have "infoAt w (FsDir l es) p [] = \<lparr>di_path = p, di_files = files, di_hasReset = hr, di_resetTarget = tg\<rparr>"
    by (simp add: infoAt_def specialsAt_def assms(2))
  then show ?thesis unfolding owned_dir image_Un infoAt_children[OF assms(1)] by (simp add: assms(2))
qed

text \<open>A walk adds one entry for every visible directory with special files, and no other.\<close>

lemma walk_collects:
  "walkTree w root p t st = Inr st' \<Longrightarrow> fsOK t \<Longrightarrow>
     set (fst st') = set (fst st) \<union> (if skipDir p then {} else infoAt w t p ` owned w t)"
  "walkEntries w root p es st = Inr st' \<Longrightarrow> fsOKs es \<Longrightarrow> set (fst st') = set (fst st) \<union> childInfos w p es"
proof (induction w root p t st and w root p es st arbitrary: st' and st' rule: walkTree_walkEntries.induct)
  case (1 w root p c dirs ds)
  then show ?case by (auto simp: owned_def)
next
  case (2 w root p listable es dirs ds)
  obtain files hr tg where sp: "specialLoop w es ([], False, []) = (files, hr, tg)" by (metis prod_cases3)
  show ?case
  proof (cases "skipDir p")
    case True
    then show ?thesis using 2(2) by auto
  next
    case False
    then have r: "readSpecialFiles w (pathOf root p) listable es = Inr (files, hr, tg)"
      using 2(2) sp by (cases listable) (simp_all add: readSpecialFiles_def)
    have "distinct (map fst es)" using 2(3) by simp
    note i = infoAt_dir[OF this sp, of listable p]
    show ?thesis unfolding i using 2(1)[OF False r refl refl] 2(2,3) False r by (simp split: if_splits)
  qed
next
  case (3 w root p st)
  then show ?case by (simp add: childInfos_simps)
next
  case (4 w root p n t es st)
  from 4(3) obtain s1 where a: "walkTree w root (p @ [n]) t st = Inr s1"
    and b: "walkEntries w root p es s1 = Inr st'" by (auto split: sum.splits)
  show ?case using 4(1)[OF a] 4(2)[OF a b] 4(4) by (auto simp: skipDir_snoc childInfos_simps)
qed

section \<open>Layouts and error boundaries\<close>

definition owns :: "scanWorld \<Rightarrow> fsTree \<Rightarrow> string \<Rightarrow> dirPath \<Rightarrow> bool" where
  "owns w t name q \<longleftrightarrow> name \<in> set (fst (specialsAt w t q))"

text \<open>The layouts that wrap the page of a directory: those of its ancestors from the root on; after a reset
  none, or those at and below the last one whose directory is named by the reset, if there is one.\<close>

definition layoutsFor :: "scanWorld \<Rightarrow> fsTree \<Rightarrow> dirPath \<Rightarrow> dirPath list" where
  "layoutsFor w t p =
    (let ls = filter (owns w t ''_layout.svelte'') (ancestry p);
         (_, hasReset, target) = specialsAt w t p;
         named = filter (\<lambda>q. q \<noteq> [] \<and> last q = target) ls
     in if \<not> hasReset then ls else if target = [] then []
        else if named = [] then ls else filter (prefix (last named)) ls)"

definition boundaryFor :: "scanWorld \<Rightarrow> fsTree \<Rightarrow> dirPath \<Rightarrow> dirPath option" where
  "boundaryFor w t p = (let es = filter (owns w t ''_error.svelte'') (ancestry p)
     in if es = [] then None else Some (last es))"

lemma sorted_ancestry: "sorted_wrt strict_prefix (ancestry p)"
  unfolding ancestry_def sorted_wrt_map
proof (rule sorted_wrt_mono_rel[OF _ sorted_wrt_upt])
  fix i j assume "i \<in> set [0..<Suc (length p)]" "j \<in> set [0..<Suc (length p)]" "i < j"
  then have "i < j" "j \<le> length p" by (auto simp del: upt_Suc)
  then have "take i p = take i (take j p)" "length (take i p) \<noteq> length (take j p)" by (simp_all add: min_def)
  then have "take i p = take i (take j p)" "take i p \<noteq> take j p" by metis+
  then show "strict_prefix (take i p) (take j p)" by (metis strict_prefixI take_is_prefix)
qed

lemma drop_sorted_prefixes:
  assumes "sorted_wrt strict_prefix ls" "i < length ls"
  shows "drop i ls = filter (prefix (ls ! i)) ls"
proof -
  have "filter (prefix (ls ! i)) (take i ls) @ filter (prefix (ls ! i)) (drop i ls) = drop i ls"
  proof -
    have "\<not> prefix (ls ! i) x" if h: "x \<in> set (take i ls)" for x
    proof -
      obtain j where "j < i" "x = ls ! j" using h assms(2) by (auto simp: in_set_conv_nth)
      then have "strict_prefix x (ls ! i)" using assms by (auto simp: sorted_wrt_iff_nth_less)
      then show ?thesis by (auto simp: strict_prefix_def dest: prefix_order.antisym)
    qed
    moreover have "prefix (ls ! i) x" if h: "x \<in> set (drop i ls)" for x
    proof -
      obtain j where "j < length ls - i" "x = ls ! (i + j)" using h by (auto simp: in_set_conv_nth)
      then show ?thesis using assms by (cases j) (auto simp: sorted_wrt_iff_nth_less strict_prefix_def)
    qed
    ultimately show ?thesis by (simp add: filter_False)
  qed
  then show ?thesis by (metis append_take_drop_id filter_append)
qed

lemma filter_last_index:
  assumes "i < length xs" "P (xs ! i)" "\<forall>j. i < j \<longrightarrow> j < length xs \<longrightarrow> \<not> P (xs ! j)"
  shows "filter P xs \<noteq> [] \<and> last (filter P xs) = xs ! i"
proof -
  have "filter P (drop (Suc i) xs) = []" using assms(3) by (auto simp: filter_empty_conv in_set_conv_nth)
  moreover have "xs = take i xs @ xs ! i # drop (Suc i) xs" using assms(1) by (simp add: id_take_nth_drop)
  ultimately have "filter P xs = filter P (take i xs) @ [xs ! i]" using assms(2)
    by (metis filter.simps(2) filter_append)
  then show ?thesis by simp
qed

lemma truncate_ref:
  assumes "sorted_wrt strict_prefix ls"
  shows "fst (truncateChainForReset w ls target) =
    (let named = filter (\<lambda>q. q \<noteq> [] \<and> last q = target) ls
     in if target = [] then [] else if named = [] then ls else filter (prefix (last named)) ls)"
proof (cases "resetIndex target ls (length ls)")
  case None
  from resetIndex_ref(2)[OF None] have "filter (\<lambda>q. q \<noteq> [] \<and> last q = target) ls = []"
    by (auto simp: filter_empty_conv in_set_conv_nth)
  then show ?thesis using None by (auto simp: truncateChainForReset_def Let_def)
next
  case (Some i)
  note h = resetIndex_ref(1)[OF Some]
  have l: "filter (\<lambda>q. q \<noteq> [] \<and> last q = target) ls \<noteq> [] \<and> last (filter (\<lambda>q. q \<noteq> [] \<and> last q = target) ls) = ls ! i"
    by (rule filter_last_index) (use h in auto)
  then have "ls \<noteq> []" by auto
  then show ?thesis using Some l drop_sorted_prefixes[OF assms, of i] h by (simp add: truncateChainForReset_def Let_def)
qed


lemma layoutsAtOrAbove_count:
  "layoutsAtOrAbove chain b = length (filter (\<lambda>l. l = b \<or> isAncestor l b) chain)"
proof -
  have "foldl (\<lambda>n l. if l = b \<or> isAncestor l b then n + 1 else n) k chain
      = k + length (filter (\<lambda>l. l = b \<or> isAncestor l b) chain)" for k
    by (induction chain arbitrary: k) auto
  then show ?thesis by (simp add: layoutsAtOrAbove_def)
qed

lemma layouts_above:
  assumes "rootOK root" "list_all nameOK b" "list_all (list_all nameOK) qs"
  shows "layoutsAtOrAbove (map (pathOf root) qs) (pathOf root b) = length (filter (\<lambda>q. prefix q b) qs)"
  using assms(3)
proof (induction qs)
  case (Cons q qs)
  then have "pathOf root q = pathOf root b \<or> isAncestor (pathOf root q) (pathOf root b) \<longleftrightarrow> prefix q b"
    using isAncestor_paths[OF assms(1) _ assms(2)] pathOf_inj[OF _ assms(2)] by (auto simp: strict_prefix_def)
  then show ?case using Cons by (simp add: layoutsAtOrAbove_count comp_def)
qed (simp add: layoutsAtOrAbove_count)

lemma set_buildRoutes:
  "set (fst (buildRoutes w t root L E dis)) = (\<lambda>di. fst (buildRoute w t root L E di)) ` set dis"
  "set (snd (buildRoutes w t root L E dis)) =
     (\<Union>di \<in> set dis. set (snd (buildRoute w t root L E di)) \<union> set (validateRouteFiles w (fst (buildRoute w t root L E di))))"
  by (induction dis) (auto simp: Let_def case_prod_beta)

lemma buildRoute_fields:
  fixes di L E w t root
  defines "rel \<equiv> di_path di"
  defines "full \<equiv> buildLayoutChain L rel []"
  defines "chain \<equiv> (if di_hasReset di then fst (truncateChainForReset w full (di_resetTarget di)) else full)"
  defines "r \<equiv> fst (buildRoute w t root L E di)"
  shows "sr_Dir r = pathOf root rel" "sr_LayoutChain r = map (pathOf root) chain"
    "sr_Segments r = fst (segLoop w (pathOf root rel) rel)" "sr_Pattern r = BuildPattern (sr_Segments r)"
    "sr_HasPage r = hasFile (di_files di) ''_page.svelte''" "sr_HasServer r = hasFile (di_files di) ''_server.go''"
    "sr_HasPageServer r = hasFile (di_files di) ''_page.server.go''"
    "sr_HasReset r = di_hasReset di" "sr_ResetTarget r = di_resetTarget di"
    "case nearestErrorDir E rel of
       None \<Rightarrow> sr_ErrorBoundaryDir r = []
     | Some b \<Rightarrow> (case encodeLayoutPackagePath w b of
          Inl e \<Rightarrow> sr_ErrorBoundaryDir r = []
        | Inr pkg \<Rightarrow> sr_ErrorBoundaryDir r = pathOf root b \<and> sr_ErrorBoundaryPackagePath r = pkg
            \<and> sr_ErrorBoundaryLayoutDepth r = layoutsAtOrAbove (map (pathOf root) chain) (pathOf root b))"
  unfolding r_def chain_def full_def rel_def buildRoute_def
  by (auto simp: Let_def case_prod_beta split: option.splits sum.splits)


definition having :: "string \<Rightarrow> dirInfo list \<Rightarrow> dirPath list" where
  "having name dirs = map di_path (filter (\<lambda>di. hasFile (di_files di) name) dirs)"

lemma Scan_walk:
  assumes "Scan w parse input rt pt = Inr res"
  obtains t dirs ds where "rt = Some t" "walkTree w (si_RoutesDir input) [] t ([], []) = Inr (dirs, ds)"
    "sc_Routes res = sortRoutes (fst (buildRoutes w t (si_RoutesDir input) (having ''_layout.svelte'' dirs) (having ''_error.svelte'' dirs) dirs))"
    "sc_Matchers res = sliceStable matcherLess (fst (discoverMatchers w parse (si_ParamsDir input) pt))"
    "set (sc_Diagnostics res) = set (snd (discoverMatchers w parse (si_ParamsDir input) pt)) \<union> set ds
       \<union> set (snd (buildRoutes w t (si_RoutesDir input) (having ''_layout.svelte'' dirs) (having ''_error.svelte'' dirs) dirs))
       \<union> set (validateMatcherRefs w (fst (buildRoutes w t (si_RoutesDir input) (having ''_layout.svelte'' dirs) (having ''_error.svelte'' dirs) dirs))
           (fst (discoverMatchers w parse (si_ParamsDir input) pt)))
       \<union> set (detectPatternConflicts w (fst (buildRoutes w t (si_RoutesDir input) (having ''_layout.svelte'' dirs) (having ''_error.svelte'' dirs) dirs)))"
proof -
  from assms obtain routes ds2 where wr: "walkRoutes w (si_RoutesDir input) rt = Inr (routes, ds2)"
    by (auto simp: Scan_def Let_def case_prod_beta split: if_splits sum.splits)
  then obtain l es dirs ds where t: "rt = Some (FsDir l es)"
    and wt: "walkTree w (si_RoutesDir input) [] (FsDir l es) ([], []) = Inr (dirs, ds)"
    and rd: "(routes, ds2) = (fst (buildRoutes w (FsDir l es) (si_RoutesDir input) (having ''_layout.svelte'' dirs) (having ''_error.svelte'' dirs) dirs),
      ds @ snd (buildRoutes w (FsDir l es) (si_RoutesDir input) (having ''_layout.svelte'' dirs) (having ''_error.svelte'' dirs) dirs))"
    unfolding walkRoutes_def having_def
    by (auto simp: Let_def case_prod_beta simp del: walkTree.simps split: option.splits fsTree.splits sum.splits)
  show ?thesis
    by (rule that[OF t wt]) (use assms wr rd in \<open>auto simp: Scan_def Let_def case_prod_beta sortDiagnostics_def split: if_splits\<close>)
qed

lemma visible_prefix: "visible p \<Longrightarrow> prefix q p \<Longrightarrow> visible q"
  by (auto simp: visible_def prefix_def)

lemma infoAt_fields [simp]:
  "di_path (infoAt w t p q) = p @ q" "di_files (infoAt w t p q) = fst (specialsAt w t q)"
  "di_hasReset (infoAt w t p q) = fst (snd (specialsAt w t q))" "di_resetTarget (infoAt w t p q) = snd (snd (specialsAt w t q))"
  by (simp_all add: infoAt_def case_prod_beta)

lemma having_owns:
  assumes "set dirs = infoAt w t [] ` owned w t" "visible p"
  shows "filter (\<lambda>q. q \<in> set (having name dirs)) (ancestry p) = filter (owns w t name) (ancestry p)"
proof (rule filter_cong[OF refl])
  fix q assume "q \<in> set (ancestry p)"
  then have "visible q" using visible_prefix[OF assms(2)] by (simp add: set_ancestry)
  then have "q \<in> set (having name dirs) \<longleftrightarrow> q \<in> owned w t \<and> name \<in> set (fst (specialsAt w t q))"
    by (auto simp: having_def assms(1) hasFile_def image_iff)
  then show "q \<in> set (having name dirs) \<longleftrightarrow> owns w t name q" using \<open>visible q\<close> by (auto simp: owns_def owned_def)
qed

lemma owned_names: "fsOK t \<Longrightarrow> q \<in> owned w t \<Longrightarrow> list_all nameOK q"
  by (rule fsOK_path) (auto simp: owned_def specialsAt_def split: option.splits)

lemma layoutsFor_prefixes: "q \<in> set (layoutsFor w t p) \<Longrightarrow> prefix q p"
  by (auto simp: layoutsFor_def Let_def case_prod_beta set_ancestry split: if_splits)


definition boundarySpec :: "scanWorld \<Rightarrow> fsTree \<Rightarrow> string \<Rightarrow> dirPath \<Rightarrow> RouteInfo \<Rightarrow> bool" where
  "boundarySpec w t root p r = (case boundaryFor w t p of
       None \<Rightarrow> sr_ErrorBoundaryDir r = []
     | Some b \<Rightarrow> (case encodeLayoutPackagePath w b of
          Inl e \<Rightarrow> sr_ErrorBoundaryDir r = []
        | Inr pkg \<Rightarrow> sr_ErrorBoundaryDir r = pathOf root b \<and> sr_ErrorBoundaryPackagePath r = pkg
            \<and> sr_ErrorBoundaryLayoutDepth r = length (filter (\<lambda>q. prefix q b) (layoutsFor w t p))))"

lemma route_layouts:
  assumes "set dirs = infoAt w t [] ` owned w t" "p \<in> owned w t" "rootOK root" "fsOK t"
  defines "r \<equiv> fst (buildRoute w t root (having ''_layout.svelte'' dirs) (having ''_error.svelte'' dirs) (infoAt w t [] p))"
  shows "sr_Dir r = pathOf root p"
    and "sr_LayoutChain r = map (pathOf root) (layoutsFor w t p)"
    and "boundarySpec w t root p r"
proof -
  have vis: "visible p" using assms(2) by (simp add: owned_def)
  have names: "list_all nameOK p" using owned_names[OF assms(4,2)] .
  note f = buildRoute_fields[where di = "infoAt w t [] p" and L = "having ''_layout.svelte'' dirs" and E = "having ''_error.svelte'' dirs"
      and w = w and t = t and root = root, folded r_def, unfolded infoAt_fields append_Nil]
  show "sr_Dir r = pathOf root p" using f(1) by simp
  have full: "buildLayoutChain (having ''_layout.svelte'' dirs) p [] = filter (owns w t ''_layout.svelte'') (ancestry p)"
    unfolding buildLayoutChain_ref by (simp add: having_owns[OF assms(1) vis])
  have "sorted_wrt strict_prefix (filter (owns w t ''_layout.svelte'') (ancestry p))"
    by (rule sorted_wrt_filter[OF sorted_ancestry])
  note tr = truncate_ref[OF this, of w "snd (snd (specialsAt w t p))"]
  have chain: "(if fst (snd (specialsAt w t p)) then fst (truncateChainForReset w (filter (owns w t ''_layout.svelte'') (ancestry p))
      (snd (snd (specialsAt w t p)))) else filter (owns w t ''_layout.svelte'') (ancestry p)) = layoutsFor w t p"
    unfolding tr layoutsFor_def by (simp add: Let_def case_prod_beta)
  show "sr_LayoutChain r = map (pathOf root) (layoutsFor w t p)" using f(2) unfolding full chain .
  have e: "nearestErrorDir (having ''_error.svelte'' dirs) p = boundaryFor w t p"
    unfolding nearestErrorDir_ref boundaryFor_def by (simp add: having_owns[OF assms(1) vis])
  have depth: "layoutsAtOrAbove (map (pathOf root) (layoutsFor w t p)) (pathOf root b)
      = length (filter (\<lambda>q. prefix q b) (layoutsFor w t p))" if "boundaryFor w t p = Some b" for b
  proof (rule layouts_above[OF assms(3)])
    have pre: "list_all nameOK q" if "prefix q p" for q using names that by (auto simp: prefix_def)
    have "b \<in> set (ancestry p)" using that by (auto simp: boundaryFor_def Let_def split: if_splits dest!: last_in_set)
    then show "list_all nameOK b" using pre by (simp add: set_ancestry)
    show "list_all (list_all nameOK) (layoutsFor w t p)"
      unfolding list_all_iff[of _ "layoutsFor w t p"] using pre[OF layoutsFor_prefixes] by blast
  qed
  show "boundarySpec w t root p r"
    using f(10) unfolding boundarySpec_def full chain e by (auto simp: depth split: option.splits sum.splits)
qed

text \<open>C37. A scan yields a route for every directory that holds a special file and is not hidden or a
  test directory, and for no other. Its layout chain is the sequence of its ancestors with a layout, from the root to the
  directory itself, without those above the layout a reset names (none at all after a plain reset); its error boundary is the nearest
  ancestor with an error page, and the boundary depth is the number of its layouts at or above the boundary.\<close>

theorem scan_layout_inheritance:
  assumes "Scan w parse input (Some t) pt = Inr res" "rootOK (si_RoutesDir input)" "fsOK t"
  shows "sr_Dir ` set (sc_Routes res) = pathOf (si_RoutesDir input) ` owned w t \<and>
    (\<forall>r \<in> set (sc_Routes res). \<forall>p. p \<in> owned w t \<and> sr_Dir r = pathOf (si_RoutesDir input) p \<longrightarrow>
      sr_LayoutChain r = map (pathOf (si_RoutesDir input)) (layoutsFor w t p)
      \<and> boundarySpec w t (si_RoutesDir input) p r)"
proof -
  let ?root = "si_RoutesDir input"
  from Scan_walk[OF assms(1)] obtain dirs ds where wt: "walkTree w ?root [] t ([], []) = Inr (dirs, ds)"
    and rs: "sc_Routes res = sortRoutes (fst (buildRoutes w t ?root (having ''_layout.svelte'' dirs) (having ''_error.svelte'' dirs) dirs))"
    by (metis option.inject)
  have dirs: "set dirs = infoAt w t [] ` owned w t"
    using walk_collects(1)[OF wt assms(3)] by (simp add: skipDir_def)
  let ?b = "\<lambda>p. fst (buildRoute w t ?root (having ''_layout.svelte'' dirs) (having ''_error.svelte'' dirs) (infoAt w t [] p))"
  have routes: "set (sc_Routes res) = ?b ` owned w t" by (auto simp: rs sortRoutes_def set_buildRoutes dirs)
  note l = route_layouts[OF dirs _ assms(2,3)]
  have "sr_Dir ` set (sc_Routes res) = pathOf ?root ` owned w t"
    unfolding routes image_image by (rule image_cong[OF refl]) (rule l(1))
  moreover have "sr_LayoutChain r = map (pathOf ?root) (layoutsFor w t p) \<and> boundarySpec w t ?root p r"
    if h: "r \<in> set (sc_Routes res)" "p \<in> owned w t" "sr_Dir r = pathOf ?root p" for r p
  proof -
    obtain q where q: "q \<in> owned w t" "r = ?b q" using h(1) by (auto simp: routes)
    then have "pathOf ?root q = pathOf ?root p" using l(1)[OF q(1)] h(3) by simp
    then have "q = p" using pathOf_inj[OF owned_names[OF assms(3) q(1)] owned_names[OF assms(3) h(2)]] by simp
    then show ?thesis using l(2,3)[OF q(1)] q(2) by metis
  qed
  ultimately show ?thesis by blast
qed


section \<open>A scan without fatal diagnostics\<close>

lemma split_fatal: "fst (splitDiagnostics ds) = filter isFatalDiagnostic ds"
proof -
  have "fst (foldl (\<lambda>(fatal, warnings) d. if isFatalDiagnostic d then (fatal @ [d], warnings) else (fatal, warnings @ [d])) (f, v) ds)
      = f @ filter isFatalDiagnostic ds" for f v
    by (induction ds arbitrary: f v) auto
  then show ?thesis by (simp add: splitDiagnostics_def)
qed

lemma conflict_fatal: "d \<in> set (detectPatternConflicts w rs) \<Longrightarrow> isFatalDiagnostic d"
  using contains_mid[of "[]" "''route conflict''"]
  by (auto simp: detectPatternConflicts_def shapeDiags_def Let_def isFatalDiagnostic_def diag_def split: if_splits)

lemma unknownMatcher_Nil: "unknownMatcher w known r s = [] \<longleftrightarrow> seg_matcher s = [] \<or> seg_matcher s \<in> set known"
  by (simp add: unknownMatcher_def)

lemma unknownMatcher_fatal: "d \<in> set (unknownMatcher w known r s) \<Longrightarrow> isFatalDiagnostic d"
proof -
  assume "d \<in> set (unknownMatcher w known r s)"
  then have "dg_Message d = (''route '' @ sw_quote w (sr_Pattern r) @ '' references '') @ ''unknown matcher''
      @ ('' '' @ sw_quote w (seg_matcher s) @ '' on parameter '' @ sw_quote w (seg_name s))"
    by (simp add: unknownMatcher_def diag_def split: if_splits)
  then have "contains (dg_Message d) ''unknown matcher''" by (metis contains_mid)
  then show ?thesis by (simp add: isFatalDiagnostic_def Let_def)
qed

lemma matcher_fatal: "d \<in> set (validateMatcherRefs w rs ms) \<Longrightarrow> isFatalDiagnostic d"
  by (auto simp: validateMatcherRefs_def Let_def dest: unknownMatcher_fatal)

lemma unknown_none:
  assumes "validateMatcherRefs w rs ms = []" "r \<in> set rs" "s \<in> set (sr_Segments r)" "seg_matcher s \<noteq> []"
  shows "seg_matcher s \<in> set (builtinMatchers @ map dm_Name ms)"
proof -
  have "unknownMatcher w (builtinMatchers @ map dm_Name ms) r s = []"
    using assms(1-3) by (simp add: validateMatcherRefs_def Let_def)
  then show ?thesis using assms(4) unfolding unknownMatcher_Nil by simp
qed

lemma files_fatal: "d \<in> set (validateRouteFiles w r) \<Longrightarrow> isFatalDiagnostic d"
proof -
  assume "d \<in> set (validateRouteFiles w r)"
  then consider "dg_Message d = (''route '' @ sw_quote w (sr_Pattern r) @ '' '') @ ''may not have both _page.svelte and _server.go'' @ []"
    | "dg_Message d = [] @ ''orphan _page.server.go'' @ ('': route '' @ sw_quote w (sr_Pattern r) @ '' has no _page.svelte or _server.go'')"
    by (auto simp: validateRouteFiles_def diag_def split: if_splits)
  then have "contains (dg_Message d) ''may not have both _page.svelte and _server.go'' \<or> contains (dg_Message d) ''orphan _page.server.go''"
    by (metis contains_mid)
  then show ?thesis by (auto simp: isFatalDiagnostic_def Let_def)
qed

text \<open>The entries of a shape are those of the routable routes with that shape.\<close>

definition shapeRoute :: "RouteInfo \<Rightarrow> string" where
  "shapeRoute r = patternShape (sr_Segments r)"

definition atShape :: "RouteInfo list \<Rightarrow> string \<Rightarrow> (string \<times> string) list" where
  "atShape rs sh = map (\<lambda>r. (sr_Pattern r, sr_Dir r)) (filter (\<lambda>r. routable r \<and> shapeRoute r = sh) rs)"

lemma byShape_lookup:
  "map_of (byShape rs) sh = (if atShape rs sh = [] then None else Some (atShape rs sh))"
proof (induction rs arbitrary: sh rule: rev_induct)
  case Nil
  then show ?case by (simp add: byShape_def atShape_def)
next
  case (snoc r rs)
  have "byShape (rs @ [r]) = (if \<not> routable r then byShape rs
     else setKey (shapeRoute r) (atShape rs (shapeRoute r) @ [(sr_Pattern r, sr_Dir r)]) (byShape rs))"
    using snoc[of "shapeRoute r"] by (simp add: byShape_def[of "rs @ [r]"] byShape_def[of rs, symmetric] Let_def shapeRoute_def)
  then show ?case using snoc by (auto simp: setKey_lookup atShape_def)
qed

lemma distinct_map_single: "(\<And>y. length (filter (\<lambda>x. f x = y) xs) \<le> 1) \<Longrightarrow> distinct (map f xs)"
proof (induction xs)
  case (Cons x xs)
  have "length (filter (\<lambda>z. f z = y) xs) \<le> 1" for y using Cons.prems[of y] by (simp split: if_splits)
  moreover have "filter (\<lambda>z. f z = f x) xs = []" using Cons.prems[of "f x"] by simp
  ultimately show ?case using Cons.IH by (force simp: filter_empty_conv)
qed simp

lemma shapes_distinct:
  assumes "detectPatternConflicts w rs = []"
  shows "distinct (map shapeRoute (filter routable rs))"
proof -
  have short: "length (atShape rs sh) \<le> 1" for sh
  proof (rule ccontr)
    assume h: "\<not> length (atShape rs sh) \<le> 1"
    then have "map_of (byShape rs) sh = Some (atShape rs sh)" unfolding byShape_lookup by auto
    then have "(sh, atShape rs sh) \<in> set (byShape rs)" by (rule map_of_SomeD)
    then have "shapeDiags w (atShape rs sh) = []" using assms by (force simp: detectPatternConflicts_def)
    moreover have "length (shapeDiags w (atShape rs sh)) = length (atShape rs sh) - 1" using h by (simp add: shapeDiags_def Let_def)
    ultimately show False using h by simp
  qed
  have "length (filter (\<lambda>r. shapeRoute r = sh) (filter routable rs)) = length (atShape rs sh)" for sh
    by (simp add: atShape_def conj_commute)
  then show ?thesis using short by (intro distinct_map_single) simp
qed


lemma distinct_filter_insertStable:
  "distinct (map f (filter P (insertStable lt x ys))) \<longleftrightarrow> distinct (map f (filter P (x # ys)))"
  by (induction ys) (auto simp: image_iff)

lemma distinct_filter_sliceStable:
  "distinct (map f (filter P xs)) \<Longrightarrow> distinct (map f (filter P (sliceStable lt xs)))"
  by (induction xs) (auto simp: distinct_filter_insertStable split: if_splits)

text \<open>The routes that the manifest registers.\<close>

definition manifestRoutes :: "ScanResult \<Rightarrow> RouteInfo list" where
  "manifestRoutes scan = filter (\<lambda>r. \<not> (\<not> sr_HasPage r \<and> \<not> sr_HasServer r)) (sc_Routes scan)"

lemma clean_scan:
  assumes "Scan w parse input rt pt = Inr res" "fst (splitDiagnostics (sc_Diagnostics res)) = []"
  shows "distinct (map shapeRoute (filter routable (sc_Routes res)))"
    and "r \<in> set (sc_Routes res) \<Longrightarrow> s \<in> set (sr_Segments r) \<Longrightarrow> seg_matcher s \<noteq> [] \<Longrightarrow>
      seg_matcher s \<in> set builtinMatchers \<union> dm_Name ` set (sc_Matchers res)"
    and "r \<in> set (sc_Routes res) \<Longrightarrow> \<not> (sr_HasPage r \<and> sr_HasServer r)"
proof -
  from Scan_walk[OF assms(1)] obtain t dirs ds routes L E where
    routes: "routes = fst (buildRoutes w t (si_RoutesDir input) L E dirs)" "sc_Routes res = sortRoutes routes"
    and ms: "sc_Matchers res = sliceStable matcherLess (fst (discoverMatchers w parse (si_ParamsDir input) pt))"
    and d: "set (sc_Diagnostics res) = set (snd (discoverMatchers w parse (si_ParamsDir input) pt)) \<union> set ds
       \<union> set (snd (buildRoutes w t (si_RoutesDir input) L E dirs))
       \<union> set (validateMatcherRefs w routes (fst (discoverMatchers w parse (si_ParamsDir input) pt)))
       \<union> set (detectPatternConflicts w routes)"
    by metis
  have none: "\<not> isFatalDiagnostic x" if "x \<in> set (sc_Diagnostics res)" for x
    using assms(2) that by (simp add: split_fatal filter_empty_conv)
  have cf: "detectPatternConflicts w routes = []"
  proof (rule ccontr)
    assume "detectPatternConflicts w routes \<noteq> []"
    then obtain x where "x \<in> set (detectPatternConflicts w routes)" by (cases "detectPatternConflicts w routes") auto
    then show False using conflict_fatal none d by blast
  qed
  have "distinct (map shapeRoute (filter routable routes))" by (rule shapes_distinct[OF cf])
  then show "distinct (map shapeRoute (filter routable (sc_Routes res)))"
    unfolding routes(2) sortRoutes_def by (rule distinct_filter_sliceStable)
  have mf: "validateMatcherRefs w routes (fst (discoverMatchers w parse (si_ParamsDir input) pt)) = []" (is "?v = []")
  proof (rule ccontr)
    assume "?v \<noteq> []"
    then obtain x where "x \<in> set ?v" by (cases ?v) auto
    then show False using matcher_fatal none d by blast
  qed
  assume r: "r \<in> set (sc_Routes res)"
  then have r': "r \<in> set routes" by (simp add: routes(2) sortRoutes_def)
  show "seg_matcher s \<in> set builtinMatchers \<union> dm_Name ` set (sc_Matchers res)"
    if "s \<in> set (sr_Segments r)" "seg_matcher s \<noteq> []"
    using unknown_none[OF mf r' that] by (simp add: ms)
  show "\<not> (sr_HasPage r \<and> sr_HasServer r)"
  proof
    assume "sr_HasPage r \<and> sr_HasServer r"
    then have "validateRouteFiles w r \<noteq> []" by (simp add: validateRouteFiles_def)
    then obtain x where x: "x \<in> set (validateRouteFiles w r)" by (cases "validateRouteFiles w r") auto
    then have "x \<in> set (snd (buildRoutes w t (si_RoutesDir input) L E dirs))"
      using r' unfolding set_buildRoutes routes(1) by blast
    then show False using files_fatal[OF x] none d by blast
  qed
qed


lemma shape_norm: "shapeOf (normSeg s) = shapeOf s"
  by (cases "seg_kind s") (simp_all add: shapeOf_def normSeg_def mkSegment_def)

lemma shape_path: "map normSeg a = map normSeg b \<Longrightarrow> patternShape a = patternShape b"
proof -
  assume "map normSeg a = map normSeg b"
  then have "map shapeOf (map normSeg a) = map shapeOf (map normSeg b)" by simp
  then have "map shapeOf a = map shapeOf b" by (simp add: comp_def shape_norm)
  then show ?thesis by (simp add: patternShape_def)
qed

lemma scan_patterns:
  assumes "Scan w parse input rt pt = Inr res" "r \<in> set (sc_Routes res)"
  shows "sr_Pattern r \<noteq> []"
proof -
  from Scan_walk[OF assms(1)] obtain t dirs L E where "sc_Routes res = sortRoutes (fst (buildRoutes w t (si_RoutesDir input) L E dirs))"
    by metis
  then obtain di where "r = fst (buildRoute w t (si_RoutesDir input) L E di)"
    using assms(2) by (auto simp: sortRoutes_def set_buildRoutes)
  then have "sr_Pattern r = BuildPattern (sr_Segments r)" using buildRoute_fields(4) by simp
  then show ?thesis by (simp add: BuildPattern_def)
qed



section \<open>Concrete scans\<close>

definition demoWorld :: scanWorld where
  "demoWorld = \<lparr>sw_U = asciiTables, sw_quote = (\<lambda>s. CHR 0x22 # s @ [CHR 0x22]), sw_ioErr = (\<lambda>p. ''no such file or directory'')\<rparr>"

definition noParser :: "string \<Rightarrow> (string, goFile) result" where
  "noParser path = Inl ''no Go file''"

definition demoInput :: ScanInput where
  "demoInput = \<lparr>si_RoutesDir = ''routes'', si_ParamsDir = []\<rparr>"

definition page :: fsTree where
  "page = FsFile (Some ''<h1>x</h1>'')"

definition demoRoutesDir :: fsTree where
  "demoRoutesDir = FsDir True
     [(''(app)'', FsDir True [(''[id=int]'', FsDir True [(''_error.svelte'', page), (''_layout.svelte'', page), (''_page@(app).svelte'', page)]),
                              (''_layout.svelte'', page)]),
      (''.hidden'', FsDir True [(''_page.svelte'', page)]),
      (''_layout.svelte'', page), (''_page.svelte'', page)]"

definition scanOf :: "fsTree \<Rightarrow> ScanResult" where
  "scanOf t = (case Scan demoWorld noParser demoInput (Some t) None of Inr res \<Rightarrow> res | Inl e \<Rightarrow> \<lparr>sc_Routes = [], sc_Matchers = [], sc_Diagnostics = []\<rparr>)"

lemma demo_scan:
  "Scan demoWorld noParser demoInput (Some demoRoutesDir) None = Inr (scanOf demoRoutesDir)"
  "map (\<lambda>r. (sr_Pattern r, sr_Dir r, sr_LayoutChain r, sr_ErrorBoundaryDir r, sr_ErrorBoundaryLayoutDepth r)) (sc_Routes (scanOf demoRoutesDir)) =
    [(''/'', ''routes'', [''routes''], [], 0), (''/'', ''routes/(app)'', [''routes'', ''routes/(app)''], [], 0),
     (''/[id=int]'', ''routes/(app)/[id=int]'', [''routes/(app)'', ''routes/(app)/[id=int]''], ''routes/(app)/[id=int]'', 2)]"
  "fst (splitDiagnostics (sc_Diagnostics (scanOf demoRoutesDir))) = []"
  by code_simp+

lemma demo_owned: "[''(app)'', ''[id=int]''] \<in> owned demoWorld demoRoutesDir"
proof -
  have "visible [''(app)'', ''[id=int]'']" "fst (specialsAt demoWorld demoRoutesDir [''(app)'', ''[id=int]'']) \<noteq> []" by code_simp+
  then show ?thesis by (simp add: owned_def)
qed

text \<open>A directory name that does not parse is only a warning; its route is served at the URL of its parent.\<close>

definition badNameDir :: fsTree where
  "badNameDir = FsDir True [(''blog'', FsDir True [(''[id'', FsDir True [(''_page.svelte'', page)])])]"

lemma bad_name_is_warning:
  "map (\<lambda>r. (sr_Pattern r, sr_Dir r)) (sc_Routes (scanOf badNameDir)) = [(''/blog'', ''routes/blog/[id'')]
   \<and> map dg_Message (sc_Diagnostics (scanOf badNameDir)) = [''unbalanced brackets in '' @ sw_quote demoWorld ''[id'']
   \<and> fst (splitDiagnostics (sc_Diagnostics (scanOf badNameDir))) = []"
  by code_simp

text \<open>A page that is only present with a reset suffix is reported as unreadable.\<close>

definition resetDir :: fsTree where
  "resetDir = FsDir True [(''_page@.svelte'', FsFile (Some ''<!-- sveltego:ssr-fallback -->''))]"

lemma reset_page_annotation_lost:
  "map (\<lambda>r. (sr_HasPage r, sr_SSRFallback r)) (sc_Routes (scanOf resetDir)) = [(True, False)]
   \<and> map dg_Message (sc_Diagnostics (scanOf resetDir)) = [''read routes/_page.svelte: no such file or directory'']"
  by code_simp


theorem scan_layout_inheritance_witness:
  "sr_LayoutChain (sc_Routes (scanOf demoRoutesDir) ! 2)
     = map (pathOf ''routes'') (layoutsFor demoWorld demoRoutesDir [''(app)'', ''[id=int]''])
   \<and> sr_Dir (sc_Routes (scanOf demoRoutesDir) ! 2) = ''routes/(app)/[id=int]''"
proof -
  have r: "sc_Routes (scanOf demoRoutesDir) ! 2 \<in> set (sc_Routes (scanOf demoRoutesDir))"
    using arg_cong[OF demo_scan(2), of length] by (intro nth_mem) simp
  have d: "sr_Dir (sc_Routes (scanOf demoRoutesDir) ! 2) = ''routes/(app)/[id=int]''" by code_simp
  have "rootOK (si_RoutesDir demoInput)" "fsOK demoRoutesDir" by code_simp+
  from scan_layout_inheritance[OF demo_scan(1) this] r demo_owned d
  show ?thesis by (simp add: demoInput_def pathOf_def)
qed

definition demoManifest :: "unit Route list" where
  "demoManifest = map (\<lambda>r. demoRoute (sr_Pattern r) (sr_Segments r)) (manifestRoutes (scanOf demoRoutesDir))"


end
