(* ===== verification/CsrfInject.thy ===== *)
theory CsrfInject
  imports GoText
begin

text \<open>
  The passes that put the CSRF field into forms: \<^verbatim>\<open>runtime/svelte/csrfinject\<close> on rendered HTML and its twin
  on Svelte sources, \<^verbatim>\<open>internal/codegen/csrffallback\<close> (the splice; its rewriting of imports uses regular
  expressions and is left out). The two scanners are the same code but for values in braces, which only the
  second one knows, and for the method, which it accepts only in quotes; the argument \<open>svelte\<close> selects the copy.

  A position in the text is the text from there on, so \<^verbatim>\<open>scanFormOpenTag(s, idx)\<close> takes \<^verbatim>\<open>s[idx:]\<close> and its
  offsets count from \<^verbatim>\<open>idx\<close>. The argument \<open>lr\<close> is the lower-case mapping of runes.
\<close>

section \<open>Characters\<close>

definition isASCIISpace :: "char \<Rightarrow> bool" where
  "isASCIISpace b = (b = CHR '' '' \<or> b = CHR 0x09 \<or> b = CHR 0x0A \<or> b = CHR 0x0D)"

definition lowerPrefix :: "string \<Rightarrow> string \<Rightarrow> bool" where
  "lowerPrefix s p = (length p \<le> length s \<and> map lowerASCII (take (length p) s) = p)"

text \<open>\<^verbatim>\<open>strings.EqualFold(val, "post")\<close>: the letters fold to themselves and their capitals, and s also to the long s.\<close>

fun foldLongS :: "string \<Rightarrow> string" where
  "foldLongS (c # d # s) = (if c = CHR 0xC5 \<and> d = CHR 0xBF then CHR ''s'' # foldLongS s else c # foldLongS (d # s))"
| "foldLongS s = s"

definition isPostValue :: "string \<Rightarrow> bool" where
  "isPostValue v = (map lowerASCII (foldLongS v) = ''post'')"

section \<open>Finding forms\<close>

definition formStartAt :: "string \<Rightarrow> bool" where
  "formStartAt s = (lowerPrefix s ''<form'' \<and>
     (length s = 5 \<or> s ! 5 = CHR ''>'' \<or> s ! 5 = CHR ''/'' \<or> isASCIISpace (s ! 5)))"

fun containsFormStart :: "string \<Rightarrow> bool" where
  "containsFormStart [] = False"
| "containsFormStart (c # s) = (lowerPrefix (c # s) ''<form'' \<or> containsFormStart s)"

fun indexFormStart :: "string \<Rightarrow> nat option" where
  "indexFormStart [] = None"
| "indexFormStart (c # s) = (if formStartAt (c # s) then Some 0 else map_option Suc (indexFormStart s))"

section \<open>Scanning an open tag\<close>

record attrSpan =
  sp_nameStart :: nat
  sp_nameEnd :: nat
  sp_valStart :: nat
  sp_valEnd :: nat
  sp_hasValue :: bool
  sp_quote :: "char option"

record formAttrs =
  fa_isPost :: bool
  fa_nocsrf :: bool
  fa_alreadyInjected :: bool

text \<open>The inner loops advance while a condition holds.\<close>

definition advanceWhile :: "(char \<Rightarrow> bool) \<Rightarrow> string \<Rightarrow> nat \<Rightarrow> nat" where
  "advanceWhile P t i = i + length (takeWhile P (drop i t))"

definition unquotedEnd :: "char \<Rightarrow> bool" where
  "unquotedEnd b = (isASCIISpace b \<or> b = CHR ''>'' \<or> b = CHR ''/'')"

definition nameEnds :: "char \<Rightarrow> bool" where
  "nameEnds b = (b = CHR ''='' \<or> unquotedEnd b)"

text \<open>The closing brace that matches, from the given depth on.\<close>

fun closingBrace :: "nat \<Rightarrow> string \<Rightarrow> nat option" where
  "closingBrace depth [] = None"
| "closingBrace depth (c # s) =
    (if c = CHR ''{'' then map_option Suc (closingBrace (Suc depth) s)
     else if c = CHR ''}'' then (if depth = 1 then Some 0 else map_option Suc (closingBrace (depth - 1) s))
     else map_option Suc (closingBrace depth s))"

text \<open>The value at \<open>j\<close>: its bounds, its quote, and where the scan goes on.\<close>

definition scanValue :: "bool \<Rightarrow> string \<Rightarrow> nat \<Rightarrow> (nat \<times> nat \<times> char option \<times> nat) option" where
  "scanValue svelte t j =
    (if t ! j = CHR 0x22 \<or> t ! j = CHR 0x27
     then (let e = advanceWhile (\<lambda>b. b \<noteq> t ! j) t (j + 1)
           in if length t \<le> e then None else Some (j + 1, e, Some (t ! j), e + 1))
     else if svelte \<and> t ! j = CHR ''{''
     then (case closingBrace 1 (drop (j + 1) t) of None \<Rightarrow> None | Some k \<Rightarrow> Some (j + 1, j + 1 + k, None, j + 1 + k + 1))
     else (let e = advanceWhile (\<lambda>b. \<not> unquotedEnd b) t j in Some (j, e, None, e)))"

definition scanAttr :: "bool \<Rightarrow> string \<Rightarrow> nat \<Rightarrow> (attrSpan \<times> nat) option" where
  "scanAttr svelte t i =
    (let nameEnd = advanceWhile (\<lambda>b. \<not> nameEnds b) t i;
         j = advanceWhile isASCIISpace t nameEnd
     in if j < length t \<and> t ! j = CHR ''=''
        then (let j' = advanceWhile isASCIISpace t (j + 1) in
          if length t \<le> j' then None
          else (case scanValue svelte t j' of
              None \<Rightarrow> None
            | Some (vs, ve, q, next) \<Rightarrow>
                Some (\<lparr>sp_nameStart = i, sp_nameEnd = nameEnd, sp_valStart = vs, sp_valEnd = ve,
                       sp_hasValue = True, sp_quote = q\<rparr>, next)))
        else Some (\<lparr>sp_nameStart = i, sp_nameEnd = nameEnd, sp_valStart = 0, sp_valEnd = 0,
                    sp_hasValue = False, sp_quote = None\<rparr>, nameEnd))"

lemma advanceWhile_ge: "i \<le> advanceWhile P t i"
  by (simp add: advanceWhile_def)

lemma advanceWhile_gt: "i < length t \<Longrightarrow> P (t ! i) \<Longrightarrow> i < advanceWhile P t i"
  by (simp add: advanceWhile_def Cons_nth_drop_Suc[symmetric])

lemma scanValue_next: "scanValue svelte t j = Some (vs, ve, q, next) \<Longrightarrow> j \<le> next"
  using advanceWhile_ge[of "j + 1" "\<lambda>b. b \<noteq> t ! j" t] advanceWhile_ge[of j "\<lambda>b. \<not> unquotedEnd b" t]
  by (auto simp: scanValue_def Let_def split: if_splits option.splits)

lemma scanAttr_progress:
  assumes "scanAttr svelte t i = Some (sp, i')" "i < length t" "\<not> unquotedEnd (t ! i)"
  shows "i < i'"
proof -
  let ?n = "advanceWhile (\<lambda>b. \<not> nameEnds b) t i"
  let ?j = "advanceWhile isASCIISpace t ?n"
  let ?k = "advanceWhile isASCIISpace t (?j + 1)"
  have ge: "i \<le> ?n" "?n \<le> ?j" "?j + 1 \<le> ?k" by (rule advanceWhile_ge)+
  show ?thesis
  proof (cases "?j < length t \<and> t ! ?j = CHR ''=''")
    case True
    then obtain vs ve q where "scanValue svelte t ?k = Some (vs, ve, q, i')"
      using assms(1) by (auto simp: scanAttr_def Let_def split: if_splits option.splits)
    then have "?k \<le> i'" by (rule scanValue_next)
    then show ?thesis using ge by linarith
  next
    case False
    then have i': "i' = ?n" using assms(1) by (auto simp: scanAttr_def Let_def split: if_splits)
    have "\<not> nameEnds (t ! i)"
    proof
      assume "nameEnds (t ! i)"
      then have e: "t ! i = CHR ''=''" using assms(3) by (simp add: nameEnds_def)
      then have "?n = i" using assms(2) by (simp add: advanceWhile_def Cons_nth_drop_Suc[symmetric] nameEnds_def)
      moreover then have "?j = i" using e assms(2)
        by (simp add: advanceWhile_def Cons_nth_drop_Suc[symmetric] isASCIISpace_def)
      ultimately show False using False e assms(2) by metis
    qed
    then show ?thesis unfolding i' using advanceWhile_gt[OF assms(2), of "\<lambda>b. \<not> nameEnds b"] by simp
  qed
qed

text \<open>The loop over the tag: the offset of the closing bracket, whether the tag closes itself, the spans.\<close>

function scanLoop :: "bool \<Rightarrow> string \<Rightarrow> nat \<Rightarrow> attrSpan list \<Rightarrow> (nat \<times> bool \<times> attrSpan list) option" where
  "scanLoop svelte t i spans =
    (if length t \<le> i then None
     else if isASCIISpace (t ! i) then scanLoop svelte t (i + 1) spans
     else if t ! i = CHR ''/''
     then (if i + 1 < length t \<and> t ! (i + 1) = CHR ''>'' then Some (i + 1, True, spans)
           else scanLoop svelte t (i + 1) spans)
     else if t ! i = CHR ''>'' then Some (i, False, spans)
     else (case scanAttr svelte t i of
         None \<Rightarrow> None
       | Some (sp, i') \<Rightarrow> scanLoop svelte t i' (spans @ [sp])))"
  by pat_completeness auto

termination
proof (relation "measure (\<lambda>(_, t, i, _). length t - i)")
  fix svelte t i spans x sp i'
  assume a: "\<not> length t \<le> i" "\<not> isASCIISpace (t ! i)" "t ! i \<noteq> CHR ''/''" "t ! i \<noteq> CHR ''>''"
    "scanAttr svelte t i = Some x" "(sp, i') = x"
  then have "i < i'" by (intro scanAttr_progress[of svelte t i sp i']) (auto simp: unquotedEnd_def)
  then show "((svelte, t, i', spans @ [sp]), svelte, t, i, spans) \<in> measure (\<lambda>(_, t, i, _). length t - i)" using a(1) by simp
qed (simp_all add: diff_less_mono2)

declare scanLoop.simps [simp del]

definition slice :: "string \<Rightarrow> nat \<Rightarrow> nat \<Rightarrow> string" where
  "slice t a b = take (b - a) (drop a t)"

text \<open>The loop over the spans: the flags and the range to strip.\<close>

definition spanBack :: "string \<Rightarrow> nat \<Rightarrow> nat" where
  "spanBack t start = start - length (takeWhile isASCIISpace (rev (slice t 5 start)))"

definition spanStep :: "bool \<Rightarrow> (nat \<Rightarrow> nat) \<Rightarrow> string \<Rightarrow> bool \<times> bool \<times> (nat \<times> nat) option \<Rightarrow> attrSpan \<Rightarrow> bool \<times> bool \<times> (nat \<times> nat) option" where
  "spanStep svelte lr t = (\<lambda>(isPost, nocsrf, strip) sp.
    (let name = toLower lr (slice t (sp_nameStart sp) (sp_nameEnd sp)) in
     if name = ''method''
     then (isPost \<or> sp_hasValue sp \<and> (svelte \<longrightarrow> sp_quote sp \<noteq> None)
             \<and> isPostValue (trimSpace (slice t (sp_valStart sp) (sp_valEnd sp))), nocsrf, strip)
     else if name = ''nocsrf''
     then (let delStart = spanBack t (sp_nameStart sp);
               delEnd = (if sp_hasValue sp then (if sp_quote sp \<noteq> None then sp_valEnd sp + 1 else sp_valEnd sp) else sp_nameEnd sp)
           in (isPost, True, case strip of None \<Rightarrow> Some (delStart, delEnd)
                 | Some (a, b) \<Rightarrow> Some (min delStart a, max delEnd b)))
     else (isPost, nocsrf, strip)))"

section \<open>The idempotency guard\<close>

definition namesToken :: "string \<Rightarrow> bool" where
  "namesToken openTag = (contains openTag (''name='' @ [CHR 0x22] @ ''_csrf_token'' @ [CHR 0x22])
     \<or> contains openTag (''name='' @ [CHR 0x27] @ ''_csrf_token'' @ [CHR 0x27])
     \<or> contains openTag ''name=_csrf_token'')"

definition hasInjectedHiddenCSRF :: "(nat \<Rightarrow> nat) \<Rightarrow> string \<Rightarrow> bool" where
  "hasInjectedHiddenCSRF lr tail0 =
    (let tail = dropWhile isASCIISpace tail0 in
     if \<not> lowerPrefix tail ''<input'' then False
     else (case indexByte (take 256 (drop 6 tail)) CHR ''>'' of
         None \<Rightarrow> False
       | Some e \<Rightarrow> namesToken (toLower lr (take (6 + e) tail))))"

text \<open>The end of the tag, the tag without \<^verbatim>\<open>nocsrf\<close>, and the flags; \<^const>\<open>None\<close> when the tag is malformed.\<close>

definition scanTag :: "bool \<Rightarrow> (nat \<Rightarrow> nat) \<Rightarrow> string \<Rightarrow> (nat \<times> string \<times> formAttrs) option" where
  "scanTag svelte lr t =
    (if length t < 5 then None
     else (case scanLoop svelte t 5 [] of
         None \<Rightarrow> None
       | Some (closeAt, selfClose, spans) \<Rightarrow>
           if selfClose
           then Some (closeAt + 1, take (closeAt + 1) t, \<lparr>fa_isPost = False, fa_nocsrf = False, fa_alreadyInjected = False\<rparr>)
           else (let end = closeAt + 1;
                     (isPost, nocsrf, strip) = foldl (spanStep svelte lr t) (False, False, None) spans;
                     rest = (case strip of None \<Rightarrow> take end t | Some (a, b) \<Rightarrow> take a t @ slice t b end)
                 in Some (end, rest, \<lparr>fa_isPost = isPost, fa_nocsrf = nocsrf,
                      fa_alreadyInjected = hasInjectedHiddenCSRF lr (drop end t)\<rparr>))))"

definition scanFormOpenTag :: "(nat \<Rightarrow> nat) \<Rightarrow> string \<Rightarrow> (nat \<times> string \<times> formAttrs) option" where
  "scanFormOpenTag = scanTag False"

section \<open>Rewriting rendered HTML\<close>

definition htmlAttrEscape :: "string \<Rightarrow> string" where
  "htmlAttrEscape s =
    (if \<not> containsAny s [CHR ''&'', CHR ''<'', CHR ''>'', CHR 0x22, CHR 0x27] then s
     else concat (map (\<lambda>c. if c = CHR ''&'' then ''&amp;'' else if c = CHR ''<'' then ''&lt;''
       else if c = CHR ''>'' then ''&gt;'' else if c = CHR 0x22 then ''&quot;''
       else if c = CHR 0x27 then ''&#39;'' else [c]) s))"

definition hiddenInput :: "string \<Rightarrow> string" where
  "hiddenInput v = ''<input type='' @ [CHR 0x22] @ ''hidden'' @ [CHR 0x22] @ '' name='' @ [CHR 0x22] @ ''_csrf_token''
     @ [CHR 0x22] @ '' value='' @ v @ ''>''"

lemma indexFormStart_bound: "indexFormStart s = Some i \<Longrightarrow> i < length s"
  by (induction s arbitrary: i) (auto split: if_splits)

text \<open>What a pass writes for one tag, and whether that changes the text.\<close>

definition writeTag :: "string \<Rightarrow> string \<Rightarrow> string \<Rightarrow> formAttrs \<Rightarrow> string \<times> bool" where
  "writeTag input tag rest a =
    (if \<not> fa_isPost a then (tag, False)
     else if fa_nocsrf a then (rest, True)
     else if fa_alreadyInjected a then (tag, False)
     else (rest @ input, True))"

lemma scanLoop_bound: "scanLoop svelte t i spans = Some (c, sc, sps) \<Longrightarrow> i \<le> c \<and> c < length t \<and> t ! c = CHR ''>''"
proof (induction svelte t i spans rule: scanLoop.induct)
  case (1 svelte t i spans)
  show ?case
  proof (cases "\<not> length t \<le> i \<and> \<not> isASCIISpace (t ! i) \<and> t ! i \<noteq> CHR ''/'' \<and> t ! i \<noteq> CHR ''>''")
    case True
    then obtain sp i' where a: "scanAttr svelte t i = Some (sp, i')"
      and s: "scanLoop svelte t i' (spans @ [sp]) = Some (c, sc, sps)"
      using "1.prems" by (subst (asm) scanLoop.simps) (auto split: option.splits)
    have "i < i'" using True by (intro scanAttr_progress[OF a]) (auto simp: unquotedEnd_def)
    then show ?thesis using "1.IH"(3)[OF _ _ _ _ a refl s] True by auto
  next
    case False
    then show ?thesis using "1.prems" "1.IH"(1,2) by (subst (asm) (1) scanLoop.simps) (auto split: if_splits)
  qed
qed

lemma scanTag_end: "scanTag svelte lr t = Some (end, rest, a) \<Longrightarrow> 6 \<le> end \<and> end \<le> length t \<and> t ! (end - 1) = CHR ''>''"
  by (auto simp: scanTag_def Let_def case_prod_beta split: if_splits option.splits prod.splits dest!: scanLoop_bound)

function rewriteLoop :: "bool \<Rightarrow> (nat \<Rightarrow> nat) \<Rightarrow> string \<Rightarrow> string \<Rightarrow> string \<Rightarrow> bool \<Rightarrow> string \<times> string \<times> bool" where
  "rewriteLoop svelte lr input s out mutated =
    (case indexFormStart s of
       None \<Rightarrow> (out, s, mutated)
     | Some idx \<Rightarrow> (case scanTag svelte lr (drop idx s) of
           None \<Rightarrow> rewriteLoop svelte lr input (drop (idx + 1) s) (out @ take (idx + 1) s) mutated
         | Some (end, rest, a) \<Rightarrow>
             (let (piece, m) = writeTag input (take end (drop idx s)) rest a
              in rewriteLoop svelte lr input (drop (idx + end) s) (out @ take idx s @ piece) (mutated \<or> m))))"
  by pat_completeness auto

termination
proof (relation "measure (\<lambda>(_, _, _, s, _, _). length s)", goal_cases)
  case (2 svelte lr input s out mutated idx)
  then show ?case using indexFormStart_bound[of s idx] by simp
next
  case (3 svelte lr input s out mutated idx x e y rest a)
  then show ?case using indexFormStart_bound[of s idx] scanTag_end[of svelte lr "drop idx s"] by fastforce
qed simp

declare rewriteLoop.simps [simp del]

definition Rewrite :: "(nat \<Rightarrow> nat) \<Rightarrow> string \<Rightarrow> string \<Rightarrow> string" where
  "Rewrite lr html token =
    (if html = [] then html
     else if \<not> containsFormStart html then html
     else (let (out, s, mutated) = rewriteLoop False lr (hiddenInput (CHR 0x22 # htmlAttrEscape token @ [CHR 0x22])) html [] False
           in if \<not> mutated then html else out @ s))"

end
