(* ===== verification/CsrfLower.thy ===== *)
theory CsrfLower
  imports CsrfInject ServerStatic
begin

text \<open>
  The source-level twin of the CSRF pass, \<^verbatim>\<open>internal/codegen/csrffallback\<close>: it splices the hidden input into
  the forms of a Svelte source outside its script and style blocks, and makes relative imports absolute. The
  regular expression of the imports is written out as a matcher: its parts are deterministic. The source
  path is absolute.
\<close>

section \<open>Script and style blocks\<close>

definition caseInsensitivePrefix :: "string \<Rightarrow> string \<Rightarrow> bool" where
  "caseInsensitivePrefix s prefix = (lowerPrefix s (map lowerASCII prefix) \<and>
     (length s = length prefix \<or> isASCIISpace (s ! length prefix) \<or> s ! length prefix = CHR ''>'' \<or> s ! length prefix = CHR ''/''))"

lemma indexStr_bound: "indexStr s p = Some j \<Longrightarrow> j + length p \<le> length s"
  using indexStr_Some[of s p j] by (fastforce simp: hasPrefix_iff dest: arg_cong[where f = length])

text \<open>The offset after the close tag.\<close>

function indexCloseTag :: "string \<Rightarrow> string \<Rightarrow> nat option" where
  "indexCloseTag s name =
    (case indexStr s ''</'' of
       None \<Rightarrow> None
     | Some j \<Rightarrow>
         (let k = j + 2; rest = drop k s; m = length name + length (takeWhile isASCIISpace (drop (length name) rest))
          in if length rest < length name then None
             else if lowerPrefix rest name \<and> m < length rest \<and> rest ! m = CHR ''>'' then Some (k + m + 1)
             else map_option ((+) k) (indexCloseTag rest name)))"
  by pat_completeness auto

termination
  by (relation "measure (\<lambda>(s, _). length s)") (auto dest!: indexStr_bound)

declare indexCloseTag.simps [simp del]

datatype lowerErr = UnterminatedOpen string nat | MissingClose string nat

definition skipBlockAt :: "string \<Rightarrow> nat \<Rightarrow> string \<Rightarrow> (lowerErr, nat) result" where
  "skipBlockAt name i rest =
    (case indexByte rest CHR ''>'' of
       None \<Rightarrow> Inl (UnterminatedOpen name i)
     | Some closeOpen \<Rightarrow>
         (case indexCloseTag (drop (closeOpen + 1) rest) name of
            None \<Rightarrow> Inl (MissingClose name (i + closeOpen + 1))
          | Some e \<Rightarrow> Inr (closeOpen + 1 + e)))"

text \<open>The first block in the text from offset \<open>i\<close> on: its offset and the offset after it.\<close>

fun nextSkipBlock :: "string \<Rightarrow> nat \<Rightarrow> (lowerErr, (nat \<times> nat) option) result" where
  "nextSkipBlock [] i = Inr None"
| "nextSkipBlock (c # s) i =
    (if c \<noteq> CHR ''<'' then nextSkipBlock s (i + 1)
     else if caseInsensitivePrefix (c # s) ''<script''
     then (case skipBlockAt ''script'' i (c # s) of Inl e \<Rightarrow> Inl e | Inr n \<Rightarrow> Inr (Some (i, i + n)))
     else if caseInsensitivePrefix (c # s) ''<style''
     then (case skipBlockAt ''style'' i (c # s) of Inl e \<Rightarrow> Inl e | Inr n \<Rightarrow> Inr (Some (i, i + n)))
     else nextSkipBlock s (i + 1))"

section \<open>Forms\<close>

definition lowerScanFormOpenTag :: "(nat \<Rightarrow> nat) \<Rightarrow> string \<Rightarrow> (nat \<times> string \<times> formAttrs) option" where
  "lowerScanFormOpenTag = scanTag True"

definition CSRFValueExpr :: string where
  "CSRFValueExpr = ''globalThis.__sveltego__?.csrfToken ?? '' @ [CHR 0x27, CHR 0x27]"

definition processFormRange :: "(nat \<Rightarrow> nat) \<Rightarrow> string \<Rightarrow> bool \<times> string" where
  "processFormRange lr html =
    (if \<not> containsFormStart html then (False, html)
     else (let (out, s, mutated) = rewriteLoop True lr (hiddenInput (''{'' @ CSRFValueExpr @ ''}'')) html [] False
           in (mutated, out @ s)))"

text \<open>The loop over the blocks; \<open>pos\<close> is the offset of the text in the source.\<close>

lemma nextSkipBlock_bounds:
  "nextSkipBlock s i = Inr (Some (a, b)) \<Longrightarrow> i \<le> a \<and> a < b \<and> a < i + length s"
proof (induction s i rule: nextSkipBlock.induct)
  case (2 c s i)
  have "a = i \<and> a < b" if "skipBlockAt n i (c # s) = Inr m" "Inr (Some (i, i + m)) = Inr (Some (a, b))" for n m
    using that by (auto simp: skipBlockAt_def split: option.splits)
  then show ?case using 2 by (fastforce split: if_splits sum.splits)
qed simp

function spliceLoop :: "(nat \<Rightarrow> nat) \<Rightarrow> string \<Rightarrow> nat \<Rightarrow> string \<Rightarrow> bool \<Rightarrow> (lowerErr, bool \<times> string) result" where
  "spliceLoop lr src pos out mutated =
    (if length src \<le> pos then Inr (mutated, out)
     else (case nextSkipBlock (drop pos src) pos of
         Inl e \<Rightarrow> Inl e
       | Inr None \<Rightarrow> (let (m, processed) = processFormRange lr (drop pos src) in Inr (mutated \<or> m, out @ processed))
       | Inr (Some (nextSkip, skipEnd)) \<Rightarrow>
           (let (m, processed) = processFormRange lr (slice src pos nextSkip)
            in spliceLoop lr src skipEnd (out @ processed @ slice src nextSkip skipEnd) (mutated \<or> m))))"
  by pat_completeness auto

termination
proof (relation "measure (\<lambda>(_, src, pos, _). length src - pos)")
  fix lr :: "nat \<Rightarrow> nat" and src pos out mutated x b nextSkip skipEnd y m processed
  assume "\<not> length src \<le> pos" "nextSkipBlock (drop pos src) pos = Inr x" "x = Some b" "(nextSkip, skipEnd) = b"
  then show "((lr, src, skipEnd, out @ processed @ slice src nextSkip skipEnd, mutated \<or> m), lr, src, pos, out, mutated)
      \<in> measure (\<lambda>(_, src, pos, _). length src - pos)"
    using nextSkipBlock_bounds[of "drop pos src" pos nextSkip skipEnd] by auto
qed simp

declare spliceLoop.simps [simp del]

definition spliceForms :: "(nat \<Rightarrow> nat) \<Rightarrow> string \<Rightarrow> (lowerErr, bool \<times> string) result" where
  "spliceForms lr src = spliceLoop lr src 0 [] False"

section \<open>Relative imports\<close>

text \<open>\<^verbatim>\<open>\s\<close> and \<^verbatim>\<open>\w\<close> of a regular expression.\<close>

definition reSpace :: "char \<Rightarrow> bool" where
  "reSpace c = (c \<in> {CHR 0x09, CHR 0x0A, CHR 0x0C, CHR 0x0D, CHR '' ''})"

definition reWord :: "char \<Rightarrow> bool" where
  "reWord c = (inRange 0x30 0x39 c \<or> inRange 0x41 0x5A c \<or> inRange 0x61 0x7A c \<or> c = CHR ''_'')"

definition isQuote :: "char \<Rightarrow> bool" where
  "isQuote c = (c = CHR 0x22 \<or> c = CHR 0x27)"

text \<open>The length of the first group at the head of the text.\<close>

definition importHead :: "string \<Rightarrow> nat option" where
  "importHead s =
    (if hasPrefix s ''from'' then Some (4 + length (takeWhile reSpace (drop 4 s)))
     else if hasPrefix s ''import''
     then (let n = 6 + length (takeWhile reSpace (drop 6 s)) in
           if hasPrefix (drop n s) ''('' then Some (n + 1 + length (takeWhile reSpace (drop (n + 1) s))) else None)
     else None)"

text \<open>The groups of a match at the head of the text, which follows the character \<open>prev\<close>.\<close>

definition importMatch :: "char option \<Rightarrow> string \<Rightarrow> (string \<times> string \<times> string \<times> string) option" where
  "importMatch prev s =
    (if (case prev of Some c \<Rightarrow> reWord c | None \<Rightarrow> False) then None
     else (case importHead s of
         None \<Rightarrow> None
       | Some n \<Rightarrow>
           (let q = drop n s; spec = takeWhile (\<lambda>c. \<not> isQuote c) (tl q); close = drop (1 + length spec) q in
            if q \<noteq> [] \<and> isQuote (hd q) \<and> (hasPrefix spec ''./'' \<or> hasPrefix spec ''../'') \<and> close \<noteq> []
            then Some (take n s, [hd q], spec, [hd close]) else None)))"

definition joinDir :: "string \<Rightarrow> string \<Rightarrow> string" where
  "joinDir dir spec = cleanRooted (dir @ ''/'' @ spec)"

lemma importMatch_groups: "importMatch prev s = Some (g1, g2, g3, g4) \<Longrightarrow> length g2 = 1"
  by (auto simp: importMatch_def Let_def split: if_splits option.splits)

text \<open>\<^verbatim>\<open>ReplaceAllStringFunc\<close> over the matches from the left.\<close>

function replaceImports :: "string \<Rightarrow> char option \<Rightarrow> string \<Rightarrow> string \<times> bool" where
  "replaceImports dir prev [] = ([], False)"
| "replaceImports dir prev (c # s) =
    (case importMatch prev (c # s) of
       Some (g1, g2, g3, g4) \<Rightarrow>
         (let n = length g1 + length g2 + length g3 + length g4;
              (out, m) = replaceImports dir (Some (hd g4)) (drop n (c # s))
          in (g1 @ g2 @ joinDir dir g3 @ g4 @ out, True))
     | None \<Rightarrow> (let (out, m) = replaceImports dir (Some c) s in (c # out, m)))"
  by pat_completeness auto

termination
  by (relation "measure (\<lambda>(_, _, s). length s)") (auto dest!: importMatch_groups)

declare replaceImports.simps(2) [simp del]

definition rewriteRelativeImports :: "string \<Rightarrow> string \<Rightarrow> string \<times> bool" where
  "rewriteRelativeImports src sourceDir = (if sourceDir = [] then (src, False) else replaceImports sourceDir None src)"

definition sourceDirOf :: "string \<Rightarrow> string" where
  "sourceDirOf path = cleanRooted (rev (dropWhile (\<lambda>c. c \<noteq> CHR ''/'') (rev path)))"

definition Lower :: "(nat \<Rightarrow> nat) \<Rightarrow> string \<Rightarrow> string \<Rightarrow> (lowerErr, string \<times> bool) result" where
  "Lower lr source content =
    (if content = [] then Inr (content, False)
     else (case spliceForms lr content of
         Inl e \<Rightarrow> Inl e
       | Inr (formsRewrote, body) \<Rightarrow>
           (let (body', importsRewrote) = (if source \<noteq> [] then rewriteRelativeImports body (sourceDirOf source) else (body, False))
            in if \<not> formsRewrote \<and> \<not> importsRewrote then Inr (content, False) else Inr (body', formsRewrote))))"

end
