(* ===== verification/CsrfProps.thy ===== *)
theory CsrfProps
  imports CsrfLower
begin

text \<open>
  What the CSRF passes guarantee. On text whose form tags are well formed and without opt-outs a pass changes
  nothing but inserting the hidden field, keeps the sequence of form tags, leaves every POST form with a
  field behind its tag, and changes nothing when it runs again. The inserted element is an interface
  (locale \<open>hidden_field\<close>) that both passes provide. The last section has the texts on which the second run
  changes the page.
\<close>

section \<open>The scan reads no further than the end of the tag\<close>

lemma takeWhile_take_append:
  "length (takeWhile P x) < m \<Longrightarrow> m \<le> length x \<Longrightarrow> takeWhile P (take m x @ u) = takeWhile P x"
proof (induction x arbitrary: m)
  case (Cons a x)
  then show ?case by (cases m) auto
qed simp

lemma advanceWhile_local:
  assumes "advanceWhile P t i < n" "n \<le> length t"
  shows "advanceWhile P (take n t @ u) i = advanceWhile P t i"
proof -
  have "i < n" using assms(1) advanceWhile_ge[of i P t] by simp
  then have "drop i (take n t @ u) = take (n - i) (drop i t) @ u" using assms(2) by (simp add: drop_take)
  then show ?thesis using takeWhile_take_append[of P "drop i t" "n - i" u] assms \<open>i < n\<close>
    by (simp add: advanceWhile_def)
qed

lemma advanceWhile_stops: "i \<le> c \<Longrightarrow> c < length t \<Longrightarrow> \<not> P (t ! c) \<Longrightarrow> advanceWhile P t i \<le> c"
proof -
  assume a: "i \<le> c" "c < length t" "\<not> P (t ! c)"
  have "length (takeWhile P (drop i t)) \<le> c - i"
  proof (rule ccontr)
    assume "\<not> ?thesis"
    then have "c - i < length (takeWhile P (drop i t))" by simp
    then have "P (drop i t ! (c - i))" by (metis nth_mem set_takeWhileD takeWhile_nth)
    then show False using a by simp
  qed
  then show ?thesis using a(1) by (simp add: advanceWhile_def)
qed

lemma closingBrace_local:
  "closingBrace d x = Some k \<Longrightarrow> k < m \<Longrightarrow> closingBrace d (take m x @ u) = Some k"
proof (induction d x arbitrary: k m rule: closingBrace.induct)
  case (2 d c s)
  then obtain m' where "m = Suc m'" by (cases m) auto
  then show ?case using 2 by (auto split: if_splits)
qed simp

lemma nth_local: "i < n \<Longrightarrow> n \<le> length t \<Longrightarrow> (take n t @ u) ! i = t ! i"
  by (simp add: nth_append)

lemma scanValue_local:
  assumes "scanValue svelte t j = Some (vs, ve, q, next)" "next < n" "n \<le> length t"
  shows "scanValue svelte (take n t @ u) j = Some (vs, ve, q, next)"
proof -
  have jn: "j < n" using scanValue_next[OF assms(1)] assms(2) by simp
  note nj = nth_local[OF jn assms(3), of u]
  consider (quoted) "t ! j = CHR 0x22 \<or> t ! j = CHR 0x27"
    | (brace) "\<not> (t ! j = CHR 0x22 \<or> t ! j = CHR 0x27)" "svelte \<and> t ! j = CHR ''{''"
    | (plain) "\<not> (t ! j = CHR 0x22 \<or> t ! j = CHR 0x27)" "\<not> (svelte \<and> t ! j = CHR ''{'')" by blast
  then show ?thesis
  proof cases
    case quoted
    let ?e = "advanceWhile (\<lambda>b. b \<noteq> t ! j) t (j + 1)"
    have v: "\<not> length t \<le> ?e" "vs = j + 1" "ve = ?e" "q = Some (t ! j)" "next = ?e + 1"
      using assms(1) quoted by (auto simp: scanValue_def Let_def split: if_splits)
    have "advanceWhile (\<lambda>b. b \<noteq> t ! j) (take n t @ u) (j + 1) = ?e"
      by (rule advanceWhile_local) (use v assms in auto)
    then show ?thesis unfolding scanValue_def nj Let_def using quoted v assms by auto
  next
    case brace
    then obtain k where k: "closingBrace 1 (drop (j + 1) t) = Some k" "vs = j + 1" "ve = j + 1 + k" "q = None" "next = j + 1 + k + 1"
      using assms(1) by (auto simp: scanValue_def split: option.splits)
    have "drop (j + 1) (take n t @ u) = take (n - (j + 1)) (drop (j + 1) t) @ u"
      using k assms by (simp add: drop_take)
    then have "closingBrace 1 (drop (j + 1) (take n t @ u)) = Some k"
      using closingBrace_local[OF k(1), of "n - (j + 1)" u] k assms by simp
    then show ?thesis using brace k by (simp add: scanValue_def nj)
  next
    case plain
    let ?e = "advanceWhile (\<lambda>b. \<not> unquotedEnd b) t j"
    have v: "vs = j" "ve = ?e" "q = None" "next = ?e"
      using assms(1) plain by (auto simp: scanValue_def Let_def split: if_splits)
    have "advanceWhile (\<lambda>b. \<not> unquotedEnd b) (take n t @ u) j = ?e"
      by (rule advanceWhile_local) (use v assms in auto)
    then show ?thesis using plain v by (auto simp: scanValue_def nj Let_def)
  qed
qed

lemma scanAttr_local:
  assumes "scanAttr svelte t i = Some (sp, i')" "i' \<le> c" "c < length t" "t ! c = CHR ''>''"
  shows "scanAttr svelte (take (c + 1) t @ u) i = Some (sp, i')"
proof -
  let ?t = "take (c + 1) t @ u"
  let ?n = "advanceWhile (\<lambda>b. \<not> nameEnds b) t i"
  let ?j = "advanceWhile isASCIISpace t ?n"
  let ?k = "advanceWhile isASCIISpace t (?j + 1)"
  have ge: "?n \<le> ?j" "?j + 1 \<le> ?k" by (rule advanceWhile_ge)+
  have n: "?n \<le> i'"
  proof (cases "?j < length t \<and> t ! ?j = CHR ''=''")
    case True
    then show ?thesis using assms(1) ge
      by (fastforce simp: scanAttr_def Let_def split: if_splits option.splits dest!: scanValue_next)
  next
    case False
    then show ?thesis using assms(1) by (auto simp: scanAttr_def Let_def split: if_splits)
  qed
  have j: "?j \<le> c" by (rule advanceWhile_stops) (use n assms in \<open>auto simp: isASCIISpace_def\<close>)
  have len: "c + 1 \<le> length t" using assms(3) by simp
  have n': "advanceWhile (\<lambda>b. \<not> nameEnds b) ?t i = ?n" by (rule advanceWhile_local) (use n assms in auto)
  have j': "advanceWhile isASCIISpace ?t ?n = ?j" by (rule advanceWhile_local) (use j assms in auto)
  have tj: "?t ! ?j = t ! ?j" using j len by (intro nth_local) auto
  show ?thesis
  proof (cases "t ! ?j = CHR ''=''")
    case True
    have lj: "?j < length t" "?j < length ?t" using j assms(3) by auto
    obtain vs ve q where v: "\<not> length t \<le> ?k" "scanValue svelte t ?k = Some (vs, ve, q, i')"
      and sp: "sp = \<lparr>sp_nameStart = i, sp_nameEnd = ?n, sp_valStart = vs, sp_valEnd = ve, sp_hasValue = True, sp_quote = q\<rparr>"
      using assms(1) True lj(1) by (auto simp: scanAttr_def Let_def split: if_splits option.splits)
    have k: "?k \<le> c" using scanValue_next[OF v(2)] assms(2) by simp
    have k': "advanceWhile isASCIISpace ?t (?j + 1) = ?k" by (rule advanceWhile_local) (use k assms in auto)
    have "scanValue svelte ?t ?k = Some (vs, ve, q, i')" by (rule scanValue_local[OF v(2)]) (use assms in auto)
    moreover have "\<not> length ?t \<le> ?k" using k assms(3) by simp
    ultimately show ?thesis unfolding scanAttr_def Let_def n' j' tj k' using True lj sp by simp
  next
    case False
    then have "i' = ?n" "sp = \<lparr>sp_nameStart = i, sp_nameEnd = ?n, sp_valStart = 0, sp_valEnd = 0, sp_hasValue = False, sp_quote = None\<rparr>"
      using assms(1) by (auto simp: scanAttr_def Let_def)
    then show ?thesis unfolding scanAttr_def Let_def n' j' tj using False by simp
  qed
qed

lemma scanLoop_local:
  "scanLoop svelte t i spans = Some (c, sc, sps) \<Longrightarrow> scanLoop svelte (take (c + 1) t @ u) i spans = Some (c, sc, sps)"
proof (induction svelte t i spans rule: scanLoop.induct)
  case (1 svelte t i spans)
  note b = scanLoop_bound[OF "1.prems"]
  have ti: "(take (c + 1) t @ u) ! i = t ! i" by (rule nth_local) (use b in auto)
  have il: "\<not> length t \<le> i" "\<not> length (take (c + 1) t @ u) \<le> i" using b by auto
  consider (sp) "isASCIISpace (t ! i)" | (slash) "\<not> isASCIISpace (t ! i)" "t ! i = CHR ''/''"
    | (gt) "\<not> isASCIISpace (t ! i)" "t ! i \<noteq> CHR ''/''" "t ! i = CHR ''>''"
    | (attr) "\<not> isASCIISpace (t ! i)" "t ! i \<noteq> CHR ''/''" "t ! i \<noteq> CHR ''>''" by blast
  then show ?case
  proof cases
    case sp
    then show ?thesis using "1.prems" "1.IH"(1)[OF il(1) sp] il ti by (simp add: scanLoop.simps[of _ _ i])
  next
    case slash
    show ?thesis
    proof (cases "i + 1 < length t \<and> t ! (i + 1) = CHR ''>''")
      case True
      then have "c = i + 1" "sc" "sps = spans" using "1.prems" slash il by (auto simp: scanLoop.simps[of _ t i])
      then show ?thesis using True slash il ti by (subst scanLoop.simps) (simp add: nth_append)
    next
      case False
      then have s: "scanLoop svelte t (i + 1) spans = Some (c, sc, sps)"
        using "1.prems" slash il by (auto simp: scanLoop.simps[of _ t i])
      have "i + 1 \<le> c" using scanLoop_bound[OF s] by simp
      then have n: "(take (c + 1) t @ u) ! (i + 1) = t ! (i + 1)" by (intro nth_local) (use b in auto)
      have "t ! (i + 1) \<noteq> CHR ''>''" using False b \<open>i + 1 \<le> c\<close> by auto
      then show ?thesis using "1.IH"(2)[OF il(1) slash False s] slash il ti n by (subst scanLoop.simps) simp
    qed
  next
    case gt
    then have "c = i" "\<not> sc" "sps = spans" using "1.prems" il by (auto simp: scanLoop.simps[of _ t i])
    then show ?thesis using gt il ti by (subst scanLoop.simps) simp
  next
    case attr
    then obtain p i' where a: "scanAttr svelte t i = Some (p, i')" and s: "scanLoop svelte t i' (spans @ [p]) = Some (c, sc, sps)"
      using "1.prems" il by (auto simp: scanLoop.simps[of _ t i] split: option.splits)
    have "scanAttr svelte (take (c + 1) t @ u) i = Some (p, i')"
      by (rule scanAttr_local[OF a]) (use scanLoop_bound[OF s] in auto)
    then show ?thesis using "1.IH"(3)[OF il(1) attr a refl s] attr il ti by (subst scanLoop.simps) simp
  qed
qed

text \<open>The spans lie in front of the end.\<close>

definition spanIn :: "nat \<Rightarrow> attrSpan \<Rightarrow> bool" where
  "spanIn n sp \<longleftrightarrow> sp_nameStart sp \<le> sp_nameEnd sp \<and> sp_nameEnd sp \<le> n \<and> sp_valEnd sp \<le> n"

lemma spanIn_mono: "spanIn m sp \<Longrightarrow> m \<le> n \<Longrightarrow> spanIn n sp"
  by (auto simp: spanIn_def)

lemma scanAttr_span:
  assumes "scanAttr svelte t i = Some (sp, i')" shows "spanIn i' sp"
proof -
  let ?n = "advanceWhile (\<lambda>b. \<not> nameEnds b) t i"
  let ?j = "advanceWhile isASCIISpace t ?n"
  let ?k = "advanceWhile isASCIISpace t (?j + 1)"
  have ge: "i \<le> ?n" "?n \<le> ?j" "?j + 1 \<le> ?k" by (rule advanceWhile_ge)+
  show ?thesis
  proof (cases "?j < length t \<and> t ! ?j = CHR ''=''")
    case True
    then obtain vs ve q where v: "scanValue svelte t ?k = Some (vs, ve, q, i')"
      and sp: "sp = \<lparr>sp_nameStart = i, sp_nameEnd = ?n, sp_valStart = vs, sp_valEnd = ve, sp_hasValue = True, sp_quote = q\<rparr>"
      using assms by (auto simp: scanAttr_def Let_def split: if_splits option.splits)
    have "ve \<le> i'" using v by (auto simp: scanValue_def Let_def split: if_splits option.splits)
    then show ?thesis using scanValue_next[OF v] ge by (simp add: spanIn_def sp)
  next
    case False
    then show ?thesis using assms ge by (auto simp: scanAttr_def Let_def spanIn_def split: if_splits)
  qed
qed

lemma scanLoop_spans:
  "scanLoop svelte t i spans = Some (c, sc, sps) \<Longrightarrow> list_all (spanIn i) spans \<Longrightarrow> list_all (spanIn c) sps"
proof (induction svelte t i spans rule: scanLoop.induct)
  case (1 svelte t i spans)
  have mono: "list_all (spanIn n) spans" if "i \<le> n" for n
    using "1.prems"(2) that by (auto simp: list_all_iff intro: spanIn_mono)
  show ?case
  proof (cases "\<not> length t \<le> i \<and> \<not> isASCIISpace (t ! i) \<and> t ! i \<noteq> CHR ''/'' \<and> t ! i \<noteq> CHR ''>''")
    case True
    then obtain p i' where a: "scanAttr svelte t i = Some (p, i')" and s: "scanLoop svelte t i' (spans @ [p]) = Some (c, sc, sps)"
      using "1.prems"(1) by (subst (asm) scanLoop.simps) (auto split: option.splits)
    have "i < i'" using True by (intro scanAttr_progress[OF a]) (auto simp: unquotedEnd_def)
    then have "list_all (spanIn i') (spans @ [p])" using mono[of i'] scanAttr_span[OF a] by simp
    then show ?thesis using "1.IH"(3)[OF _ _ _ _ a refl s] True by auto
  next
    case False
    then show ?thesis using "1.prems" "1.IH"(1,2) mono by (subst (asm) (1) scanLoop.simps) (auto split: if_splits)
  qed
qed

lemma slice_local: "b \<le> n \<Longrightarrow> n \<le> length t \<Longrightarrow> slice (take n t @ u) a b = slice t a b"
  by (cases "a \<le> n") (simp_all add: slice_def drop_take min_absorb1 take_append)

lemma spanStep_local:
  assumes "spanIn n sp" "n \<le> length t"
  shows "spanStep svelte lr (take n t @ u) st sp = spanStep svelte lr t st sp"
proof -
  obtain p q r where st: "st = (p, q, r)" by (metis prod_cases3)
  have b: "sp_nameStart sp \<le> n" "sp_nameEnd sp \<le> n" "sp_valEnd sp \<le> n" using assms(1) by (auto simp: spanIn_def)
  have "spanBack (take n t @ u) (sp_nameStart sp) = spanBack t (sp_nameStart sp)"
    unfolding spanBack_def slice_local[OF b(1) assms(2)] ..
  then show ?thesis by (simp only: st spanStep_def prod.case slice_local[OF b(2) assms(2)] slice_local[OF b(3) assms(2)])
qed

lemma foldl_spans_local:
  "list_all (spanIn n) sps \<Longrightarrow> n \<le> length t \<Longrightarrow>
     foldl (spanStep svelte lr (take n t @ u)) st sps = foldl (spanStep svelte lr t) st sps"
  by (induction sps arbitrary: st) (auto simp: spanStep_local)

lemma foldl_spans_strip:
  "foldl (spanStep svelte lr t) (p, q, r) sps = (p', q', r') \<Longrightarrow> \<not> q' \<Longrightarrow> \<not> q \<and> r' = r"
proof (induction sps arbitrary: p q r)
  case (Cons sp sps)
  obtain p1 q1 r1 where s: "spanStep svelte lr t (p, q, r) sp = (p1, q1, r1)" by (metis prod_cases3)
  then have "\<not> q1 \<and> r' = r1" using Cons.IH[of p1 q1 r1] Cons.prems by simp
  then show ?case using s by (auto simp: spanStep_def Let_def split: if_splits)
qed simp

lemma scanTag_local:
  assumes "scanTag svelte lr t = Some (e, rest, a)"
  shows "\<exists>rest' a'. scanTag svelte lr (take e t @ u) = Some (e, rest', a') \<and> fa_isPost a' = fa_isPost a \<and> fa_nocsrf a' = fa_nocsrf a
    \<and> (fa_isPost a \<longrightarrow> fa_alreadyInjected a = hasInjectedHiddenCSRF lr (drop e t)
         \<and> fa_alreadyInjected a' = hasInjectedHiddenCSRF lr u)
    \<and> (\<not> fa_nocsrf a \<longrightarrow> rest = take e t)"
proof -
  from assms obtain c sc sps where l: "\<not> length t < 5" "scanLoop svelte t 5 [] = Some (c, sc, sps)" and e: "e = c + 1"
    by (auto simp: scanTag_def Let_def case_prod_beta split: if_splits option.splits)
  note b = scanLoop_bound[OF l(2)]
  have l': "scanLoop svelte (take e t @ u) 5 [] = Some (c, sc, sps)" using scanLoop_local[OF l(2)] e by simp
  have len: "\<not> length (take e t @ u) < 5" "e \<le> length t" using b e by auto
  have sp: "list_all (spanIn e) sps" using scanLoop_spans[OF l(2)] e by (auto simp: list_all_iff intro: spanIn_mono)
  obtain p q r where f: "foldl (spanStep svelte lr t) (False, False, None) sps = (p, q, r)" by (metis prod_cases3)
  then have f': "foldl (spanStep svelte lr (take e t @ u)) (False, False, None) sps = (p, q, r)"
    by (simp add: foldl_spans_local[OF sp len(2)])
  show ?thesis
  proof (cases sc)
    case True
    then have "rest = take e t" "a = \<lparr>fa_isPost = False, fa_nocsrf = False, fa_alreadyInjected = False\<rparr>"
      using assms l e by (auto simp: scanTag_def)
    then show ?thesis using True l' len e by (simp add: scanTag_def)
  next
    case False
    then have a: "rest = (case r of None \<Rightarrow> take e t | Some (x, y) \<Rightarrow> take x t @ slice t y e)"
      "a = \<lparr>fa_isPost = p, fa_nocsrf = q, fa_alreadyInjected = hasInjectedHiddenCSRF lr (drop e t)\<rparr>"
      using assms l e f by (auto simp: scanTag_def)
    have "\<not> q \<Longrightarrow> r = None" using foldl_spans_strip[OF f] by simp
    then show ?thesis using False a l' f' len e by (simp add: scanTag_def Let_def)
  qed
qed

section \<open>Finding forms again\<close>

lemma indexFormStart_Some:
  "indexFormStart s = Some i \<longleftrightarrow> i < length s \<and> formStartAt (drop i s) \<and> (\<forall>j < i. \<not> formStartAt (drop j s))"
proof (induction s arbitrary: i)
  case (Cons c s)
  show ?case
  proof (cases i)
    case 0
    then show ?thesis by simp
  next
    case (Suc k)
    then show ?thesis using Cons[of k] by (auto simp: less_Suc_eq_0_disj)
  qed
qed simp

lemma indexFormStart_None: "indexFormStart s = None \<longleftrightarrow> (\<forall>j < length s. \<not> formStartAt (drop j s))"
  by (induction s) (auto simp: less_Suc_eq_0_disj)

lemma formStartAt_local: "6 \<le> n \<Longrightarrow> n \<le> length t \<Longrightarrow> formStartAt (take n t @ u) = formStartAt t"
  by (simp add: formStartAt_def lowerPrefix_def nth_append min_def)

lemma indexFormStart_skip:
  "(\<forall>j < length x. \<not> formStartAt (drop j x @ y)) \<Longrightarrow> indexFormStart (x @ y) = map_option ((+) (length x)) (indexFormStart y)"
proof (induction x)
  case (Cons c x)
  have "\<not> formStartAt (c # x @ y)" using Cons.prems by force
  moreover have "\<forall>j < length x. \<not> formStartAt (drop j x @ y)" using Cons.prems by force
  ultimately show ?case using Cons.IH by (simp add: option.map_comp comp_def)
next
  case Nil
  then show ?case by (cases "indexFormStart y") auto
qed

lemma containsFormStart_none: "\<not> containsFormStart s \<Longrightarrow> indexFormStart s = None"
  by (induction s) (auto simp: formStartAt_def)

section \<open>A pass as a function of the text\<close>

function rw :: "bool \<Rightarrow> (nat \<Rightarrow> nat) \<Rightarrow> string \<Rightarrow> string \<Rightarrow> string" where
  "rw svelte lr input s = (case indexFormStart s of
      None \<Rightarrow> s
    | Some idx \<Rightarrow> (case scanTag svelte lr (drop idx s) of
          None \<Rightarrow> take (idx + 1) s @ rw svelte lr input (drop (idx + 1) s)
        | Some (e, rest, a) \<Rightarrow>
            take idx s @ fst (writeTag input (take e (drop idx s)) rest a) @ rw svelte lr input (drop (idx + e) s)))"
  by pat_completeness auto

text \<open>The form tags that a pass looks at, with their flags; \<^const>\<open>None\<close> for a malformed one.\<close>

function forms :: "bool \<Rightarrow> (nat \<Rightarrow> nat) \<Rightarrow> string \<Rightarrow> (string \<times> formAttrs) option list" where
  "forms svelte lr s = (case indexFormStart s of
      None \<Rightarrow> []
    | Some idx \<Rightarrow> (case scanTag svelte lr (drop idx s) of
          None \<Rightarrow> None # forms svelte lr (drop (idx + 1) s)
        | Some (e, rest, a) \<Rightarrow> Some (take e (drop idx s), a) # forms svelte lr (drop (idx + e) s)))"
  by pat_completeness auto

lemma walk_shrinks:
  "indexFormStart s = Some idx \<Longrightarrow> length s - Suc idx < length s"
  "indexFormStart s = Some idx \<Longrightarrow> scanTag svelte lr (drop idx s) = Some (e, rest, a) \<Longrightarrow> length s - (idx + e) < length s"
  using indexFormStart_bound[of s idx] scanTag_end[of svelte lr "drop idx s" e rest a] by auto

termination rw
  by (relation "measure (\<lambda>(_, _, _, s). length s)") (auto simp: walk_shrinks)

termination forms
  by (relation "measure (\<lambda>(_, _, s). length s)") (auto simp: walk_shrinks)

declare rw.simps [simp del] forms.simps [simp del]

lemma rw_none: "indexFormStart s = None \<Longrightarrow> rw svelte lr input s = s"
  by (subst rw.simps) simp

lemma rewriteLoop_rw:
  "rewriteLoop svelte lr input s out m = (o', r, m') \<Longrightarrow> o' @ r = out @ rw svelte lr input s \<and> (\<not> m' \<longrightarrow> \<not> m \<and> rw svelte lr input s = s)"
proof (induction svelte lr input s out m rule: rewriteLoop.induct)
  case (1 svelte lr input s out m)
  show ?case
  proof (cases "indexFormStart s")
    case None
    then show ?thesis using "1.prems" by (auto simp: rewriteLoop.simps[of _ _ _ s] rw_none)
  next
    case (Some idx)
    show ?thesis
    proof (cases "scanTag svelte lr (drop idx s)")
      case None
      then have l: "rewriteLoop svelte lr input (drop (idx + 1) s) (out @ take (idx + 1) s) m = (o', r, m')"
        using Some "1.prems" by (simp add: rewriteLoop.simps[of _ _ _ s])
      have r: "rw svelte lr input s = take (idx + 1) s @ rw svelte lr input (drop (idx + 1) s)"
        using Some None by (subst rw.simps) simp
      show ?thesis using "1.IH"(1)[OF Some None l] unfolding r by (metis append.assoc append_take_drop_id)
    next
      case (Some p)
      obtain e rest a where p: "p = (e, rest, a)" by (metis prod_cases3)
      obtain piece c where w: "writeTag input (take e (drop idx s)) rest a = (piece, c)" by fastforce
      have l: "rewriteLoop svelte lr input (drop (idx + e) s) (out @ take idx s @ piece) (m \<or> c) = (o', r, m')"
        using \<open>indexFormStart s = Some idx\<close> Some "1.prems" p w by (simp add: rewriteLoop.simps[of _ _ _ s])
      have r: "rw svelte lr input s = take idx s @ piece @ rw svelte lr input (drop (idx + e) s)"
        using \<open>indexFormStart s = Some idx\<close> Some p w by (subst rw.simps) simp
      note ih = "1.IH"(2)[OF \<open>indexFormStart s = Some idx\<close> Some p[symmetric] refl w[symmetric] refl l]
      have "\<not> c \<Longrightarrow> piece = take e (drop idx s)" using w by (auto simp: writeTag_def split: if_splits)
      moreover have "take idx s @ take e (drop idx s) @ drop (idx + e) s = s"
        by (metis append_take_drop_id drop_drop add.commute)
      ultimately show ?thesis using ih unfolding r by auto
    qed
  qed
qed

definition runtimeInput :: "string \<Rightarrow> string" where
  "runtimeInput token = hiddenInput (CHR 0x22 # htmlAttrEscape token @ [CHR 0x22])"

definition sourceInput :: string where
  "sourceInput = hiddenInput (''{'' @ CSRFValueExpr @ ''}'')"

lemma Rewrite_rw: "Rewrite lr html token = rw False lr (runtimeInput token) html"
proof (cases "containsFormStart html")
  case True
  then show ?thesis using rewriteLoop_rw[of False lr "runtimeInput token" html "[]" False]
    by (cases html) (auto simp: Rewrite_def runtimeInput_def Let_def split: prod.splits)
next
  case False
  then show ?thesis using rw_none[OF containsFormStart_none[OF False]] by (simp add: Rewrite_def)
qed

lemma processFormRange_rw: "snd (processFormRange lr html) = rw True lr sourceInput html"
proof (cases "containsFormStart html")
  case True
  then show ?thesis using rewriteLoop_rw[of True lr sourceInput html "[]" False]
    by (auto simp: processFormRange_def sourceInput_def Let_def split: prod.splits)
next
  case False
  then show ?thesis using rw_none[OF containsFormStart_none[OF False]] by (simp add: processFormRange_def)
qed


section \<open>The guard\<close>

lemma lowerPrefix_gt:
  assumes "CHR ''>'' \<notin> set p"
  shows "lowerPrefix (q @ CHR ''>'' # u) p \<longleftrightarrow> lowerPrefix q p"
proof (cases "length p \<le> length q")
  case True
  then show ?thesis by (simp add: lowerPrefix_def)
next
  case False
  have gt: "lowerASCII CHR ''>'' = CHR ''>''" by (simp add: lowerASCII_def inRange_def byteVal_def)
  obtain k where k: "length p = length q + Suc k" using False less_imp_Suc_add[of "length q" "length p"] by auto
  have "CHR ''>'' \<in> set (map lowerASCII (take (length p) (q @ CHR ''>'' # u)))" unfolding k using gt by simp
  then have "map lowerASCII (take (length p) (q @ CHR ''>'' # u)) \<noteq> p" using assms by metis
  then show ?thesis using False by (simp add: lowerPrefix_def)
qed

text \<open>The guard depends on the text up to the first closing bracket only.\<close>

lemma guard_first_gt:
  assumes "CHR ''>'' \<notin> set x"
  shows "hasInjectedHiddenCSRF lr (x @ CHR ''>'' # u) \<longleftrightarrow>
    (let q = dropWhile isASCIISpace x in lowerPrefix q ''<input'' \<and> length q < 262 \<and> namesToken (toLower lr q))"
proof -
  define q where "q = dropWhile isASCIISpace x"
  have sp: "\<not> isASCIISpace CHR ''>''" by (simp add: isASCIISpace_def)
  then have d: "dropWhile isASCIISpace (x @ CHR ''>'' # u) = q @ CHR ''>'' # u"
    unfolding q_def by (induction x) auto
  have nq: "CHR ''>'' \<notin> set q" using assms set_dropWhileD unfolding q_def by fastforce
  have lp: "lowerPrefix (q @ CHR ''>'' # u) ''<input'' = lowerPrefix q ''<input''" by (rule lowerPrefix_gt) simp
  have idx: "(case indexByte (take 256 (drop 6 (q @ CHR ''>'' # u))) CHR ''>'' of None \<Rightarrow> False
      | Some e \<Rightarrow> namesToken (toLower lr (take (6 + e) (q @ CHR ''>'' # u)))) \<longleftrightarrow> length q < 262 \<and> namesToken (toLower lr q)"
    if "lowerPrefix q ''<input''"
  proof -
    have six: "6 \<le> length q" using that by (simp add: lowerPrefix_def)
    have nd: "CHR ''>'' \<notin> set (drop 6 q)" using nq by (meson in_set_dropD)
    show ?thesis
    proof (cases "length q < 262")
      case True
      then have "take 256 (drop 6 (q @ CHR ''>'' # u)) = drop 6 q @ CHR ''>'' # take (256 - (length q - 6) - 1) u"
        using six by (simp add: take_Cons')
      then have "indexByte (take 256 (drop 6 (q @ CHR ''>'' # u))) CHR ''>'' = Some (length q - 6)"
        using indexByte_append[OF nd] by simp
      then show ?thesis using True six by simp
    next
      case False
      then have "take 256 (drop 6 (q @ CHR ''>'' # u)) = take 256 (drop 6 q)" using six by simp
      moreover have "CHR ''>'' \<notin> set (take 256 (drop 6 q))" using nd by (meson in_set_takeD)
      ultimately show ?thesis using False by (simp add: indexByte_None[THEN iffD2])
    qed
  qed
  show ?thesis unfolding hasInjectedHiddenCSRF_def Let_def d lp q_def[symmetric] using idx by auto
qed

lemma guard_needs_gt: "hasInjectedHiddenCSRF lr s \<Longrightarrow> CHR ''>'' \<in> set s"
proof -
  assume "hasInjectedHiddenCSRF lr s"
  then obtain e where "indexByte (take 256 (drop 6 (dropWhile isASCIISpace s))) CHR ''>'' = Some e"
    by (auto simp: hasInjectedHiddenCSRF_def Let_def split: if_splits option.splits)
  then have "CHR ''>'' \<in> set (take 256 (drop 6 (dropWhile isASCIISpace s)))"
    using indexByte_Some by (metis nth_mem)
  then show ?thesis by (meson in_set_dropD in_set_takeD set_dropWhileD)
qed

lemma guard_same_head:
  assumes "CHR ''>'' \<in> set x" shows "hasInjectedHiddenCSRF lr (x @ u) \<longleftrightarrow> hasInjectedHiddenCSRF lr (x @ v)"
proof -
  obtain y z where "x = y @ CHR ''>'' # z" "CHR ''>'' \<notin> set y" using assms split_list_first by metis
  then show ?thesis using guard_first_gt[of y lr "z @ u"] guard_first_gt[of y lr "z @ v"] by simp
qed

section \<open>Inserting a hidden field\<close>

text \<open>What a pass relies on of the element that it inserts.\<close>

locale hidden_field =
  fixes svelte :: bool and lr :: "nat \<Rightarrow> nat" and input :: string
  assumes opens_once: "j < length input \<Longrightarrow> \<not> formStartAt (drop j input @ u)"
    and recognised: "hasInjectedHiddenCSRF lr (input @ u)"

definition wellFormedTag :: "(string \<times> formAttrs) option \<Rightarrow> bool" where
  "wellFormedTag f = (case f of None \<Rightarrow> False | Some (tag, a) \<Rightarrow> \<not> (fa_isPost a \<and> fa_nocsrf a))"

definition cleanForms :: "bool \<Rightarrow> (nat \<Rightarrow> nat) \<Rightarrow> string \<Rightarrow> bool" where
  "cleanForms svelte lr s = list_all wellFormedTag (forms svelte lr s)"

definition protectedTag :: "(string \<times> formAttrs) option \<Rightarrow> bool" where
  "protectedTag f = (case f of None \<Rightarrow> False | Some (tag, a) \<Rightarrow> fa_isPost a \<longrightarrow> fa_alreadyInjected a \<and> \<not> fa_nocsrf a)"

definition tagView :: "(string \<times> formAttrs) option \<Rightarrow> (string \<times> bool) option" where
  "tagView f = map_option (\<lambda>(tag, a). (tag, fa_isPost a)) f"

lemma forms_skip:
  assumes "\<forall>j < length x. \<not> formStartAt (drop j x @ y)"
  shows "forms svelte lr (x @ y) = forms svelte lr y"
proof (cases "indexFormStart y")
  case None
  then show ?thesis using indexFormStart_skip[OF assms] by (simp add: forms.simps[of _ _ "x @ y"] forms.simps[of _ _ y])
next
  case (Some i)
  then have "indexFormStart (x @ y) = Some (length x + i)" using indexFormStart_skip[OF assms] by simp
  then show ?thesis using Some
    by (simp add: forms.simps[of _ _ "x @ y"] forms.simps[of _ _ y] split: option.splits)
qed

text \<open>A pass keeps the text up to the end of the first form tag.\<close>

lemma rw_head:
  assumes "cleanForms svelte lr s" "CHR ''>'' \<in> set s"
  shows "\<exists>x u v. s = x @ u \<and> rw svelte lr input s = x @ v \<and> CHR ''>'' \<in> set x"
proof (cases "indexFormStart s")
  case None
  then show ?thesis using assms(2) rw_none by (metis append_Nil2)
next
  case (Some idx)
  then obtain e rest a where t: "scanTag svelte lr (drop idx s) = Some (e, rest, a)" and w: "\<not> (fa_isPost a \<and> fa_nocsrf a)"
    using assms(1) by (subst (asm) cleanForms_def, subst (asm) forms.simps) (auto simp: wellFormedTag_def split: option.splits)
  have rest: "\<not> fa_nocsrf a \<Longrightarrow> rest = take e (drop idx s)" using scanTag_local[OF t] by auto
  then have "fst (writeTag input (take e (drop idx s)) rest a)
      = take e (drop idx s) @ (if fa_isPost a \<and> \<not> fa_alreadyInjected a then input else [])"
    using w by (simp add: writeTag_def)
  then obtain ins where "fst (writeTag input (take e (drop idx s)) rest a) = take e (drop idx s) @ ins" by blast
  then have "rw svelte lr input s = take idx s @ take e (drop idx s) @ ins @ rw svelte lr input (drop (idx + e) s)"
    using Some t by (subst rw.simps) simp
  then have "rw svelte lr input s = take (idx + e) s @ ins @ rw svelte lr input (drop (idx + e) s)"
    by (simp add: take_add)
  moreover have "CHR ''>'' \<in> set (take (idx + e) s)"
    using scanTag_end[OF t] nth_mem[of "e - 1" "take e (drop idx s)"] by (auto simp: take_add)
  moreover have "s = take (idx + e) s @ drop (idx + e) s" by simp
  ultimately show ?thesis by metis
qed

lemma guard_rw: "cleanForms svelte lr s \<Longrightarrow> hasInjectedHiddenCSRF lr (rw svelte lr input s) \<longleftrightarrow> hasInjectedHiddenCSRF lr s"
proof -
  assume c: "cleanForms svelte lr s"
  show ?thesis
  proof (cases "CHR ''>'' \<in> set s")
    case True
    from rw_head[OF c True] guard_same_head show ?thesis by metis
  next
    case False
    have "indexFormStart s = None"
    proof (rule ccontr)
      assume "indexFormStart s \<noteq> None"
      then obtain idx where i: "indexFormStart s = Some idx" by auto
      then obtain e rest a where t: "scanTag svelte lr (drop idx s) = Some (e, rest, a)"
        using c by (subst (asm) cleanForms_def, subst (asm) forms.simps) (auto simp: wellFormedTag_def split: option.splits)
      from scanTag_end[OF t] have "drop idx s ! (e - 1) \<in> set (drop idx s)" by (intro nth_mem) auto
      then show False using False scanTag_end[OF t] by (metis in_set_dropD)
    qed
    then show ?thesis by (simp add: rw_none)
  qed
qed


context hidden_field
begin

lemma input_opens_none: "\<forall>j < length input. \<not> formStartAt (drop j input @ u)"
  using opens_once by blast

text \<open>One tag of a clean text: the output starts with the text up to its end, and the scan finds it there.\<close>

lemma rw_tag:
  assumes "indexFormStart s = Some idx" "scanTag svelte lr (drop idx s) = Some (e, rest, a)" "\<not> (fa_isPost a \<and> fa_nocsrf a)"
  defines "ins \<equiv> if fa_isPost a \<and> \<not> fa_alreadyInjected a then input else []"
  shows "rw svelte lr input s = take (idx + e) s @ ins @ rw svelte lr input (drop (idx + e) s)"
    and "\<exists>a'. forms svelte lr (take (idx + e) s @ u) = Some (take e (drop idx s), a') # forms svelte lr u
      \<and> fa_isPost a' = fa_isPost a \<and> fa_nocsrf a' = fa_nocsrf a
      \<and> (fa_isPost a \<longrightarrow> fa_alreadyInjected a' = hasInjectedHiddenCSRF lr u)"
proof -
  have rest: "\<not> fa_nocsrf a \<Longrightarrow> rest = take e (drop idx s)" using scanTag_local[OF assms(2)] by auto
  have "fst (writeTag input (take e (drop idx s)) rest a) = take e (drop idx s) @ ins"
    using rest assms(3) by (simp add: writeTag_def ins_def)
  then show "rw svelte lr input s = take (idx + e) s @ ins @ rw svelte lr input (drop (idx + e) s)"
    using assms(1,2) by (subst rw.simps) (simp add: take_add)
  note en = scanTag_end[OF assms(2)]
  note ix = assms(1)[unfolded indexFormStart_Some]
  have fit: "idx + e \<le> length s" using ix en by auto
  have start: "formStartAt (drop j (take (idx + e) s @ u)) = formStartAt (drop j s)" if "j \<le> idx" for j
  proof -
    have "drop j (take (idx + e) s @ u) = take (idx + e - j) (drop j s) @ u" using that fit by (simp add: drop_take)
    moreover have "6 \<le> idx + e - j" "idx + e - j \<le> length (drop j s)" using that en fit by auto
    ultimately show ?thesis using formStartAt_local by metis
  qed
  moreover have "idx < length (take (idx + e) s @ u)" using ix en by auto
  ultimately have i: "indexFormStart (take (idx + e) s @ u) = Some idx"
    using ix unfolding indexFormStart_Some by simp
  have d: "drop idx (take (idx + e) s @ u) = take e (drop idx s) @ u" using fit by (simp add: drop_take)
  obtain rest' a' where t: "scanTag svelte lr (take e (drop idx s) @ u) = Some (e, rest', a')"
    "fa_isPost a' = fa_isPost a" "fa_nocsrf a' = fa_nocsrf a"
    "fa_isPost a \<longrightarrow> fa_alreadyInjected a' = hasInjectedHiddenCSRF lr u"
    using scanTag_local[OF assms(2), of u] by blast
  have "drop (idx + e) (take (idx + e) s @ u) = u" "take e (take e (drop idx s) @ u) = take e (drop idx s)" using en by auto
  then have "forms svelte lr (take (idx + e) s @ u) = Some (take e (drop idx s), a') # forms svelte lr u"
    using i d t(1) by (subst forms.simps) simp
  then show "\<exists>a'. forms svelte lr (take (idx + e) s @ u) = Some (take e (drop idx s), a') # forms svelte lr u
      \<and> fa_isPost a' = fa_isPost a \<and> fa_nocsrf a' = fa_nocsrf a
      \<and> (fa_isPost a \<longrightarrow> fa_alreadyInjected a' = hasInjectedHiddenCSRF lr u)" using t by blast
qed

lemma rw_forms:
  "cleanForms svelte lr s \<Longrightarrow>
     map tagView (forms svelte lr (rw svelte lr input s)) = map tagView (forms svelte lr s)
     \<and> list_all protectedTag (forms svelte lr (rw svelte lr input s))"
proof (induction "length s" arbitrary: s rule: less_induct)
  case less
  show ?case
  proof (cases "indexFormStart s")
    case None
    then show ?thesis by (simp add: rw_none forms.simps[of _ _ s])
  next
    case (Some idx)
    have f: "forms svelte lr s = (case scanTag svelte lr (drop idx s) of None \<Rightarrow> None # forms svelte lr (drop (idx + 1) s)
        | Some (e, rest, a) \<Rightarrow> Some (take e (drop idx s), a) # forms svelte lr (drop (idx + e) s))"
      using Some by (subst forms.simps) simp
    obtain e rest a where t: "scanTag svelte lr (drop idx s) = Some (e, rest, a)"
      using less.prems f by (auto simp: cleanForms_def wellFormedTag_def split: option.splits)
    have fs: "forms svelte lr s = Some (take e (drop idx s), a) # forms svelte lr (drop (idx + e) s)" using f t by simp
    have w: "\<not> (fa_isPost a \<and> fa_nocsrf a)" and c: "cleanForms svelte lr (drop (idx + e) s)"
      using less.prems fs by (auto simp: cleanForms_def wellFormedTag_def)
    have "length (drop (idx + e) s) < length s" using walk_shrinks(2)[OF Some t] by simp
    note ih = less.hyps[OF this c]
    define out where "out = rw svelte lr input (drop (idx + e) s)"
    define ins where "ins = (if fa_isPost a \<and> \<not> fa_alreadyInjected a then input else [])"
    have r: "rw svelte lr input s = take (idx + e) s @ ins @ out"
      unfolding out_def ins_def by (rule rw_tag(1)[OF Some t w])
    obtain a' where a': "forms svelte lr (take (idx + e) s @ ins @ out) = Some (take e (drop idx s), a') # forms svelte lr (ins @ out)"
      "fa_isPost a' = fa_isPost a" "fa_nocsrf a' = fa_nocsrf a"
      "fa_isPost a \<longrightarrow> fa_alreadyInjected a' = hasInjectedHiddenCSRF lr (ins @ out)"
      using rw_tag(2)[OF Some t w, of "ins @ out"] by blast
    have skip: "forms svelte lr (ins @ out) = forms svelte lr out"
      using forms_skip[of input out] input_opens_none[of out] by (simp add: ins_def)
    have already: "fa_isPost a \<Longrightarrow> hasInjectedHiddenCSRF lr (ins @ out)"
    proof (cases "fa_alreadyInjected a")
      case True
      assume p: "fa_isPost a"
      have "hasInjectedHiddenCSRF lr (drop e (drop idx s))" using scanTag_local[OF t] True p by auto
      then have "hasInjectedHiddenCSRF lr (drop (idx + e) s)" by (simp add: add.commute)
      then show ?thesis using True guard_rw[OF c] by (simp add: ins_def out_def)
    next
      case False
      assume "fa_isPost a"
      then show ?thesis using False recognised by (simp add: ins_def)
    qed
    show ?thesis unfolding r a'(1) skip fs using ih[folded out_def] a'(2-4) already w
      by (auto simp: tagView_def protectedTag_def)
  qed
qed

lemma rw_id: "list_all protectedTag (forms svelte lr s) \<Longrightarrow> rw svelte lr input s = s"
proof (induction svelte lr input s rule: rw.induct)
  case (1 svelte lr input s)
  show ?case
  proof (cases "indexFormStart s")
    case None
    then show ?thesis by (rule rw_none)
  next
    case (Some idx)
    have f: "forms svelte lr s = (case scanTag svelte lr (drop idx s) of None \<Rightarrow> None # forms svelte lr (drop (idx + 1) s)
        | Some (e, rest, a) \<Rightarrow> Some (take e (drop idx s), a) # forms svelte lr (drop (idx + e) s))"
      using Some by (subst forms.simps) simp
    obtain e rest a where t: "scanTag svelte lr (drop idx s) = Some (e, rest, a)"
      using "1.prems" f by (auto simp: protectedTag_def split: option.splits)
    have "protectedTag (Some (take e (drop idx s), a))" and p2: "list_all protectedTag (forms svelte lr (drop (idx + e) s))"
      using "1.prems" f t by simp_all
    then have p: "fa_isPost a \<longrightarrow> fa_alreadyInjected a \<and> \<not> fa_nocsrf a" by (simp add: protectedTag_def)
    have "fst (writeTag input (take e (drop idx s)) rest a) = take e (drop idx s)" using p by (simp add: writeTag_def)
    moreover have "rw svelte lr input (drop (idx + e) s) = drop (idx + e) s" using "1.IH"(2)[OF Some t refl refl p2] .
    moreover have "take idx s @ take e (drop idx s) @ drop (idx + e) s = s"
      by (metis append_take_drop_id drop_drop add.commute)
    ultimately show ?thesis using Some t by (subst rw.simps) simp
  qed
qed

lemma rw_again: "cleanForms svelte lr s \<Longrightarrow> rw svelte lr input (rw svelte lr input s) = rw svelte lr input s"
  using rw_forms rw_id by blast

end


section \<open>The two passes\<close>

definition plainValue :: "string \<Rightarrow> bool" where
  "plainValue v \<longleftrightarrow> list_all (\<lambda>c. byteVal c < 0x80 \<and> c \<noteq> CHR ''<'' \<and> c \<noteq> CHR ''>'') v \<and> length v \<le> 215"

lemma lowerASCII_lt: "lowerASCII c = CHR ''<'' \<Longrightarrow> c = CHR ''<''"
proof (rule ccontr)
  assume a: "lowerASCII c = CHR ''<''" "c \<noteq> CHR ''<''"
  then have "inRange 0x41 0x5A c" "char_of (byteVal c + 32) = CHR ''<''" by (auto simp: lowerASCII_def split: if_splits)
  moreover then have "byteVal (char_of (byteVal c + 32)) = byteVal c + 32" by (intro byteVal_char_of) (simp add: inRange_def)
  ultimately show False by (simp add: inRange_def byteVal_def[of "CHR ''<''"])
qed

lemma hiddenInput_field:
  assumes "plainValue v"
  shows "hidden_field lr (hiddenInput v)"
proof
  define name where "name = ''name='' @ [CHR 0x22] @ ''_csrf_token'' @ [CHR 0x22]"
  define head where "head = ''<input type='' @ [CHR 0x22] @ ''hidden'' @ [CHR 0x22] @ '' ''"
  define x where "x = head @ name @ '' value='' @ v"
  have h: "hiddenInput v = x @ ''>''" by (simp add: hiddenInput_def x_def head_def name_def)
  have v: "CHR ''<'' \<notin> set v" "CHR ''>'' \<notin> set v" "list_all (\<lambda>c. byteVal c < 0x80) v" "length v \<le> 215"
    using assms by (auto simp: plainValue_def list_all_iff)
  fix u
  show "\<not> formStartAt (drop j (hiddenInput v) @ u)" if "j < length (hiddenInput v)" for j
  proof
    assume f: "formStartAt (drop j (hiddenInput v) @ u)"
    then have "lowerASCII (hd (drop j (hiddenInput v) @ u)) = CHR ''<''"
      by (cases "drop j (hiddenInput v) @ u") (auto simp: formStartAt_def lowerPrefix_def)
    then have "lowerASCII (hiddenInput v ! j) = CHR ''<''" using that by (simp add: hd_drop_conv_nth)
    then have lt: "hiddenInput v ! j = CHR ''<''" by (rule lowerASCII_lt)
    have "j = 0"
    proof (rule ccontr)
      assume "j \<noteq> 0"
      then have "CHR ''<'' \<in> set (tl (hiddenInput v))" using lt that nth_mem[of "j - 1" "tl (hiddenInput v)"]
        by (simp add: nth_tl)
      then show False using v(1) by (simp add: hiddenInput_def)
    qed
    then show False using f by (simp add: hiddenInput_def formStartAt_def lowerPrefix_def lowerASCII_def inRange_def byteVal_def)
  qed
  have "CHR ''>'' \<notin> set x" using v by (simp add: x_def head_def name_def)
  note g = guard_first_gt[OF this, of lr u]
  have ascii: "list_all (\<lambda>c. byteVal c < 0x80) x" using v(3) by (simp add: x_def head_def name_def byteVal_def)
  have low: "map lowerASCII name = name" by (simp add: name_def lowerASCII_def inRange_def byteVal_def)
  have "toLower lr x = map lowerASCII head @ name @ map lowerASCII ('' value='' @ v)"
    unfolding toLower_ascii[OF ascii] by (simp only: x_def map_append low)
  then have "contains (toLower lr x) name" using contains_mid by simp
  then have "namesToken (toLower lr x)" unfolding namesToken_def name_def by blast
  moreover have "dropWhile isASCIISpace x = x" by (simp add: x_def head_def isASCIISpace_def)
  moreover have "lowerPrefix x ''<input''"
    by (simp add: x_def head_def lowerPrefix_def lowerASCII_def inRange_def byteVal_def)
  moreover have "length x < 262" using v(4) by (simp add: x_def head_def name_def)
  ultimately show "hasInjectedHiddenCSRF lr (hiddenInput v @ u)" using g by (simp add: h Let_def)
qed

interpretation source: hidden_field True lr sourceInput for lr :: "nat \<Rightarrow> nat"
  unfolding sourceInput_def
  by (rule hiddenInput_field) (simp add: plainValue_def CSRFValueExpr_def byteVal_def)

definition tokenOK :: "string \<Rightarrow> bool" where
  "tokenOK token \<longleftrightarrow> list_all (\<lambda>c. byteVal c < 0x80) token \<and> length (htmlAttrEscape token) \<le> 213"

lemma htmlAttrEscape_plain:
  "list_all (\<lambda>c. byteVal c < 0x80) s \<Longrightarrow>
     list_all (\<lambda>c. byteVal c < 0x80 \<and> c \<noteq> CHR ''<'' \<and> c \<noteq> CHR ''>'' \<and> c \<noteq> CHR 0x22) (htmlAttrEscape s)"
proof -
  assume a: "list_all (\<lambda>c. byteVal c < 0x80) s"
  let ?P = "\<lambda>c. byteVal c < 0x80 \<and> c \<noteq> CHR ''<'' \<and> c \<noteq> CHR ''>'' \<and> c \<noteq> CHR 0x22"
  have con: "list_all ?P (concat (map f s))" if "\<And>c. c \<in> set s \<Longrightarrow> list_all ?P (f c)" for f
    using that by (induction s) auto
  show ?thesis
  proof (cases "containsAny s [CHR ''&'', CHR ''<'', CHR ''>'', CHR 0x22, CHR 0x27]")
    case True
    have "list_all ?P (if c = CHR ''&'' then ''&amp;'' else if c = CHR ''<'' then ''&lt;''
       else if c = CHR ''>'' then ''&gt;'' else if c = CHR 0x22 then ''&quot;''
       else if c = CHR 0x27 then ''&#39;'' else [c])" if "c \<in> set s" for c
    proof -
      have "byteVal c < 0x80" using a that by (simp add: list_all_iff)
      then show ?thesis by (simp add: byteVal_def)
    qed
    then show ?thesis unfolding htmlAttrEscape_def using True con by simp
  next
    case False
    then show ?thesis using a unfolding htmlAttrEscape_def by (fastforce simp: list_all_iff containsAny_iff)
  qed
qed

lemma runtime_field: "tokenOK token \<Longrightarrow> hidden_field lr (runtimeInput token)"
proof -
  assume t: "tokenOK token"
  let ?v = "htmlAttrEscape token"
  have "list_all (\<lambda>c. byteVal c < 0x80 \<and> c \<noteq> CHR ''<'' \<and> c \<noteq> CHR ''>'' \<and> c \<noteq> CHR 0x22) ?v"
    using t by (intro htmlAttrEscape_plain) (simp add: tokenOK_def)
  then have "list_all (\<lambda>c. byteVal c < 0x80 \<and> c \<noteq> CHR ''<'' \<and> c \<noteq> CHR ''>'') ?v" by (simp add: list_all_iff)
  moreover have "length ?v \<le> 213" using t by (simp add: tokenOK_def)
  ultimately have "plainValue (CHR 0x22 # ?v @ [CHR 0x22])" by (simp add: plainValue_def byteVal_def[of "CHR 0x22"])
  then show ?thesis unfolding runtimeInput_def by (rule hiddenInput_field)
qed



text \<open>The pass over Svelte sources gives the same guarantee.\<close>

theorem processFormRange_protects:
  assumes "cleanForms True lr src"
  shows "map tagView (forms True lr (snd (processFormRange lr src))) = map tagView (forms True lr src)
    \<and> list_all protectedTag (forms True lr (snd (processFormRange lr src)))
    \<and> snd (processFormRange lr (snd (processFormRange lr src))) = snd (processFormRange lr src)"
  using source.rw_forms[OF assms] source.rw_again[OF assms] by (simp add: processFormRange_rw)

section \<open>Concrete texts\<close>

definition sameCase :: "nat \<Rightarrow> nat" where
  "sameCase r = r"

definition demoForm :: string where
  "demoForm = ''<p><form method=post><b></form><FORM action='' @ [CHR 0x22] @ ''>'' @ [CHR 0x22] @ ''>''"


text \<open>An opt-out is stripped, so a second run inserts the field into the form that opted out.\<close>

lemma opt_out_lost:
  "Rewrite sameCase ''<form method=post nocsrf>'' ''T'' = ''<form method=post>''
   \<and> Rewrite sameCase (Rewrite sameCase ''<form method=post nocsrf>'' ''T'') ''T'' \<noteq> Rewrite sameCase ''<form method=post nocsrf>'' ''T''"
  by code_simp

text \<open>Two opt-outs delete what is between them.\<close>

lemma opt_outs_delete: "Rewrite sameCase ''<form nocsrf method=post nocsrf>'' ''T'' = ''<form>''"
  by code_simp

text \<open>A first input whose text has the name in another attribute passes for the hidden field.\<close>

lemma decoy_field:
  "Rewrite sameCase ''<form method=post><input data-name=_csrf_token>'' ''T'' = ''<form method=post><input data-name=_csrf_token>''"
  by code_simp

text \<open>The pass over sources does not see a method without quotes, the pass over HTML does.\<close>

lemma unquoted_method:
  "snd (processFormRange sameCase ''<form method=post>'') = ''<form method=post>''
   \<and> Rewrite sameCase ''<form method=post>'' ''T'' = ''<form method=post>'' @ runtimeInput ''T''"
  by code_simp

end
