(* ===== verification/Prerender.thy ===== *)
theory Prerender
  imports PipelineHandle ServerStatic
begin

text \<open>
  The prerendering pass, \<^verbatim>\<open>server/prerender.go\<close>: it plans one request per page that opts in, runs each of them
  through the request pipeline (\<open>PipelineHandle\<close>), writes the bodies below the output directory and a manifest
  beside them, which \<open>ServerStatic\<close> serves. Files are a map from paths to contents; which calls of the file
  system fail, the JSON encoder, the constructor of test requests (which panics on a malformed target), the
  quoting verb, and the outcome of \<^verbatim>\<open>Init\<close> are parameters. A panic of the pipeline ends the pass. Paths that
  are equal keep their order under \<^verbatim>\<open>sort.Slice\<close> here; the theorems assume distinct ones. The reading of a
  recorded body, which cannot fail, and the lines printed to standard error are left out.
\<close>

section \<open>Paths\<close>

text \<open>\<^verbatim>\<open>filepath.Join\<close> onto an absolute directory, and \<^verbatim>\<open>filepath.Join\<close> of relative paths.\<close>

definition joinAbs :: "string \<Rightarrow> string \<Rightarrow> string" where
  "joinAbs root p = cleanRooted (root @ ''/'' @ p)"

definition relStep :: "string list \<Rightarrow> string \<Rightarrow> string list" where
  "relStep st s = (if s = [] \<or> s = ''.'' then st
     else if s = ''..'' then (if st = [] \<or> last st = ''..'' then st @ [s] else butlast st)
     else st @ [s])"

definition joinRel :: "string \<Rightarrow> string \<Rightarrow> string" where
  "joinRel a b = (let segs = foldl relStep [] (splitByte CHR ''/'' (a @ ''/'' @ b))
     in if segs = [] then ''.'' else joinStr ''/'' segs)"

section \<open>Options and results\<close>

record PrerenderOptions =
  op_OutDir :: string
  op_Tolerate :: int
  op_ReportPath :: string
  op_Entries :: "string \<Rightarrow> (string \<rightharpoonup> string) list"

record PrerenderError =
  pf_Route :: string
  pf_Path :: string
  pf_Status :: int
  pf_Message :: string

record PrerenderedEntry =
  pn_Route :: string
  pn_Path :: string
  pn_File :: string
  pn_Protected :: bool

record PrerenderResult =
  px_OutDir :: string
  px_Entries :: "PrerenderedEntry list"
  px_Errors :: "PrerenderError list"
  px_ManifestPath :: string

record prerenderJob =
  jb_Path :: string
  jb_Route :: string
  jb_Protected :: bool

datatype preError = PreMsg string | PrerenderErrors "PrerenderError list"

definition truncMessage :: "string \<Rightarrow> string" where
  "truncMessage msg =
    (let m = map (\<lambda>c. if c = CHR 0x0A \<or> c = CHR 0x0D then CHR '' '' else c) msg
     in if length m \<le> 160 then m else take 160 m @ [CHR 0xE2, CHR 0x80, CHR 0xA6])"

fun preErrorString :: "preError \<Rightarrow> string" where
  "preErrorString (PreMsg m) = m"
| "preErrorString (PrerenderErrors []) = ''prerender: no errors''"
| "preErrorString (PrerenderErrors (e # es)) =
     ''prerender: '' @ pf_Path e @ '' -> '' @ formatInt (pf_Status e) @ '' '' @ truncMessage (pf_Message e)
     @ (if es = [] then [] else '' (+'' @ formatInt (int (length es)) @ '' more)'')"

section \<open>The plan\<close>

definition routeHasDynamicSegments :: "Segment list \<Rightarrow> bool" where
  "routeHasDynamicSegments segs = list_ex (\<lambda>s. seg_kind s \<in> {SegmentParam, SegmentOptional, SegmentRest}) segs"

definition patternToPath :: "string \<Rightarrow> string" where
  "patternToPath pattern = (if pattern = [] then ''/'' else if pattern = ''/'' then ''/'' else pattern)"

definition paramKeyOf :: "string \<Rightarrow> string" where
  "paramKeyOf seg =
    (let inner = take (length seg - 2) (tl seg);
         inner = trimPrefix inner ''...'';
         inner = trimSuffix (trimPrefix inner ''['') '']''
     in case indexByte inner CHR ''='' of None \<Rightarrow> inner | Some eq \<Rightarrow> take eq inner)"

fun substParts :: "(string \<Rightarrow> string) \<Rightarrow> (string \<rightharpoonup> string) \<Rightarrow> string list \<Rightarrow> (string, string list) result" where
  "substParts quote params [] = Inr []"
| "substParts quote params (seg # parts) =
    (if \<not> hasPrefix seg ''['' \<or> \<not> hasSuffix seg '']''
     then (case substParts quote params parts of Inl e \<Rightarrow> Inl e | Inr ps \<Rightarrow> Inr (seg # ps))
     else (case params (paramKeyOf seg) of
         None \<Rightarrow> Inl (''missing entry for param '' @ quote (paramKeyOf seg))
       | Some val \<Rightarrow> (case substParts quote params parts of Inl e \<Rightarrow> Inl e | Inr ps \<Rightarrow> Inr (val # ps))))"

definition substituteParams :: "(string \<Rightarrow> string) \<Rightarrow> string \<Rightarrow> (string \<rightharpoonup> string) \<Rightarrow> (string, string) result" where
  "substituteParams quote pattern params =
    (case substParts quote params (splitByte CHR ''/'' pattern) of Inl e \<Rightarrow> Inl e | Inr ps \<Rightarrow> Inr (joinStr ''/'' ps))"

fun entryJobs :: "(string \<Rightarrow> string) \<Rightarrow> string \<Rightarrow> bool \<Rightarrow> (string \<rightharpoonup> string) list \<Rightarrow> (string, prerenderJob list) result" where
  "entryJobs quote pattern protected [] = Inr []"
| "entryJobs quote pattern protected (e # es) =
    (case substituteParams quote pattern e of
       Inl msg \<Rightarrow> Inl (''prerender: route '' @ pattern @ '': '' @ msg)
     | Inr path \<Rightarrow> (case entryJobs quote pattern protected es of
           Inl msg \<Rightarrow> Inl msg
         | Inr jobs \<Rightarrow> Inr (\<lparr>jb_Path = path, jb_Route = pattern, jb_Protected = protected\<rparr> # jobs)))"

definition routeJobs :: "(string \<Rightarrow> string) \<Rightarrow> (string \<Rightarrow> (string \<rightharpoonup> string) list) \<Rightarrow> ('d, 's) route \<Rightarrow> (string, prerenderJob list) result" where
  "routeJobs quote entries r =
    (let h = rt_handlers r; opts = hd_Options h; dynamic = routeHasDynamicSegments (rt_Segments r) in
     if hd_Page h = None then Inr []
     else if \<not> po_Prerender opts \<and> \<not> po_PrerenderAuto opts then Inr []
     else if po_PrerenderAuto opts \<and> (dynamic \<or> hd_Load h \<noteq> None) then Inr []
     else if \<not> dynamic
     then Inr [\<lparr>jb_Path = patternToPath (rt_Pattern r), jb_Route = rt_Pattern r, jb_Protected = po_PrerenderProtected opts\<rparr>]
     else entryJobs quote (rt_Pattern r) (po_PrerenderProtected opts) (entries (rt_Pattern r)))"

fun planLoop :: "(string \<Rightarrow> string) \<Rightarrow> (string \<Rightarrow> (string \<rightharpoonup> string) list) \<Rightarrow> ('d, 's) route list \<Rightarrow> (string, prerenderJob list) result" where
  "planLoop quote entries [] = Inr []"
| "planLoop quote entries (r # rs) =
    (case routeJobs quote entries r of
       Inl e \<Rightarrow> Inl e
     | Inr jobs \<Rightarrow> (case planLoop quote entries rs of Inl e \<Rightarrow> Inl e | Inr rest \<Rightarrow> Inr (jobs @ rest)))"

definition planPrerenderJobs :: "(string \<Rightarrow> string) \<Rightarrow> ('d, 's) route list \<Rightarrow> (string \<Rightarrow> (string \<rightharpoonup> string) list) \<Rightarrow> (string, prerenderJob list) result" where
  "planPrerenderJobs quote routes entries = (case planLoop quote entries routes of
      Inl e \<Rightarrow> Inl e | Inr jobs \<Rightarrow> Inr (sliceStable (\<lambda>a b. jb_Path a < jb_Path b) jobs))"

section \<open>One job\<close>

type_synonym files = "string \<rightharpoonup> string"

text \<open>The file system: the error of a call, if it fails.\<close>

record disk =
  dk_removeAll :: "string \<Rightarrow> string option"
  dk_mkdirAll :: "string \<Rightarrow> string option"
  dk_writeFile :: "string \<Rightarrow> string option"

definition writeFile :: "disk \<Rightarrow> string \<Rightarrow> string \<Rightarrow> files \<Rightarrow> string option \<times> files" where
  "writeFile dk path body fs = (case dk_writeFile dk path of Some e \<Rightarrow> (Some e, fs) | None \<Rightarrow> (None, fs(path \<mapsto> body)))"

definition removeAll :: "string \<Rightarrow> files \<Rightarrow> files" where
  "removeAll dir fs = (\<lambda>p. if p = dir \<or> hasPrefix p (dir @ ''/'') then None else fs p)"

text \<open>The pipeline and the test request of a job. The observations of the outside world are those of the job.\<close>

record ('d, 's) renderer =
  rn_lib :: "'d lib"
  rn_io :: "string \<Rightarrow> 'd io"
  rn_server :: "('d, 's) Server"
  rn_newRequest :: "string \<Rightarrow> Request option"

definition prerenderProbeHeader :: string where
  "prerenderProbeHeader = ''X-Sveltego-Prerender''"

definition renderJob :: "('d, 's) renderer \<Rightarrow> string \<Rightarrow> 's \<Rightarrow> (ResponseWriter \<times> 's) option" where
  "renderJob R path u = (case rn_newRequest R path of
      None \<Rightarrow> None
    | Some req \<Rightarrow>
        (case handle (rn_lib R) (rn_io R path) (rn_server R)
                (req\<lparr>rq_Header := hSet prerenderProbeHeader ''1'' (rq_Header req)\<rparr>) newRW u of
           (Crash p, s) \<Rightarrow> None
         | (Done _, s) \<Rightarrow> Some (ps_w s, ps_user s)))"

definition recordedStatus :: "ResponseWriter \<Rightarrow> int" where
  "recordedStatus w = (case rw_Sent w of None \<Rightarrow> 200 | Some (code, _) \<Rightarrow> code)"

definition relFileOf :: "string \<Rightarrow> string" where
  "relFileOf path = (let p = trimRight (trimLeft path ''/'') ''/'' in if p = [] then ''index'' else p)"

definition targetOf :: "string \<Rightarrow> string \<Rightarrow> string" where
  "targetOf outAbs path = joinAbs outAbs (relFileOf path @ ''/index.html'')"

definition dirOf :: "string \<Rightarrow> string" where
  "dirOf path = cleanRooted (rev (dropWhile (\<lambda>c. c \<noteq> CHR ''/'') (rev path)))"

definition runOnePrerenderJob :: "('d, 's) renderer \<Rightarrow> disk \<Rightarrow> string \<Rightarrow> prerenderJob \<Rightarrow> files \<Rightarrow> 's \<Rightarrow>
    ((PrerenderError, PrerenderedEntry) result \<times> files \<times> 's) option" where
  "runOnePrerenderJob R dk outAbs job fs u =
    (let fail = (\<lambda>status msg. Inl \<lparr>pf_Route = jb_Route job, pf_Path = jb_Path job, pf_Status = status, pf_Message = msg\<rparr>) in
     case renderJob R (jb_Path job) u of
       None \<Rightarrow> None
     | Some (w, u') \<Rightarrow>
         if 400 \<le> recordedStatus w then Some (fail (recordedStatus w) (trimSpace (rw_Body w)), fs, u')
         else (let target = targetOf outAbs (jb_Path job) in
           case dk_mkdirAll dk (dirOf target) of
             Some e \<Rightarrow> Some (fail 500 (''mkdir: '' @ e), fs, u')
           | None \<Rightarrow> (case writeFile dk target (rw_Body w) fs of
                 (Some e, fs') \<Rightarrow> Some (fail 500 (''write: '' @ e), fs', u')
               | (None, fs') \<Rightarrow>
                   Some (Inr \<lparr>pn_Route = jb_Route job, pn_Path = jb_Path job,
                     pn_File = joinRel (relFileOf (jb_Path job)) ''index.html'', pn_Protected = jb_Protected job\<rparr>, fs', u'))))"

fun runJobs :: "('d, 's) renderer \<Rightarrow> disk \<Rightarrow> string \<Rightarrow> prerenderJob list \<Rightarrow> files \<Rightarrow> 's \<Rightarrow>
    (PrerenderedEntry list \<times> PrerenderError list \<times> files \<times> 's) option" where
  "runJobs R dk outAbs [] fs u = Some ([], [], fs, u)"
| "runJobs R dk outAbs (job # jobs) fs u =
    (case runOnePrerenderJob R dk outAbs job fs u of
       None \<Rightarrow> None
     | Some (r, fs', u') \<Rightarrow> (case runJobs R dk outAbs jobs fs' u' of
           None \<Rightarrow> None
         | Some (es, errs, fs'', u'') \<Rightarrow>
             (case r of Inl e \<Rightarrow> Some (es, e # errs, fs'', u'') | Inr e \<Rightarrow> Some (e # es, errs, fs'', u''))))"

section \<open>The pass\<close>

text \<open>The JSON encoder of the manifest (with the time of the run) and of the report.\<close>

record encoder =
  en_manifest :: "PrerenderedEntry list \<Rightarrow> (string, string) result"
  en_report :: "PrerenderError list \<Rightarrow> (string, string) result"

definition writePrerenderManifest :: "disk \<Rightarrow> encoder \<Rightarrow> string \<Rightarrow> PrerenderedEntry list \<Rightarrow> files \<Rightarrow> (string, string) result \<times> files" where
  "writePrerenderManifest dk en outAbs entries fs = (case en_manifest en entries of
      Inl e \<Rightarrow> (Inl (''server: marshal prerender manifest: '' @ e), fs)
    | Inr body \<Rightarrow>
        (let target = joinAbs outAbs PrerenderManifestFilename in
         case writeFile dk target (body @ [CHR 0x0A]) fs of
           (Some e, fs') \<Rightarrow> (Inl (''server: write prerender manifest: '' @ e), fs')
         | (None, fs') \<Rightarrow> (Inr target, fs')))"

definition writePrerenderReport :: "disk \<Rightarrow> encoder \<Rightarrow> string \<Rightarrow> PrerenderError list \<Rightarrow> files \<Rightarrow> string option \<times> files" where
  "writePrerenderReport dk en path errs fs = (case en_report en errs of
      Inl e \<Rightarrow> (Some (''server: marshal prerender report: '' @ e), fs)
    | Inr body \<Rightarrow>
        (case dk_mkdirAll dk (dirOf path) of
           Some e \<Rightarrow> (Some (''server: mkdir prerender report: '' @ e), fs)
         | None \<Rightarrow> (case writeFile dk path (body @ [CHR 0x0A]) fs of
               (Some e, fs') \<Rightarrow> (Some (''server: write prerender report: '' @ e), fs')
             | (None, fs') \<Rightarrow> (None, fs'))))"

definition Prerender :: "('d, 's) renderer \<Rightarrow> disk \<Rightarrow> encoder \<Rightarrow> (string \<Rightarrow> string) \<Rightarrow> string option \<Rightarrow> string \<Rightarrow> PrerenderOptions \<Rightarrow> files \<Rightarrow> 's \<Rightarrow>
    ((PrerenderResult option \<times> preError option) \<times> files \<times> 's) option" where
  "Prerender R dk en quote initErr projectRoot opts fs u =
    (let fail = (\<lambda>msg fs u. Some ((None, Some (PreMsg msg)), fs, u));
         outDir = (if op_OutDir opts = [] then DefaultPrerenderOutDir else op_OutDir opts);
         outAbs = joinAbs projectRoot outDir in
     if projectRoot = [] then fail ''server: Prerender: empty project root'' fs u
     else if \<not> hasPrefix projectRoot ''/''
     then fail (''server: Prerender: project root '' @ quote projectRoot @ '' must be absolute'') fs u
     else (case dk_removeAll dk outAbs of
         Some e \<Rightarrow> fail (''server: clean prerender out dir: '' @ e) fs u
       | None \<Rightarrow> (let fs1 = removeAll outAbs fs in
           case dk_mkdirAll dk outAbs of
             Some e \<Rightarrow> fail (''server: mkdir prerender out dir: '' @ e) fs1 u
           | None \<Rightarrow> (case initErr of
               Some e \<Rightarrow> fail (''server: prerender init: '' @ e) fs1 u
             | None \<Rightarrow> (case planPrerenderJobs quote (Routes (sv_tree (rn_server R))) (op_Entries opts) of
                 Inl e \<Rightarrow> fail e fs1 u
               | Inr jobs \<Rightarrow> (case runJobs R dk outAbs jobs fs1 u of
                   None \<Rightarrow> None
                 | Some (es, errs, fs2, u2) \<Rightarrow>
                     (let entries = sliceStable (\<lambda>a b. pn_Path a < pn_Path b) es;
                          errors = sliceStable (\<lambda>a b. pf_Path a < pf_Path b) errs in
                      case writePrerenderManifest dk en outAbs entries fs2 of
                        (Inl e, fs3) \<Rightarrow> fail e fs3 u2
                      | (Inr manifestPath, fs3) \<Rightarrow>
                          (let res = \<lparr>px_OutDir = outDir, px_Entries = entries, px_Errors = errors, px_ManifestPath = manifestPath\<rparr> in
                           case (if op_ReportPath opts \<noteq> [] \<and> errors \<noteq> [] then writePrerenderReport dk en (op_ReportPath opts) errors fs3
                                 else (None, fs3)) of
                             (Some e, fs4) \<Rightarrow> fail e fs4 u2
                           | (None, fs4) \<Rightarrow>
                               Some ((Some res, if 0 \<le> op_Tolerate opts \<and> op_Tolerate opts < int (length errors)
                                                then Some (PrerenderErrors errors) else None), fs4, u2)))))))))"

section \<open>Starting from the environment\<close>

definition digitStep :: "64 word option \<Rightarrow> char \<Rightarrow> 64 word option" where
  "digitStep n c = (case n of None \<Rightarrow> None
     | Some n \<Rightarrow> if inRange 0x30 0x39 c then Some (n * 10 + of_nat (byteVal c - 0x30)) else None)"

text \<open>An \<^verbatim>\<open>int\<close> has 64 bits and wraps.\<close>

definition strconvAtoi :: "string \<Rightarrow> int option" where
  "strconvAtoi s =
    (let neg = hasPrefix s ''-''; digits = (if hasPrefix s ''-'' \<or> hasPrefix s ''+'' then tl s else s) in
     if digits = [] then None
     else map_option (\<lambda>n. sint (n * (if neg then - 1 else 1))) (foldl digitStep (Some 0) digits))"

definition envPrerenderOptions :: "(string \<Rightarrow> string) \<Rightarrow> PrerenderOptions" where
  "envPrerenderOptions getenv = \<lparr>op_OutDir = getenv ''SVELTEGO_PRERENDER_OUT'',
     op_Tolerate = (let raw = getenv ''SVELTEGO_PRERENDER_TOLERATE'' in
       if raw = [] then 0 else (case strconvAtoi raw of Some v \<Rightarrow> v | None \<Rightarrow> 0)),
     op_ReportPath = getenv ''SVELTEGO_PRERENDER_REPORT'', op_Entries = (\<lambda>_. [])\<rparr>"

text \<open>Whether a pass ran, and its error; the route table is written by the argument \<open>routesManifest\<close>.\<close>

definition MaybePrerenderFromEnv :: "('d, 's) renderer \<Rightarrow> disk \<Rightarrow> encoder \<Rightarrow> (string \<Rightarrow> string) \<Rightarrow> string option \<Rightarrow> (string \<Rightarrow> string) \<Rightarrow>
    (string \<Rightarrow> files \<Rightarrow> files) \<Rightarrow> string \<Rightarrow> files \<Rightarrow> 's \<Rightarrow> ((bool \<times> preError option) \<times> files \<times> 's) option" where
  "MaybePrerenderFromEnv R dk en quote initErr getenv routesManifest projectRoot fs u =
    (if getenv ''SVELTEGO_PRERENDER'' = [] then Some ((False, None), fs, u)
     else (case Prerender R dk en quote initErr projectRoot (envPrerenderOptions getenv) fs u of
         None \<Rightarrow> None
       | Some ((res, Some e), fs', u') \<Rightarrow> Some ((True, Some e), fs', u')
       | Some ((res, None), fs', u') \<Rightarrow>
           Some ((True, None), (case res of
               Some r \<Rightarrow> if px_ManifestPath r \<noteq> [] then routesManifest (dirOf (px_ManifestPath r)) fs' else fs'
             | None \<Rightarrow> fs'), u')))"

end
