(* ===== verification/PrerenderProps.thy ===== *)
theory PrerenderProps
  imports Prerender PipelineProps GoCodec
begin

text \<open>
  What a prerendering pass leaves behind is what the server then serves: for every entry of the manifest the
  prerendered page is the body that the pipeline produced for that path. Further lemmas: where the files of a
  pass lie, the parser of the tolerance, and the cases in which a pass stores a redirect as a page, merges two
  pages, or leaves the output directory.
\<close>

section \<open>Cleaned paths\<close>

lemma splitByte_app: "splitByte c (s @ c # t) = splitByte c s @ splitByte c t"
  by (induction c s rule: splitByte.induct) (auto split: list.splits)

text \<open>Cleaning a relative path first does not change where it leads.\<close>

lemma relStep_elems: "list_all (\<lambda>s. s \<noteq> [] \<and> s \<noteq> ''.'') st \<Longrightarrow> list_all (\<lambda>s. s \<noteq> [] \<and> s \<noteq> ''.'') (relStep st s)"
  by (auto simp: relStep_def list_all_iff dest: in_set_butlastD)

lemma foldl_relStep:
  "list_all (\<lambda>s. s \<noteq> [] \<and> s \<noteq> ''.'') (foldl relStep [] segs)
   \<and> foldl cleanStep st (foldl relStep [] segs) = foldl cleanStep st segs"
proof (induction segs rule: rev_induct)
  case (snoc s segs)
  define r where "r = foldl relStep [] segs"
  have r: "list_all (\<lambda>s. s \<noteq> [] \<and> s \<noteq> ''.'') r" "foldl cleanStep st r = foldl cleanStep st segs"
    using snoc by (simp_all add: r_def)
  have "foldl cleanStep st (relStep r s) = cleanStep (foldl cleanStep st r) s"
  proof (cases "s = ''..'' \<and> r \<noteq> [] \<and> last r \<noteq> ''..''")
    case True
    then obtain r' x where x: "r = r' @ [x]" "x \<noteq> ''..''" by (metis append_butlast_last_id)
    then have "x \<noteq> []" "x \<noteq> ''.''" using r(1) by auto
    then show ?thesis using True x by (simp add: relStep_def cleanStep_def)
  next
    case False
    then show ?thesis by (auto simp: relStep_def cleanStep_def)
  qed
  then show ?case using r relStep_elems by (simp add: r_def)
qed simp

lemma foldl_relStep_free: "s \<in> set (foldl relStep st segs) \<Longrightarrow> s \<in> set st \<or> s \<in> set segs"
proof (induction segs arbitrary: st)
  case (Cons a segs)
  then have "s \<in> set (relStep st a) \<or> s \<in> set segs" by simp
  then show ?case by (auto simp: relStep_def split: if_splits dest: in_set_butlastD)
qed simp

lemma foldl_cleanStep_free: "s \<in> set (foldl cleanStep st segs) \<Longrightarrow> s \<in> set st \<or> s \<in> set segs"
proof (induction segs arbitrary: st)
  case (Cons a segs)
  then have "s \<in> set (cleanStep st a) \<or> s \<in> set segs" by simp
  then show ?case by (auto simp: cleanStep_def split: if_splits dest: in_set_butlastD)
qed simp

lemma joinAbs_segs: "joinAbs root p = ''/'' @ joinStr ''/'' (foldl cleanStep (foldl cleanStep [] (splitByte CHR ''/'' root)) (splitByte CHR ''/'' p))"
  by (simp add: joinAbs_def cleanRooted_def splitByte_app)

lemma joinAbs_joinRel: "joinAbs root (joinRel a b) = joinAbs root (a @ ''/'' @ b)"
proof -
  define segs where "segs = splitByte CHR ''/'' (a @ ''/'' @ b)"
  define r where "r = foldl relStep [] segs"
  note f = foldl_relStep[of segs, folded r_def]
  show ?thesis
  proof (cases "r = []")
    case True
    then have "joinRel a b = ''.''" by (simp add: joinRel_def Let_def segs_def[symmetric, simplified] r_def[symmetric])
    moreover have "splitByte CHR ''/'' ''.'' = [''.'']" by simp
    moreover have "foldl cleanStep st segs = st" for st using f True by simp
    ultimately show ?thesis by (simp add: joinAbs_segs segs_def[symmetric, simplified] cleanStep_def)
  next
    case False
    have "CHR ''/'' \<notin> set s" if "s \<in> set r" for s
      using that foldl_relStep_free[of s "[]" segs] splitByte_sep_free by (auto simp: r_def segs_def)
    then have "splitByte CHR ''/'' (joinStr ''/'' r) = r" using False by (intro splitByte_joinStr) auto
    moreover have "joinRel a b = joinStr ''/'' r"
      using False by (simp add: joinRel_def Let_def segs_def[symmetric, simplified] r_def[symmetric])
    ultimately show ?thesis using f by (simp add: joinAbs_segs segs_def[symmetric, simplified])
  qed
qed

text \<open>A path that ends in a plain name keeps it.\<close>

lemma joinAbs_last:
  assumes "CHR ''/'' \<notin> set n" "n \<noteq> []" "n \<noteq> ''.''" "n \<noteq> ''..''"
  shows "\<exists>st. joinAbs root (p @ ''/'' @ n) = ''/'' @ joinStr ''/'' (st @ [n]) \<and> (\<forall>s \<in> set st. CHR ''/'' \<notin> set s)"
    and "\<exists>st. joinAbs root n = ''/'' @ joinStr ''/'' (st @ [n]) \<and> (\<forall>s \<in> set st. CHR ''/'' \<notin> set s)"
proof -
  have free: "CHR ''/'' \<notin> set s" if "s \<in> set (foldl cleanStep [] (splitByte CHR ''/'' q))" for s q
    using that foldl_cleanStep_free[of s "[]"] splitByte_sep_free by auto
  have sn: "splitByte CHR ''/'' n = [n]" using assms(1) by (rule splitByte_no_sep)
  have "joinAbs root (p @ ''/'' @ n) = ''/'' @ joinStr ''/'' (foldl cleanStep [] (splitByte CHR ''/'' (root @ ''/'' @ p)) @ [n])"
    using assms by (simp add: joinAbs_def cleanRooted_def splitByte_app sn cleanStep_def)
  then show "\<exists>st. joinAbs root (p @ ''/'' @ n) = ''/'' @ joinStr ''/'' (st @ [n]) \<and> (\<forall>s \<in> set st. CHR ''/'' \<notin> set s)"
    using free by blast
  have "joinAbs root n = ''/'' @ joinStr ''/'' (foldl cleanStep [] (splitByte CHR ''/'' root) @ [n])"
    using assms by (simp add: joinAbs_def cleanRooted_def splitByte_app sn cleanStep_def)
  then show "\<exists>st. joinAbs root n = ''/'' @ joinStr ''/'' (st @ [n]) \<and> (\<forall>s \<in> set st. CHR ''/'' \<notin> set s)"
    using free by blast
qed

lemma joinStr_last_inj:
  assumes "joinStr ''/'' (a @ [x]) = joinStr ''/'' (b @ [y])" "\<forall>s \<in> set (a @ [x]). CHR ''/'' \<notin> set s" "\<forall>s \<in> set (b @ [y]). CHR ''/'' \<notin> set s"
  shows "x = y"
proof -
  have split: "splitByte CHR ''/'' (joinStr ''/'' (c @ [z])) = c @ [z]" if "\<forall>s \<in> set (c @ [z]). CHR ''/'' \<notin> set s" for c z
    by (rule splitByte_joinStr) (use that in blast)+
  have "a @ [x] = b @ [y]" using split[OF assms(2)] split[OF assms(3)] unfolding assms(1) by metis
  then show ?thesis by blast
qed

lemma target_not_manifest: "targetOf out path \<noteq> joinAbs out' PrerenderManifestFilename"
proof
  assume e: "targetOf out path = joinAbs out' PrerenderManifestFilename"
  obtain a where a: "targetOf out path = ''/'' @ joinStr ''/'' (a @ [''index.html''])" "\<forall>s \<in> set a. CHR ''/'' \<notin> set s"
    using joinAbs_last(1)[of "''index.html''" out "relFileOf path"] by (auto simp: targetOf_def)
  obtain b where b: "joinAbs out' PrerenderManifestFilename = ''/'' @ joinStr ''/'' (b @ [''manifest.json''])" "\<forall>s \<in> set b. CHR ''/'' \<notin> set s"
    using joinAbs_last(2)[of "''manifest.json''" out'] by (auto simp: PrerenderManifestFilename_def)
  have "joinStr ''/'' (a @ [''index.html'']) = joinStr ''/'' (b @ [''manifest.json''])" using e a(1) b(1) by simp
  moreover have "\<forall>s \<in> set (a @ [''index.html'']). CHR ''/'' \<notin> set s" using a(2) by simp
  moreover have "\<forall>s \<in> set (b @ [''manifest.json'']). CHR ''/'' \<notin> set s" using b(2) by simp
  ultimately have "''index.html'' = ''manifest.json''" by (rule joinStr_last_inj)
  then show False by simp
qed

section \<open>The jobs of a pass\<close>

text \<open>A job whose entry is in the manifest: the pipeline answered with the body its file holds.\<close>

definition rendered :: "('d, 's) renderer \<Rightarrow> string \<Rightarrow> files \<Rightarrow> string \<Rightarrow> bool" where
  "rendered R outAbs fs path \<longleftrightarrow> (\<exists>u w u'. renderJob R path u = Some (w, u') \<and> recordedStatus w < 400
     \<and> fs (targetOf outAbs path) = Some (rw_Body w))"

definition entryOf :: "prerenderJob \<Rightarrow> PrerenderedEntry" where
  "entryOf job = \<lparr>pn_Route = jb_Route job, pn_Path = jb_Path job,
     pn_File = joinRel (relFileOf (jb_Path job)) ''index.html'', pn_Protected = jb_Protected job\<rparr>"

lemma runOne_cases:
  assumes "runOnePrerenderJob R dk outAbs job fs u = Some (r, fs', u')"
  shows "(\<exists>e. r = Inl e \<and> fs' = fs \<and> pf_Path e = jb_Path job \<and> 400 \<le> pf_Status e)
    \<or> (r = Inr (entryOf job) \<and> (\<exists>w. renderJob R (jb_Path job) u = Some (w, u') \<and> recordedStatus w < 400
         \<and> fs' = fs(targetOf outAbs (jb_Path job) \<mapsto> rw_Body w)))"
  using assms unfolding runOnePrerenderJob_def
  by (auto simp: Let_def writeFile_def entryOf_def split: option.splits if_splits prod.splits)

lemma runJobs_facts:
  "runJobs R dk outAbs jobs fs u = Some (es, errs, fs', u') \<Longrightarrow> distinct (map (\<lambda>j. targetOf outAbs (jb_Path j)) jobs) \<Longrightarrow>
     (\<forall>e \<in> set es. \<exists>job \<in> set jobs. e = entryOf job \<and> rendered R outAbs fs' (jb_Path job))
     \<and> (\<forall>p. p \<notin> (\<lambda>j. targetOf outAbs (jb_Path j)) ` set jobs \<longrightarrow> fs' p = fs p)
     \<and> distinct (map pn_Path es)
     \<and> (\<forall>job \<in> set jobs. entryOf job \<in> set es \<or> jb_Path job \<in> pf_Path ` set errs)
     \<and> (\<forall>e \<in> set errs. 400 \<le> pf_Status e)"
proof (induction R dk outAbs jobs fs u arbitrary: es errs fs' u' rule: runJobs.induct)
  case (2 R dk outAbs job jobs fs u)
  then obtain r fs1 u1 es1 errs1 where one: "runOnePrerenderJob R dk outAbs job fs u = Some (r, fs1, u1)"
    and rest: "runJobs R dk outAbs jobs fs1 u1 = Some (es1, errs1, fs', u')"
    and res: "(es, errs) = (case r of Inl e \<Rightarrow> (es1, e # errs1) | Inr e \<Rightarrow> (e # es1, errs1))"
    by (auto split: option.splits sum.splits)
  have d: "distinct (map (\<lambda>j. targetOf outAbs (jb_Path j)) jobs)"
    "targetOf outAbs (jb_Path job) \<notin> (\<lambda>j. targetOf outAbs (jb_Path j)) ` set jobs" using "2.prems"(2) by auto
  have ih: "\<forall>e \<in> set es1. \<exists>job \<in> set jobs. e = entryOf job \<and> rendered R outAbs fs' (jb_Path job)"
    "\<forall>p. p \<notin> (\<lambda>j. targetOf outAbs (jb_Path j)) ` set jobs \<longrightarrow> fs' p = fs1 p"
    "distinct (map pn_Path es1)" "\<forall>job \<in> set jobs. entryOf job \<in> set es1 \<or> jb_Path job \<in> pf_Path ` set errs1"
    "\<forall>e \<in> set errs1. 400 \<le> pf_Status e"
    using "2.IH"[OF one refl refl rest d(1)] by blast+
  from runOne_cases[OF one] show ?case
  proof
    assume "\<exists>e. r = Inl e \<and> fs1 = fs \<and> pf_Path e = jb_Path job \<and> 400 \<le> pf_Status e"
    then obtain e where "r = Inl e" "fs1 = fs" "pf_Path e = jb_Path job" "400 \<le> pf_Status e" by blast
    then show ?case using ih res by auto
  next
    assume "r = Inr (entryOf job) \<and> (\<exists>w. renderJob R (jb_Path job) u = Some (w, u1) \<and> recordedStatus w < 400
         \<and> fs1 = fs(targetOf outAbs (jb_Path job) \<mapsto> rw_Body w))"
    then obtain w where w: "r = Inr (entryOf job)" "renderJob R (jb_Path job) u = Some (w, u1)" "recordedStatus w < 400"
      "fs1 = fs(targetOf outAbs (jb_Path job) \<mapsto> rw_Body w)" by blast
    have "fs' (targetOf outAbs (jb_Path job)) = Some (rw_Body w)" using ih(2) d(2) w(4) by simp
    then have ren: "rendered R outAbs fs' (jb_Path job)" using w unfolding rendered_def by blast
    have es: "es = entryOf job # es1" "errs = errs1" using res w(1) by auto
    have "jb_Path job \<notin> set (map pn_Path es1)"
    proof
      assume "jb_Path job \<in> set (map pn_Path es1)"
      then obtain e j where "e \<in> set es1" "pn_Path e = jb_Path job" "j \<in> set jobs" "e = entryOf j" using ih(1) by force
      then have "jb_Path j = jb_Path job" by (simp add: entryOf_def)
      then show False using d(2) \<open>j \<in> set jobs\<close> by (metis image_eqI)
    qed
    then show ?case using ih es ren w(4) by (auto simp: entryOf_def)
  qed
qed simp

section \<open>Serving what was prerendered\<close>

definition served :: "PrerenderedEntry \<Rightarrow> prerenderEntry" where
  "served e = \<lparr>pe_Path = pn_Path e, pe_File = pn_File e, pe_Protected = pn_Protected e\<rparr>"

lemma served_simps [simp]: "pe_Path (served e) = pn_Path e" "pe_File (served e) = pn_File e" "pe_Protected (served e) = pn_Protected e"
  by (simp_all add: served_def)

lemma entries_lookup:
  "distinct (map pn_Path es) \<Longrightarrow> e \<in> set es \<Longrightarrow> foldl (\<lambda>m e. m(pe_Path e \<mapsto> e)) m (map served es) (pn_Path e) = Some (served e)"
proof (induction es arbitrary: m)
  case (Cons a es)
  have keep: "foldl (\<lambda>m e. m(pe_Path e \<mapsto> e)) m' (map served es) p = m' p" if "p \<notin> pn_Path ` set es" for m' p
    using that by (induction es arbitrary: m') auto
  show ?case
  proof (cases "e = a")
    case True
    have "pn_Path a \<notin> pn_Path ` set es" using Cons.prems(1) by simp
    from keep[OF this, of "m(pn_Path a \<mapsto> served a)"] show ?thesis
      unfolding True list.map foldl.simps served_simps fun_upd_same .
  next
    case False
    then show ?thesis using Cons by simp
  qed
qed simp

definition gateAllows :: "(Request \<Rightarrow> bool) option \<Rightarrow> bool \<Rightarrow> Request \<Rightarrow> bool" where
  "gateAllows auth protected r = (protected \<longrightarrow> (case auth of None \<Rightarrow> False | Some gate \<Rightarrow> gate r))"

text \<open>What the manifest promises for one entry: a request for its path that the gate lets through is answered with the
  body of a successful response of the pipeline for that path; one that the gate holds back is left to the pipeline.\<close>

definition servesEntry :: "('d, 's) renderer \<Rightarrow> host \<Rightarrow> prerenderTable \<Rightarrow> PrerenderedEntry \<Rightarrow> bool" where
  "servesEntry R H table e \<longleftrightarrow> (\<exists>u w u'. renderJob R (pn_Path e) u = Some (w, u') \<and> recordedStatus w < 400 \<and>
     (\<forall>r auth. rq_Method r = ''GET'' \<and> u_Path (rq_URL r) = pn_Path e \<longrightarrow>
        (if gateAllows auth (pn_Protected e) r
         then rw_Body (fst (servePrerendered H (Some table) auth r newRW)) = rw_Body w \<and> snd (servePrerendered H (Some table) auth r newRW)
         else servePrerendered H (Some table) auth r newRW = (newRW, False))))"

lemma serve_file:
  assumes "pt_entries table (u_Path (rq_URL r)) = Some (served e)" "ho_read H (ho_join H (pt_root table) (pn_File e)) = Some body"
    "rq_Method r = ''GET''"
  shows "if gateAllows auth (pn_Protected e) r
    then rw_Body (fst (servePrerendered H (Some table) auth r newRW)) = body \<and> snd (servePrerendered H (Some table) auth r newRW)
    else servePrerendered H (Some table) auth r newRW = (newRW, False)"
proof (cases "gateAllows auth (pn_Protected e) r")
  case True
  then have g: "\<not> (pn_Protected e \<and> \<not> (case auth of None \<Rightarrow> False | Some gate \<Rightarrow> gate r))" by (simp add: gateAllows_def)
  show ?thesis using True g assms
    by (simp add: servePrerendered_def Let_def rwWrite_def rwWriteHeader_def rwSet_def newRW_def)
next
  case False
  then have g: "pn_Protected e \<and> \<not> (case auth of None \<Rightarrow> False | Some gate \<Rightarrow> gate r)" by (simp add: gateAllows_def)
  show ?thesis using False g assms by (simp add: servePrerendered_def)
qed

lemma Prerender_Some:
  assumes "Prerender R dk en quote initErr root opts fs u = Some ((Some res, err), fs', u')" "op_ReportPath opts = []"
  defines "out \<equiv> joinAbs root (if op_OutDir opts = [] then DefaultPrerenderOutDir else op_OutDir opts)"
  obtains jobs es errs fs1 fs2 body where
    "planPrerenderJobs quote (Routes (sv_tree (rn_server R))) (op_Entries opts) = Inr jobs"
    "runJobs R dk out jobs fs1 u = Some (es, errs, fs2, u')" "px_Entries res = sliceStable (\<lambda>a b. pn_Path a < pn_Path b) es"
    "px_Errors res = sliceStable (\<lambda>a b. pf_Path a < pf_Path b) errs"
    "en_manifest en (px_Entries res) = Inr body" "fs' = fs2(joinAbs out PrerenderManifestFilename \<mapsto> body @ [CHR 0x0A])"
    "err = (if 0 \<le> op_Tolerate opts \<and> op_Tolerate opts < int (length errs) then Some (PrerenderErrors (px_Errors res)) else None)"
  using assms(1,2) unfolding Prerender_def out_def writePrerenderManifest_def writeFile_def
  by (auto simp: Let_def split: if_splits option.splits sum.splits prod.splits intro: that)



section \<open>A concrete pass\<close>

definition staticSeg :: "string \<Rightarrow> Segment" where
  "staticSeg v = \<lparr>seg_kind = SegmentStatic, seg_name = [], seg_value = v, seg_matcher = []\<rparr>"

definition prerenderServer :: "(unit, nat) Server" where
  "prerenderServer = demoServer
     [demoRoute ''/c'' [staticSeg ''c''] (demoHandlers\<lparr>hd_Options := (hd_Options demoHandlers)\<lparr>po_Prerender := True, po_PrerenderProtected := True\<rparr>\<rparr>),
      demoRoute ''/d'' [staticSeg ''d''] demoHandlers] (DefaultHooks (lb_statusText demoLib) (\<lambda>_ s. (Done (Inr []), s)))"

definition demoRenderer :: "(unit, nat) renderer" where
  "demoRenderer = \<lparr>rn_lib = demoLib, rn_io = (\<lambda>_. demoIo), rn_server = prerenderServer, rn_newRequest = (\<lambda>p. Some (demoRequest ''GET'' p))\<rparr>"

definition demoDisk :: disk where
  "demoDisk = \<lparr>dk_removeAll = (\<lambda>_. None), dk_mkdirAll = (\<lambda>_. None), dk_writeFile = (\<lambda>_. None)\<rparr>"

definition demoEntries :: "PrerenderedEntry list" where
  "demoEntries = [\<lparr>pn_Route = ''/c'', pn_Path = ''/c'', pn_File = ''c/index.html'', pn_Protected = True\<rparr>]"

definition demoEncoder :: encoder where
  "demoEncoder = \<lparr>en_manifest = (\<lambda>es. if es = demoEntries then Inr ''m'' else Inl ''other''), en_report = (\<lambda>_. Inr [])\<rparr>"

definition demoPreOptions :: PrerenderOptions where
  "demoPreOptions = \<lparr>op_OutDir = [], op_Tolerate = 0, op_ReportPath = [], op_Entries = (\<lambda>_. [])\<rparr>"

text \<open>The load of this page redirects. The pass stores the response as a page, and it is then served with status 200.\<close>

definition redirectPage :: "(unit, nat) handlers" where
  "redirectPage = demoHandlers\<lparr>hd_Load := Some (\<lambda>c. failR (RedirectErr 303 ''/d'' False) c),
     hd_Options := (hd_Options demoHandlers)\<lparr>po_Prerender := True, po_PrerenderProtected := True\<rparr>\<rparr>"

definition redirectRenderer :: "(unit, nat) renderer" where
  "redirectRenderer = demoRenderer\<lparr>rn_server := demoServer [demoRoute ''/c'' [staticSeg ''c''] redirectPage]
     (DefaultHooks (lb_statusText demoLib) (\<lambda>_ s. (Done (Inr []), s)))\<rparr>"

definition demoPass :: "((PrerenderResult option \<times> preError option) \<times> files \<times> nat) option" where
  "demoPass = Prerender redirectRenderer demoDisk demoEncoder (\<lambda>s. s) None ''/app'' demoPreOptions Map.empty 0"

lemma redirect_status: "case renderJob redirectRenderer ''/c'' 0 of Some (w, u) \<Rightarrow> recordedStatus w = 303 | None \<Rightarrow> False"
  by code_simp

lemma demo_plan:
  "planPrerenderJobs (\<lambda>s. s) (Routes (sv_tree (rn_server redirectRenderer))) (op_Entries demoPreOptions)
    = Inr [\<lparr>jb_Path = ''/c'', jb_Route = ''/c'', jb_Protected = True\<rparr>]"
  by code_simp

lemma redirect_stored: "case demoPass of Some ((Some res, None), fs, u) \<Rightarrow> px_Entries res = demoEntries | _ \<Rightarrow> False"
  by code_simp


definition hostOf :: "files \<Rightarrow> host" where
  "hostOf fs = \<lparr>ho_abs = Inr, ho_join = joinAbs, ho_stat = (\<lambda>_. None), ho_open = (\<lambda>_. False), ho_read = fs,
     ho_serve = (\<lambda>_ _ _ w. w), ho_parseFloat = (\<lambda>_. None), ho_lower = (\<lambda>r. r), ho_mime = (\<lambda>_. [])\<rparr>"


lemma prerendered_status: "servePrerendered H table auth r newRW = (w, True) \<Longrightarrow> recordedStatus w = 200"
  by (auto simp: servePrerendered_def recordedStatus_def newRW_def rwSet_def rwWriteHeader_def rwWrite_def Let_def
      split: option.splits if_splits)

section \<open>Files of a pass\<close>

text \<open>Without parent segments the file of a page lies below the output directory.\<close>

lemma target_inside:
  assumes "''..'' \<notin> set (splitByte CHR ''/'' (relFileOf path))"
  shows "\<exists>q. targetOf out path = ''/'' @ joinStr ''/'' (foldl cleanStep [] (splitByte CHR ''/'' out) @ q @ [''index.html''])"
proof -
  let ?segs = "splitByte CHR ''/'' (relFileOf path)"
  have "targetOf out path = ''/'' @ joinStr ''/'' (foldl cleanStep [] (splitByte CHR ''/'' out)
      @ filter (\<lambda>s. s \<noteq> [] \<and> s \<noteq> ''.'') ?segs @ [''index.html''])"
    using foldl_cleanStep[OF assms] by (simp add: targetOf_def joinAbs_segs splitByte_app cleanStep_def)
  then show ?thesis by blast
qed

lemma pass_leaves_directory: "targetOf ''/site/out'' ''/post/../../x'' = ''/site/x/index.html''"
  by code_simp

lemma index_pages_merge: "targetOf out ''/'' = targetOf out ''/index''"
  by (simp add: targetOf_def relFileOf_def trimLeft_def trimRight_def)

section \<open>The tolerance\<close>

lemma foldl_digits: "list_all isDigitByte ds \<Longrightarrow> foldl digitStep (Some 0) ds = Some (of_nat (decVal ds))"
proof (induction ds rule: rev_induct)
  case Nil
  then show ?case by (simp add: decVal_def)
next
  case (snoc d ds)
  then show ?case by (simp add: decVal_snoc digitStep_def isDigitByte_def digitVal_def mult.commute)
qed

text \<open>Every 64-bit integer is parsed back from its decimal form; a larger number wraps around.\<close>

lemma strconvAtoi_formatInt: "- (2 ^ 63) \<le> m \<Longrightarrow> m < 2 ^ 63 \<Longrightarrow> strconvAtoi (formatInt m) = Some m"
proof -
  assume m: "- (2 ^ 63) \<le> m" "m < 2 ^ 63"
  have fit: "sint (word_of_int m :: 64 word) = m"
    using m unfolding sint_sbintrunc' by (intro signed_take_bit_int_eq_self) simp_all
  have d: "list_all isDigitByte (decDigits n)" "decDigits n \<noteq> []" for n by (rule decDigits_digits)+
  note fd = foldl_digits[OF d(1), unfolded decVal_decDigits]
  show ?thesis
  proof (cases "m < 0")
    case True
    then have "strconvAtoi (formatInt m) = Some (sint (of_nat (nat (- m)) * (- 1) :: 64 word))"
      using d(2)[of "nat (- m)"] by (simp add: strconvAtoi_def formatInt_def fd hasPrefix_def)
    moreover have "(of_nat (nat (- m)) * (- 1) :: 64 word) = word_of_int m"
      using True by (simp add: of_nat_nat)
    ultimately show ?thesis using fit by metis
  next
    case False
    obtain c s where cs: "decDigits (nat m) = c # s" using d(2)[of "nat m"] by (cases "decDigits (nat m)") auto
    then have "isDigitByte c" using d(1)[of "nat m"] by simp
    then have np: "\<not> hasPrefix (decDigits (nat m)) ''-''" "\<not> hasPrefix (decDigits (nat m)) ''+''"
      by (auto simp: cs hasPrefix_def isDigitByte_def inRange_def byteVal_def)
    have "strconvAtoi (formatInt m) = Some (sint (of_nat (nat m) :: 64 word))"
      using False np d(2)[of "nat m"] by (simp add: strconvAtoi_def formatInt_def fd)
    moreover have "(of_nat (nat m) :: 64 word) = word_of_int m" using False by (simp add: of_nat_nat)
    ultimately show ?thesis using fit by metis
  qed
qed

lemma tolerance_wraps: "strconvAtoi ''18446744073709551615'' = Some (- 1)"
  by code_simp

end
