(* ===== verification/Spec2Isabelle.thy ===== *)
theory Spec2Isabelle
  imports LexerProps SvelteStyle Link KitCsp PayloadJson ServerAssets ServerStatic PipelinePaths ServerInit ParserComplete Fallback MemoryStore CookieSessionProps RouteScanProps CsrfProps PrerenderProps
begin

text \<open>
  \<^bold>\<open>What this development verifies.\<close> sveltego is a web framework in Go: routes are directories with
  Svelte templates and Go handlers, a build step compiles them, and a server answers requests by matching
  the path, loading data, rendering on the server and sending a hydration payload. The development models
  the parts of that program that carry its own logic, definition by definition in the order of the source,
  and proves what makes them correct. Paths below are relative to \<^verbatim>\<open>src/packages/sveltego\<close> unless
  they name another package.

  \<^bold>\<open>Parts and how they interact.\<close>

  \<^item> Routing. \<^verbatim>\<open>internal/routescan\<close> parses directory names to segments (theory \<open>Segments\<close>) and
    walks the routes directory to find routes, layouts, error boundaries, matchers and conflicts
    (\<open>RouteScan\<close>, properties in \<open>RouteScanProps\<close>); \<^verbatim>\<open>runtime/router\<close> builds a radix tree from routes (\<open>RouterTree\<close>, facts in \<open>RouterFacts\<close>) and
    matches a path by backtracking with a capture stack (\<open>RouterMatch\<close>). \<open>Params\<close> holds the built-in
    matchers. \<open>RouterMatchFacts\<close> relates the walk to a pure enumeration of candidates and to a
    declarative judgement, \<open>RouterOrder\<close> relates the enumeration to the documented precedence, and
    \<open>RouterProps\<close> states the properties of \<^verbatim>\<open>NewTree\<close> and \<^verbatim>\<open>Match\<close>. \<open>Link\<close> builds URLs from
    patterns and shows that the router finds the route again.
  \<^item> Templates. \<open>Lexer\<close> is \<^verbatim>\<open>internal/lexer\<close> (facts and properties in \<open>LexerFacts\<close>,
    \<open>LexerProps\<close>); \<open>ParserAst\<close> is \<^verbatim>\<open>internal/ast\<close> with the parser's helpers, \<open>Parser\<close> is
    \<^verbatim>\<open>internal/parser\<close>; \<open>ParserGrammar\<close> gives the grammar and the calculus, \<open>ParserProps\<close> and
    \<open>ParserComplete\<close> prove that the parser returns and accepts exactly the grammar.
  \<^item> Rendering. \<open>Escape\<close> holds the HTML escapers of \<^verbatim>\<open>render\<close> and of the Svelte runtime,
    \<open>SvelteRuntime\<close>, \<open>SvelteFacts\<close> and \<open>SvelteStyle\<close> the values, attributes, classes, styles, props and
    slots of \<^verbatim>\<open>runtime/svelte/server\<close>. \<open>PayloadJson\<close> is the hydration payload with its splicing
    writer and script escapers. \<open>Fallback\<close> is the cache, client and registry that render a route in a
    helper process at request time, \<^verbatim>\<open>runtime/svelte/fallback\<close>. \<open>CsrfInject\<close> and \<open>CsrfLower\<close> put the
    CSRF field into the forms of such routes, on the rendered HTML and in the Svelte source
    (\<open>CsrfProps\<close>).
  \<^item> Requests. \<open>KitOptions\<close>, \<open>KitHttp\<close>, \<open>KitCsp\<close> and \<open>KitMisc\<close> are the public types of
    \<^verbatim>\<open>exports/kit\<close>: page options and their cascade, cookies, responses, errors and events, the content
    security policy, schedules, robots, sitemaps. \<open>PipelineBase\<close>, \<open>Pipeline\<close> and \<open>PipelineHandle\<close> are the
    request pipeline of \<^verbatim>\<open>server\<close>: CSRF and actions, resolve, load, render, stream, errors, hooks.
    \<open>PipelineProps\<close> and \<open>PipelinePaths\<close> prove its properties. \<open>ServerAssets\<close> and \<open>ServerStatic\<close> hold the
    document shell, asset tags, static files and prerendered pages, \<open>Prerender\<close> and \<open>PrerenderProps\<close> the
    pass that renders pages ahead of time, \<open>ServerInit\<close> the server object and the
    start-up protocol between goroutines.
  \<^item> Companion packages. \<open>CookieSession\<close> and \<open>CookieSessionProps\<close> are
    \<^verbatim>\<open>packages/cookiesession\<close>: encrypted sessions in cookies. \<open>MemoryStore\<close> is the storage contract of
    \<^verbatim>\<open>packages/auth\<close> and its in-memory implementation.
  \<^item> Foundations. \<open>Prelude\<close> (slices with their bounds check, the stable sort, fact collections),
    \<open>GoStrings\<close>, \<open>GoText\<close> and \<open>GoCodec\<close> (the standard-library functions the sources call) and
    \<open>Simulation\<close> (operation sequences and the simulation interface).

  \<^bold>\<open>How code becomes definitions.\<close> A struct is a record, an enumeration or a tagged value a datatype,
  a string or byte slice a list of 8-bit characters, a map a partial function or, where iteration order can
  matter, an association list whose order stands for the unspecified one. An operation that changes its
  receiver takes and returns the record. An \<^verbatim>\<open>(T, error)\<close> result is a sum with the error on the left. A
  slice expression that can panic is an option, and a panic of user code is an outcome of its own that the
  recovery boundary of the pipeline inspects. User code (loads, actions, hooks, templates) is an argument: a
  function on the request state that may return, fail or panic. Code outside the repository or of the
  operating system (the JSON encoder, AES-GCM, SHA-256, the HTTP transport, the file system, floating-point
  formatting, Unicode tables, the clock, the random source) is an argument too, and a law a theorem needs of
  it is a named hypothesis with a witness that satisfies it. Operations under a lock are single steps;
  start-up, where the interleaving matters, is a step relation over atomic actions.

  \<^bold>\<open>Interfaces.\<close> Each contract between components is a locale interpreted on the model:
  \<open>byte_escaper\<close> (\<open>Escape\<close>), \<open>strict_weak_order\<close> for the less functions of the stable sort
  (\<open>Prelude\<close>, interpreted in \<open>RouterFacts\<close>), \<open>node_pass\<close> for the passes over the built tree
  (\<open>RouterFacts\<close>), \<open>capture_stack\<close> (\<open>RouterMatchFacts\<close>), \<open>option_field\<close> for the cascade of one
  page option (\<open>KitOptions\<close>), \<open>child_parser\<close> and \<open>child_acceptor\<close> (\<open>ParserProps\<close>,
  \<open>ParserComplete\<close>), \<open>simulation\<close> (\<open>Simulation\<close>, interpreted for the render cache and the memory
  store) \<open>timed_cache\<close>, what the fallback client relies on (\<open>Fallback\<close>), and \<open>hidden_field\<close>, the
  element a CSRF pass inserts (\<open>CsrfProps\<close>).

  \<^bold>\<open>What is proved.\<close>

  \<^item> Routing: a match is a route of the tree whose segments match the decoded path under declarative rules,
    it is found exactly when one exists, it is the first in the documented precedence, failed branches leave no
    captures behind, building fails exactly on repeated paths, printing and parsing segments are inverse, and a
    link leads back to its route. A scan finds every route directory and gives it the layouts and the error
    boundary its ancestors define, and a scan without fatal diagnostics yields routes from which the router
    builds a tree with no matcher missing.
  \<^item> Templates: tokens tile the source and carry the right line and column, lexing and parsing return, and
    the parser reports no error exactly when the tokens derive from the returned tree.
  \<^item> Rendering: escaped output cannot leave its context and decodes to the input, the spliced payload equals
    the plainly encoded one and cannot end its script element, the render cache refines a bounded recency list,
    after the CSRF pass every POST form of a well-formed page has the field and a second run changes nothing,
    and every answer of the fallback client is justified by the helper process within the lifetime of the
    entry.
  \<^item> Requests: no action runs without a valid CSRF token, panics of user code do not leave the request,
    slash redirects end after one step, raw and decoded parameters agree, options cascade, the policy template
    equals the sorted policy, a static path stays inside the root, preload hints are the reachable chunks, a
    request reaches the pipeline only after start-up succeeded, and a prerendered page is served with the body
    the pipeline produced for its path.
  \<^item> Companions: what a session stores comes back with the next request, also in chunks and after key
    rotation, a destroyed session does not, nothing unsealed decrypts; the memory store returns what the storage
    contract promises.
  \<^item> Behaviour that differs from what comments or callers expect is stated as lemmas beside the component and
    listed as findings: a streamed-JSON escaper that is the identity, lost template branches, a template form the
    lexer never finishes, routes silently replaced in the tree, paths decoded twice, session writes that are lost,
    a chunk count that the client controls, an email index that goes stale, a misspelt directory name that is only
    a warning and moves its route to the URL of its parent, forms that a second CSRF pass changes, a
    redirect that is prerendered as a page.

  \<^bold>\<open>Bounds and fuel.\<close> Loops with a decreasing measure are total functions. The lexer can stand still on
  a \<^verbatim>\<open><!\<close> that opens no comment, so its driver takes fuel: on sources without that form \<open>2n + 2\<close> calls
  reach the end of file, where \<open>n\<close> is the length, because a weight of twice the remaining length plus a rank
  of the mode falls with every call. The parser inherits the bound: its loops return with fuel above \<open>2n + 1\<close>
  since every round consumes a token. Route ids and key ids are 32-bit words; \<^verbatim>\<open>strconv.Atoi\<close> and
  \<^verbatim>\<open>ParseUint\<close> check their ranges; other counts are lengths of values in memory and are natural
  numbers.

  \<^bold>\<open>Not modelled.\<close> The code generator (\<^verbatim>\<open>internal/codegen\<close> except the page-option scan, the split of diagnostics and the CSRF pass on sources) prints Go and
  TypeScript text whose meaning is given by those compilers, over the Go parser and type checker; the
  translation of compiled Svelte to Go (\<^verbatim>\<open>svelte_js2go\<close>) is of that kind, and the runtime its output calls
  is modelled. \<^verbatim>\<open>internal/vite\<close> is JavaScript held in Go constants. The development server, the command
  line, the deployment adapters, the scaffolder and the editor tooling start processes, watch files and speak
  JSON-RPC. Image scaling works on pixels of the image packages. Streamed values are goroutines with channels, and
  form binding is reflection over user types: the pipeline takes their outcomes as arguments. SQL storage,
  password hashing, mail and SMS delivery are external services. Buffer pools, logging and locks inside a
  component are left out of the components that are modelled.
\<close>

end
